(* ===== verification/Go_Net.thy ===== *)
theory Go_Net
  imports Stowage_Prelude
begin

text \<open>
  The parts of Go's \<^verbatim>\<open>net/url\<close>, \<^verbatim>\<open>net/http\<close> and \<^verbatim>\<open>strconv\<close> packages the proxy calls: percent
  encoding, query strings, the choice of the escaped path of a URL, HTTP headers with their
  canonical keys, and number parsing. Inbound requests are records of the fields of
  \<^verbatim>\<open>http.Request\<close> the code reads. A request body is the bytes the peer delivers and the error
  that ends the stream (\<^term>\<open>None\<close> for end of file).
\<close>

section \<open>Percent encoding\<close>

definition hexU :: "nat \<Rightarrow> char" where
  "hexU n = ''0123456789ABCDEF'' ! n"

definition ishex :: "char \<Rightarrow> bool" where
  "ishex c \<longleftrightarrow> (let n = (of_char c :: nat) in
     (48 \<le> n \<and> n \<le> 57) \<or> (97 \<le> n \<and> n \<le> 102) \<or> (65 \<le> n \<and> n \<le> 70))"

definition unhex :: "char \<Rightarrow> nat" where
  "unhex c = (let n = (of_char c :: nat) in
     if 48 \<le> n \<and> n \<le> 57 then n - 48
     else if 97 \<le> n \<and> n \<le> 102 then n - 97 + 10
     else if 65 \<le> n \<and> n \<le> 70 then n - 65 + 10 else 0)"

definition pct :: "char \<Rightarrow> string" where
  "pct c = (let n = (of_char c :: nat) in [CHR ''%'', hexU (n div 16), hexU (n mod 16)])"

text \<open>\<^verbatim>\<open>url.unescape\<close>: \<open>qmode\<close> is the query mode, where \<^verbatim>\<open>+\<close> stands for a space.\<close>

fun unescape :: "bool \<Rightarrow> string \<Rightarrow> string option" where
  "unescape qmode [] = Some []"
| "unescape qmode (c # cs) =
     (if c = CHR ''%'' then
        (case cs of
           a # b # rest \<Rightarrow>
             (if ishex a \<and> ishex b
              then map_option ((#) (char_of (16 * unhex a + unhex b))) (unescape qmode rest)
              else None)
         | _ \<Rightarrow> None)
      else if qmode \<and> c = CHR ''+'' then map_option ((#) (CHR '' '')) (unescape qmode cs)
      else map_option ((#) c) (unescape qmode cs))"

definition is_alnum :: "char \<Rightarrow> bool" where
  "is_alnum c \<longleftrightarrow> (let n = (of_char c :: nat) in
     (65 \<le> n \<and> n \<le> 90) \<or> (97 \<le> n \<and> n \<le> 122) \<or> (48 \<le> n \<and> n \<le> 57))"

definition is_unreserved :: "char \<Rightarrow> bool" where
  "is_unreserved c \<longleftrightarrow> is_alnum c \<or> c \<in> set ''-_.~''"

text \<open>\<^verbatim>\<open>url.shouldEscape\<close> in the modes \<^verbatim>\<open>encodePath\<close> and \<^verbatim>\<open>encodeQueryComponent\<close>.\<close>

definition shouldEscapePath :: "char \<Rightarrow> bool" where
  "shouldEscapePath c \<longleftrightarrow> \<not> (is_unreserved c \<or> c \<in> set ''$&+,/:;=@'')"

definition shouldEscapeQuery :: "char \<Rightarrow> bool" where
  "shouldEscapeQuery c \<longleftrightarrow> \<not> is_unreserved c"

definition PathEscape :: "string \<Rightarrow> string" where
  "PathEscape s = concat (map (\<lambda>c. if shouldEscapePath c then pct c else [c]) s)"

definition QueryEscape :: "string \<Rightarrow> string" where
  "QueryEscape s = concat (map (\<lambda>c. if c = CHR '' '' then ''+''
     else if shouldEscapeQuery c then pct c else [c]) s)"

definition QueryUnescape :: "string \<Rightarrow> string option" where
  "QueryUnescape s = unescape True s"

section \<open>Query strings\<close>

type_synonym url_values = "(string \<times> string list) list"

fun values_append :: "string \<Rightarrow> string \<Rightarrow> url_values \<Rightarrow> url_values" where
  "values_append k v [] = [(k, [v])]"
| "values_append k v ((k', vs) # m) =
     (if k' = k then (k', vs @ [v]) # m else (k', vs) # values_append k v m)"

definition parse_pair :: "string \<Rightarrow> url_values \<times> bool \<Rightarrow> url_values \<times> bool" where
  "parse_pair piece st = (case st of (m, err) \<Rightarrow>
     if CHR '';'' \<in> set piece then (m, True)
     else if piece = [] then (m, err)
     else (case Cut piece (CHR ''='') of (k, v) \<Rightarrow>
       (case QueryUnescape k of None \<Rightarrow> (m, True)
        | Some k' \<Rightarrow> (case QueryUnescape v of None \<Rightarrow> (m, True)
          | Some v' \<Rightarrow> (values_append k' v' m, err)))))"

text \<open>\<^verbatim>\<open>url.ParseQuery\<close>: the pairs that parse, and whether some piece did not.\<close>

definition ParseQuery :: "string \<Rightarrow> url_values \<times> bool" where
  "ParseQuery raw = fold parse_pair (Split raw (CHR ''&'')) ([], False)"

definition values_Get :: "url_values \<Rightarrow> string \<Rightarrow> string" where
  "values_Get q k = (case map_of q k of Some (v # _) \<Rightarrow> v | _ \<Rightarrow> [])"

definition values_Has :: "url_values \<Rightarrow> string \<Rightarrow> bool" where
  "values_Has q k \<longleftrightarrow> map_of q k \<noteq> None"

definition values_Del :: "string \<Rightarrow> url_values \<Rightarrow> url_values" where
  "values_Del k q = AList.delete k q"

definition values_Set :: "string \<Rightarrow> string \<Rightarrow> url_values \<Rightarrow> url_values" where
  "values_Set k v q = AList.update k [v] q"

definition encode_key :: "url_values \<Rightarrow> string \<Rightarrow> string list" where
  "encode_key q k = map (\<lambda>v. QueryEscape k @ ''='' @ QueryEscape v) (lookup_or [] q k)"

text \<open>\<^verbatim>\<open>url.Values.Encode\<close>: keys in byte order, the values of a key in their order.\<close>

definition values_Encode :: "url_values \<Rightarrow> string" where
  "values_Encode q = Join (concat (map (encode_key q) (sort (map fst q)))) ''&''"

section \<open>URLs\<close>

record url =
  Scheme :: string
  UHost :: string
  Path :: string
  RawPath :: string
  RawQuery :: string

definition validEncodedPath :: "string \<Rightarrow> bool" where
  "validEncodedPath s \<longleftrightarrow>
     list_all (\<lambda>c. c \<in> set ''!$&'' \<or> (of_char c :: nat) = 39 \<or> c \<in> set ''()*+,;=:@[]%'' \<or> \<not> shouldEscapePath c) s"

text \<open>\<^verbatim>\<open>URL.EscapedPath\<close>: \<^verbatim>\<open>RawPath\<close> when it is a valid encoding of \<^verbatim>\<open>Path\<close>.\<close>

definition EscapedPath :: "url \<Rightarrow> string" where
  "EscapedPath u =
     (if RawPath u \<noteq> [] \<and> validEncodedPath (RawPath u) \<and> unescape False (RawPath u) = Some (Path u)
      then RawPath u
      else if Path u = ''*'' then ''*'' else PathEscape (Path u))"

definition Query :: "url \<Rightarrow> url_values" where
  "Query u = fst (ParseQuery (RawQuery u))"

section \<open>Headers\<close>

type_synonym header = "(string \<times> string list) list"

definition validHeaderFieldByte :: "char \<Rightarrow> bool" where
  "validHeaderFieldByte c \<longleftrightarrow> is_alnum c \<or> c \<in> set ''!#$%&*+-.^_`|~'' \<or> (of_char c :: nat) = 39"

fun canonicalize :: "bool \<Rightarrow> string \<Rightarrow> string" where
  "canonicalize up [] = []"
| "canonicalize up (c # cs) =
     (if up then upper_char c else lower_char c) # canonicalize (c = CHR ''-'') cs"

definition CanonicalHeaderKey :: "string \<Rightarrow> string" where
  "CanonicalHeaderKey s = (if list_all validHeaderFieldByte s then canonicalize True s else s)"

definition header_Values :: "header \<Rightarrow> string \<Rightarrow> string list" where
  "header_Values h k = lookup_or [] h (CanonicalHeaderKey k)"

definition header_Get :: "header \<Rightarrow> string \<Rightarrow> string" where
  "header_Get h k = (case header_Values h k of [] \<Rightarrow> [] | v # _ \<Rightarrow> v)"

definition header_Set :: "string \<Rightarrow> string \<Rightarrow> header \<Rightarrow> header" where
  "header_Set k v h = AList.update (CanonicalHeaderKey k) [v] h"

definition header_Add :: "string \<Rightarrow> string \<Rightarrow> header \<Rightarrow> header" where
  "header_Add k v h = AList.update (CanonicalHeaderKey k) (header_Values h k @ [v]) h"

definition header_Del :: "string \<Rightarrow> header \<Rightarrow> header" where
  "header_Del k h = AList.delete (CanonicalHeaderKey k) h"

section \<open>Requests\<close>

text \<open>A body stream: the bytes it yields and the error that ends it, if it does not end in EOF.\<close>

type_synonym stream = "string \<times> string option"

record request =
  Method :: string
  URL :: url
  Host :: string
  Header :: header
  ContentLength :: int
  Body :: stream
  RemoteAddr :: string
  TLS :: bool

section \<open>Numbers\<close>

fun digits_val :: "nat \<Rightarrow> nat \<Rightarrow> string \<Rightarrow> nat option" where
  "digits_val base acc [] = Some acc"
| "digits_val base acc (c # cs) =
     (if ishex c \<and> unhex c < base then digits_val base (base * acc + unhex c) cs else None)"

text \<open>\<^verbatim>\<open>strconv.ParseInt(s, base, 64)\<close> for bases 10 and 16, and the decimal \<^verbatim>\<open>FormatInt\<close>.\<close>

definition ParseInt :: "nat \<Rightarrow> string \<Rightarrow> int option" where
  "ParseInt base s =
     (let (neg, ds) = (case s of c # cs \<Rightarrow>
            if c = CHR ''+'' then (False, cs) else if c = CHR ''-'' then (True, cs) else (False, s)
          | [] \<Rightarrow> (False, s))
      in if ds = [] then None
         else (case digits_val base 0 ds of None \<Rightarrow> None
           | Some n \<Rightarrow> (let v = (if neg then - int n else int n) in if int64_range v then Some v else None)))"

fun show_nat :: "nat \<Rightarrow> nat \<Rightarrow> string" where
  "show_nat base n = (if base < 2 \<or> n < base then [hexU (n mod 16)]
     else show_nat base (n div base) @ [hexU ((n mod base) mod 16)])"

declare show_nat.simps [simp del]

definition FormatInt :: "int \<Rightarrow> string" where
  "FormatInt n = (if n < 0 then ''-'' @ show_nat 10 (nat (- n)) else show_nat 10 (nat n))"

section \<open>Lemmas\<close>

lemma hexU_cases: "n < 16 \<Longrightarrow> n \<in> {0, 1, 2, 3, 4, 5, 6, 7, 8, 9, 10, 11, 12, 13, 14, 15 :: nat}"
  by (simp only: insert_iff empty_iff) arith

lemma ishex_hexU [simp]: "n < 16 \<Longrightarrow> ishex (hexU n)"
  by (drule hexU_cases) (auto simp: hexU_def ishex_def)

lemma unhex_hexU [simp]: "n < 16 \<Longrightarrow> unhex (hexU n) = n"
  by (drule hexU_cases) (auto simp: hexU_def unhex_def)

lemma hexU_alnum [simp]: "n < 16 \<Longrightarrow> is_alnum (hexU n)"
  by (drule hexU_cases) (auto simp: hexU_def is_alnum_def)

lemma div16_of_char [simp]: "(of_char c :: nat) div 16 < 16"
  using nat_of_char_less_256 [of c] by (simp add: less_mult_imp_div_less)

lemma unescape_pct [simp]: "unescape qmode (pct c @ s) = map_option ((#) c) (unescape qmode s)"
proof -
  have "16 * (of_char c div 16) + of_char c mod 16 = (of_char c :: nat)"
    by simp
  then show ?thesis by (simp add: pct_def Let_def)
qed

text \<open>Decoding undoes any encoding that percent-encodes at least \<^verbatim>\<open>%\<close> (and \<^verbatim>\<open>+\<close> in a query).\<close>

lemma unescape_encode:
  assumes "\<And>c. keep c \<Longrightarrow> c \<noteq> CHR ''%'' \<and> (qmode \<longrightarrow> c \<noteq> CHR ''+'')"
  shows "unescape qmode (concat (map (\<lambda>c. if keep c then [c] else pct c) s)) = Some s"
  by (induction s) (use assms in auto)

lemma is_unreserved_safe [simp]:
  "\<not> is_unreserved (CHR ''%'')" "\<not> is_unreserved (CHR ''+'')" "\<not> is_unreserved (CHR ''&'')"
  "\<not> is_unreserved (CHR ''='')" "\<not> is_unreserved (CHR '';'')" "\<not> is_unreserved (CHR ''/'')"
  "\<not> is_unreserved (CHR 0x0A)"
  by (auto simp: is_unreserved_def is_alnum_def)

lemma QueryUnescape_QueryEscape [simp]: "QueryUnescape (QueryEscape s) = Some s"
  unfolding QueryUnescape_def QueryEscape_def
  by (induction s) (auto simp: shouldEscapeQuery_def)

lemma unescape_PathEscape: "unescape False (PathEscape s) = Some s"
proof -
  have "unescape False (concat (map (\<lambda>c. if \<not> shouldEscapePath c then [c] else pct c) s)) = Some s"
    by (rule unescape_encode) (auto simp: shouldEscapePath_def is_unreserved_def is_alnum_def)
  moreover have "(\<lambda>c. if \<not> shouldEscapePath c then [c] else pct c) = (\<lambda>c. if shouldEscapePath c then pct c else [c])"
    by auto
  ultimately show ?thesis by (simp add: PathEscape_def)
qed

lemma values_append_keys:
  "set (map fst (values_append k v m)) = insert k (set (map fst m))"
  by (induction k v m rule: values_append.induct) auto

lemma distinct_values_append:
  "distinct (map fst m) \<Longrightarrow> distinct (map fst (values_append k v m))"
proof (induction k v m rule: values_append.induct)
  case (2 k v k' vs m)
  then show ?case using values_append_keys [of k v m] by (auto simp: image_iff)
qed auto

lemma distinct_ParseQuery: "distinct (map fst (fst (ParseQuery raw)))"
proof -
  have "distinct (map fst (fst (fold parse_pair ps st)))" if "distinct (map fst (fst st))" for ps st
    using that
    by (induction ps arbitrary: st)
      (auto simp: parse_pair_def distinct_values_append split: prod.splits option.splits)
  then show ?thesis by (simp add: ParseQuery_def)
qed

lemma map_of_values_append:
  "map_of (values_append k v m) = (map_of m)(k \<mapsto> lookup_or [] m k @ [v])"
  by (induction k v m rule: values_append.induct) (auto simp: lookup_or_def fun_eq_iff)

lemma upper_lower_char: "lower_char (upper_char c) = lower_char c"
  by (auto simp: lower_char_def upper_char_def Let_def)

lemma ToLower_canonicalize [simp]: "ToLower (canonicalize up s) = ToLower s"
  by (induction s arbitrary: up) (auto simp: ToLower_def upper_lower_char)

lemma ToLower_CanonicalHeaderKey [simp]: "ToLower (CanonicalHeaderKey s) = ToLower s"
  by (simp add: CanonicalHeaderKey_def)

lemma header_Get_Set [simp]: "header_Get (header_Set k v h) k = v"
  by (simp add: header_Get_def header_Set_def header_Values_def lookup_or_def update_conv)

lemma header_Get_Set_other:
  "CanonicalHeaderKey k \<noteq> CanonicalHeaderKey k' \<Longrightarrow> header_Get (header_Set k v h) k' = header_Get h k'"
  by (simp add: header_Get_def header_Set_def header_Values_def lookup_or_def update_conv)

lemma header_Get_Del [simp]: "header_Get (header_Del k h) k = []"
  by (simp add: header_Get_def header_Del_def header_Values_def lookup_or_def delete_conv)

end
