(* ===== verification/Crypto_Hash.thy ===== *)
theory Crypto_Hash
  imports Go_Net "HOL-Library.Word"
begin

text \<open>
  The hash functions of Go's standard library the source calls, as executable definitions:
  \<^verbatim>\<open>crypto/sha256\<close> (FIPS 180-4), \<^verbatim>\<open>crypto/hmac\<close> over it (RFC 2104), \<^verbatim>\<open>hash/fnv\<close> (FNV-1a, 32 and
  64 bits) and \<^verbatim>\<open>encoding/hex\<close>. Words have their width, so addition wraps around as it does
  in the Go code.
\<close>

unbundle bit_operations_syntax

section \<open>SHA-256\<close>

type_synonym u32 = "32 word"

text \<open>The round constants of FIPS 180-4: the first 32 bits of the fractional parts of the cube roots of
  the first 64 primes, in decimal.\<close>

definition sha_K :: "u32 list" where
  "sha_K =
   [1116352408, 1899447441, 3049323471, 3921009573, 961987163, 1508970993, 2453635748, 2870763221,
    3624381080, 310598401, 607225278, 1426881987, 1925078388, 2162078206, 2614888103, 3248222580,
    3835390401, 4022224774, 264347078, 604807628, 770255983, 1249150122, 1555081692, 1996064986,
    2554220882, 2821834349, 2952996808, 3210313671, 3336571891, 3584528711, 113926993, 338241895,
    666307205, 773529912, 1294757372, 1396182291, 1695183700, 1986661051, 2177026350, 2456956037,
    2730485921, 2820302411, 3259730800, 3345764771, 3516065817, 3600352804, 4094571909, 275423344,
    430227734, 506948616, 659060556, 883997877, 958139571, 1322822218, 1537002063, 1747873779,
    1955562222, 2024104815, 2227730452, 2361852424, 2428436474, 2756734187, 3204031479, 3329325298]"

text \<open>The initial hash value: the same bits of the square roots of the first eight primes.\<close>

definition sha_H0 :: "u32 list" where
  "sha_H0 = [1779033703, 3144134277, 1013904242, 2773480762, 1359893119, 2600822924, 528734635, 1541459225]"

definition byte_word :: "char \<Rightarrow> u32" where
  "byte_word c = word_of_int (of_char c)"

definition word_byte :: "u32 \<Rightarrow> char" where
  "word_byte w = char_of (uint w)"

definition be32 :: "string \<Rightarrow> u32" where
  "be32 bs = foldl (\<lambda>acc b. push_bit 8 acc OR byte_word b) 0 bs"

definition be32_bytes :: "u32 \<Rightarrow> string" where
  "be32_bytes w = [word_byte (drop_bit 24 w), word_byte (drop_bit 16 w), word_byte (drop_bit 8 w), word_byte w]"

fun pieces :: "nat \<Rightarrow> 'a list \<Rightarrow> 'a list list" where
  "pieces n xs = (if n = 0 \<or> xs = [] then [] else take n xs # pieces n (drop n xs))"

declare pieces.simps [simp del]

definition sha_pad :: "string \<Rightarrow> string" where
  "sha_pad m =
     (let len = length m; bits = 8 * int len
      in m @ [char_of (128 :: int)] @ replicate ((119 - len mod 64) mod 64) (char_of (0 :: int))
           @ map (\<lambda>i. char_of (bits div 256 ^ (7 - i))) [0..<8])"

definition sha_s0 :: "u32 \<Rightarrow> u32" where
  "sha_s0 x = word_rotr 7 x XOR word_rotr 18 x XOR drop_bit 3 x"

definition sha_s1 :: "u32 \<Rightarrow> u32" where
  "sha_s1 x = word_rotr 17 x XOR word_rotr 19 x XOR drop_bit 10 x"

definition sha_S0 :: "u32 \<Rightarrow> u32" where
  "sha_S0 x = word_rotr 2 x XOR word_rotr 13 x XOR word_rotr 22 x"

definition sha_S1 :: "u32 \<Rightarrow> u32" where
  "sha_S1 x = word_rotr 6 x XOR word_rotr 11 x XOR word_rotr 25 x"

text \<open>The message schedule, most recent word first.\<close>

fun sha_extend :: "nat \<Rightarrow> u32 list \<Rightarrow> u32 list" where
  "sha_extend 0 w = w"
| "sha_extend (Suc n) w =
     sha_extend n ((sha_s1 (w ! 1) + w ! 6 + sha_s0 (w ! 14) + w ! 15) # w)"

fun sha_round :: "u32 list \<Rightarrow> u32 \<times> u32 \<Rightarrow> u32 list" where
  "sha_round [a, b, c, d, e, f, g, h] (k, w) =
     (let t1 = h + sha_S1 e + ((e AND f) XOR (NOT e AND g)) + k + w;
          t2 = sha_S0 a + ((a AND b) XOR (a AND c) XOR (b AND c))
      in [t1 + t2, a, b, c, d + t1, e, f, g])"
| "sha_round s kw = s"

definition sha_block :: "u32 list \<Rightarrow> string \<Rightarrow> u32 list" where
  "sha_block H blk =
     (let w = rev (sha_extend 48 (rev (map be32 (pieces 4 blk))))
      in map2 (+) H (foldl sha_round H (zip sha_K w)))"

definition sha256 :: "string \<Rightarrow> string" where
  "sha256 m = concat (map be32_bytes (foldl sha_block sha_H0 (pieces 64 (sha_pad m))))"

section \<open>HMAC\<close>

definition xor_pad :: "int \<Rightarrow> string \<Rightarrow> string" where
  "xor_pad p k = map (\<lambda>c. char_of ((of_char c :: int) XOR p)) k"

definition hmacSHA256 :: "string \<Rightarrow> string \<Rightarrow> string" where
  "hmacSHA256 key data =
     (let k0 = (if 64 < length key then sha256 key else key);
          k = k0 @ replicate (64 - length k0) (char_of (0 :: int))
      in sha256 (xor_pad 0x5c k @ sha256 (xor_pad 0x36 k @ data)))"

section \<open>Hexadecimal text\<close>

definition hexL :: "nat \<Rightarrow> char" where
  "hexL n = ''0123456789abcdef'' ! n"

definition EncodeToString :: "string \<Rightarrow> string" where
  "EncodeToString bs = concat (map (\<lambda>c. let n = (of_char c :: nat) in [hexL (n div 16), hexL (n mod 16)]) bs)"

text \<open>\<^verbatim>\<open>hex.DecodeString\<close> succeeds on an even number of hexadecimal digits.\<close>

fun DecodeString :: "string \<Rightarrow> string option" where
  "DecodeString [] = Some []"
| "DecodeString [c] = None"
| "DecodeString (a # b # cs) =
     (if ishex a \<and> ishex b then map_option ((#) (char_of (16 * unhex a + unhex b))) (DecodeString cs) else None)"

section \<open>FNV-1a\<close>

definition fnv64a :: "string \<Rightarrow> 64 word" where
  "fnv64a s = foldl (\<lambda>h c. (h XOR word_of_int (of_char c)) * 1099511628211) 14695981039346656037 s"

definition fnv32a :: "string \<Rightarrow> 32 word" where
  "fnv32a s = foldl (\<lambda>h c. (h XOR word_of_int (of_char c)) * 16777619) 2166136261 s"

section \<open>Lemmas\<close>

lemma hexL_ishex [simp]: "n < 16 \<Longrightarrow> ishex (hexL n)"
  by (drule hexU_cases) (auto simp: hexL_def ishex_def)

lemma unhex_hexL [simp]: "n < 16 \<Longrightarrow> unhex (hexL n) = n"
  by (drule hexU_cases) (auto simp: hexL_def unhex_def)

lemma lower_hexL [simp]: "n < 16 \<Longrightarrow> lower_char (hexL n) = hexL n"
  by (drule hexU_cases) (auto simp: hexL_def lower_char_def)

lemma space_hexL [simp]: "n < 16 \<Longrightarrow> \<not> is_space (hexL n)"
  by (drule hexU_cases) (auto simp: hexL_def is_space_def)

lemma DecodeString_EncodeToString [simp]: "DecodeString (EncodeToString s) = Some s"
  unfolding EncodeToString_def
  by (induction s) (auto simp: Let_def)

lemma EncodeToString_inject [simp]: "EncodeToString s = EncodeToString t \<longleftrightarrow> s = t"
  by (metis DecodeString_EncodeToString option.inject)

lemma set_EncodeToString: "c \<in> set (EncodeToString s) \<Longrightarrow> \<exists>n<16. c = hexL n"
proof -
  assume "c \<in> set (EncodeToString s)"
  then obtain x where "c = hexL (of_char x div 16) \<or> c = hexL (of_char x mod 16)"
    by (auto simp: EncodeToString_def Let_def)
  moreover have "(of_char x :: nat) div 16 < 16" "(of_char x :: nat) mod 16 < 16" by simp_all
  ultimately show ?thesis by blast
qed

lemma ToLower_EncodeToString [simp]: "ToLower (EncodeToString s) = EncodeToString s"
  unfolding ToLower_def
  by (rule map_idI) (auto dest!: set_EncodeToString)

lemma TrimSpace_EncodeToString [simp]: "TrimSpace (EncodeToString s) = EncodeToString s"
  by (rule TrimSpace_id) (auto dest!: set_EncodeToString)

lemma length_map2_foldl_sha: "length H = 8 \<Longrightarrow> length (foldl sha_round H kws) = 8"
proof (induction kws arbitrary: H)
  case (Cons kw kws)
  obtain k w where kw: "kw = (k, w)" by (cases kw)
  from Cons.prems obtain a b c d e f g h where "H = [a, b, c, d, e, f, g, h]"
    by (auto simp: length_Suc_conv numeral_eq_Suc)
  then show ?case using Cons.IH kw by (simp add: Let_def)
qed simp

lemma length_sha_blocks: "length H = 8 \<Longrightarrow> length (foldl sha_block H bs) = 8"
  by (induction bs arbitrary: H) (auto simp: sha_block_def Let_def length_map2_foldl_sha)

text \<open>A digest has 32 bytes, whatever the message.\<close>

lemma length_sha256: "length (sha256 m) = 32"
proof -
  have "length (foldl sha_block sha_H0 (pieces 64 (sha_pad m))) = 8"
    by (rule length_sha_blocks) (simp add: sha_H0_def)
  then have "length (map be32_bytes (foldl sha_block sha_H0 (pieces 64 (sha_pad m)))) = 8"
    by simp
  moreover have "length (concat (map be32_bytes ws)) = 4 * length ws" for ws
    by (induction ws) (auto simp: be32_bytes_def)
  ultimately show ?thesis by (simp add: sha256_def)
qed

lemma length_hmacSHA256: "length (hmacSHA256 k d) = 32"
  by (simp add: hmacSHA256_def Let_def length_sha256)

lemma length_EncodeToString [simp]: "length (EncodeToString s) = 2 * length s"
  unfolding EncodeToString_def by (induction s) (auto simp: Let_def)

end
