(* ===== verification/Canonical.thy ===== *)
theory Canonical
  imports Crypto_Hash "HOL-Library.Multiset"
begin

text \<open>
  \<^verbatim>\<open>internal/sigv4verifier/canonical.go\<close>: the canonical request of AWS Signature Version 4, which
  the verifier hashes and compares signatures over. The definitions follow the file; the
  lemmas show that the canonical form does not depend on the order in which Go iterates over
  the query map, that its percent encoding is lossless, and that it binds every signed
  component: two requests with the same canonical form agree on the method, the path, the
  multiset of values of every query parameter, the value of every signed header and the
  payload hash.
\<close>

section \<open>Definitions\<close>

definition Algorithm :: string where
  "Algorithm = ''AWS4-HMAC-SHA256''"

definition UnsignedPayload :: string where
  "UnsignedPayload = ''UNSIGNED-PAYLOAD''"

definition StreamingPayload :: string where
  "StreamingPayload = ''STREAMING-AWS4-HMAC-SHA256-PAYLOAD''"

definition StreamingUnsignedTrailer :: string where
  "StreamingUnsignedTrailer = ''STREAMING-UNSIGNED-PAYLOAD-TRAILER''"

abbreviation newline :: char where
  "newline \<equiv> CHR 0x0A"

definition HashCanonical :: "string \<Rightarrow> string" where
  "HashCanonical canonical = EncodeToString (sha256 canonical)"

definition canonicalURI :: "string \<Rightarrow> string" where
  "canonicalURI escapedPath =
     (if escapedPath = [] then ''/''
      else if \<not> HasPrefix escapedPath ''/'' then ''/'' @ escapedPath
      else escapedPath)"

definition hexUpper :: "nat \<Rightarrow> char" where
  "hexUpper n = (if n < 10 then char_of (48 + n) else char_of (65 + n - 10))"

definition aws_plain :: "char \<Rightarrow> bool" where
  "aws_plain c \<longleftrightarrow> (let n = (of_char c :: nat) in
     (65 \<le> n \<and> n \<le> 90) \<or> (97 \<le> n \<and> n \<le> 122) \<or> (48 \<le> n \<and> n \<le> 57)
     \<or> c = CHR ''-'' \<or> c = CHR ''_'' \<or> c = CHR ''.'' \<or> c = CHR ''~'')"

fun awsURLEncode :: "string \<Rightarrow> bool \<Rightarrow> string" where
  "awsURLEncode [] encodeSlash = []"
| "awsURLEncode (c # s) encodeSlash =
     (if aws_plain c then [c]
      else if c = CHR ''/'' \<and> \<not> encodeSlash then [c]
      else [CHR ''%'', hexUpper (of_char c div 16), hexUpper (of_char c mod 16)])
     @ awsURLEncode s encodeSlash"

definition query_piece :: "string \<Rightarrow> string \<Rightarrow> string" where
  "query_piece k v = awsURLEncode k True @ ''='' @ awsURLEncode v True"

definition canonicalQuery :: "url_values \<Rightarrow> string" where
  "canonicalQuery q =
     (if q = [] then []
      else Join (concat (map (\<lambda>k. map (query_piece k) (sort (lookup_or [] q k))) (sort (map fst q)))) ''&'')"

fun collapse :: "bool \<Rightarrow> bool \<Rightarrow> string \<Rightarrow> string" where
  "collapse prevSpace inQuotes [] = []"
| "collapse prevSpace inQuotes (c # s) =
     (if c = CHR 0x22 then c # collapse False (\<not> inQuotes) s
      else if \<not> inQuotes \<and> (c = CHR '' '' \<or> c = CHR 0x09) then
        (if prevSpace then collapse True inQuotes s else CHR '' '' # collapse True inQuotes s)
      else c # collapse False inQuotes s)"

definition trimAndCollapse :: "string \<Rightarrow> string" where
  "trimAndCollapse s = collapse False False (TrimSpace s)"

definition canonicalHeaderValue :: "header \<Rightarrow> string \<Rightarrow> string" where
  "canonicalHeaderValue headers name =
     (let vals = header_Values headers (CanonicalHeaderKey name)
      in if vals = [] then [] else trimAndCollapse (Join vals '',''))"

fun canonicalHeaders :: "header \<Rightarrow> string list \<Rightarrow> string" where
  "canonicalHeaders headers [] = []"
| "canonicalHeaders headers (h # hs) =
     h @ '':'' @ canonicalHeaderValue headers h @ [newline] @ canonicalHeaders headers hs"

definition CanonicalRequest ::
  "string \<Rightarrow> url \<Rightarrow> header \<Rightarrow> string list \<Rightarrow> string \<Rightarrow> string" where
  "CanonicalRequest method rawURL headers signedHeaders payloadHash =
     ToUpper method @ [newline]
     @ canonicalURI (EscapedPath rawURL) @ [newline]
     @ canonicalQuery (Query rawURL) @ [newline]
     @ canonicalHeaders headers signedHeaders @ [newline]
     @ Join signedHeaders '';'' @ [newline]
     @ payloadHash"

definition ExtractSignedHeaders :: "string \<Rightarrow> string list" where
  "ExtractSignedHeaders raw =
     sort (filter (\<lambda>p. p \<noteq> []) (map (\<lambda>p. TrimSpace (ToLower p)) (Split raw (CHR '';''))))"

section \<open>Percent encoding\<close>

lemma hexUpper_hexU: "n < 16 \<Longrightarrow> hexUpper n = hexU n"
  by (drule hexU_cases) (auto simp: hexU_def hexUpper_def char_of_eq_iff)

lemma aws_plain_unreserved: "aws_plain c \<longleftrightarrow> is_unreserved c"
  by (auto simp: aws_plain_def is_unreserved_def is_alnum_def Let_def)

lemma awsURLEncode_pct:
  "awsURLEncode s enc =
     concat (map (\<lambda>c. if is_unreserved c \<or> (c = CHR ''/'' \<and> \<not> enc) then [c] else pct c) s)"
  by (induction s) (auto simp: pct_def Let_def hexUpper_hexU aws_plain_unreserved)

lemma unescape_awsURLEncode: "unescape m (awsURLEncode s enc) = Some s"
  unfolding awsURLEncode_pct
  by (rule unescape_encode) auto

lemma awsURLEncode_inject [simp]: "awsURLEncode s enc = awsURLEncode t enc \<longleftrightarrow> s = t"
  by (metis unescape_awsURLEncode option.inject)

lemma set_pct: "c \<in> set (pct d) \<Longrightarrow> c = CHR ''%'' \<or> is_alnum c"
  by (auto simp: pct_def Let_def)

lemma set_awsURLEncode: "c \<in> set (awsURLEncode s True) \<Longrightarrow> is_unreserved c \<or> c = CHR ''%''"
  unfolding awsURLEncode_pct
  by (auto split: if_splits dest!: set_pct simp: is_unreserved_def)

lemma awsURLEncode_safe [simp]:
  "CHR ''&'' \<notin> set (awsURLEncode s True)" "CHR ''='' \<notin> set (awsURLEncode s True)"
  "newline \<notin> set (awsURLEncode s True)"
  by (auto dest!: set_awsURLEncode simp: is_unreserved_def is_alnum_def)

section \<open>The canonical query\<close>

definition query_pairs :: "url_values \<Rightarrow> (string \<times> string) list" where
  "query_pairs q = concat (map (\<lambda>k. map (Pair k) (sort (lookup_or [] q k))) (sort (map fst q)))"

lemma canonicalQuery_pairs:
  "canonicalQuery q = Join (map (\<lambda>(k, v). query_piece k v) (query_pairs q)) ''&''"
  by (cases "q = []") (simp_all add: canonicalQuery_def query_pairs_def map_concat comp_def)

lemma query_piece_inject [simp]: "query_piece k v = query_piece k' v' \<longleftrightarrow> k = k' \<and> v = v'"
proof
  assume "query_piece k v = query_piece k' v'"
  then have "Cut (query_piece k v) (CHR ''='') = Cut (query_piece k' v') (CHR ''='')" by simp
  then show "k = k' \<and> v = v'" by (simp add: query_piece_def Cut_append)
qed simp

lemma query_piece_no_amp [simp]: "CHR ''&'' \<notin> set (query_piece k v)"
  by (simp add: query_piece_def)

lemma query_piece_not_Nil [simp]: "query_piece k v \<noteq> []"
  by (simp add: query_piece_def)

lemma newline_query_piece [simp]: "newline \<notin> set (query_piece k v)"
  by (simp add: query_piece_def)

lemma Join_Nil_iff: "(\<And>s. s \<in> set ss \<Longrightarrow> s \<noteq> []) \<Longrightarrow> Join ss sep = [] \<longleftrightarrow> ss = []"
  by (cases ss rule: remdups_adj.cases) auto

lemma Join_inject_sep:
  assumes "\<And>s. s \<in> set ss \<Longrightarrow> c \<notin> set s \<and> s \<noteq> []" and "\<And>s. s \<in> set ts \<Longrightarrow> c \<notin> set s \<and> s \<noteq> []"
    and eq: "Join ss [c] = Join ts [c]"
  shows "ss = ts"
proof (cases "ss = [] \<or> ts = []")
  case True
  have "Join ss [c] = [] \<longleftrightarrow> ss = []" "Join ts [c] = [] \<longleftrightarrow> ts = []"
    using assms(1,2) by (simp_all add: Join_Nil_iff)
  then show ?thesis using True eq by (metis Join.simps(1))
next
  case False
  then have ss: "Split (Join ss [c]) c = ss" using assms(1) by (intro Split_Join) blast+
  have ts: "Split (Join ts [c]) c = ts" using False assms(2) by (intro Split_Join) blast+
  from ss ts show ?thesis unfolding eq by (rule trans [OF sym])
qed

lemma query_piece_sep:
  "s \<in> set (map (\<lambda>(k, v). query_piece k v) ps) \<Longrightarrow> CHR ''&'' \<notin> set s \<and> s \<noteq> [] \<and> newline \<notin> set s"
  by auto

lemma canonicalQuery_inject: "canonicalQuery q = canonicalQuery q' \<Longrightarrow> query_pairs q = query_pairs q'"
proof -
  let ?f = "\<lambda>(k, v). query_piece k v"
  assume "canonicalQuery q = canonicalQuery q'"
  then have "Join (map ?f (query_pairs q)) ''&'' = Join (map ?f (query_pairs q')) ''&''"
    by (simp only: canonicalQuery_pairs)
  then have "map ?f (query_pairs q) = map ?f (query_pairs q')"
    using query_piece_sep by (intro Join_inject_sep [of _ "CHR ''&''"]) blast+
  moreover have "inj ?f" by (auto simp: inj_on_def)
  ultimately show ?thesis by (simp add: inj_map_eq_map)
qed

lemma pairs_of_key:
  "distinct ks \<Longrightarrow> map snd (filter (\<lambda>p. fst p = k) (concat (map (\<lambda>k. map (Pair k) (f k)) ks))) = (if k \<in> set ks then f k else [])"
proof (induction ks)
  case (Cons a ks)
  then show ?case by (cases "a = k") (auto simp: filter_map comp_def)
qed simp

lemma query_pairs_values:
  assumes "distinct (map fst q)"
  shows "map snd (filter (\<lambda>p. fst p = k) (query_pairs q)) = sort (lookup_or [] q k)"
proof -
  have "k \<notin> set (map fst q) \<Longrightarrow> lookup_or [] q k = []"
    by (simp add: lookup_or_def map_of_eq_None_iff [THEN iffD2])
  then show ?thesis
    using pairs_of_key [of "sort (map fst q)" k "\<lambda>k. sort (lookup_or [] q k)"] assms by (auto simp: query_pairs_def)
qed

lemma canonicalQuery_binds:
  assumes "canonicalQuery q = canonicalQuery q'" "distinct (map fst q)" "distinct (map fst q')"
  shows "mset (lookup_or [] q k) = mset (lookup_or [] q' k)"
  using canonicalQuery_inject [OF assms(1)] query_pairs_values [of q k] query_pairs_values [of q' k] assms(2,3)
  by (metis mset_sort)

lemma canonicalQuery_perm:
  assumes "distinct (map fst q)" "mset q = mset q'"
  shows "canonicalQuery q = canonicalQuery q'"
proof -
  have "map_of q = map_of q'"
    using assms by (metis map_of_inject_set mset_map mset_eq_imp_distinct_iff set_mset_mset)
  moreover have "sort (map fst q) = sort (map fst q')"
    using assms(2) by (metis mset_map properties_for_sort sorted_sort mset_sort)
  moreover have "q = [] \<longleftrightarrow> q' = []" using assms(2) by auto
  ultimately show ?thesis by (simp add: canonicalQuery_def lookup_or_def)
qed

lemma newline_canonicalQuery [simp]: "newline \<notin> set (canonicalQuery q)"
proof -
  have "c \<notin> set (Join ss sep)" if "\<And>s. s \<in> set ss \<Longrightarrow> c \<notin> set s" "c \<notin> set sep" for c ss sep
    using that by (induction ss sep rule: Join.induct) auto
  from this [of "map (\<lambda>(k, v). query_piece k v) (query_pairs q)" newline "''&''"]
  show ?thesis unfolding canonicalQuery_pairs using query_piece_sep by auto
qed

section \<open>Re-encoded queries\<close>

text \<open>The presigned variant encodes the query it verified and parses it again; nothing is lost.\<close>

lemma set_QueryEscape: "c \<in> set (QueryEscape s) \<Longrightarrow> is_unreserved c \<or> c = CHR ''%'' \<or> c = CHR ''+''"
  unfolding QueryEscape_def shouldEscapeQuery_def
  by (auto split: if_splits dest!: set_pct simp: is_unreserved_def)

lemma QueryEscape_safe [simp]:
  "CHR ''&'' \<notin> set (QueryEscape s)" "CHR ''='' \<notin> set (QueryEscape s)" "CHR '';'' \<notin> set (QueryEscape s)"
  by (auto dest!: set_QueryEscape simp: is_unreserved_def is_alnum_def)

definition encode_pair :: "string \<times> string \<Rightarrow> string" where
  "encode_pair p = QueryEscape (fst p) @ ''='' @ QueryEscape (snd p)"

lemma parse_pair_encode: "parse_pair (encode_pair p) (m, e) = (values_append (fst p) (snd p) m, e)"
  by (simp add: parse_pair_def encode_pair_def Cut_append)

lemma fold_parse_pair:
  "fold parse_pair (map encode_pair ps) (m, e) = (fold (\<lambda>p. values_append (fst p) (snd p)) ps m, e)"
  by (induction ps arbitrary: m) (simp_all add: parse_pair_encode)

lemma fold_values_append_lookup:
  "lookup_or [] (fold (\<lambda>p. values_append (fst p) (snd p)) ps m) k
     = lookup_or [] m k @ map snd (filter (\<lambda>p. fst p = k) ps)"
proof (induction ps arbitrary: m)
  case (Cons p ps)
  have "lookup_or [] (values_append (fst p) (snd p) m) k = lookup_or [] m k @ (if fst p = k then [snd p] else [])"
    by (simp add: lookup_or_def map_of_values_append)
  then show ?case using Cons by simp
qed simp

lemma fold_values_append_keys:
  "set (map fst (fold (\<lambda>p. values_append (fst p) (snd p)) ps m)) = set (map fst ps) \<union> set (map fst m)"
  using values_append_keys
  by (induction ps arbitrary: m) auto

definition encode_pairs :: "url_values \<Rightarrow> (string \<times> string) list" where
  "encode_pairs q = concat (map (\<lambda>k. map (Pair k) (lookup_or [] q k)) (sort (map fst q)))"

lemma values_Encode_pairs: "values_Encode q = Join (map encode_pair (encode_pairs q)) ''&''"
  by (simp add: values_Encode_def encode_pairs_def encode_pair_def encode_key_def [abs_def] map_concat comp_def)

lemma ParseQuery_values_Encode:
  "ParseQuery (values_Encode q) = (fold (\<lambda>p. values_append (fst p) (snd p)) (encode_pairs q) [], False)"
proof (cases "encode_pairs q = []")
  case True
  then show ?thesis by (simp add: ParseQuery_def values_Encode_pairs parse_pair_def)
next
  case False
  have "Split (Join (map encode_pair (encode_pairs q)) ''&'') (CHR ''&'') = map encode_pair (encode_pairs q)"
    using False by (intro Split_Join) (auto simp: encode_pair_def)
  then show ?thesis by (simp add: ParseQuery_def values_Encode_pairs fold_parse_pair)
qed

text \<open>Encoding a query and parsing it back gives the same keys with the same values in the same order.\<close>

lemma lookup_ParseQuery_Encode:
  assumes "distinct (map fst q)"
  shows "lookup_or [] (fst (ParseQuery (values_Encode q))) k = lookup_or [] q k"
proof -
  have "k \<notin> set (map fst q) \<Longrightarrow> lookup_or [] q k = []"
    by (simp add: lookup_or_def map_of_eq_None_iff [THEN iffD2])
  moreover have "lookup_or [] [] k = []" by (simp add: lookup_or_def)
  ultimately show ?thesis
    using pairs_of_key [of "sort (map fst q)" k "lookup_or [] q"] assms
    by (simp add: ParseQuery_values_Encode fold_values_append_lookup encode_pairs_def)
qed

lemma keys_ParseQuery_Encode:
  assumes "distinct (map fst q)" "\<And>k vs. (k, vs) \<in> set q \<Longrightarrow> vs \<noteq> []"
  shows "set (map fst (fst (ParseQuery (values_Encode q)))) = set (map fst q)"
proof -
  have "set (map fst (encode_pairs q)) = {k \<in> set (map fst q). lookup_or [] q k \<noteq> []}"
    by (auto simp: encode_pairs_def image_iff) (metis fst_conv list.set_intros(1) neq_Nil_conv)+
  also have "\<dots> = set (map fst q)"
    using assms by (auto simp: lookup_or_def)
  finally show ?thesis
    unfolding ParseQuery_values_Encode fst_conv fold_values_append_keys by simp
qed

lemma canonicalQuery_Encode:
  assumes "distinct (map fst q)" "\<And>k vs. (k, vs) \<in> set q \<Longrightarrow> vs \<noteq> []"
  shows "canonicalQuery (fst (ParseQuery (values_Encode q))) = canonicalQuery q"
proof -
  let ?q = "fst (ParseQuery (values_Encode q))"
  have "mset (map fst ?q) = mset (map fst q)"
    using keys_ParseQuery_Encode [OF assms]
    by (simp only: set_eq_iff_mset_eq_distinct [OF distinct_ParseQuery assms(1)])
  then have "sort (map fst ?q) = sort (map fst q)" 
    by (intro properties_for_sort) simp_all
  then have "query_pairs ?q = query_pairs q"
    by (simp add: query_pairs_def lookup_ParseQuery_Encode [OF assms(1)])
  then show ?thesis by (simp add: canonicalQuery_pairs)
qed

lemma ParseQuery_nonempty: "(k, vs) \<in> set (fst (ParseQuery raw)) \<Longrightarrow> vs \<noteq> []"
proof -
  have app: "(k, vs) \<in> set (values_append a b m) \<Longrightarrow> (\<And>k vs. (k, vs) \<in> set m \<Longrightarrow> vs \<noteq> []) \<Longrightarrow> vs \<noteq> []" for k vs a b m
    by (induction a b m rule: values_append.induct) (auto split: if_splits)
  have "\<forall>(k, vs) \<in> set (fst (fold parse_pair ps st)). vs \<noteq> []" if "\<forall>(k, vs) \<in> set (fst st). vs \<noteq> []" for ps st
    using that
  proof (induction ps arbitrary: st)
    case (Cons p ps)
    have "\<forall>(k, vs) \<in> set (fst (parse_pair p st)). vs \<noteq> []"
      using Cons.prems by (auto simp: parse_pair_def split: prod.splits option.splits dest!: app)
    then show ?case using Cons.IH by simp
  qed simp
  from this [of "([], False)" "Split raw (CHR ''&'')"]
  show "(k, vs) \<in> set (fst (ParseQuery raw)) \<Longrightarrow> vs \<noteq> []" by (auto simp: ParseQuery_def)
qed

section \<open>The canonical request as lines\<close>

definition header_lines :: "header \<Rightarrow> string list \<Rightarrow> string list" where
  "header_lines h sh = map (\<lambda>n. n @ '':'' @ canonicalHeaderValue h n) sh"

lemma canonicalHeaders_lines: "canonicalHeaders h sh = concat (map (\<lambda>l. l @ [newline]) (header_lines h sh))"
  by (induction sh) (simp_all add: header_lines_def)

lemma Join_prefix_lines: "Join (ls @ r # rs) [c] = concat (map (\<lambda>l. l @ [c]) ls) @ Join (r # rs) [c]"
  by (induction ls) (auto simp: Join_Cons)

lemma CanonicalRequest_lines:
  "CanonicalRequest m u h sh p =
     Join ([ToUpper m, canonicalURI (EscapedPath u), canonicalQuery (Query u)]
       @ header_lines h sh @ [[], Join sh '';'', p]) [newline]"
  using Join_prefix_lines [of "[ToUpper m, canonicalURI (EscapedPath u), canonicalQuery (Query u)] @ header_lines h sh"
      "[]" "[Join sh '';'', p]" newline]
  by (simp add: CanonicalRequest_def canonicalHeaders_lines)

text \<open>The text a request contributes to its canonical form has no line breaks. Go's HTTP server
  rejects requests whose method or header values contain one.\<close>

definition canon_clean :: "string \<Rightarrow> header \<Rightarrow> string list \<Rightarrow> string \<Rightarrow> bool" where
  "canon_clean m h sh p \<longleftrightarrow> newline \<notin> set m \<and> newline \<notin> set p \<and>
     (\<forall>n \<in> set sh. newline \<notin> set n \<and> CHR '';'' \<notin> set n \<and> n \<noteq> [] \<and> newline \<notin> set (canonicalHeaderValue h n))"

lemma upper_char_newline: "upper_char c = newline \<Longrightarrow> c = newline"
  by (auto simp: upper_char_def Let_def char_of_eq_iff take_bit_eq_mod split: if_splits)

lemma newline_ToUpper: "newline \<notin> set m \<Longrightarrow> newline \<notin> set (ToUpper m)"
  by (auto simp: ToUpper_def dest: upper_char_newline [OF sym])

lemma newline_pct [simp]: "newline \<notin> set (pct c)"
  by (auto dest!: set_pct simp: is_alnum_def)

lemma newline_PathEscape [simp]: "newline \<notin> set (PathEscape s)"
  by (auto simp: PathEscape_def shouldEscapePath_def split: if_splits)

lemma newline_EscapedPath [simp]: "newline \<notin> set (EscapedPath u)"
proof -
  have "newline \<notin> set s" if "validEncodedPath s" for s
  proof
    assume "newline \<in> set s"
    from bspec [OF that [unfolded validEncodedPath_def list_all_iff] this]
    show False by (simp add: shouldEscapePath_def)
  qed
  then show ?thesis by (simp add: EscapedPath_def)
qed

lemma newline_canonicalURI: "newline \<notin> set s \<Longrightarrow> newline \<notin> set (canonicalURI s)"
  by (auto simp: canonicalURI_def)

lemma set_Join: "c \<in> set (Join ss sep) \<Longrightarrow> (\<exists>s \<in> set ss. c \<in> set s) \<or> c \<in> set sep"
  by (induction ss sep rule: Join.induct) auto

lemma CanonicalRequest_Split:
  assumes "canon_clean m h sh p"
  shows "Split (CanonicalRequest m u h sh p) newline =
     [ToUpper m, canonicalURI (EscapedPath u), canonicalQuery (Query u)]
       @ header_lines h sh @ [[], Join sh '';'', p]"
  unfolding CanonicalRequest_lines
proof (rule Split_Join)
  fix s
  assume "s \<in> set ([ToUpper m, canonicalURI (EscapedPath u), canonicalQuery (Query u)]
       @ header_lines h sh @ [[], Join sh '';'', p])"
  moreover have "newline \<notin> set (Join sh '';'')"
    using assms by (auto dest!: set_Join simp: canon_clean_def)
  ultimately show "newline \<notin> set s"
    using assms by (auto simp: canon_clean_def header_lines_def newline_ToUpper newline_canonicalURI)
qed simp

text \<open>The canonical request binds everything that is signed.\<close>

lemma CanonicalRequest_binds:
  assumes eq: "CanonicalRequest m u h sh p = CanonicalRequest m' u' h' sh' p'"
    and c: "canon_clean m h sh p" and c': "canon_clean m' h' sh' p'"
  shows "ToUpper m = ToUpper m'" "canonicalURI (EscapedPath u) = canonicalURI (EscapedPath u')"
    "canonicalQuery (Query u) = canonicalQuery (Query u')" "sh = sh'" "p = p'"
    "n \<in> set sh \<Longrightarrow> canonicalHeaderValue h n = canonicalHeaderValue h' n"
proof -
  have l: "[ToUpper m, canonicalURI (EscapedPath u), canonicalQuery (Query u)] @ header_lines h sh @ [[], Join sh '';'', p]
     = [ToUpper m', canonicalURI (EscapedPath u'), canonicalQuery (Query u')] @ header_lines h' sh' @ [[], Join sh' '';'', p']"
    using CanonicalRequest_Split [OF c, of u] CanonicalRequest_Split [OF c', of u'] eq by simp
  then have len: "length (header_lines h sh) = length (header_lines h' sh')"
    by (auto dest: arg_cong [where f = length])
  from l show "ToUpper m = ToUpper m'" "canonicalURI (EscapedPath u) = canonicalURI (EscapedPath u')"
    "canonicalQuery (Query u) = canonicalQuery (Query u')" by simp_all
  from l len have lines: "header_lines h sh = header_lines h' sh'" and "Join sh '';'' = Join sh' '';''" and "p = p'"
    by simp_all
  then show "sh = sh'" "p = p'"
    using c c' by (auto simp: canon_clean_def intro: Join_inject_sep [where c = "CHR '';''"])
  then show "canonicalHeaderValue h n = canonicalHeaderValue h' n" if "n \<in> set sh"
    using lines that by (auto simp: header_lines_def)
qed

section \<open>Signed header names\<close>

lemma ExtractSignedHeaders_sorted: "sorted (ExtractSignedHeaders raw)"
  by (simp add: ExtractSignedHeaders_def)

lemma ExtractSignedHeaders_names:
  assumes "n \<in> set (ExtractSignedHeaders raw)"
  shows "n \<noteq> []" "CHR '';'' \<notin> set n"
proof -
  from assms obtain x where x: "x \<in> set (Split raw (CHR '';''))" and n: "n = TrimSpace (ToLower x)" and "n \<noteq> []"
    by (auto simp: ExtractSignedHeaders_def)
  then show "n \<noteq> []" by simp
  have "lower_char c = CHR '';'' \<Longrightarrow> c = CHR '';''" for c
    by (auto simp: lower_char_def Let_def char_of_eq_iff take_bit_eq_mod split: if_splits)
  then have "CHR '';'' \<notin> set (ToLower x)"
    using Split_sep_free [OF x] by (auto simp: ToLower_def) (metis)
  then show "CHR '';'' \<notin> set n" using set_TrimSpace [of "ToLower x"] n by auto
qed

end
