(* ===== verification/Go_Time.thy ===== *)
theory Go_Time
  imports Go_Net
begin

text \<open>
  Go's \<^verbatim>\<open>time\<close> package as far as the code uses it. An instant is the number of nanoseconds since
  the Unix epoch; a \<^verbatim>\<open>Duration\<close> is an \<^verbatim>\<open>int64\<close> number of nanoseconds, so \<^verbatim>\<open>Sub\<close> saturates at
  the ends of that range and negating the smallest duration wraps around to itself. The
  layouts \<^verbatim>\<open>20060102T150405Z\<close> and \<^verbatim>\<open>20060102\<close> are modelled digit by digit, with the proleptic
  Gregorian calendar; \<^verbatim>\<open>time.RFC1123\<close> depends on the time zone data of the host and is a
  parameter of the definitions that use it.
\<close>

type_synonym time = int
type_synonym duration = int

abbreviation Second :: duration where "Second \<equiv> 1000000000"
abbreviation Minute :: duration where "Minute \<equiv> 60 * 1000000000"

definition minDuration :: duration where "minDuration = - (2 ^ 63)"
definition maxDuration :: duration where "maxDuration = 2 ^ 63 - 1"

definition time_Sub :: "time \<Rightarrow> time \<Rightarrow> duration" where
  "time_Sub t u =
     (if int64_range (t - u) then t - u else if t < u then minDuration else maxDuration)"

definition time_After :: "time \<Rightarrow> time \<Rightarrow> bool" where
  "time_After t u \<longleftrightarrow> u < t"

definition time_Add :: "time \<Rightarrow> duration \<Rightarrow> time" where
  "time_Add t d = t + d"

section \<open>The civil calendar\<close>

definition is_leap :: "int \<Rightarrow> bool" where
  "is_leap y \<longleftrightarrow> 4 dvd y \<and> (\<not> 100 dvd y \<or> 400 dvd y)"

definition daysIn :: "int \<Rightarrow> int \<Rightarrow> int" where
  "daysIn m y = (if m = 2 then (if is_leap y then 29 else 28)
     else if m = 4 \<or> m = 6 \<or> m = 9 \<or> m = 11 then 30 else 31)"

definition days_from_civil :: "int \<Rightarrow> int \<Rightarrow> int \<Rightarrow> int" where
  "days_from_civil y m d =
     (let y' = (if m \<le> 2 then y - 1 else y);
          era = y' div 400;
          yoe = y' mod 400;
          doy = (153 * (if m > 2 then m - 3 else m + 9) + 2) div 5 + d - 1;
          doe = yoe * 365 + yoe div 4 - yoe div 100 + doy
      in era * 146097 + doe - 719468)"

definition civil_from_days :: "int \<Rightarrow> int \<times> int \<times> int" where
  "civil_from_days z0 =
     (let z = z0 + 719468;
          era = z div 146097;
          doe = z mod 146097;
          yoe = (doe - doe div 1460 + doe div 36524 - doe div 146096) div 365;
          doy = doe - (365 * yoe + yoe div 4 - yoe div 100);
          mp = (5 * doy + 2) div 153;
          d = doy - (153 * mp + 2) div 5 + 1;
          m = (if mp < 10 then mp + 3 else mp - 9);
          y = yoe + era * 400
      in (if m \<le> 2 then y + 1 else y, m, d))"

definition daySeconds :: int where "daySeconds = 86400"

definition civil_time :: "int \<Rightarrow> int \<Rightarrow> int \<Rightarrow> int \<Rightarrow> int \<Rightarrow> int \<Rightarrow> int \<Rightarrow> time" where
  "civil_time y mo d h mi s ns =
     (days_from_civil y mo d * daySeconds + h * 3600 + mi * 60 + s) * Second + ns"

section \<open>Parsing and formatting the basic ISO 8601 layout\<close>

definition is_digit :: "char \<Rightarrow> bool" where
  "is_digit c \<longleftrightarrow> (let n = (of_char c :: nat) in 48 \<le> n \<and> n \<le> 57)"

definition digits_int :: "string \<Rightarrow> int" where
  "digits_int s = foldl (\<lambda>acc c. 10 * acc + int (of_char c - 48)) 0 s"

text \<open>A fixed number of digits at the front of the value.\<close>

definition take_digits :: "nat \<Rightarrow> string \<Rightarrow> (int \<times> string) option" where
  "take_digits n s =
     (if n \<le> length s \<and> list_all is_digit (take n s) then Some (digits_int (take n s), drop n s) else None)"

text \<open>After the seconds Go accepts a fraction although the layout has none: a comma or a full
  stop and any number of digits, of which the first nine count.\<close>

definition take_fraction :: "string \<Rightarrow> int \<times> string" where
  "take_fraction s =
     (case s of
        c # d # rest \<Rightarrow>
          (if (c = CHR ''.'' \<or> c = CHR '','') \<and> is_digit d then
             (let ds = takeWhile is_digit (d # rest); used = take 9 ds
              in (digits_int used * 10 ^ (9 - length used), dropWhile is_digit (d # rest)))
           else (0, s))
      | _ \<Rightarrow> (0, s))"

definition parse_basic :: "string \<Rightarrow> time option" where
  "parse_basic s =
     (case take_digits 4 s of None \<Rightarrow> None | Some (y, s1) \<Rightarrow>
      (case take_digits 2 s1 of None \<Rightarrow> None | Some (mo, s2) \<Rightarrow>
      (case take_digits 2 s2 of None \<Rightarrow> None | Some (d, s3) \<Rightarrow>
      (case s3 of [] \<Rightarrow> None | t # s4 \<Rightarrow> if t \<noteq> CHR ''T'' then None else
      (case take_digits 2 s4 of None \<Rightarrow> None | Some (h, s5) \<Rightarrow>
      (case take_digits 2 s5 of None \<Rightarrow> None | Some (mi, s6) \<Rightarrow>
      (case take_digits 2 s6 of None \<Rightarrow> None | Some (sec, s7) \<Rightarrow>
      (case take_fraction s7 of (ns, s8) \<Rightarrow>
        if s8 = ''Z'' \<and> 1 \<le> mo \<and> mo \<le> 12 \<and> 1 \<le> d \<and> d \<le> daysIn mo y
           \<and> h < 24 \<and> mi < 60 \<and> sec < 60
        then Some (civil_time y mo d h mi sec ns) else None))))))))"

definition pad_digits :: "nat \<Rightarrow> int \<Rightarrow> string" where
  "pad_digits w n = map (\<lambda>i. char_of (48 + (n div 10 ^ (w - 1 - i)) mod 10)) [0..<w]"

definition format_date :: "time \<Rightarrow> string" where
  "format_date t =
     (case civil_from_days (t div (daySeconds * Second)) of (y, m, d) \<Rightarrow>
        pad_digits 4 y @ pad_digits 2 m @ pad_digits 2 d)"

definition format_basic :: "time \<Rightarrow> string" where
  "format_basic t =
     (let secs = (t div Second) mod daySeconds
      in format_date t @ ''T'' @ pad_digits 2 (secs div 3600) @ pad_digits 2 (secs div 60 mod 60)
           @ pad_digits 2 (secs mod 60) @ ''Z'')"

end
