(* ===== verification/Verifier.thy ===== *)
theory Verifier
  imports Canonical Go_Time
begin

text \<open>
  \<^verbatim>\<open>internal/sigv4verifier/verifier.go\<close> and \<^verbatim>\<open>postpolicy.go\<close>: verification of inbound SigV4
  signatures in the \<^verbatim>\<open>Authorization\<close> header, in a presigned query string and in a POST-policy
  form, with the cache of derived signing keys as explicit state. The credential resolver,
  the clock and the parser of RFC 1123 dates are fields of the verifier.

  The lemmas give a cache-free reference (\<open>header_spec\<close>, \<open>presigned_spec\<close>, \<open>policy_spec\<close>) and show that
  the cached code computes it, on every state the cache can reach, as long as the 64-bit
  fingerprints of the secrets in use differ.
\<close>

section \<open>Types\<close>

definition MaxClockSkew :: duration where
  "MaxClockSkew = 15 * Minute"

datatype verr =
    ErrMissingAuth
  | ErrMalformedAuth
  | ErrInvalidAccessKey
  | ErrSignatureMismatch
  | ErrRequestExpired
  | ErrRequestTimeSkewed
  | ErrUnsupportedAlgo
  | ErrInvalidCredential

record result =
  AccessKeyID :: string
  Region :: string
  Service :: string
  Date :: time
  SignedHeaders :: "string list"
  PayloadHash :: string
  Presigned :: bool
  Expires :: duration
  SigningKey :: string
  SeedSignature :: string

record signingKeyKey =
  k_akid :: string
  k_date :: string
  k_region :: string
  k_service :: string

record signingKeyEntry =
  e_fp :: "64 word"
  e_key :: string

type_synonym key_cache = "signingKeyKey \<Rightarrow> signingKeyEntry option"

text \<open>\<open>Now i\<close> is what the \<open>i\<close>-th call of the clock during one verification returns;
  \<open>ParseRFC1123\<close> is \<^verbatim>\<open>time.Parse\<close> with the layout \<^verbatim>\<open>time.RFC1123\<close>.\<close>

record verifier =
  Resolver :: "string \<Rightarrow> string option"
  Now :: "nat \<Rightarrow> time"
  MaxSkew :: duration
  ParseRFC1123 :: "string \<Rightarrow> time option"

section \<open>Helpers\<close>

definition cloneHeaderWithHost :: "request \<Rightarrow> header" where
  "cloneHeaderWithHost r =
     (let h = Header r;
          h1 = (if header_Get h ''Host'' = [] \<and> Host r \<noteq> [] then header_Set ''Host'' (Host r) h else h)
      in if header_Get h1 ''Content-Length'' = [] \<and> 0 < ContentLength r
         then header_Set ''Content-Length'' (FormatInt (ContentLength r)) h1 else h1)"

definition parseDate :: "verifier \<Rightarrow> string \<Rightarrow> time option" where
  "parseDate v s =
     (if s = [] then None
      else (case parse_basic s of Some t \<Rightarrow> Some t | None \<Rightarrow> ParseRFC1123 v s))"

definition stringToSign :: "time \<Rightarrow> string \<Rightarrow> string \<Rightarrow> string \<Rightarrow> string" where
  "stringToSign reqTime region service canonical =
     (let hash = HashCanonical canonical;
          date = format_date reqTime;
          scope = date @ ''/'' @ region @ ''/'' @ service @ ''/aws4_request''
      in Algorithm @ [newline] @ format_basic reqTime @ [newline] @ scope @ [newline] @ hash)"

definition deriveSigningKey :: "string \<Rightarrow> string \<Rightarrow> string \<Rightarrow> string \<Rightarrow> string" where
  "deriveSigningKey secret date region service =
     (let kDate = hmacSHA256 (''AWS4'' @ secret) date;
          kRegion = hmacSHA256 kDate region;
          kService = hmacSHA256 kRegion service
      in hmacSHA256 kService ''aws4_request'')"

text \<open>\<^verbatim>\<open>abs\<close> on a duration: \<open>-d\<close> is computed at 64 bits.\<close>

definition dur_abs :: "duration \<Rightarrow> duration" where
  "dur_abs d = (if d < 0 then wrap64 (- d) else d)"

definition skew :: "verifier \<Rightarrow> duration" where
  "skew v = (if 0 < MaxSkew v then MaxSkew v else MaxClockSkew)"

section \<open>The signing-key cache\<close>

definition secretFingerprint :: "string \<Rightarrow> 64 word" where
  "secretFingerprint secret = fnv64a secret"

definition signingKey ::
  "key_cache \<Rightarrow> string \<Rightarrow> string \<Rightarrow> string \<Rightarrow> string \<Rightarrow> string \<Rightarrow> string \<times> key_cache" where
  "signingKey c secret akid date region service =
     (let k = \<lparr>k_akid = akid, k_date = date, k_region = region, k_service = service\<rparr>;
          fp = secretFingerprint secret;
          derived = deriveSigningKey secret date region service;
          miss = (derived, c(k \<mapsto> \<lparr>e_fp = fp, e_key = derived\<rparr>))
      in case c k of
           Some e \<Rightarrow> if e_fp e = fp then (e_key e, c) else miss
         | None \<Rightarrow> miss)"

definition InvalidateSigningKeys :: "key_cache \<Rightarrow> key_cache" where
  "InvalidateSigningKeys c = Map.empty"

section \<open>The header variant\<close>

record headerAuth =
  a_AccessKeyID :: string
  a_Date :: string
  a_Region :: string
  a_Service :: string
  a_SignedHeaders :: "string list"
  a_Signature :: string

definition parse_auth_part :: "headerAuth \<Rightarrow> string \<Rightarrow> verr + headerAuth" where
  "parse_auth_part a p0 =
     (let p = TrimSpace p0
      in case IndexByte p (CHR ''='') of
           None \<Rightarrow> Inl ErrMalformedAuth
         | Some eq \<Rightarrow>
             (let k = take eq p; val = drop (eq + 1) p
              in if k = ''Credential'' then
                   (let cs = Split val (CHR ''/'')
                    in if length cs \<noteq> 5 \<or> cs ! 4 \<noteq> ''aws4_request'' then Inl ErrInvalidCredential
                       else Inr (a\<lparr>a_AccessKeyID := cs ! 0, a_Date := cs ! 1, a_Region := cs ! 2, a_Service := cs ! 3\<rparr>))
                 else if k = ''SignedHeaders'' then Inr (a\<lparr>a_SignedHeaders := ExtractSignedHeaders val\<rparr>)
                 else if k = ''Signature'' then Inr (a\<lparr>a_Signature := ToLower val\<rparr>)
                 else Inl ErrMalformedAuth))"

fun parse_auth_parts :: "headerAuth \<Rightarrow> string list \<Rightarrow> verr + headerAuth" where
  "parse_auth_parts a [] = Inr a"
| "parse_auth_parts a (p # ps) =
     (case parse_auth_part a p of Inl e \<Rightarrow> Inl e | Inr a' \<Rightarrow> parse_auth_parts a' ps)"

definition zeroHeaderAuth :: headerAuth where
  "zeroHeaderAuth = \<lparr>a_AccessKeyID = [], a_Date = [], a_Region = [], a_Service = [], a_SignedHeaders = [], a_Signature = []\<rparr>"

definition parseHeaderAuth :: "string \<Rightarrow> verr + headerAuth" where
  "parseHeaderAuth h =
     (if \<not> HasPrefix h (Algorithm @ '' '') then Inl ErrUnsupportedAlgo
      else case parse_auth_parts zeroHeaderAuth (Split (drop (length (Algorithm @ '' '')) h) (CHR '','')) of
             Inl e \<Rightarrow> Inl e
           | Inr a \<Rightarrow> if a_AccessKeyID a = [] \<or> a_SignedHeaders a = [] \<or> a_Signature a = []
                      then Inl ErrMalformedAuth else Inr a)"

text \<open>The checks of \<^verbatim>\<open>verifyHeader\<close> up to the resolved secret, then the comparison of signatures.\<close>

definition headerChecks :: "verifier \<Rightarrow> request \<Rightarrow> verr + (headerAuth \<times> time \<times> string)" where
  "headerChecks v r =
     (let auth = header_Get (Header r) ''Authorization''
      in if auth = [] then Inl ErrMissingAuth
      else case parseHeaderAuth auth of Inl e \<Rightarrow> Inl e | Inr a \<Rightarrow>
     (let d0 = header_Get (Header r) ''X-Amz-Date'';
          dateStr = (if d0 = [] then header_Get (Header r) ''Date'' else d0)
      in case parseDate v dateStr of None \<Rightarrow> Inl ErrMalformedAuth | Some reqTime \<Rightarrow>
      if skew v < dur_abs (time_Sub (Now v 0) reqTime) then Inl ErrRequestTimeSkewed
      else case Resolver v (a_AccessKeyID a) of None \<Rightarrow> Inl ErrInvalidAccessKey
        | Some secret \<Rightarrow> Inr (a, reqTime, secret)))"

definition headerPayloadHash :: "request \<Rightarrow> string" where
  "headerPayloadHash r =
     (let payloadHash = header_Get (Header r) ''X-Amz-Content-Sha256''
      in if payloadHash = [] then UnsignedPayload else payloadHash)"

definition verifyHeader :: "verifier \<Rightarrow> key_cache \<Rightarrow> request \<Rightarrow> (verr + result) \<times> key_cache" where
  "verifyHeader v c r =
     (case headerChecks v r of Inl e \<Rightarrow> (Inl e, c) | Inr (a, reqTime, secret) \<Rightarrow>
     (let payloadHash = headerPayloadHash r;
          headers = cloneHeaderWithHost r;
          canonical = CanonicalRequest (Method r) (URL r) headers (a_SignedHeaders a) payloadHash;
          sts = stringToSign reqTime (a_Region a) (a_Service a) canonical;
          (key, c') = signingKey c secret (a_AccessKeyID a) (a_Date a) (a_Region a) (a_Service a);
          sig = EncodeToString (hmacSHA256 key sts)
      in if a_Signature a \<noteq> sig then (Inl ErrSignatureMismatch, c')
      else (Inr \<lparr>AccessKeyID = a_AccessKeyID a, Region = a_Region a, Service = a_Service a, Date = reqTime,
              SignedHeaders = a_SignedHeaders a, PayloadHash = payloadHash, Presigned = False, Expires = 0,
              SigningKey = (if payloadHash = StreamingPayload then key else []),
              SeedSignature = (if payloadHash = StreamingPayload then sig else [])\<rparr>, c')))"

section \<open>The presigned variant\<close>

definition presignedChecks ::
  "verifier \<Rightarrow> url_values \<Rightarrow> verr + (string list \<times> time \<times> duration \<times> string)" where
  "presignedChecks v q =
     (if values_Get q ''X-Amz-Algorithm'' \<noteq> Algorithm then Inl ErrUnsupportedAlgo else
     (let credential = values_Get q ''X-Amz-Credential'';
          signedHeadersRaw = values_Get q ''X-Amz-SignedHeaders'';
          dateStr = values_Get q ''X-Amz-Date'';
          expiresStr = values_Get q ''X-Amz-Expires'';
          presented = ToLower (values_Get q ''X-Amz-Signature'')
      in if credential = [] \<or> signedHeadersRaw = [] \<or> dateStr = [] \<or> presented = [] \<or> expiresStr = []
      then Inl ErrMalformedAuth else
     (let cs = Split credential (CHR ''/'')
      in if length cs \<noteq> 5 \<or> cs ! 4 \<noteq> ''aws4_request'' then Inl ErrInvalidCredential else
      case parseDate v dateStr of None \<Rightarrow> Inl ErrMalformedAuth | Some reqTime \<Rightarrow>
      if skew v < dur_abs (time_Sub (Now v 0) reqTime) then Inl ErrRequestTimeSkewed else
      case ParseInt 10 expiresStr of None \<Rightarrow> Inl ErrMalformedAuth | Some n \<Rightarrow>
      if n < 1 \<or> 7 * 24 * 3600 < n then Inl ErrMalformedAuth else
     (let expires = wrap64 (n * Second)
      in if time_After (Now v 1) (time_Add reqTime expires) then Inl ErrRequestExpired else
      case Resolver v (cs ! 0) of None \<Rightarrow> Inl ErrInvalidAccessKey
      | Some secret \<Rightarrow> Inr (cs, reqTime, expires, secret)))))"

definition verifyPresigned ::
  "verifier \<Rightarrow> key_cache \<Rightarrow> request \<Rightarrow> url_values \<Rightarrow> (verr + result) \<times> key_cache" where
  "verifyPresigned v c r q =
     (case presignedChecks v q of Inl e \<Rightarrow> (Inl e, c) | Inr (cs, reqTime, expires, secret) \<Rightarrow>
     (let akid = cs ! 0; date = cs ! 1; region = cs ! 2; service = cs ! 3;
          presented = ToLower (values_Get q ''X-Amz-Signature'');
          q2 = filter (\<lambda>(k, vs). k \<noteq> ''X-Amz-Signature'') q;
          clone = (URL r)\<lparr>RawQuery := values_Encode q2\<rparr>;
          headers = cloneHeaderWithHost r;
          signedHeaders = ExtractSignedHeaders (values_Get q ''X-Amz-SignedHeaders'');
          canonical = CanonicalRequest (Method r) clone headers signedHeaders UnsignedPayload;
          sts = stringToSign reqTime region service canonical;
          (key, c') = signingKey c secret akid date region service;
          sig = EncodeToString (hmacSHA256 key sts)
      in if presented \<noteq> sig then (Inl ErrSignatureMismatch, c') else
        (Inr \<lparr>AccessKeyID = akid, Region = region, Service = service, Date = reqTime,
              SignedHeaders = signedHeaders, PayloadHash = UnsignedPayload, Presigned = True, Expires = expires,
              SigningKey = [], SeedSignature = []\<rparr>, c')))"

definition Verify :: "verifier \<Rightarrow> key_cache \<Rightarrow> request \<Rightarrow> (verr + result) \<times> key_cache" where
  "Verify v c r =
     (let q = Query (URL r)
      in if values_Get q ''X-Amz-Signature'' \<noteq> [] then verifyPresigned v c r q else verifyHeader v c r)"

section \<open>POST policies\<close>

record PolicyAuth =
  p_Algorithm :: string
  p_Credential :: string
  p_Date :: string
  p_Signature :: string
  p_Policy :: string

record PolicyResult =
  pr_AccessKeyID :: string
  pr_Region :: string
  pr_Service :: string
  pr_Date :: time

definition policyChecks :: "verifier \<Rightarrow> PolicyAuth \<Rightarrow> verr + (string list \<times> time \<times> string)" where
  "policyChecks v auth =
     (if p_Algorithm auth \<noteq> Algorithm then Inl ErrUnsupportedAlgo
      else if p_Credential auth = [] \<or> p_Date auth = [] \<or> p_Signature auth = [] \<or> p_Policy auth = []
      then Inl ErrMalformedAuth else
     (let cs = Split (p_Credential auth) (CHR ''/'')
      in if length cs \<noteq> 5 \<or> cs ! 4 \<noteq> ''aws4_request'' then Inl ErrInvalidCredential else
      case parseDate v (p_Date auth) of None \<Rightarrow> Inl ErrMalformedAuth | Some reqTime \<Rightarrow>
      if skew v < dur_abs (time_Sub (Now v 0) reqTime) then Inl ErrRequestTimeSkewed
      else if format_date reqTime \<noteq> cs ! 1 then Inl ErrInvalidCredential
      else case Resolver v (cs ! 0) of None \<Rightarrow> Inl ErrInvalidAccessKey | Some secret \<Rightarrow> Inr (cs, reqTime, secret)))"

definition VerifyPolicy :: "verifier \<Rightarrow> key_cache \<Rightarrow> PolicyAuth \<Rightarrow> (verr + PolicyResult) \<times> key_cache" where
  "VerifyPolicy v c auth =
     (case policyChecks v auth of Inl e \<Rightarrow> (Inl e, c) | Inr (cs, reqTime, secret) \<Rightarrow>
     (let akid = cs ! 0; date = cs ! 1; region = cs ! 2; service = cs ! 3;
          (key, c') = signingKey c secret akid date region service;
          expected = EncodeToString (hmacSHA256 key (p_Policy auth));
          presented = ToLower (p_Signature auth)
      in if expected \<noteq> presented then (Inl ErrSignatureMismatch, c')
         else (Inr \<lparr>pr_AccessKeyID = akid, pr_Region = region, pr_Service = service, pr_Date = reqTime\<rparr>, c')))"

section \<open>The cache is transparent\<close>

text \<open>Every entry holds the key derived from a secret with the recorded fingerprint. \<open>S\<close> is
  the set of secrets the resolver has ever returned.\<close>

definition cache_ok :: "string set \<Rightarrow> key_cache \<Rightarrow> bool" where
  "cache_ok S c \<longleftrightarrow> (\<forall>k e. c k = Some e \<longrightarrow>
     (\<exists>s \<in> S. e_fp e = secretFingerprint s \<and> e_key e = deriveSigningKey s (k_date k) (k_region k) (k_service k)))"

text \<open>The states of the cache: verifications under any resolver that returns secrets of \<open>S\<close>, in
  any order, and invalidations.\<close>

inductive cache_reach :: "string set \<Rightarrow> key_cache \<Rightarrow> bool" for S where
  reach_init: "cache_reach S Map.empty"
| reach_verify: "cache_reach S c \<Longrightarrow> ran (Resolver v) \<subseteq> S \<Longrightarrow> cache_reach S (snd (Verify v c r))"
| reach_policy: "cache_reach S c \<Longrightarrow> ran (Resolver v) \<subseteq> S \<Longrightarrow> cache_reach S (snd (VerifyPolicy v c a))"
| reach_invalidate: "cache_reach S c \<Longrightarrow> cache_reach S (InvalidateSigningKeys c)"

lemma cache_ok_empty [simp]: "cache_ok S Map.empty"
  by (simp add: cache_ok_def)

lemma signingKey_keeps:
  assumes "cache_ok S c" "secret \<in> S"
  shows "cache_ok S (snd (signingKey c secret akid date region service))"
proof -
  have "cache_ok S (c(k \<mapsto> \<lparr>e_fp = secretFingerprint secret,
      e_key = deriveSigningKey secret (k_date k) (k_region k) (k_service k)\<rparr>))" for k
    using assms by (auto simp: cache_ok_def)
  from this [of "\<lparr>k_akid = akid, k_date = date, k_region = region, k_service = service\<rparr>"]
  show ?thesis using assms(1) by (auto simp: signingKey_def Let_def split: option.splits)
qed

lemma signingKey_derives:
  assumes "cache_ok S c" "inj_on secretFingerprint S" "secret \<in> S"
  shows "fst (signingKey c secret akid date region service) = deriveSigningKey secret date region service"
proof (cases "c \<lparr>k_akid = akid, k_date = date, k_region = region, k_service = service\<rparr>")
  case None
  then show ?thesis by (simp add: signingKey_def Let_def)
next
  case (Some e)
  then obtain s where "s \<in> S" "e_fp e = secretFingerprint s" "e_key e = deriveSigningKey s date region service"
    using assms(1) unfolding cache_ok_def by force
  then show ?thesis
    using Some assms(2,3) by (auto simp: signingKey_def Let_def dest: inj_onD)
qed

lemma signingKey_empty: "fst (signingKey Map.empty secret akid date region service) = deriveSigningKey secret date region service"
  by (simp add: signingKey_def Let_def)

lemmas verify_splits = sum.splits option.splits prod.splits if_splits

lemma headerChecks_secret: "headerChecks v r = Inr (a, t, secret) \<Longrightarrow> Resolver v (a_AccessKeyID a) = Some secret"
  by (auto simp: headerChecks_def Let_def split: verify_splits)

lemma presignedChecks_secret: "presignedChecks v q = Inr (cs, t, e, secret) \<Longrightarrow> Resolver v (cs ! 0) = Some secret"
  by (auto simp: presignedChecks_def Let_def split: verify_splits)

lemma policyChecks_secret: "policyChecks v a = Inr (cs, t, secret) \<Longrightarrow> Resolver v (cs ! 0) = Some secret"
  by (auto simp: policyChecks_def Let_def split: verify_splits)

lemma Verify_keeps:
  assumes "cache_ok S c" "ran (Resolver v) \<subseteq> S"
  shows "cache_ok S (snd (Verify v c r))"
proof -
  have mem: "Resolver v a = Some s \<Longrightarrow> s \<in> S" for a s using assms(2) by (auto simp: ran_def)
  have "cache_ok S (snd (verifyHeader v c r))"
  proof (cases "headerChecks v r")
    case (Inr x)
    obtain a t s where x: "x = (a, t, s)" by (cases x)
    from signingKey_keeps [OF assms(1) mem [OF headerChecks_secret]] Inr x
    show ?thesis by (simp add: verifyHeader_def Let_def case_prod_beta)
  qed (simp add: verifyHeader_def assms)
  moreover have "cache_ok S (snd (verifyPresigned v c r q))" for q
  proof (cases "presignedChecks v q")
    case (Inr x)
    obtain cs t e s where x: "x = (cs, t, e, s)" by (cases x)
    from signingKey_keeps [OF assms(1) mem [OF presignedChecks_secret]] Inr x
    show ?thesis by (simp add: verifyPresigned_def Let_def case_prod_beta)
  qed (simp add: verifyPresigned_def assms)
  ultimately show ?thesis by (simp add: Verify_def Let_def)
qed

lemma VerifyPolicy_keeps:
  assumes "cache_ok S c" "ran (Resolver v) \<subseteq> S"
  shows "cache_ok S (snd (VerifyPolicy v c a))"
proof (cases "policyChecks v a")
  case (Inr x)
  obtain cs t s where x: "x = (cs, t, s)" by (cases x)
  have "s \<in> S" using assms(2) policyChecks_secret Inr x by (fastforce simp: ran_def)
  from signingKey_keeps [OF assms(1) this] Inr x
  show ?thesis by (simp add: VerifyPolicy_def Let_def case_prod_beta)
qed (simp add: VerifyPolicy_def assms)

lemma cache_reach_ok: "cache_reach S c \<Longrightarrow> cache_ok S c"
  by (induction rule: cache_reach.induct)
    (auto simp: Verify_keeps VerifyPolicy_keeps InvalidateSigningKeys_def)

text \<open>The signatures the code expects, computed from the secret without the cache.\<close>

definition signature_for :: "string \<Rightarrow> string \<Rightarrow> string \<Rightarrow> string \<Rightarrow> string \<Rightarrow> string" where
  "signature_for secret date region service sts =
     EncodeToString (hmacSHA256 (deriveSigningKey secret date region service) sts)"

lemma verifyHeader_cases:
  assumes "cache_ok S c" "inj_on secretFingerprint S" "ran (Resolver v) \<subseteq> S"
    and "headerChecks v r = Inr (a, t, secret)"
  shows "fst (verifyHeader v c r) =
    (let sts = stringToSign t (a_Region a) (a_Service a)
           (CanonicalRequest (Method r) (URL r) (cloneHeaderWithHost r) (a_SignedHeaders a) (headerPayloadHash r));
         sig = signature_for secret (a_Date a) (a_Region a) (a_Service a) sts;
         streaming = (headerPayloadHash r = StreamingPayload)
     in if a_Signature a \<noteq> sig then Inl ErrSignatureMismatch
        else Inr \<lparr>AccessKeyID = a_AccessKeyID a, Region = a_Region a, Service = a_Service a, Date = t,
              SignedHeaders = a_SignedHeaders a, PayloadHash = headerPayloadHash r, Presigned = False, Expires = 0,
              SigningKey = (if streaming then deriveSigningKey secret (a_Date a) (a_Region a) (a_Service a) else []),
              SeedSignature = (if streaming then sig else [])\<rparr>)"
proof -
  have "secret \<in> S" using headerChecks_secret [OF assms(4)] assms(3) by (auto simp: ran_def)
  from signingKey_derives [OF assms(1,2) this] show ?thesis
    by (simp add: verifyHeader_def assms(4) Let_def case_prod_beta signature_for_def)
qed

lemma verifyPresigned_cases:
  assumes "cache_ok S c" "inj_on secretFingerprint S" "ran (Resolver v) \<subseteq> S"
    and "presignedChecks v q = Inr (cs, t, e, secret)"
  shows "fst (verifyPresigned v c r q) =
    (let sh = ExtractSignedHeaders (values_Get q ''X-Amz-SignedHeaders'');
         clone = (URL r)\<lparr>RawQuery := values_Encode (filter (\<lambda>(k, vs). k \<noteq> ''X-Amz-Signature'') q)\<rparr>;
         sts = stringToSign t (cs ! 2) (cs ! 3) (CanonicalRequest (Method r) clone (cloneHeaderWithHost r) sh UnsignedPayload)
     in if ToLower (values_Get q ''X-Amz-Signature'') \<noteq> signature_for secret (cs ! 1) (cs ! 2) (cs ! 3) sts
        then Inl ErrSignatureMismatch
        else Inr \<lparr>AccessKeyID = cs ! 0, Region = cs ! 2, Service = cs ! 3, Date = t, SignedHeaders = sh,
              PayloadHash = UnsignedPayload, Presigned = True, Expires = e, SigningKey = [], SeedSignature = []\<rparr>)"
proof -
  have "secret \<in> S" using presignedChecks_secret [OF assms(4)] assms(3) by (auto simp: ran_def)
  from signingKey_derives [OF assms(1,2) this] show ?thesis
    by (simp add: verifyPresigned_def assms(4) Let_def case_prod_beta signature_for_def)
qed

lemma Verify_empty:
  assumes "cache_ok S c" "inj_on secretFingerprint S" "ran (Resolver v) \<subseteq> S"
  shows "fst (Verify v c r) = fst (Verify v Map.empty r)"
proof -
  have "fst (verifyHeader v c r) = fst (verifyHeader v Map.empty r)"
  proof (cases "headerChecks v r")
    case (Inr x)
    then show ?thesis
      using verifyHeader_cases [OF assms] verifyHeader_cases [OF cache_ok_empty assms(2,3)] by (cases x) simp
  qed (simp add: verifyHeader_def)
  moreover have "fst (verifyPresigned v c r q) = fst (verifyPresigned v Map.empty r q)" for q
  proof (cases "presignedChecks v q")
    case (Inr x)
    then show ?thesis
      using verifyPresigned_cases [OF assms] verifyPresigned_cases [OF cache_ok_empty assms(2,3)] by (cases x) simp
  qed (simp add: verifyPresigned_def)
  ultimately show ?thesis by (simp add: Verify_def Let_def)
qed

section \<open>What a signature covers\<close>

text \<open>The parts of a request that the two variants read, as one view: whether it is presigned, the
  credential scope, the presented signature, the query that is signed, and the text under the
  signature.\<close>

definition is_presigned :: "request \<Rightarrow> bool" where
  "is_presigned r \<longleftrightarrow> values_Get (Query (URL r)) ''X-Amz-Signature'' \<noteq> []"

definition header_auth :: "request \<Rightarrow> headerAuth" where
  "header_auth r = (case parseHeaderAuth (header_Get (Header r) ''Authorization'') of Inl e \<Rightarrow> zeroHeaderAuth | Inr a \<Rightarrow> a)"

definition credential_of :: "request \<Rightarrow> string list" where
  "credential_of r =
     (if is_presigned r then take 4 (Split (values_Get (Query (URL r)) ''X-Amz-Credential'') (CHR ''/''))
      else let a = header_auth r in [a_AccessKeyID a, a_Date a, a_Region a, a_Service a])"

definition presented_signature :: "request \<Rightarrow> string" where
  "presented_signature r =
     (if is_presigned r then ToLower (values_Get (Query (URL r)) ''X-Amz-Signature'') else a_Signature (header_auth r))"

definition signed_query :: "request \<Rightarrow> url_values" where
  "signed_query r =
     (if is_presigned r then filter (\<lambda>(k, vs). k \<noteq> ''X-Amz-Signature'') (Query (URL r)) else Query (URL r))"

definition signed_url :: "request \<Rightarrow> url" where
  "signed_url r = (if is_presigned r then (URL r)\<lparr>RawQuery := values_Encode (signed_query r)\<rparr> else URL r)"

definition signed_request :: "request \<Rightarrow> result \<Rightarrow> string" where
  "signed_request r res =
     CanonicalRequest (Method r) (signed_url r) (cloneHeaderWithHost r) (SignedHeaders res) (PayloadHash res)"

definition signed_sts :: "request \<Rightarrow> result \<Rightarrow> string" where
  "signed_sts r res = stringToSign (Date res) (Region res) (Service res) (signed_request r res)"

definition request_key :: "verifier \<Rightarrow> request \<Rightarrow> string" where
  "request_key v r =
     (let cs = credential_of r
      in deriveSigningKey (case Resolver v (cs ! 0) of Some s \<Rightarrow> s | None \<Rightarrow> []) (cs ! 1) (cs ! 2) (cs ! 3))"

lemmas request_view = presented_signature_def signed_query_def
  signed_url_def signed_request_def signed_sts_def request_key_def Let_def

lemma headerChecks_auth: "headerChecks v r = Inr (a, t, s) \<Longrightarrow> header_auth r = a"
  by (auto simp: headerChecks_def header_auth_def Let_def split: verify_splits)

lemma headerChecks_time:
  "headerChecks v r = Inr (a, t, s) \<Longrightarrow> dur_abs (time_Sub (Now v 0) t) \<le> skew v"
  by (auto simp: headerChecks_def Let_def split: verify_splits)

lemma presignedChecks_ok:
  assumes "presignedChecks v q = Inr (cs, t, e, s)"
  shows "cs = Split (values_Get q ''X-Amz-Credential'') (CHR ''/'')" "length cs = 5"
    "dur_abs (time_Sub (Now v 0) t) \<le> skew v" "Second \<le> e" "e \<le> 7 * 24 * 3600 * Second"
    "Now v 1 \<le> t + e"
proof -
  have w: "\<not> n < 1 \<Longrightarrow> \<not> 604800 < n \<Longrightarrow> wrap64 (n * Second) = n * Second" for n
    by (rule wrap64_id) (simp add: int64_range_def)
  from assms obtain n where "\<not> n < 1" "\<not> 604800 < n" "e = wrap64 (n * Second)" "\<not> time_After (Now v 1) (time_Add t e)"
    by (auto simp: presignedChecks_def Let_def split: verify_splits)
  then show "Second \<le> e" "e \<le> 7 * 24 * 3600 * Second" "Now v 1 \<le> t + e"
    by (simp_all add: w time_After_def time_Add_def)
  from assms show "cs = Split (values_Get q ''X-Amz-Credential'') (CHR ''/'')" "length cs = 5"
    "dur_abs (time_Sub (Now v 0) t) \<le> skew v"
    by (auto simp: presignedChecks_def Let_def split: verify_splits)
qed

text \<open>An accepted request carries the HMAC of its own canonical form under the key derived from
  the secret its access key resolves to.\<close>

lemma Verify_accepts:
  assumes ok: "cache_ok S c" "inj_on secretFingerprint S" "ran (Resolver v) \<subseteq> S"
    and acc: "fst (Verify v c r) = Inr res"
  shows "AccessKeyID res = credential_of r ! 0" "Resolver v (AccessKeyID res) \<noteq> None"
    "Region res = credential_of r ! 2" "Service res = credential_of r ! 3" "Presigned res = is_presigned r"
    "presented_signature r = EncodeToString (hmacSHA256 (request_key v r) (signed_sts r res))"
proof -
  have "AccessKeyID res = credential_of r ! 0 \<and> Resolver v (AccessKeyID res) \<noteq> None \<and>
    Region res = credential_of r ! 2 \<and> Service res = credential_of r ! 3 \<and> Presigned res = is_presigned r \<and>
    presented_signature r = EncodeToString (hmacSHA256 (request_key v r) (signed_sts r res))"
  proof (cases "is_presigned r")
    case True
    let ?q = "Query (URL r)"
    from acc True have vp: "fst (verifyPresigned v c r ?q) = Inr res" by (simp add: Verify_def is_presigned_def)
    then obtain cs t e s where ck: "presignedChecks v ?q = Inr (cs, t, e, s)"
      by (auto simp: verifyPresigned_def split: sum.splits prod.splits)
    note pc = presignedChecks_ok [OF ck] presignedChecks_secret [OF ck]
    have cr: "credential_of r = take 4 cs" using True pc(1) by (simp add: credential_of_def)
    show ?thesis
      using vp verifyPresigned_cases [OF ok ck, of r] True pc(2-)
      by (auto simp: cr request_view signature_for_def split: if_splits)
  next
    case False
    from acc False have vh: "fst (verifyHeader v c r) = Inr res" by (simp add: Verify_def is_presigned_def)
    then obtain a t s where ck: "headerChecks v r = Inr (a, t, s)"
      by (auto simp: verifyHeader_def split: sum.splits prod.splits)
    have cr: "credential_of r = [a_AccessKeyID a, a_Date a, a_Region a, a_Service a]"
      using False headerChecks_auth [OF ck] by (simp add: credential_of_def Let_def)
    show ?thesis
      using vh verifyHeader_cases [OF ok ck] False headerChecks_secret [OF ck] headerChecks_time [OF ck] headerChecks_auth [OF ck]
      by (auto simp: cr request_view signature_for_def split: if_splits)
  qed
  then show "AccessKeyID res = credential_of r ! 0" "Resolver v (AccessKeyID res) \<noteq> None"
    "Region res = credential_of r ! 2" "Service res = credential_of r ! 3" "Presigned res = is_presigned r"
    "presented_signature r = EncodeToString (hmacSHA256 (request_key v r) (signed_sts r res))"
    by blast+
qed

lemma canonicalQuery_signed_url: "canonicalQuery (Query (signed_url r)) = canonicalQuery (signed_query r)"
proof -
  let ?q = "filter (\<lambda>(k, vs). k \<noteq> ''X-Amz-Signature'') (Query (URL r))"
  have "distinct (map fst ?q)"
    using distinct_ParseQuery by (intro distinct_map_fst_filter) (simp add: Query_def)
  moreover have "(k, vs) \<in> set ?q \<Longrightarrow> vs \<noteq> []" for k vs
    using ParseQuery_nonempty by (auto simp: Query_def)
  ultimately show ?thesis
    using canonicalQuery_Encode [of ?q] by (simp add: signed_url_def signed_query_def Query_def)
qed

lemma distinct_signed_query: "distinct (map fst (signed_query r))"
  using distinct_ParseQuery by (auto simp: signed_query_def Query_def intro: distinct_map_fst_filter)

lemma stringToSign_inject_hash:
  "stringToSign t r s c = stringToSign t' r' s' c' \<Longrightarrow> HashCanonical c = HashCanonical c'"
proof -
  assume eq: "stringToSign t r s c = stringToSign t' r' s' c'"
  have tail: "take 64 (rev (stringToSign t r s c)) = rev (HashCanonical c)" for t r s c
    by (simp add: stringToSign_def HashCanonical_def Let_def length_sha256)
  from tail [of t r s c] tail [of t' r' s' c'] eq show ?thesis by simp
qed

lemma presented_inject:
  assumes "EncodeToString (hmacSHA256 k (signed_sts r res)) = EncodeToString (hmacSHA256 k' (signed_sts r' res'))"
    and "hmacSHA256 k (signed_sts r res) = hmacSHA256 k' (signed_sts r' res') \<Longrightarrow> signed_sts r res = signed_sts r' res'"
    and "sha256 (signed_request r res) = sha256 (signed_request r' res') \<Longrightarrow> signed_request r res = signed_request r' res'"
  shows "signed_request r res = signed_request r' res'"
proof -
  have "signed_sts r res = signed_sts r' res'" using assms(1,2) by simp
  then have "HashCanonical (signed_request r res) = HashCanonical (signed_request r' res')"
    unfolding signed_sts_def by (rule stringToSign_inject_hash)
  then show ?thesis using assms(3) by (simp add: HashCanonical_def)
qed

section \<open>An honest client's header signature\<close>

text \<open>The \<^verbatim>\<open>Authorization\<close> value an SDK builds, and a request signed with it.\<close>

definition authorization_value :: "string \<Rightarrow> string \<Rightarrow> string \<Rightarrow> string \<Rightarrow> string list \<Rightarrow> string \<Rightarrow> string" where
  "authorization_value akid date region service sh sig =
     Algorithm @ '' '' @ ''Credential='' @ Join [akid, date, region, service, ''aws4_request''] ''/''
       @ '', SignedHeaders='' @ Join sh '';'' @ '', Signature='' @ sig"

definition sign_header :: "request \<Rightarrow> string \<Rightarrow> string \<Rightarrow> string \<Rightarrow> string \<Rightarrow> string list \<Rightarrow> string \<Rightarrow> time \<Rightarrow> request" where
  "sign_header r akid date region service sh secret t =
     r\<lparr>Header := header_Set ''Authorization''
        (authorization_value akid date region service sh
          (signature_for secret date region service (stringToSign t region service
            (CanonicalRequest (Method r) (URL r) (cloneHeaderWithHost r) sh (headerPayloadHash r))))) (Header r)\<rparr>"

text \<open>Text that survives splitting at slashes and commas and trimming.\<close>

definition scope_clean :: "string \<Rightarrow> bool" where
  "scope_clean s \<longleftrightarrow> list_all (\<lambda>c. c \<noteq> CHR ''/'' \<and> c \<noteq> CHR '','' \<and> \<not> is_space c) s"

definition name_clean :: "string \<Rightarrow> bool" where
  "name_clean n \<longleftrightarrow> n \<noteq> [] \<and> ToLower n = n \<and> n \<noteq> ''authorization'' \<and>
     list_all (\<lambda>c. c \<noteq> CHR '';'' \<and> c \<noteq> CHR '','' \<and> \<not> is_space c) n"

lemma scope_cleanD: "scope_clean s \<Longrightarrow> CHR ''/'' \<notin> set s" "scope_clean s \<Longrightarrow> CHR '','' \<notin> set s"
  by (auto simp: scope_clean_def list_all_iff)

lemma TrimSpace_space: "is_space c \<Longrightarrow> TrimSpace (c # s) = TrimSpace s"
  by (simp add: TrimSpace_def)

lemma ExtractSignedHeaders_Join:
  assumes "sh \<noteq> []" "sorted sh" "\<And>n. n \<in> set sh \<Longrightarrow> name_clean n"
  shows "ExtractSignedHeaders (Join sh '';'') = sh"
proof -
  have s: "Split (Join sh '';'') (CHR '';'') = sh"
    using assms(1,3) by (intro Split_Join) (auto simp: name_clean_def list_all_iff)
  have "map (\<lambda>p. TrimSpace (ToLower p)) sh = sh"
    using assms(3) by (intro map_idI) (auto simp: name_clean_def list_all_iff intro: TrimSpace_id)
  moreover have "filter (\<lambda>p. p \<noteq> []) sh = sh"
    using assms(3) by (auto simp: name_clean_def filter_id_conv)
  ultimately show ?thesis using assms(2) by (simp add: ExtractSignedHeaders_def s sorted_sort_id)
qed

lemma parse_auth_credential:
  assumes "list_all scope_clean [akid, date, region, service]"
  shows "parse_auth_part a (''Credential='' @ Join [akid, date, region, service, ''aws4_request''] ''/'')
    = Inr (a\<lparr>a_AccessKeyID := akid, a_Date := date, a_Region := region, a_Service := service\<rparr>)"
proof -
  let ?cs = "[akid, date, region, service, ''aws4_request'']"
  let ?p = "''Credential='' @ Join ?cs ''/''"
  have "\<forall>s \<in> set ?cs. \<forall>c \<in> set s. \<not> is_space c" "\<not> is_space (CHR ''/'')"
    using assms by (simp_all add: scope_clean_def list_all_iff is_space_def)
  then have "\<not> is_space c" if "c \<in> set (Join ?cs ''/'')" for c
    using set_Join [OF that] by auto
  moreover have "\<forall>c \<in> set ''Credential=''. \<not> is_space c" by (simp add: is_space_def)
  ultimately have t: "TrimSpace ?p = ?p"
    by (intro TrimSpace_id) (metis UnE set_append)
  have i: "IndexByte ?p (CHR ''='') = Some 10"
    using IndexByte_append_mem [of "CHR ''=''" "''Credential''" "Join ?cs ''/''"] by simp
  have s: "Split (Join ?cs ''/'') (CHR ''/'') = ?cs"
  proof (rule Split_Join)
    have "\<forall>s \<in> set ?cs. CHR ''/'' \<notin> set s" using assms by (simp add: scope_cleanD)
    then show "s \<in> set ?cs \<Longrightarrow> CHR ''/'' \<notin> set s" for s by blast
  qed simp
  show ?thesis
    unfolding parse_auth_part_def t Let_def i option.case by (simp add: s del: Join.simps)
qed

lemma parse_auth_rest:
  assumes "\<forall>c \<in> set val. \<not> is_space c"
  shows "parse_auth_part a ('' SignedHeaders='' @ val) = Inr (a\<lparr>a_SignedHeaders := ExtractSignedHeaders val\<rparr>)"
    "parse_auth_part a ('' Signature='' @ val) = Inr (a\<lparr>a_Signature := ToLower val\<rparr>)"
proof -
  have t: "TrimSpace ((CHR '' '' # k) @ CHR ''='' # val) = k @ CHR ''='' # val"
    if "\<forall>c \<in> set k. \<not> is_space c" for k
    using that assms by (simp add: TrimSpace_space is_space_def) (intro TrimSpace_id, auto simp: is_space_def)
  have i: "IndexByte (k @ CHR ''='' # val) (CHR ''='') = Some (length k)" if "CHR ''='' \<notin> set k" for k
    using that by (rule IndexByte_append_mem)
  show "parse_auth_part a ('' SignedHeaders='' @ val) = Inr (a\<lparr>a_SignedHeaders := ExtractSignedHeaders val\<rparr>)"
    using t [of "''SignedHeaders''"] i [of "''SignedHeaders''"] by (simp add: parse_auth_part_def Let_def is_space_def)
  show "parse_auth_part a ('' Signature='' @ val) = Inr (a\<lparr>a_Signature := ToLower val\<rparr>)"
    using t [of "''Signature''"] i [of "''Signature''"] by (simp add: parse_auth_part_def Let_def is_space_def)
qed

lemma Split_authorization:
  assumes "list_all scope_clean [akid, date, region, service]" "\<And>n. n \<in> set sh \<Longrightarrow> name_clean n"
  shows "Split (''Credential='' @ Join [akid, date, region, service, ''aws4_request''] ''/''
       @ '', SignedHeaders='' @ Join sh '';'' @ '', Signature='' @ EncodeToString d) (CHR '','')
    = [''Credential='' @ Join [akid, date, region, service, ''aws4_request''] ''/'',
       '' SignedHeaders='' @ Join sh '';'', '' Signature='' @ EncodeToString d]"
proof -
  have "\<forall>s \<in> set [akid, date, region, service, ''aws4_request'']. CHR '','' \<notin> set s"
    using assms(1) by (simp add: scope_cleanD)
  then have c: "CHR '','' \<notin> set (Join [akid, date, region, service, ''aws4_request''] ''/'')"
    using set_Join [of "CHR '',''" "[akid, date, region, service, ''aws4_request'']" "''/''"] by auto
  have h: "CHR '','' \<notin> set (Join sh '';'')"
    using set_Join [of "CHR '',''" sh "'';''"] assms(2) by (auto simp: name_clean_def list_all_iff)
  have e: "CHR '','' \<notin> set (EncodeToString d)"
  proof
    assume "CHR '','' \<in> set (EncodeToString d)"
    then obtain n where "n < 16" "CHR '','' = hexL n" using set_EncodeToString by blast
    then have "ishex (CHR '','')" using hexL_ishex by metis
    then show False by (simp add: ishex_def)
  qed
  show ?thesis
    using Split_append_sep [of "CHR '',''" "''Credential='' @ Join [akid, date, region, service, ''aws4_request''] ''/''"
        "'' SignedHeaders='' @ Join sh '';'' @ '', Signature='' @ EncodeToString d"]
      Split_append_sep [of "CHR '',''" "'' SignedHeaders='' @ Join sh '';''" "'' Signature='' @ EncodeToString d"]
      Split_no_sep [of "CHR '',''" "'' Signature='' @ EncodeToString d"] c h e
    by (simp del: Join.simps)
qed

lemma parseHeaderAuth_value:
  assumes sc: "list_all scope_clean [akid, date, region, service]" and n: "\<And>n. n \<in> set sh \<Longrightarrow> name_clean n"
    and ne: "akid \<noteq> []" "sh \<noteq> []" "sorted sh" "d \<noteq> []"
  shows "parseHeaderAuth (authorization_value akid date region service sh (EncodeToString d)) =
    Inr \<lparr>a_AccessKeyID = akid, a_Date = date, a_Region = region, a_Service = service,
         a_SignedHeaders = sh, a_Signature = EncodeToString d\<rparr>"
proof -
  let ?rest = "''Credential='' @ Join [akid, date, region, service, ''aws4_request''] ''/'' @ '', SignedHeaders='' @ Join sh '';'' @ '', Signature='' @ EncodeToString d"
  have v: "authorization_value akid date region service sh (EncodeToString d) = (Algorithm @ '' '') @ ?rest"
    by (simp add: authorization_value_def)
  have sp: "\<forall>c \<in> set (Join sh '';''). \<not> is_space c"
  proof
    fix c assume "c \<in> set (Join sh '';'')"
    from set_Join [OF this] show "\<not> is_space c"
      using n by (auto simp: name_clean_def list_all_iff is_space_def)
  qed
  have sg: "\<forall>c \<in> set (EncodeToString d). \<not> is_space c"
    using set_EncodeToString space_hexL by blast
  have e: "EncodeToString d \<noteq> []" using ne(4) EncodeToString_inject [of d "[]"] by (simp add: EncodeToString_def)
  have "parse_auth_parts zeroHeaderAuth (Split ?rest (CHR '',''))
     = Inr \<lparr>a_AccessKeyID = akid, a_Date = date, a_Region = region, a_Service = service,
         a_SignedHeaders = sh, a_Signature = EncodeToString d\<rparr>"
    by (simp add: Split_authorization [OF sc n] parse_auth_credential [OF sc] parse_auth_rest [OF sp] parse_auth_rest [OF sg]
        ExtractSignedHeaders_Join [OF ne(2,3) n] zeroHeaderAuth_def del: Join.simps append.simps)
  moreover have "drop (length p) (p @ x) = x" for p x :: string by simp
  ultimately show ?thesis
    unfolding parseHeaderAuth_def v by (simp only: HasPrefix_append) (simp add: ne e)
qed

lemma header_Values_Set_other:
  assumes "ToLower k \<noteq> ToLower k'"
  shows "header_Values (header_Set k v h) k' = header_Values h k'"
proof -
  have "CanonicalHeaderKey k \<noteq> CanonicalHeaderKey k'" using assms by (metis ToLower_CanonicalHeaderKey)
  then show ?thesis by (simp add: header_Values_def header_Set_def lookup_or_def update_conv)
qed

lemma header_Get_Set_lower: "ToLower k \<noteq> ToLower k' \<Longrightarrow> header_Get (header_Set k v h) k' = header_Get h k'"
  by (simp add: header_Get_def header_Values_Set_other)

lemma header_Values_Set: "header_Values (header_Set k v h) k' =
  (if CanonicalHeaderKey k = CanonicalHeaderKey k' then [v] else header_Values h k')"
  by (simp add: header_Values_def header_Set_def lookup_or_def update_conv)

lemma clone_header_Set:
  assumes "ToLower n \<noteq> ToLower k" "ToLower k \<noteq> ''host''" "ToLower k \<noteq> ''content-length''"
  shows "header_Values (cloneHeaderWithHost (r\<lparr>Header := header_Set k v (Header r)\<rparr>)) n
    = header_Values (cloneHeaderWithHost r) n"
proof -
  have "ToLower ''Host'' = ''host''" "ToLower ''Content-Length'' = ''content-length''"
    by code_simp+
  with assms have "header_Get (header_Set k v h) ''Host'' = header_Get h ''Host''"
    "header_Get (header_Set k v h) ''Content-Length'' = header_Get h ''Content-Length''"
    "header_Get (header_Set ''Host'' w (header_Set k v h)) ''Content-Length'' = header_Get (header_Set ''Host'' w h) ''Content-Length''"
    for h w
    by (simp_all add: header_Get_Set_lower)
  moreover have "CanonicalHeaderKey k \<noteq> CanonicalHeaderKey n" using assms(1) by (metis ToLower_CanonicalHeaderKey)
  ultimately show ?thesis
    by (simp add: cloneHeaderWithHost_def Let_def header_Values_Set)
qed

lemma CanonicalRequest_cong:
  assumes "\<And>n. n \<in> set sh \<Longrightarrow> canonicalHeaderValue h n = canonicalHeaderValue h' n"
  shows "CanonicalRequest m u h sh p = CanonicalRequest m u h' sh p"
proof -
  have "header_lines h sh = header_lines h' sh" using assms by (simp add: header_lines_def)
  then show ?thesis by (simp add: CanonicalRequest_lines)
qed

lemma sign_header_views:
  assumes "\<And>n. n \<in> set sh \<Longrightarrow> name_clean n"
  shows "header_Get (Header (r\<lparr>Header := header_Set ''Authorization'' v (Header r)\<rparr>)) ''X-Amz-Date'' = header_Get (Header r) ''X-Amz-Date''"
    "header_Get (Header (r\<lparr>Header := header_Set ''Authorization'' v (Header r)\<rparr>)) ''Date'' = header_Get (Header r) ''Date''"
    "headerPayloadHash (r\<lparr>Header := header_Set ''Authorization'' v (Header r)\<rparr>) = headerPayloadHash r"
    "CanonicalRequest m u (cloneHeaderWithHost (r\<lparr>Header := header_Set ''Authorization'' v (Header r)\<rparr>)) sh p
      = CanonicalRequest m u (cloneHeaderWithHost r) sh p"
proof -
  have l: "ToLower ''Authorization'' = ''authorization''" "ToLower ''X-Amz-Date'' = ''x-amz-date''"
     "ToLower ''Date'' = ''date''" "ToLower ''X-Amz-Content-Sha256'' = ''x-amz-content-sha256''"
    by code_simp+
  show "header_Get (Header (r\<lparr>Header := header_Set ''Authorization'' v (Header r)\<rparr>)) ''X-Amz-Date'' = header_Get (Header r) ''X-Amz-Date''"
    "header_Get (Header (r\<lparr>Header := header_Set ''Authorization'' v (Header r)\<rparr>)) ''Date'' = header_Get (Header r) ''Date''"
    "headerPayloadHash (r\<lparr>Header := header_Set ''Authorization'' v (Header r)\<rparr>) = headerPayloadHash r"
    by (simp_all add: l header_Get_Set_lower headerPayloadHash_def)
  show "CanonicalRequest m u (cloneHeaderWithHost (r\<lparr>Header := header_Set ''Authorization'' v (Header r)\<rparr>)) sh p
      = CanonicalRequest m u (cloneHeaderWithHost r) sh p"
  proof (rule CanonicalRequest_cong)
    fix n assume "n \<in> set sh"
    then have "ToLower (CanonicalHeaderKey n) \<noteq> ToLower ''Authorization''"
      using assms [of n] by (simp add: name_clean_def l)
    from clone_header_Set [OF this] show "canonicalHeaderValue (cloneHeaderWithHost (r\<lparr>Header := header_Set ''Authorization'' v (Header r)\<rparr>)) n =
      canonicalHeaderValue (cloneHeaderWithHost r) n"
      by (simp add: canonicalHeaderValue_def l)
  qed
qed

text \<open>The checks pass on a request signed by an honest client whose clock agrees.\<close>

lemma headerChecks_sign_header:
  assumes "list_all scope_clean [akid, date, region, service]" "\<And>n. n \<in> set sh \<Longrightarrow> name_clean n"
    "akid \<noteq> []" "sh \<noteq> []" "sorted sh"
    and t: "parseDate v (if header_Get (Header r) ''X-Amz-Date'' = [] then header_Get (Header r) ''Date''
        else header_Get (Header r) ''X-Amz-Date'') = Some t"
    and s: "dur_abs (time_Sub (Now v 0) t) \<le> skew v" "Resolver v akid = Some secret"
  shows "headerChecks v (sign_header r akid date region service sh secret t) =
    Inr (\<lparr>a_AccessKeyID = akid, a_Date = date, a_Region = region, a_Service = service, a_SignedHeaders = sh,
          a_Signature = signature_for secret date region service (stringToSign t region service
            (CanonicalRequest (Method r) (URL r) (cloneHeaderWithHost r) sh (headerPayloadHash r)))\<rparr>, t, secret)"
proof -
  have d: "hmacSHA256 k m \<noteq> []" for k m using length_hmacSHA256 [of k m] by auto
  have "authorization_value akid date region service sh x \<noteq> []" for x
    by (simp add: authorization_value_def Algorithm_def)
  then show ?thesis
    using s
    by (simp add: headerChecks_def sign_header_def sign_header_views(1,2) [OF assms(2), simplified] t [unfolded if_distrib] signature_for_def
        parseHeaderAuth_value [OF assms(1-5) d] Let_def t cong: if_cong)
qed

lemma Verify_sign_header:
  assumes ok: "cache_ok S c" "inj_on secretFingerprint S" "ran (Resolver v) \<subseteq> S"
    and h: "list_all scope_clean [akid, date, region, service]" "\<And>n. n \<in> set sh \<Longrightarrow> name_clean n"
    "akid \<noteq> []" "sh \<noteq> []" "sorted sh"
    "parseDate v (if header_Get (Header r) ''X-Amz-Date'' = [] then header_Get (Header r) ''Date''
        else header_Get (Header r) ''X-Amz-Date'') = Some t"
    "dur_abs (time_Sub (Now v 0) t) \<le> skew v" "Resolver v akid = Some secret"
    and np: "\<not> is_presigned r"
  shows "\<exists>res. fst (Verify v c (sign_header r akid date region service sh secret t)) = Inr res
    \<and> AccessKeyID res = akid \<and> Region res = region \<and> Service res = service \<and> Date res = t
    \<and> SignedHeaders res = sh \<and> PayloadHash res = headerPayloadHash r \<and> \<not> Presigned res"
proof -
  let ?r = "sign_header r akid date region service sh secret t"
  have "values_Get (Query (URL ?r)) ''X-Amz-Signature'' = []"
    using np by (simp add: is_presigned_def sign_header_def)
  then have "fst (Verify v c ?r) = fst (verifyHeader v c ?r)" by (simp add: Verify_def Let_def)
  moreover have m: "Method ?r = Method r" "URL ?r = URL r" by (simp_all add: sign_header_def)
  have "headerPayloadHash ?r = headerPayloadHash r"
    "CanonicalRequest (Method r) (URL r) (cloneHeaderWithHost ?r) sh (headerPayloadHash r) =
     CanonicalRequest (Method r) (URL r) (cloneHeaderWithHost r) sh (headerPayloadHash r)"
    unfolding sign_header_def by (simp_all add: sign_header_views(3,4) [OF h(2)])
  ultimately show ?thesis
    by (simp add: verifyHeader_cases [OF ok headerChecks_sign_header [OF h]] m Let_def)
qed

section \<open>Time\<close>

lemma dur_abs_Sub:
  assumes "0 < k" "k < 2 ^ 63 - 1"
  shows "dur_abs (time_Sub now t) \<le> k \<longleftrightarrow> \<bar>now - t\<bar> \<le> k \<or> now - t \<le> - (2 ^ 63)"
proof -
  consider "now - t \<le> - (2 ^ 63)" | "- (2 ^ 63) < now - t" "now - t < 0" | "0 \<le> now - t" "now - t < 2 ^ 63" | "2 ^ 63 \<le> now - t"
    by linarith
  then show ?thesis
  proof cases
    case 1
    then have "time_Sub now t = - (2 ^ 63)"
      by (auto simp: time_Sub_def int64_range_def minDuration_def)
    then show ?thesis using 1 assms by (simp add: dur_abs_def wrap64_def)
  next
    case 2
    then have "wrap64 (- (now - t)) = t - now"
      by (subst wrap64_id) (auto simp: int64_range_def)
    moreover have "time_Sub now t = now - t" using 2 by (simp add: time_Sub_def int64_range_def)
    ultimately show ?thesis using 2 by (simp add: dur_abs_def)
  next
    case 3
    then show ?thesis by (simp add: time_Sub_def int64_range_def dur_abs_def)
  next
    case 4
    then show ?thesis using assms by (simp add: time_Sub_def int64_range_def maxDuration_def dur_abs_def)
  qed
qed

lemma Verify_time:
  assumes "fst (Verify v c r) = Inr res"
  shows "dur_abs (time_Sub (Now v 0) (Date res)) \<le> skew v"
    "Presigned res \<Longrightarrow> Second \<le> Expires res \<and> Expires res \<le> 7 * 24 * 3600 * Second \<and> Now v 1 \<le> Date res + Expires res"
proof -
  have "dur_abs (time_Sub (Now v 0) (Date res)) \<le> skew v \<and>
    (Presigned res \<longrightarrow> Second \<le> Expires res \<and> Expires res \<le> 7 * 24 * 3600 * Second \<and> Now v 1 \<le> Date res + Expires res)"
  proof (cases "is_presigned r")
    case True
    from assms True have vp: "fst (verifyPresigned v c r (Query (URL r))) = Inr res" by (simp add: Verify_def is_presigned_def)
    then obtain cs t e s where ck: "presignedChecks v (Query (URL r)) = Inr (cs, t, e, s)"
      by (auto simp: verifyPresigned_def split: sum.splits prod.splits)
    then show ?thesis using vp presignedChecks_ok [OF ck]
      by (auto simp: verifyPresigned_def Let_def split: prod.splits if_splits)
  next
    case False
    from assms False have vh: "fst (verifyHeader v c r) = Inr res" by (simp add: Verify_def is_presigned_def)
    then obtain a t s where ck: "headerChecks v r = Inr (a, t, s)"
      by (auto simp: verifyHeader_def split: sum.splits prod.splits)
    then show ?thesis using vh headerChecks_time [OF ck]
      by (auto simp: verifyHeader_def Let_def split: prod.splits if_splits)
  qed
  then show "dur_abs (time_Sub (Now v 0) (Date res)) \<le> skew v"
    "Presigned res \<Longrightarrow> Second \<le> Expires res \<and> Expires res \<le> 7 * 24 * 3600 * Second \<and> Now v 1 \<le> Date res + Expires res"
    by blast+
qed

section \<open>A concrete client\<close>

definition ex_url :: url where
  "ex_url = \<lparr>Scheme = [], UHost = [], Path = ''/photos/cat.png'', RawPath = [], RawQuery = ''versionId=7''\<rparr>"

definition ex_request :: request where
  "ex_request = \<lparr>Method = ''GET'', URL = ex_url, Host = ''s3.example.com'',
     Header = [(''X-Amz-Date'', [''20260301T120000Z'']), (''Accept'', [''*/*''])],
     ContentLength = 0, Body = ([], None), RemoteAddr = ''10.0.0.1:4000'', TLS = False\<rparr>"

definition ex_now :: time where
  "ex_now = civil_time 2026 3 1 12 1 0 0"

definition ex_verifier :: verifier where
  "ex_verifier = \<lparr>Resolver = [''AKIA'' \<mapsto> ''s3cr3t''], Now = (\<lambda>i. ex_now), MaxSkew = 0, ParseRFC1123 = (\<lambda>s. None)\<rparr>"

definition ex_signed :: "request \<Rightarrow> time \<Rightarrow> request" where
  "ex_signed r t = sign_header r ''AKIA'' ''20260301'' ''us-east-1'' ''s3'' [''host'', ''x-amz-date''] ''s3cr3t'' t"

lemma ex_ran: "ran (Resolver ex_verifier) = {''s3cr3t''}"
  by (simp add: ex_verifier_def)

lemma ex_skew: "skew ex_verifier = 900000000000"
  by (simp add: skew_def ex_verifier_def MaxClockSkew_def)

lemma ex_clean: "list_all scope_clean [''AKIA'', ''20260301'', ''us-east-1'', ''s3'']"
    "n \<in> set [''host'', ''x-amz-date''] \<Longrightarrow> name_clean n" "sorted [''host'', ''x-amz-date'']"
proof -
  show "list_all scope_clean [''AKIA'', ''20260301'', ''us-east-1'', ''s3'']" by code_simp
  have "list_all name_clean [''host'', ''x-amz-date'']" by code_simp
  then show "n \<in> set [''host'', ''x-amz-date''] \<Longrightarrow> name_clean n" by (simp only: list_all_iff)
  show "sorted [''host'', ''x-amz-date'']" by code_simp
qed

text \<open>The same request with an unsigned header changed.\<close>

definition ex_request2 :: request where
  "ex_request2 = ex_request\<lparr>Header := header_Set ''Accept'' ''text/html'' (Header ex_request)\<rparr>"

lemma ex_date: "header_Get (Header ex_request) ''X-Amz-Date'' = ''20260301T120000Z''"
    "header_Get (Header ex_request2) ''X-Amz-Date'' = ''20260301T120000Z''"
    "parse_basic ''20260301T120000Z'' = Some (ex_now - Minute)"
  by code_simp+

lemma ex_not_presigned: "\<not> is_presigned ex_request" "\<not> is_presigned ex_request2"
  by code_simp+

lemma ex_checks:
  assumes "header_Get (Header r) ''X-Amz-Date'' = ''20260301T120000Z''"
  shows "parseDate ex_verifier (if header_Get (Header r) ''X-Amz-Date'' = [] then header_Get (Header r) ''Date''
      else header_Get (Header r) ''X-Amz-Date'') = Some (ex_now - Minute)"
    "dur_abs (time_Sub (Now ex_verifier 0) (ex_now - Minute)) \<le> skew ex_verifier"
    "Resolver ex_verifier ''AKIA'' = Some ''s3cr3t''"
proof -
  show "parseDate ex_verifier (if header_Get (Header r) ''X-Amz-Date'' = [] then header_Get (Header r) ''Date''
      else header_Get (Header r) ''X-Amz-Date'') = Some (ex_now - Minute)"
    by (simp add: assms ex_date parseDate_def)
  show "dur_abs (time_Sub (Now ex_verifier 0) (ex_now - Minute)) \<le> skew ex_verifier"
    by (simp add: ex_skew dur_abs_Sub) (simp add: ex_verifier_def)
  show "Resolver ex_verifier ''AKIA'' = Some ''s3cr3t''" by (simp add: ex_verifier_def)
qed

lemma ex_accepted:
  assumes "header_Get (Header r) ''X-Amz-Date'' = ''20260301T120000Z''" "\<not> is_presigned r"
  shows "\<exists>res. fst (Verify ex_verifier Map.empty (ex_signed r (ex_now - Minute))) = Inr res
    \<and> AccessKeyID res = ''AKIA'' \<and> Region res = ''us-east-1'' \<and> Service res = ''s3'' \<and> Date res = ex_now - Minute
    \<and> SignedHeaders res = [''host'', ''x-amz-date''] \<and> PayloadHash res = headerPayloadHash r \<and> \<not> Presigned res"
  unfolding ex_signed_def
  by (rule Verify_sign_header [of "{''s3cr3t''}", OF cache_ok_empty _ _ ex_clean(1,2) _ _ ex_clean(3) ex_checks [OF assms(1)] assms(2)])
    (simp_all add: ex_ran)

lemma presented_sign_header:
  assumes "header_Get (Header r) ''X-Amz-Date'' = ''20260301T120000Z''" "\<not> is_presigned r"
  shows "presented_signature (ex_signed r (ex_now - Minute)) =
    signature_for ''s3cr3t'' ''20260301'' ''us-east-1'' ''s3'' (stringToSign (ex_now - Minute) ''us-east-1'' ''s3''
      (CanonicalRequest (Method r) (URL r) (cloneHeaderWithHost r) [''host'', ''x-amz-date''] (headerPayloadHash r)))"
proof -
  have "\<not> is_presigned (ex_signed r (ex_now - Minute))"
    using assms(2) by (simp add: is_presigned_def ex_signed_def sign_header_def)
  moreover have "''AKIA'' \<noteq> []" "[''host'', ''x-amz-date''] \<noteq> []" by simp_all
  from headerChecks_auth [OF headerChecks_sign_header [OF ex_clean(1,2) this ex_clean(3) ex_checks [OF assms(1)]]]
  have "a_Signature (header_auth (ex_signed r (ex_now - Minute))) = signature_for ''s3cr3t'' ''20260301'' ''us-east-1'' ''s3'' (stringToSign (ex_now - Minute) ''us-east-1'' ''s3''
      (CanonicalRequest (Method r) (URL r) (cloneHeaderWithHost r) [''host'', ''x-amz-date''] (headerPayloadHash r)))"
    by (simp add: ex_signed_def)
  ultimately show ?thesis by (simp add: presented_signature_def)
qed

lemma ex_views:
  shows "SignedHeaders res = [''host'', ''x-amz-date''] \<Longrightarrow> PayloadHash res = headerPayloadHash r \<Longrightarrow> \<not> is_presigned r \<Longrightarrow>
     signed_request (ex_signed r t) res
      = CanonicalRequest (Method r) (URL r) (cloneHeaderWithHost r) [''host'', ''x-amz-date''] (headerPayloadHash r)"
    "n \<in> set [''host'', ''x-amz-date''] \<Longrightarrow>
      canonicalHeaderValue (cloneHeaderWithHost (ex_signed r t)) n = canonicalHeaderValue (cloneHeaderWithHost r) n"
    "Method (ex_signed r t) = Method r"
proof -
  have cc: "CanonicalRequest m u (cloneHeaderWithHost (r\<lparr>Header := header_Set ''Authorization'' v (Header r)\<rparr>)) [''host'', ''x-amz-date''] p
      = CanonicalRequest m u (cloneHeaderWithHost r) [''host'', ''x-amz-date''] p" for m u v p
    by (rule sign_header_views(4)) (rule ex_clean(2))
  show "SignedHeaders res = [''host'', ''x-amz-date''] \<Longrightarrow> PayloadHash res = headerPayloadHash r \<Longrightarrow> \<not> is_presigned r \<Longrightarrow>
     signed_request (ex_signed r t) res
      = CanonicalRequest (Method r) (URL r) (cloneHeaderWithHost r) [''host'', ''x-amz-date''] (headerPayloadHash r)"
    by (simp add: signed_request_def ex_signed_def sign_header_def signed_url_def is_presigned_def cc)
  have "ToLower ''Authorization'' = ''authorization''" by code_simp
  then show "n \<in> set [''host'', ''x-amz-date''] \<Longrightarrow>
      canonicalHeaderValue (cloneHeaderWithHost (ex_signed r t)) n = canonicalHeaderValue (cloneHeaderWithHost r) n"
    using clone_header_Set [of "CanonicalHeaderKey n" "''Authorization''"] ex_clean(2) [of n]
    by (simp add: ex_signed_def sign_header_def canonicalHeaderValue_def name_clean_def)
  show "Method (ex_signed r t) = Method r" by (simp add: ex_signed_def sign_header_def)
qed

lemma ex_canon_clean:
  assumes "SignedHeaders res = [''host'', ''x-amz-date'']" "PayloadHash res = headerPayloadHash r"
    and "list_all (\<lambda>n. newline \<notin> set (canonicalHeaderValue (cloneHeaderWithHost r) n)) [''host'', ''x-amz-date'']"
    "newline \<notin> set (Method r)" "newline \<notin> set (headerPayloadHash r)"
  shows "canon_clean (Method (ex_signed r t)) (cloneHeaderWithHost (ex_signed r t)) (SignedHeaders res) (PayloadHash res)"
proof -
  have "list_all (\<lambda>n. newline \<notin> set n \<and> CHR '';'' \<notin> set n \<and> n \<noteq> []) [''host'', ''x-amz-date'']" by code_simp
  with assms(3-) show ?thesis
    using ex_views(2) [of _ r t] unfolding canon_clean_def assms(1,2) list_all_iff by (simp add: ex_views(3))
qed

section \<open>Properties\<close>

text \<open>C2: Soundness of signature verification. Whatever sequence of verifications (under resolvers
  whose secrets have distinct fingerprints) and invalidations produced the key cache, a request
  that \<^verbatim>\<open>Verify\<close> accepts names an access key the resolver knows, and the signature it presents is
  the hex HMAC-SHA256 of its own string to sign under the key derived from that secret and the
  credential scope it names. The result reports that access key, region and service.\<close>

theorem verify_sound:
  assumes "cache_reach S c" "inj_on secretFingerprint S" "ran (Resolver v) \<subseteq> S"
    and "fst (Verify v c r) = Inr res"
  shows "Resolver v (AccessKeyID res) \<noteq> None
    \<and> [AccessKeyID res, Region res, Service res] = [credential_of r ! 0, credential_of r ! 2, credential_of r ! 3]
    \<and> presented_signature r = EncodeToString (hmacSHA256 (request_key v r) (signed_sts r res))"
  using Verify_accepts [OF cache_reach_ok [OF assms(1)] assms(2-4)] by auto

theorem verify_sound_witness:
  "\<exists>res. presented_signature (ex_signed ex_request (ex_now - Minute)) =
     EncodeToString (hmacSHA256 (request_key ex_verifier (ex_signed ex_request (ex_now - Minute)))
       (signed_sts (ex_signed ex_request (ex_now - Minute)) res))"
  using ex_accepted [OF ex_date(1) ex_not_presigned(1)] verify_sound [OF reach_init, of "{''s3cr3t''}" ex_verifier "ex_signed ex_request (ex_now - Minute)"]
  by (auto simp: ex_ran)

text \<open>C28: The signing-key cache is transparent. On every reachable cache the verdict of \<^verbatim>\<open>Verify\<close>
  and of \<^verbatim>\<open>VerifyPolicy\<close> is the verdict with an empty cache, so a rotated secret takes effect at
  once and a key derived from the old secret is never used, provided that the 64-bit FNV
  fingerprints of the secrets in use differ.\<close>

theorem cache_transparent:
  assumes "cache_reach S c" "inj_on secretFingerprint S" "ran (Resolver v) \<subseteq> S"
  shows "fst (Verify v c r) = fst (Verify v Map.empty r) \<and> fst (VerifyPolicy v c a) = fst (VerifyPolicy v Map.empty a)"
proof
  note ok = cache_reach_ok [OF assms(1)]
  show "fst (Verify v c r) = fst (Verify v Map.empty r)" by (rule Verify_empty [OF ok assms(2,3)])
  show "fst (VerifyPolicy v c a) = fst (VerifyPolicy v Map.empty a)"
  proof (cases "policyChecks v a")
    case (Inr x)
    obtain cs t s where x: "x = (cs, t, s)" by (cases x)
    have "s \<in> S" using assms(3) policyChecks_secret Inr x by (fastforce simp: ran_def)
    from signingKey_derives [OF ok assms(2) this] Inr x
    show ?thesis by (simp add: VerifyPolicy_def Let_def case_prod_beta signingKey_empty)
  qed (simp add: VerifyPolicy_def)
qed

theorem cache_transparent_witness:
  "fst (Verify (ex_verifier\<lparr>Resolver := [''AKIA'' \<mapsto> ''rotated'']\<rparr>)
      (snd (Verify ex_verifier Map.empty (ex_signed ex_request (ex_now - Minute)))) ex_request)
   = fst (Verify (ex_verifier\<lparr>Resolver := [''AKIA'' \<mapsto> ''rotated'']\<rparr>) Map.empty ex_request)"
proof -
  have "cache_reach {''s3cr3t'', ''rotated''} (snd (Verify ex_verifier Map.empty (ex_signed ex_request (ex_now - Minute))))"
    by (rule reach_verify [OF reach_init]) (simp add: ex_ran)
  moreover have "secretFingerprint ''s3cr3t'' \<noteq> secretFingerprint ''rotated''" by code_simp
  then have "inj_on secretFingerprint {''s3cr3t'', ''rotated''}" by (simp add: eq_commute)
  ultimately show ?thesis
    using cache_transparent [of "{''s3cr3t'', ''rotated''}" _ "ex_verifier\<lparr>Resolver := [''AKIA'' \<mapsto> ''rotated'']\<rparr>"] by simp
qed

text \<open>C6: Tamper evidence. If two accepted requests present the same signature, and neither HMAC nor
  SHA-256 collides on the two texts, then they agree on the method, the path, every signed query
  parameter (all but \<^verbatim>\<open>X-Amz-Signature\<close> of a presigned URL), the list of signed headers and the
  value of each of them, and the payload hash.\<close>

theorem tamper_evident:
  assumes "cache_reach S c" "inj_on secretFingerprint S" "ran (Resolver v) \<subseteq> S"
    and "fst (Verify v c r) = Inr res" "fst (Verify v c r') = Inr res'"
    and "presented_signature r = presented_signature r'"
    and "hmacSHA256 (request_key v r) (signed_sts r res) = hmacSHA256 (request_key v r') (signed_sts r' res')
      \<Longrightarrow> signed_sts r res = signed_sts r' res'"
    and "sha256 (signed_request r res) = sha256 (signed_request r' res') \<Longrightarrow> signed_request r res = signed_request r' res'"
    and "canon_clean (Method r) (cloneHeaderWithHost r) (SignedHeaders res) (PayloadHash res)"
    and "canon_clean (Method r') (cloneHeaderWithHost r') (SignedHeaders res') (PayloadHash res')"
  shows "ToUpper (Method r) = ToUpper (Method r')
    \<and> canonicalURI (EscapedPath (signed_url r)) = canonicalURI (EscapedPath (signed_url r'))
    \<and> (\<forall>k. mset (lookup_or [] (signed_query r) k) = mset (lookup_or [] (signed_query r') k))
    \<and> SignedHeaders res = SignedHeaders res'
    \<and> (\<forall>n \<in> set (SignedHeaders res).
         canonicalHeaderValue (cloneHeaderWithHost r) n = canonicalHeaderValue (cloneHeaderWithHost r') n)
    \<and> PayloadHash res = PayloadHash res'"
proof -
  note ok = cache_reach_ok [OF assms(1)] assms(2,3)
  have "EncodeToString (hmacSHA256 (request_key v r) (signed_sts r res))
      = EncodeToString (hmacSHA256 (request_key v r') (signed_sts r' res'))"
    using Verify_accepts(6) [OF ok assms(4)] Verify_accepts(6) [OF ok assms(5)] assms(6) by simp
  then have "signed_request r res = signed_request r' res'"
    by (rule presented_inject) (use assms(7,8) in blast)+
  note b = CanonicalRequest_binds [OF this [unfolded signed_request_def] assms(9,10)]
  have "canonicalQuery (signed_query r) = canonicalQuery (signed_query r')"
    using b(3) by (simp add: canonicalQuery_signed_url)
  from canonicalQuery_binds [OF this distinct_signed_query distinct_signed_query] b
  show ?thesis by blast
qed

theorem tamper_evident_witness:
  "\<exists>res res'. fst (Verify ex_verifier Map.empty (ex_signed ex_request (ex_now - Minute))) = Inr res
     \<and> fst (Verify ex_verifier Map.empty (ex_signed ex_request2 (ex_now - Minute))) = Inr res'
     \<and> Header ex_request \<noteq> Header ex_request2
     \<and> canonicalURI (EscapedPath (signed_url (ex_signed ex_request (ex_now - Minute))))
       = canonicalURI (EscapedPath (signed_url (ex_signed ex_request2 (ex_now - Minute))))
     \<and> SignedHeaders res = SignedHeaders res'"
proof -
  let ?t = "ex_now - Minute" and ?sh = "[''host'', ''x-amz-date'']"
  let ?r = "ex_signed ex_request ?t" and ?r2 = "ex_signed ex_request2 ?t"
  obtain res where acc: "fst (Verify ex_verifier Map.empty ?r) = Inr res"
    and res: "SignedHeaders res = ?sh" "PayloadHash res = headerPayloadHash ex_request"
      "Date res = ?t" "Region res = ''us-east-1''" "Service res = ''s3''"
    using ex_accepted [OF ex_date(1) ex_not_presigned(1)] by blast
  obtain res2 where acc2: "fst (Verify ex_verifier Map.empty ?r2) = Inr res2"
    and res2: "SignedHeaders res2 = ?sh" "PayloadHash res2 = headerPayloadHash ex_request2"
      "Date res2 = ?t" "Region res2 = ''us-east-1''" "Service res2 = ''s3''"
    using ex_accepted [OF ex_date(2) ex_not_presigned(2)] by blast
  have eqs: "list_all (\<lambda>n. canonicalHeaderValue (cloneHeaderWithHost ex_request) n = canonicalHeaderValue (cloneHeaderWithHost ex_request2) n) ?sh"
    "headerPayloadHash ex_request = headerPayloadHash ex_request2" "Method ex_request = Method ex_request2"
    "Header ex_request \<noteq> Header ex_request2"
    by code_simp+
  then have same: "CanonicalRequest (Method ex_request) (URL ex_request) (cloneHeaderWithHost ex_request) ?sh (headerPayloadHash ex_request)
     = CanonicalRequest (Method ex_request2) (URL ex_request2) (cloneHeaderWithHost ex_request2) ?sh (headerPayloadHash ex_request2)"
    by (auto simp: ex_request2_def list_all_iff intro: CanonicalRequest_cong)
  then have sr: "signed_request ?r res = signed_request ?r2 res2"
    using ex_views(1) [OF res(1,2) ex_not_presigned(1)] ex_views(1) [OF res2(1,2) ex_not_presigned(2)] by simp
  then have sts: "signed_sts ?r res = signed_sts ?r2 res2" by (simp add: signed_sts_def res res2)
  have ps: "presented_signature ?r = presented_signature ?r2"
    using presented_sign_header [OF ex_date(1) ex_not_presigned(1)] presented_sign_header [OF ex_date(2) ex_not_presigned(2)] same by simp
  have cl: "canon_clean (Method ?r) (cloneHeaderWithHost ?r) (SignedHeaders res) (PayloadHash res)"
    by (rule ex_canon_clean [OF res(1,2)]; code_simp)
  have cl2: "canon_clean (Method ?r2) (cloneHeaderWithHost ?r2) (SignedHeaders res2) (PayloadHash res2)"
    by (rule ex_canon_clean [OF res2(1,2)]; code_simp)
  from tamper_evident [OF reach_init _ _ acc acc2 ps sts sr cl cl2, of "{''s3cr3t''}"]
  show ?thesis using acc acc2 eqs(4) by (auto simp: ex_ran)
qed

text \<open>C29: Completeness for honest clients. A request signed the way an SDK signs it, with sorted
  lower-case signed headers, a known access key, a credential scope without separators and a date
  within the allowed skew, is accepted whatever the reachable cache, and the result carries the
  access key, scope, date, signed headers and payload hash of the request.\<close>

theorem verify_complete:
  assumes "cache_reach S c" "inj_on secretFingerprint S" "ran (Resolver v) \<subseteq> S"
    and "list_all scope_clean [akid, date, region, service]" "\<forall>n \<in> set sh. name_clean n"
    "akid \<noteq> []" "sh \<noteq> []" "sorted sh"
    and "parseDate v (if header_Get (Header r) ''X-Amz-Date'' = [] then header_Get (Header r) ''Date''
        else header_Get (Header r) ''X-Amz-Date'') = Some t"
    and "\<bar>Now v 0 - t\<bar> \<le> skew v" "skew v < 2 ^ 63 - 1" "Resolver v akid = Some secret" "\<not> is_presigned r"
  shows "\<exists>res. fst (Verify v c (sign_header r akid date region service sh secret t)) = Inr res
    \<and> AccessKeyID res = akid \<and> Region res = region \<and> Service res = service \<and> Date res = t
    \<and> SignedHeaders res = sh \<and> PayloadHash res = headerPayloadHash r \<and> \<not> Presigned res"
proof -
  have "0 < skew v" by (simp add: skew_def MaxClockSkew_def)
  then have "dur_abs (time_Sub (Now v 0) t) \<le> skew v" using assms(10,11) by (simp add: dur_abs_Sub)
  with assms show ?thesis by (intro Verify_sign_header [OF cache_reach_ok [OF assms(1)] assms(2,3)]) blast+
qed

theorem verify_complete_witness:
  "\<exists>res. fst (Verify ex_verifier Map.empty (ex_signed ex_request (ex_now - Minute))) = Inr res \<and> AccessKeyID res = ''AKIA''"
proof -
  have "list_all name_clean [''host'', ''x-amz-date'']" by code_simp
  then have "\<forall>n \<in> set [''host'', ''x-amz-date'']. name_clean n" by (simp only: list_all_iff)
  moreover have "\<bar>Now ex_verifier 0 - (ex_now - Minute)\<bar> \<le> skew ex_verifier" "skew ex_verifier < 2 ^ 63 - 1"
    by (simp_all add: ex_skew) (simp add: ex_verifier_def)
  ultimately have "\<exists>res. fst (Verify ex_verifier Map.empty (ex_signed ex_request (ex_now - Minute))) = Inr res
    \<and> AccessKeyID res = ''AKIA'' \<and> Region res = ''us-east-1'' \<and> Service res = ''s3'' \<and> Date res = ex_now - Minute
    \<and> SignedHeaders res = [''host'', ''x-amz-date''] \<and> PayloadHash res = headerPayloadHash ex_request \<and> \<not> Presigned res"
    unfolding ex_signed_def
    by (intro verify_complete [of "{''s3cr3t''}", OF reach_init _ _ ex_clean(1) _ _ _ ex_clean(3) ex_checks(1) [OF ex_date(1)] _ _ ex_checks(3) [OF ex_date(1)] ex_not_presigned(1)])
      (simp_all add: ex_ran)
  then show ?thesis by blast
qed

text \<open>The time window of accepted requests. The signing time lies within the configured skew of
  the clock, or at least \<open>2^63\<close> nanoseconds in the future, where the saturated difference is the
  smallest duration and its negation wraps around. An accepted presigned URL has an expiry between
  one second and seven days and has not expired; the skew applies to it as well, so it is refused
  more than the skew after its signing time however long its expiry.\<close>

theorem verify_window:
  assumes "fst (Verify v c r) = Inr res" "skew v < 2 ^ 63 - 1"
  shows "(\<bar>Now v 0 - Date res\<bar> \<le> skew v \<or> Now v 0 - Date res \<le> - (2 ^ 63))
    \<and> (Presigned res \<longrightarrow> Second \<le> Expires res \<and> Expires res \<le> 7 * 24 * 3600 * Second
         \<and> Now v 1 \<le> Date res + Expires res)"
proof -
  have "0 < skew v" by (simp add: skew_def MaxClockSkew_def)
  with Verify_time [OF assms(1)] dur_abs_Sub [of "skew v" "Now v 0" "Date res"] assms(2) show ?thesis by auto
qed

theorem verify_window_witness:
  "\<exists>res. fst (Verify ex_verifier Map.empty (ex_signed ex_request (ex_now - Minute))) = Inr res
     \<and> (\<bar>ex_now - Date res\<bar> \<le> 15 * Minute \<or> ex_now - Date res \<le> - (2 ^ 63))"
proof -
  obtain res where "fst (Verify ex_verifier Map.empty (ex_signed ex_request (ex_now - Minute))) = Inr res"
    using ex_accepted [OF ex_date(1) ex_not_presigned(1)] by blast
  moreover from verify_window [OF this] have "\<bar>ex_now - Date res\<bar> \<le> 15 * Minute \<or> ex_now - Date res \<le> - (2 ^ 63)"
    by (simp add: ex_skew) (simp add: ex_verifier_def)
  ultimately show ?thesis by blast
qed

text \<open>The clock-skew check lets dates in the far future through: with the clock in the year 2026 and
  the default skew of 15 minutes, a request dated in the year 9999 passes the checks.\<close>

definition ex_future :: request where
  "ex_future = ex_request\<lparr>Header := [(''X-Amz-Date'', [''99991231T235959Z''])]\<rparr>"

theorem far_future_accepted:
  "\<exists>res. fst (Verify ex_verifier Map.empty (ex_signed ex_future (civil_time 9999 12 31 23 59 59 0))) = Inr res
    \<and> Date res = civil_time 9999 12 31 23 59 59 0"
proof -
  let ?t = "civil_time 9999 12 31 23 59 59 0"
  have d: "header_Get (Header ex_future) ''X-Amz-Date'' = ''99991231T235959Z''"
    "parse_basic ''99991231T235959Z'' = Some ?t" "\<not> is_presigned ex_future" "ex_now - ?t \<le> - (2 ^ 63)"
    by code_simp+
  have "parseDate ex_verifier (if header_Get (Header ex_future) ''X-Amz-Date'' = [] then header_Get (Header ex_future) ''Date''
      else header_Get (Header ex_future) ''X-Amz-Date'') = Some ?t"
    by (simp add: d parseDate_def)
  moreover have "dur_abs (time_Sub (Now ex_verifier 0) ?t) \<le> skew ex_verifier"
    using d(4) by (simp add: ex_skew dur_abs_Sub) (simp add: ex_verifier_def)
  ultimately have "\<exists>res. fst (Verify ex_verifier Map.empty (ex_signed ex_future ?t)) = Inr res
    \<and> AccessKeyID res = ''AKIA'' \<and> Region res = ''us-east-1'' \<and> Service res = ''s3'' \<and> Date res = ?t
    \<and> SignedHeaders res = [''host'', ''x-amz-date''] \<and> PayloadHash res = headerPayloadHash ex_future \<and> \<not> Presigned res"
    unfolding ex_signed_def
    by (intro Verify_sign_header [of "{''s3cr3t''}", OF cache_ok_empty _ _ ex_clean(1,2) _ _ ex_clean(3) _ _ ex_checks(3) [OF ex_date(1)] d(3)])
      (simp_all add: ex_ran)
  then show ?thesis by blast
qed

lemma VerifyPolicy_iff:
  assumes "cache_ok S c" "inj_on secretFingerprint S" "ran (Resolver v) \<subseteq> S"
  shows "fst (VerifyPolicy v c a) = Inr pr \<longleftrightarrow>
    (\<exists>cs t secret. policyChecks v a = Inr (cs, t, secret) \<and> cs = Split (p_Credential a) (CHR ''/'')
       \<and> Resolver v (cs ! 0) = Some secret \<and> format_date t = cs ! 1
       \<and> ToLower (p_Signature a) = signature_for secret (cs ! 1) (cs ! 2) (cs ! 3) (p_Policy a)
       \<and> pr = \<lparr>pr_AccessKeyID = cs ! 0, pr_Region = cs ! 2, pr_Service = cs ! 3, pr_Date = t\<rparr>)"
proof (cases "policyChecks v a")
  case (Inr x)
  obtain cs t s where x: "x = (cs, t, s)" by (cases x)
  have s: "Resolver v (cs ! 0) = Some s" using policyChecks_secret Inr x by simp
  then have "s \<in> S" using assms(3) by (auto simp: ran_def)
  note k = signingKey_derives [OF assms(1) assms(2) this]
  have "cs = Split (p_Credential a) (CHR ''/'')" "format_date t = cs ! 1"
    using Inr x by (auto simp: policyChecks_def Let_def split: verify_splits)
  then show ?thesis
    using Inr x s k by (auto simp: VerifyPolicy_def Let_def case_prod_beta signature_for_def split: if_splits)
qed (simp add: VerifyPolicy_def)

text \<open>POST-policy verification. \<^verbatim>\<open>VerifyPolicy\<close> accepts exactly the forms that pass the shape, time
  and credential checks and whose signature, lower-cased, is the hex HMAC of the base64 policy
  under the key of the resolved secret; the credential date is then the day of the form's date.\<close>

theorem policy_accepts_iff:
  assumes "cache_reach S c" "inj_on secretFingerprint S" "ran (Resolver v) \<subseteq> S"
  shows "fst (VerifyPolicy v c a) = Inr pr \<longleftrightarrow>
    (\<exists>cs t secret. policyChecks v a = Inr (cs, t, secret) \<and> cs = Split (p_Credential a) (CHR ''/'')
       \<and> Resolver v (cs ! 0) = Some secret \<and> format_date t = cs ! 1
       \<and> ToLower (p_Signature a) = signature_for secret (cs ! 1) (cs ! 2) (cs ! 3) (p_Policy a)
       \<and> pr = \<lparr>pr_AccessKeyID = cs ! 0, pr_Region = cs ! 2, pr_Service = cs ! 3, pr_Date = t\<rparr>)"
  by (rule VerifyPolicy_iff [OF cache_reach_ok [OF assms(1)] assms(2,3)])

definition ex_policy :: PolicyAuth where
  "ex_policy = \<lparr>p_Algorithm = Algorithm, p_Credential = ''AKIA/20260301/us-east-1/s3/aws4_request'',
     p_Date = ''20260301T120000Z'',
     p_Signature = signature_for ''s3cr3t'' ''20260301'' ''us-east-1'' ''s3'' ''e30='', p_Policy = ''e30=''\<rparr>"

theorem policy_accepts_iff_witness:
  "fst (VerifyPolicy ex_verifier Map.empty ex_policy) =
     Inr \<lparr>pr_AccessKeyID = ''AKIA'', pr_Region = ''us-east-1'', pr_Service = ''s3'', pr_Date = ex_now - Minute\<rparr>"
proof -
  have cs: "Split ''AKIA/20260301/us-east-1/s3/aws4_request'' (CHR ''/'') = [''AKIA'', ''20260301'', ''us-east-1'', ''s3'', ''aws4_request'']"
    "format_date (ex_now - Minute) = ''20260301''"
    by code_simp+
  have "signature_for s d r z m \<noteq> []" for s d r z m
  proof -
    have "length (signature_for s d r z m) = 64" by (simp add: signature_for_def length_hmacSHA256)
    then show ?thesis by auto
  qed
  moreover have "dur_abs (time_Sub (Now ex_verifier 0) (ex_now - Minute)) \<le> skew ex_verifier"
    by (rule ex_checks(2) [OF ex_date(1)])
  ultimately have "policyChecks ex_verifier ex_policy = Inr ([''AKIA'', ''20260301'', ''us-east-1'', ''s3'', ''aws4_request''], ex_now - Minute, ''s3cr3t'')"
    using ex_checks(3) [OF ex_date(1)]
    by (simp add: policyChecks_def ex_policy_def cs cs(2) [simplified] Let_def ex_date parseDate_def)
  moreover have "ToLower (p_Signature ex_policy) = p_Signature ex_policy"
    by (simp add: ex_policy_def signature_for_def)
  ultimately show ?thesis
    using ex_checks(3) [OF ex_date(1)]
    by (subst policy_accepts_iff [OF reach_init, of "{''s3cr3t''}"]) (simp_all add: ex_ran ex_policy_def cs cs(2) [simplified])
qed

end
