(* ===== verification/Chunked.thy ===== *)
theory Chunked
  imports Verifier
begin

text \<open>
  \<^verbatim>\<open>internal/sigv4verifier/chunked.go\<close>: the readers that decode \<^verbatim>\<open>aws-chunked\<close> bodies, with a
  signature on every chunk (\<^verbatim>\<open>STREAMING-AWS4-HMAC-SHA256-PAYLOAD\<close>) or without
  (\<^verbatim>\<open>STREAMING-UNSIGNED-PAYLOAD-TRAILER\<close>). A reader is a record with the buffered input and the bytes of
  the current chunk. The two readers have the same \<^verbatim>\<open>Read\<close> method over different \<^verbatim>\<open>readNextChunk\<close>
  methods, so \<open>Read\<close> takes that method as an argument; the contract it relies on is the locale
  \<open>chunk_source\<close>, interpreted for both. \<open>ReadAll\<close> reads to the first error the way \<^verbatim>\<open>io.ReadAll\<close> does.
  The loops are partial functions and are proved to return: a chunk consumes at least its header.
\<close>

section \<open>Buffered input\<close>

datatype io_err = io_EOF | io_ErrUnexpectedEOF | io_Other string

definition stream_end :: "stream \<Rightarrow> io_err" where
  "stream_end s = (case snd s of None \<Rightarrow> io_EOF | Some e \<Rightarrow> io_Other e)"

text \<open>\<^verbatim>\<open>bufio.Reader.ReadString\<close> up to and including a line feed, and \<^verbatim>\<open>io.ReadFull\<close>.\<close>

definition ReadString :: "stream \<Rightarrow> (io_err + string) \<times> stream" where
  "ReadString s =
     (case IndexByte (fst s) newline of
        Some i \<Rightarrow> (Inr (take (Suc i) (fst s)), (drop (Suc i) (fst s), snd s))
      | None \<Rightarrow> (Inl (stream_end s), ([], snd s)))"

definition ReadFull :: "nat \<Rightarrow> stream \<Rightarrow> (io_err + string) \<times> stream" where
  "ReadFull n s =
     (if n \<le> length (fst s) then (Inr (take n (fst s)), (drop n (fst s), snd s))
      else (Inl (if stream_end s = io_EOF \<and> fst s \<noteq> [] then io_ErrUnexpectedEOF else stream_end s), ([], snd s)))"

section \<open>Readers\<close>

text \<open>\<open>ReadErr\<close> wraps an error of the input with what was being read.\<close>

datatype cerr =
    ChunkVerifyError string
  | ReadErr string io_err
  | SizeLimit int

definition emptySHA256 :: string where
  "emptySHA256 = ''e3b0c44298fc1c149afbf4c8996fb92427ae41e4649b934ca495991b7852b855''"

text \<open>The fields both readers have, and those of the signed one.\<close>

record reader =
  br :: stream
  pending :: string
  rdone :: bool
  rerr :: "cerr option"

record chunkedReader = reader +
  signing_key :: string
  prevSig :: string
  cr_region :: string
  cr_service :: string
  cr_date :: time

section \<open>The Read method\<close>

datatype read_result = Data string | Eof | Fault cerr

partial_function (option) fill ::
  "('a reader_scheme \<Rightarrow> cerr option \<times> 'a reader_scheme) \<Rightarrow> 'a reader_scheme \<Rightarrow> (cerr option \<times> 'a reader_scheme) option" where
  "fill next c =
     (if pending c = [] \<and> \<not> rdone c then
        (case next c of
           (Some e, c') \<Rightarrow> Some (Some e, c'\<lparr>rerr := Some e\<rparr>)
         | (None, c') \<Rightarrow> fill next c')
      else Some (None, c))"

text \<open>\<^verbatim>\<open>Read(p)\<close> with \<open>n = len(p)\<close>.\<close>

definition Read ::
  "('a reader_scheme \<Rightarrow> cerr option \<times> 'a reader_scheme) \<Rightarrow> nat \<Rightarrow> 'a reader_scheme \<Rightarrow> (read_result \<times> 'a reader_scheme) option" where
  "Read next n c =
     (case rerr c of Some e \<Rightarrow> Some (Fault e, c)
      | None \<Rightarrow>
        (case fill next c of
           None \<Rightarrow> None
         | Some (Some e, c') \<Rightarrow> Some (Fault e, c')
         | Some (None, c') \<Rightarrow>
             if rdone c' \<and> pending c' = [] then Some (Eof, c')
             else Some (Data (take n (pending c')), c'\<lparr>pending := drop n (pending c')\<rparr>)))"

text \<open>Reading to the end with a buffer of \<open>Suc n\<close> bytes: the data, the error unless it was end of
  file, and the final state.\<close>

partial_function (option) ReadAll ::
  "('a reader_scheme \<Rightarrow> cerr option \<times> 'a reader_scheme) \<Rightarrow> nat \<Rightarrow> 'a reader_scheme \<Rightarrow> (string \<times> cerr option \<times> 'a reader_scheme) option" where
  "ReadAll next n c =
     (case Read next (Suc n) c of
        None \<Rightarrow> None
      | Some (Data d, c') \<Rightarrow> Option.bind (ReadAll next n c') (\<lambda>(ds, r, cf). Some (d @ ds, r, cf))
      | Some (Eof, c') \<Rightarrow> Some ([], None, c')
      | Some (Fault e, c') \<Rightarrow> Some ([], Some e, c'))"

declare fill.simps [code] ReadAll.simps [code]

text \<open>The chunks that successive calls of \<open>next\<close> hand over.\<close>

inductive run :: "('a reader_scheme \<Rightarrow> cerr option \<times> 'a reader_scheme) \<Rightarrow> 'a reader_scheme \<Rightarrow> string list \<Rightarrow> 'a reader_scheme \<Rightarrow> bool"
  for "next" where
  run_nil: "run next c [] c"
| run_step: "\<not> rdone c \<Longrightarrow> next c = (None, c1) \<Longrightarrow> run next (c1\<lparr>pending := []\<rparr>) ds c2 \<Longrightarrow> run next c (pending c1 # ds) c2"

locale chunk_source =
  fixes "next" :: "'a reader_scheme \<Rightarrow> cerr option \<times> 'a reader_scheme"
  assumes next_consumes: "next c = (None, c') \<Longrightarrow> length (fst (br c')) < length (fst (br c))"
    and next_progress: "next c = (None, c') \<Longrightarrow> rdone c' \<or> pending c' \<noteq> []"
    and next_rerr: "next c = (None, c') \<Longrightarrow> rerr c' = rerr c"
begin

lemma fill_idle: "pending c \<noteq> [] \<or> rdone c \<Longrightarrow> fill next c = Some (None, c)"
  by (subst fill.simps) auto

lemma fill_ok: "pending c = [] \<Longrightarrow> \<not> rdone c \<Longrightarrow> next c = (None, c') \<Longrightarrow> fill next c = Some (None, c')"
  using next_progress [of c c'] fill_idle [of c'] by (subst fill.simps) auto

lemma fill_err: "pending c = [] \<Longrightarrow> \<not> rdone c \<Longrightarrow> next c = (Some e, c') \<Longrightarrow> fill next c = Some (Some e, c'\<lparr>rerr := Some e\<rparr>)"
  by (subst fill.simps) auto

text \<open>Every call of \<^verbatim>\<open>Read\<close> returns.\<close>

lemma Read_returns: "\<exists>res c'. Read next n c = Some (res, c')"
proof (cases "pending c \<noteq> [] \<or> rdone c")
  case True
  then show ?thesis by (auto simp: Read_def fill_idle split: option.splits)
next
  case False
  then show ?thesis
    using fill_ok [of c] fill_err [of c]
    by (cases "next c"; cases "fst (next c)") (auto simp: Read_def split: option.splits)
qed

lemma ReadAll_pending:
  assumes "rerr c = None"
  shows "ReadAll next n c =
    Option.bind (ReadAll next n (c\<lparr>pending := []\<rparr>)) (\<lambda>(ds, r, cf). Some (pending c @ ds, r, cf))"
  using assms
proof (induction "length (pending c)" arbitrary: c rule: less_induct)
  case less
  show ?case
  proof (cases "pending c = []")
    case True
    then have eq: "c\<lparr>pending := []\<rparr> = c" by simp
    show ?thesis unfolding eq using True by (cases "ReadAll next n c") auto
  next
    case False
    let ?c = "c\<lparr>pending := drop (Suc n) (pending c)\<rparr>"
    have "Read next (Suc n) c = Some (Data (take (Suc n) (pending c)), ?c)"
      using False less.prems by (simp add: Read_def fill_idle)
    then have "ReadAll next n c = Option.bind (ReadAll next n ?c) (\<lambda>(ds, r, cf). Some (take (Suc n) (pending c) @ ds, r, cf))"
      by (subst ReadAll.simps) simp
    moreover have "length (pending ?c) < length (pending c)" using False by simp
    moreover have "rerr ?c = None" using less.prems by simp
    ultimately have "ReadAll next n c = Option.bind (Option.bind (ReadAll next n (c\<lparr>pending := []\<rparr>))
       (\<lambda>(ds, r, cf). Some (pending ?c @ ds, r, cf))) (\<lambda>(ds, r, cf). Some (take (Suc n) (pending c) @ ds, r, cf))"
      using less.hyps [of ?c] by simp
    also have "\<dots> = Option.bind (ReadAll next n (c\<lparr>pending := []\<rparr>)) (\<lambda>(ds, r, cf). Some (pending c @ ds, r, cf))"
    proof (cases "ReadAll next n (c\<lparr>pending := []\<rparr>)")
      case (Some x)
      then show ?thesis by (cases x) (simp del: append_assoc add: append_assoc [symmetric])
    qed simp
    finally show ?thesis .
  qed
qed

lemma ReadAll_step:
  assumes "rerr c = None" "pending c = []" "\<not> rdone c" "next c = (None, c')"
  shows "ReadAll next n c = Option.bind (ReadAll next n (c'\<lparr>pending := []\<rparr>)) (\<lambda>(ds, r, cf). Some (pending c' @ ds, r, cf))"
proof -
  have "Read next (Suc n) c = Read next (Suc n) c'"
    using assms fill_ok [OF assms(2-4)] next_progress [OF assms(4)] next_rerr [OF assms(4)] by (auto simp: Read_def fill_idle)
  then have "ReadAll next n c = ReadAll next n c'" by (subst (1 2) ReadAll.simps) simp
  then show ?thesis using ReadAll_pending [of c' n] next_rerr [OF assms(4)] assms(1) by simp
qed

text \<open>Reading to the end returns, and delivers exactly the chunks of a run of \<open>next\<close> that ends in
  the terminator or in the error that is reported.\<close>

lemma ReadAll_run:
  assumes "rerr c = None" "pending c = []"
  shows "\<exists>ds r c1 cf. ReadAll next n c = Some (concat ds, r, cf) \<and> run next c ds c1 \<and>
    (case r of None \<Rightarrow> rdone c1 \<and> cf = c1 | Some e \<Rightarrow> \<not> rdone c1 \<and> (\<exists>c2. next c1 = (Some e, c2)))"
  using assms
proof (induction "length (fst (br c))" arbitrary: c rule: less_induct)
  case less
  consider "rdone c" | e c' where "\<not> rdone c" "next c = (Some e, c')" | c' where "\<not> rdone c" "next c = (None, c')"
    by (cases "next c"; cases "fst (next c)") auto
  then show ?case
  proof cases
    case 1
    then have "ReadAll next n c = Some ([], None, c)"
      using less.prems by (subst ReadAll.simps) (simp add: Read_def fill_idle)
    then show ?thesis using 1 run_nil [of "next" c] by (intro exI [of _ "[]"] exI [of _ None]) auto
  next
    case 2
    then have "ReadAll next n c = Some ([], Some e, c'\<lparr>rerr := Some e\<rparr>)"
      using less.prems fill_err [of c] by (subst ReadAll.simps) (simp add: Read_def)
    then show ?thesis using 2 run_nil [of "next" c] by (intro exI [of _ "[]"] exI [of _ "Some e"]) auto
  next
    case 3
    have "length (fst (br (c'\<lparr>pending := []\<rparr>))) < length (fst (br c))" using next_consumes [OF 3(2)] by simp
    moreover have "rerr (c'\<lparr>pending := []\<rparr>) = None" "pending (c'\<lparr>pending := []\<rparr>) = []"
      using next_rerr [OF 3(2)] less.prems by simp_all
    ultimately obtain ds r c1 cf where IH: "ReadAll next n (c'\<lparr>pending := []\<rparr>) = Some (concat ds, r, cf)"
      "run next (c'\<lparr>pending := []\<rparr>) ds c1"
      "case r of None \<Rightarrow> rdone c1 \<and> cf = c1 | Some e \<Rightarrow> \<not> rdone c1 \<and> (\<exists>c2. next c1 = (Some e, c2))"
      using less.hyps by blast
    have "ReadAll next n c = Some (concat (pending c' # ds), r, cf)"
      using ReadAll_step [OF less.prems 3] IH(1) by simp
    then show ?thesis using run_step [of c "next", OF 3 IH(2)] IH(3) by blast
  qed
qed

text \<open>Conversely every run that ends in the terminator is what reading to the end delivers.\<close>

lemma run_ReadAll:
  "run next c ds c1 \<Longrightarrow> rerr c = None \<Longrightarrow> pending c = [] \<Longrightarrow> rdone c1 \<Longrightarrow> pending c1 = [] \<Longrightarrow>
    ReadAll next n c = Some (concat ds, None, c1)"
proof (induction rule: run.induct)
  case (run_nil c)
  then show ?case by (subst ReadAll.simps) (simp add: Read_def fill_idle)
next
  case (run_step c c1 ds c2)
  then show ?case using ReadAll_step [of c c1 n] next_rerr [OF run_step(2)] by simp
qed

end

section \<open>Signed chunks\<close>

definition NewChunkedReader :: "stream \<Rightarrow> string \<Rightarrow> string \<Rightarrow> string \<Rightarrow> string \<Rightarrow> time \<Rightarrow> chunkedReader" where
  "NewChunkedReader body key seedSignature region service date =
     \<lparr>br = body, pending = [], rdone = False, rerr = None,
      signing_key = key, prevSig = seedSignature, cr_region = region, cr_service = service, cr_date = date\<rparr>"

definition maxChunkSize :: int where
  "maxChunkSize = 67108864"

abbreviation CRLF :: string where
  "CRLF \<equiv> [CHR 0x0D, newline]"

definition parseChunkHeader :: "string \<Rightarrow> cerr + (int \<times> string)" where
  "parseChunkHeader line =
     (case IndexByte line (CHR '';'') of
        None \<Rightarrow> Inl (ChunkVerifyError ''chunk header missing signature extension'')
      | Some semi \<Rightarrow>
          (case ParseInt 16 (TrimSpace (take semi line)) of
             None \<Rightarrow> Inl (ChunkVerifyError ''chunk size not a non-negative hex integer'')
           | Some sz \<Rightarrow>
               if sz < 0 then Inl (ChunkVerifyError ''chunk size not a non-negative hex integer'')
               else (let ext = TrimSpace (drop (semi + 1) line)
                     in if \<not> HasPrefix ext ''chunk-signature='' then Inl (ChunkVerifyError ''chunk extension must be chunk-signature'')
                        else (let signature = ToLower (TrimSpace (drop (length ''chunk-signature='') ext))
                              in if DecodeString signature = None then Inl (ChunkVerifyError ''chunk signature not hex'')
                                 else Inr (sz, signature)))))"

definition chunk_sts :: "chunkedReader \<Rightarrow> string \<Rightarrow> string" where
  "chunk_sts c data =
     (let payload = sha256 data;
          scope = format_date (cr_date c) @ ''/'' @ cr_region c @ ''/'' @ cr_service c @ ''/aws4_request''
      in ''AWS4-HMAC-SHA256-PAYLOAD'' @ [newline] @ format_basic (cr_date c) @ [newline] @ scope @ [newline]
         @ prevSig c @ [newline] @ emptySHA256 @ [newline] @ EncodeToString payload)"

definition chunk_verify :: "chunkedReader \<Rightarrow> string \<Rightarrow> string \<Rightarrow> cerr option" where
  "chunk_verify c data presented =
     (let expected = EncodeToString (hmacSHA256 (signing_key c) (chunk_sts c data))
      in if expected \<noteq> presented then Some (ChunkVerifyError ''chunk signature mismatch'') else None)"

definition readNextChunk :: "chunkedReader \<Rightarrow> cerr option \<times> chunkedReader" where
  "readNextChunk c =
     (case ReadString (br c) of
        (Inl e, s) \<Rightarrow> (Some (ReadErr ''read chunk header'' e), c\<lparr>br := s\<rparr>)
      | (Inr header0, s) \<Rightarrow>
     (let header = TrimRight header0 CRLF
      in case parseChunkHeader header of Inl e \<Rightarrow> (Some e, c\<lparr>br := s\<rparr>)
      | Inr (sz, sig) \<Rightarrow>
      if maxChunkSize < sz then (Some (SizeLimit sz), c\<lparr>br := s\<rparr>)
      else case (if 0 < sz then ReadFull (nat sz) s else (Inr [], s)) of
        (Inl e, s') \<Rightarrow> (Some (ReadErr ''read chunk data'' e), c\<lparr>br := s'\<rparr>)
      | (Inr data, s') \<Rightarrow>
      (case ReadFull 2 s' of
        (Inl e, s'') \<Rightarrow> (Some (ReadErr ''read chunk terminator'' e), c\<lparr>br := s''\<rparr>)
      | (Inr crlf, s'') \<Rightarrow>
      if crlf ! 0 \<noteq> CHR 0x0D \<or> crlf ! 1 \<noteq> newline
      then (Some (ChunkVerifyError ''missing chunk CRLF terminator''), c\<lparr>br := s''\<rparr>)
      else case chunk_verify c data sig of Some e \<Rightarrow> (Some e, c\<lparr>br := s''\<rparr>)
      | None \<Rightarrow> (None, c\<lparr>br := s'', prevSig := sig, pending := data, rdone := (rdone c \<or> sz = 0)\<rparr>))))"

lemma ReadString_consumes: "ReadString s = (Inr x, s') \<Longrightarrow> length (fst s') < length (fst s)"
  by (auto simp: ReadString_def split: option.splits dest!: IndexByte_SomeD)

lemma ReadFull_consumes: "ReadFull n s = (Inr x, s') \<Longrightarrow> length (fst s') + n = length (fst s) \<and> length x = n"
  by (auto simp: ReadFull_def split: if_splits)

text \<open>What a successful step of the reader does: it consumes input, and the chunk it hands over
  verified against the previous signature.\<close>

lemma readNextChunk_ok:
  assumes "readNextChunk c = (None, c')"
  shows "length (fst (br c')) < length (fst (br c))"
    "prevSig c' = EncodeToString (hmacSHA256 (signing_key c) (chunk_sts c (pending c')))"
    "rdone c' \<longleftrightarrow> rdone c \<or> pending c' = []"
    "c' = c\<lparr>br := br c', prevSig := prevSig c', pending := pending c', rdone := rdone c'\<rparr>"
    "int (length (pending c')) \<le> maxChunkSize"
proof -
  from assms obtain header0 s where 1: "ReadString (br c) = (Inr header0, s)"
    by (auto simp: readNextChunk_def split: prod.splits sum.splits)
  with assms obtain sz sig where 2: "parseChunkHeader (TrimRight header0 CRLF) = Inr (sz, sig)" "\<not> maxChunkSize < sz"
    by (auto simp: readNextChunk_def split: prod.splits sum.splits if_splits)
  with assms 1 obtain data s' where 3: "(if 0 < sz then ReadFull (nat sz) s else (Inr [], s)) = (Inr data, s')"
    by (auto simp: readNextChunk_def split: prod.splits sum.splits)
  with assms 1 2 obtain crlf s'' where 4: "ReadFull 2 s' = (Inr crlf, s'')"
    by (auto simp: readNextChunk_def split: prod.splits sum.splits)
  have v: "chunk_verify c data sig = None"
    and c': "c' = c\<lparr>br := s'', prevSig := sig, pending := data, rdone := (rdone c \<or> sz = 0)\<rparr>"
    using assms 1 2 3 4 by (auto simp: readNextChunk_def split: if_splits option.splits)
  have "0 \<le> sz" using 2(1) by (auto simp: parseChunkHeader_def Let_def split: option.splits if_splits)
  moreover have "length data = nat sz \<and> length (fst s') \<le> length (fst s)"
    using 3 ReadFull_consumes [of "nat sz" s data s'] \<open>0 \<le> sz\<close> by (auto split: if_splits)
  ultimately show "length (fst (br c')) < length (fst (br c))"
    "prevSig c' = EncodeToString (hmacSHA256 (signing_key c) (chunk_sts c (pending c')))"
    "rdone c' \<longleftrightarrow> rdone c \<or> pending c' = []"
    "c' = c\<lparr>br := br c', prevSig := prevSig c', pending := pending c', rdone := rdone c'\<rparr>"
    "int (length (pending c')) \<le> maxChunkSize"
    using ReadString_consumes [OF 1] ReadFull_consumes [OF 4] v 2(2)
    by (auto simp: c' chunk_verify_def Let_def split: if_splits)
qed

interpretation signed: chunk_source readNextChunk
proof
  fix c c' :: chunkedReader
  assume "readNextChunk c = (None, c')"
  note ok = readNextChunk_ok [OF this]
  show "length (fst (br c')) < length (fst (br c))" by (rule ok(1))
  show "rdone c' \<or> pending c' \<noteq> []" using ok(3) by blast
  show "rerr c' = rerr c" by (subst ok(4)) simp
qed

definition chunkedReader_Read :: "nat \<Rightarrow> chunkedReader \<Rightarrow> (read_result \<times> chunkedReader) option" where
  "chunkedReader_Read = Read readNextChunk"

section \<open>Unsigned chunks\<close>

type_synonym unsignedChunkedReader = reader

definition NewUnsignedChunkedReader :: "stream \<Rightarrow> unsignedChunkedReader" where
  "NewUnsignedChunkedReader body = \<lparr>br = body, pending = [], rdone = False, rerr = None\<rparr>"

text \<open>The trailer lines up to a blank line; a missing final line break is tolerated.\<close>

function drainTrailer :: "stream \<Rightarrow> cerr option \<times> stream" where
  "drainTrailer s =
     (case ReadString s of
        (Inl e, s') \<Rightarrow> if e = io_EOF then (None, s') else (Some (ReadErr ''read trailer'' e), s')
      | (Inr line, s') \<Rightarrow> if TrimRight line CRLF = [] then (None, s') else drainTrailer s')"
  by pat_completeness auto
termination
  by (relation "measure (\<lambda>s. length (fst s))") (auto dest: ReadString_consumes [OF sym])

declare drainTrailer.simps [simp del]

definition readNextChunkUnsigned :: "unsignedChunkedReader \<Rightarrow> cerr option \<times> unsignedChunkedReader" where
  "readNextChunkUnsigned c =
     (case ReadString (br c) of
        (Inl e, s) \<Rightarrow> (Some (ReadErr ''read chunk header'' e), c\<lparr>br := s\<rparr>)
      | (Inr header0, s) \<Rightarrow>
     (let header1 = TrimRight header0 CRLF;
          header = (case IndexByte header1 (CHR '';'') of Some semi \<Rightarrow> take semi header1 | None \<Rightarrow> header1)
      in case ParseInt 16 (TrimSpace header) of
           None \<Rightarrow> (Some (ChunkVerifyError ''chunk size not a non-negative hex integer''), c\<lparr>br := s\<rparr>)
         | Some sz \<Rightarrow>
      if sz < 0 then (Some (ChunkVerifyError ''chunk size not a non-negative hex integer''), c\<lparr>br := s\<rparr>)
      else if sz = 0 then
        (case drainTrailer s of
           (Some e, s') \<Rightarrow> (Some e, c\<lparr>br := s'\<rparr>)
         | (None, s') \<Rightarrow> (None, c\<lparr>br := s', rdone := True\<rparr>))
      else if maxChunkSize < sz then (Some (SizeLimit sz), c\<lparr>br := s\<rparr>)
      else (case ReadFull (nat sz) s of
        (Inl e, s') \<Rightarrow> (Some (ReadErr ''read chunk data'' e), c\<lparr>br := s'\<rparr>)
      | (Inr data, s') \<Rightarrow>
      (case ReadFull 2 s' of
        (Inl e, s'') \<Rightarrow> (Some (ReadErr ''read chunk terminator'' e), c\<lparr>br := s''\<rparr>)
      | (Inr crlf, s'') \<Rightarrow>
      if crlf ! 0 \<noteq> CHR 0x0D \<or> crlf ! 1 \<noteq> newline
      then (Some (ChunkVerifyError ''missing chunk CRLF terminator''), c\<lparr>br := s''\<rparr>)
      else (None, c\<lparr>br := s'', pending := data\<rparr>)))))"

definition unsignedChunkedReader_Read :: "nat \<Rightarrow> unsignedChunkedReader \<Rightarrow> (read_result \<times> unsignedChunkedReader) option" where
  "unsignedChunkedReader_Read = Read readNextChunkUnsigned"

lemma drainTrailer_length: "length (fst (snd (drainTrailer s))) \<le> length (fst s)"
proof (induction s rule: drainTrailer.induct)
  case (1 s)
  have err: "ReadString s = (Inl e, s') \<Longrightarrow> fst s' = []" for e s' by (auto simp: ReadString_def split: option.splits)
  show ?case
    using 1 err ReadString_consumes [of s]
    by (subst drainTrailer.simps) (fastforce split: prod.splits sum.splits if_splits)
qed

lemma readNextChunkUnsigned_ok:
  assumes "readNextChunkUnsigned c = (None, c')"
  shows "length (fst (br c')) < length (fst (br c))" "rdone c' \<or> pending c' \<noteq> []" "rerr c' = rerr c"
proof -
  from assms obtain h s where 1: "ReadString (br c) = (Inr h, s)"
    by (auto simp: readNextChunkUnsigned_def split: prod.splits sum.splits)
  let ?h = "TrimRight h CRLF"
  let ?x = "case IndexByte ?h (CHR '';'') of Some semi \<Rightarrow> take semi ?h | None \<Rightarrow> ?h"
  from assms 1 obtain sz where 2: "ParseInt 16 (TrimSpace ?x) = Some sz" "\<not> sz < 0"
    by (auto simp: readNextChunkUnsigned_def Let_def split: option.splits if_splits)
  show "length (fst (br c')) < length (fst (br c))" "rdone c' \<or> pending c' \<noteq> []" "rerr c' = rerr c"
    using assms 1 2 ReadString_consumes [OF 1] drainTrailer_length [of s]
    by (auto simp: readNextChunkUnsigned_def Let_def split: prod.splits sum.splits if_splits option.splits dest!: ReadFull_consumes)
qed

interpretation unsigned: chunk_source readNextChunkUnsigned
  using readNextChunkUnsigned_ok by unfold_locales

section \<open>Frames on the wire\<close>

text \<open>The signature a chunk must carry after \<open>prev\<close>, and the byte sequences that are chains of
  correctly signed frames.\<close>

definition chunk_sig :: "chunkedReader \<Rightarrow> string \<Rightarrow> string \<Rightarrow> string" where
  "chunk_sig c prev d = EncodeToString (hmacSHA256 (signing_key c) (chunk_sts (c\<lparr>prevSig := prev\<rparr>) d))"

inductive signed_wire :: "chunkedReader \<Rightarrow> string \<Rightarrow> string \<Rightarrow> string list \<Rightarrow> string \<Rightarrow> bool" for c where
  wire_nil: "signed_wire c prev s [] s"
| wire_frame: "newline \<notin> set h \<Longrightarrow> parseChunkHeader (TrimRight (h @ [newline]) CRLF) = Inr (int (length d), chunk_sig c prev d) \<Longrightarrow>
    int (length d) \<le> maxChunkSize \<Longrightarrow> signed_wire c (chunk_sig c prev d) s ds rest \<Longrightarrow>
    signed_wire c prev (h @ [newline] @ d @ CRLF @ s) (d # ds) rest"

lemma chunk_sig_upd [simp]:
  "chunk_sig (c\<lparr>br := b\<rparr>) = chunk_sig c" "chunk_sig (c\<lparr>prevSig := p\<rparr>) = chunk_sig c"
  "chunk_sig (c\<lparr>pending := x\<rparr>) = chunk_sig c" "chunk_sig (c\<lparr>rdone := y\<rparr>) = chunk_sig c"
  by (auto simp: chunk_sig_def chunk_sts_def fun_eq_iff)

lemma signed_wire_cong: "chunk_sig c = chunk_sig c' \<Longrightarrow> signed_wire c prev s ds rest \<Longrightarrow> signed_wire c' prev s ds rest"
  by (rotate_tac, induction rule: signed_wire.induct) (auto intro: wire_nil wire_frame [simplified])

lemma ReadString_line: "newline \<notin> set h \<Longrightarrow> ReadString (h @ [newline] @ s, e) = (Inr (h @ [newline]), (s, e))"
  by (simp add: ReadString_def IndexByte_append_mem)

lemma ReadString_lineD: "ReadString s = (Inr x, s') \<Longrightarrow> \<exists>h. x = h @ [newline] \<and> newline \<notin> set h \<and> s = (h @ [newline] @ fst s', snd s')"
proof -
  assume "ReadString s = (Inr x, s')"
  then obtain i where i: "IndexByte (fst s) newline = Some i" "x = take (Suc i) (fst s)" "s' = (drop (Suc i) (fst s), snd s)"
    by (auto simp: ReadString_def split: option.splits)
  then have "fst s = take i (fst s) @ newline # drop (Suc i) (fst s)" "newline \<notin> set (take i (fst s))" "x = take i (fst s) @ [newline]"
    using IndexByte_Some_split [OF i(1)] IndexByte_SomeD [OF i(1)] by (auto simp: take_Suc_conv_app_nth)
  with i(3) show ?thesis by (intro exI [of _ "take i (fst s)"]) (simp add: prod_eq_iff)
qed

lemma ReadFull_D: "ReadFull n s = (Inr x, s') \<Longrightarrow> s = (x @ fst s', snd s') \<and> length x = n"
  by (auto simp: ReadFull_def prod_eq_iff split: if_splits) (metis append_take_drop_id)

lemma readNextChunk_frame:
  assumes "newline \<notin> set h" "parseChunkHeader (TrimRight (h @ [newline]) CRLF) = Inr (int (length d), chunk_sig c (prevSig c) d)"
    "int (length d) \<le> maxChunkSize" "br c = (h @ [newline] @ d @ CRLF @ s, e)"
  shows "readNextChunk c = (None, c\<lparr>br := (s, e), prevSig := chunk_sig c (prevSig c) d, pending := d, rdone := rdone c \<or> d = []\<rparr>)"
proof -
  have r: "ReadString (br c) = (Inr (h @ [newline]), (d @ CRLF @ s, e))"
    unfolding assms(4) by (rule ReadString_line [OF assms(1)])
  have d: "(if 0 < int (length d) then ReadFull (nat (int (length d))) (d @ CRLF @ s, e) else (Inr [], (d @ CRLF @ s, e))) = (Inr d, (CRLF @ s, e))"
    by (auto simp: ReadFull_def)
  have f: "ReadFull 2 (CRLF @ s, e) = (Inr CRLF, (s, e))" by (simp add: ReadFull_def)
  have v: "chunk_verify c d (chunk_sig c (prevSig c) d) = None" by (simp add: chunk_verify_def chunk_sig_def Let_def)
  show ?thesis
    unfolding readNextChunk_def r prod.case sum.case Let_def assms(2) d f v using assms(3) by simp
qed

lemma readNextChunk_frameD:
  assumes "readNextChunk c = (None, c')"
  shows "\<exists>h. newline \<notin> set h \<and> parseChunkHeader (TrimRight (h @ [newline]) CRLF) = Inr (int (length (pending c')), chunk_sig c (prevSig c) (pending c'))
    \<and> int (length (pending c')) \<le> maxChunkSize \<and> br c = (h @ [newline] @ pending c' @ CRLF @ fst (br c'), snd (br c'))
    \<and> prevSig c' = chunk_sig c (prevSig c) (pending c')"
proof -
  from assms obtain header0 s where 1: "ReadString (br c) = (Inr header0, s)"
    by (auto simp: readNextChunk_def split: prod.splits sum.splits)
  with assms obtain sz sig where 2: "parseChunkHeader (TrimRight header0 CRLF) = Inr (sz, sig)" "\<not> maxChunkSize < sz"
    by (auto simp: readNextChunk_def split: prod.splits sum.splits if_splits)
  with assms 1 obtain data s' where 3: "(if 0 < sz then ReadFull (nat sz) s else (Inr [], s)) = (Inr data, s')"
    by (auto simp: readNextChunk_def split: prod.splits sum.splits)
  with assms 1 2 obtain crlf s'' where 4: "ReadFull 2 s' = (Inr crlf, s'')"
    by (auto simp: readNextChunk_def split: prod.splits sum.splits)
  have v: "chunk_verify c data sig = None" "crlf ! 0 = CHR 0x0D" "crlf ! 1 = newline"
    and c': "c' = c\<lparr>br := s'', prevSig := sig, pending := data, rdone := (rdone c \<or> sz = 0)\<rparr>"
    using assms 1 2 3 4 by (auto simp: readNextChunk_def split: if_splits option.splits)
  obtain h where h: "header0 = h @ [newline]" "newline \<notin> set h" "br c = (h @ [newline] @ fst s, snd s)"
    using ReadString_lineD [OF 1] by blast
  have "0 \<le> sz" using 2(1) by (auto simp: parseChunkHeader_def Let_def split: option.splits if_splits)
  then have d: "int (length data) = sz" "s = (data @ fst s', snd s')"
    using 3 ReadFull_D [of "nat sz" s data s'] by (auto split: if_splits)
  have "s' = (crlf @ fst s'', snd s'')" "crlf = CRLF"
    using ReadFull_D [OF 4] v(2,3) by (auto simp: length_Suc_conv numeral_2_eq_2)
  moreover have "sig = chunk_sig c (prevSig c) data"
    using v(1) by (simp add: chunk_verify_def chunk_sig_def Let_def split: if_splits)
  ultimately show ?thesis using 2 h d by (intro exI [of _ h]) (simp add: c')
qed

lemma run_wire:
  "run readNextChunk c ds c1 \<Longrightarrow>
     signed_wire c (prevSig c) (fst (br c)) ds (fst (br c1)) \<and> snd (br c1) = snd (br c)"
proof (induction rule: run.induct)
  case (run_nil c)
  then show ?case by (simp add: wire_nil)
next
  case (run_step c c' ds c2)
  obtain h where h: "newline \<notin> set h"
    "parseChunkHeader (TrimRight (h @ [newline]) CRLF) = Inr (int (length (pending c')), chunk_sig c (prevSig c) (pending c'))"
    "int (length (pending c')) \<le> maxChunkSize" "br c = (h @ [newline] @ pending c' @ CRLF @ fst (br c'), snd (br c'))"
    "prevSig c' = chunk_sig c (prevSig c) (pending c')"
    using readNextChunk_frameD [OF run_step(2)] by blast
  have "chunk_sig (c'\<lparr>pending := []\<rparr>) = chunk_sig c"
    by (subst readNextChunk_ok(4) [OF run_step(2)]) simp
  from signed_wire_cong [OF this] have "signed_wire c (chunk_sig c (prevSig c) (pending c')) (fst (br c')) ds (fst (br c2))"
    using run_step.IH h(5) by simp
  from wire_frame [OF h(1-3) this] show ?case using h(4) run_step.IH by simp
qed

text \<open>A run stops at the terminator: only the last chunk can be empty, and it is exactly when the
  reader is done.\<close>

lemma run_done:
  "run readNextChunk c ds c1 \<Longrightarrow> pending c = [] \<Longrightarrow> pending c1 = [] \<and>
     (\<not> rdone c \<longrightarrow> (if rdone c1 then \<exists>ds'. ds = ds' @ [[]] \<and> [] \<notin> set ds' else [] \<notin> set ds)) \<and> (rdone c \<longrightarrow> rdone c1 \<and> ds = [])"
proof (induction rule: run.induct)
  case (run_step c c' ds c2)
  note ok = readNextChunk_ok(3) [OF run_step(2)]
  show ?case
  proof (cases "pending c' = []")
    case True
    then have "rdone c2 \<and> ds = [] \<and> pending c2 = []" using run_step ok by simp
    then show ?thesis using True run_step(1) by auto
  next
    case False
    then have "\<not> rdone (c'\<lparr>pending := []\<rparr>)" using ok run_step(1) by simp
    then have IH: "pending c2 = []" "if rdone c2 then \<exists>ds'. ds = ds' @ [[]] \<and> [] \<notin> set ds' else [] \<notin> set ds"
      using run_step.IH by auto
    have "\<exists>ds''. pending c' # ds = ds'' @ [[]] \<and> [] \<notin> set ds''" if "ds = ds' @ [[]]" "[] \<notin> set ds'" for ds'
      using that False by (intro exI [of _ "pending c' # ds'"]) auto
    then show ?thesis using IH False run_step(1) by (auto split: if_splits)
  qed
qed simp

lemma wire_run:
  "signed_wire c0 prev s ds rest \<Longrightarrow> chunk_sig c0 = chunk_sig c \<Longrightarrow> prevSig c = prev \<Longrightarrow> br c = (s, e) \<Longrightarrow>
     pending c = [] \<Longrightarrow> \<not> rdone c \<Longrightarrow> ds = ds' @ [[]] \<Longrightarrow> [] \<notin> set ds' \<Longrightarrow>
     \<exists>c1. run readNextChunk c ds c1 \<and> rdone c1 \<and> pending c1 = [] \<and> br c1 = (rest, e)"
proof (induction arbitrary: c ds' rule: signed_wire.induct)
  case (wire_frame h d prev s ds rest)
  let ?c = "c\<lparr>br := (s, e), prevSig := chunk_sig c (prevSig c) d, pending := d, rdone := rdone c \<or> d = []\<rparr>"
  have step: "readNextChunk c = (None, ?c)"
    using wire_frame by (intro readNextChunk_frame) auto
  show ?case
  proof (cases "ds' = []")
    case True
    then have d: "d = []" "ds = []" using wire_frame.prems by auto
    then have "rest = s" using wire_frame.hyps(4) by (auto elim: signed_wire.cases)
    then show ?thesis
      using run_step [of c readNextChunk, OF _ step run_nil] wire_frame.prems d by auto
  next
    case False
    then obtain ds'' where ds'': "ds' = d # ds''" "ds = ds'' @ [[]]" using wire_frame.prems by (cases ds') auto
    then have "d \<noteq> []" using wire_frame.prems by auto
    then have "\<exists>c1. run readNextChunk (?c\<lparr>pending := []\<rparr>) ds c1 \<and> rdone c1 \<and> pending c1 = [] \<and> br c1 = (rest, e)"
      using wire_frame.prems ds'' by (intro wire_frame.IH [of _ ds'']) auto
    then show ?thesis
      using run_step [of c readNextChunk, OF _ step] wire_frame.prems ds'' by auto
  qed
qed simp

section \<open>The encoder of a client\<close>

definition encode_chunk :: "chunkedReader \<Rightarrow> string \<Rightarrow> string \<Rightarrow> string" where
  "encode_chunk c prev d = show_nat 16 (length d) @ '';chunk-signature='' @ chunk_sig c prev d @ CRLF @ d @ CRLF"

fun encode_stream :: "chunkedReader \<Rightarrow> string \<Rightarrow> string list \<Rightarrow> string" where
  "encode_stream c prev [] = encode_chunk c prev []"
| "encode_stream c prev (d # ds) = encode_chunk c prev d @ encode_stream c (chunk_sig c prev d) ds"

lemma digits_val_append: "digits_val b a (xs @ ys) = (case digits_val b a xs of None \<Rightarrow> None | Some n \<Rightarrow> digits_val b n ys)"
  by (induction b a xs rule: digits_val.induct) auto

lemma digits_val_show_nat: "1 < b \<Longrightarrow> b \<le> 16 \<Longrightarrow> digits_val b 0 (show_nat b n) = Some n"
proof (induction b n rule: show_nat.induct)
  case (1 base n)
  show ?case
  proof (cases "n < base")
    case True
    then show ?thesis using 1 by (subst show_nat.simps) simp
  next
    case False
    moreover have "n mod base mod 16 = n mod base" "n mod base < 16" using 1
      by (metis mod_less mod_less_divisor less_le_trans not_less_iff_gr_or_eq zero_less_one less_trans)+
    ultimately show ?thesis using 1 by (subst show_nat.simps) (simp add: digits_val_append)
  qed
qed

lemma show_nat_hex: "c \<in> set (show_nat b n) \<Longrightarrow> \<exists>i<16. c = hexU i"
proof (induction b n rule: show_nat.induct)
  case (1 base n)
  then show ?case by (subst (asm) show_nat.simps) (auto split: if_splits intro: exI [of _ "_ mod 16"])
qed

lemma show_nat_not_Nil: "show_nat b n \<noteq> []"
  by (subst show_nat.simps) simp

lemma ParseInt_FormatInt: "int64_range n \<Longrightarrow> ParseInt 10 (FormatInt n) = Some n"
proof -
  assume n: "int64_range n"
  have d: "digits_val 10 0 (show_nat 10 k) = Some k" for k by (rule digits_val_show_nat) simp_all
  show ?thesis
  proof (cases "n < 0")
    case True
    then show ?thesis using n d [of "nat (- n)"] show_nat_not_Nil [of 10 "nat (- n)"] by (simp add: FormatInt_def ParseInt_def Let_def)
  next
    case False
    obtain c cs where s: "show_nat 10 (nat n) = c # cs" using show_nat_not_Nil by (meson neq_Nil_conv)
    then obtain i where "i < 16" "c = hexU i" using show_nat_hex [of c 10 "nat n"] by auto
    then have "ishex c" by simp
    then have "c \<noteq> CHR ''+''" "c \<noteq> CHR ''-''" by (auto simp: ishex_def)
    then show ?thesis using n d [of "nat n"] s False by (simp add: FormatInt_def ParseInt_def Let_def)
  qed
qed

lemma FormatInt_not_Nil [simp]: "FormatInt n \<noteq> []"
  by (simp add: FormatInt_def show_nat_not_Nil)

lemma ParseInt_show_nat: "n < 2 ^ 63 \<Longrightarrow> ParseInt 16 (show_nat 16 n) = Some (int n)"
proof -
  assume n: "n < 2 ^ 63"
  obtain c cs where s: "show_nat 16 n = c # cs" using show_nat_not_Nil by (meson neq_Nil_conv)
  then obtain i where "i < 16" "c = hexU i" using show_nat_hex [of c 16 n] by auto
  then have "ishex c" by simp
  then have "c \<noteq> CHR ''+''" "c \<noteq> CHR ''-''" by (auto simp: ishex_def)
  then show ?thesis
    using n digits_val_show_nat [of 16 n] s by (simp add: ParseInt_def Let_def int64_range_def)
qed

lemma hex_clean:
  "i < 16 \<Longrightarrow> hexU i \<noteq> CHR '';'' \<and> hexU i \<noteq> newline \<and> \<not> is_space (hexU i)"
  "i < 16 \<Longrightarrow> hexL i \<noteq> CHR '';'' \<and> hexL i \<noteq> newline \<and> hexL i \<noteq> CHR 0x0D"
  by (drule hexU_cases, auto simp: hexU_def hexL_def is_space_def)+

lemma TrimRight_CRLF:
  assumes "x \<noteq> []" "last x \<noteq> CHR 0x0D" "last x \<noteq> newline"
  shows "TrimRight (x @ CRLF) CRLF = x"
  using TrimRightFunc_id [of x "\<lambda>c. c \<in> set CRLF"] assms
  by (simp add: TrimRight_def TrimRightFunc_def)

lemma parse_encoded_header:
  assumes "n < 2 ^ 63" "hx = EncodeToString g" "g \<noteq> []"
  shows "parseChunkHeader (TrimRight ((show_nat 16 n @ '';chunk-signature='' @ hx @ [CHR 0x0D]) @ [newline]) CRLF) = Inr (int n, hx)"
proof -
  let ?n = "show_nat 16 n"
  have ne: "hx \<noteq> []" using assms(2,3) EncodeToString_inject [of g "[]"] by (simp add: EncodeToString_def)
  then have "last hx \<in> set hx" by simp
  then obtain i where "i < 16" "last hx = hexL i" using assms(2) set_EncodeToString by blast
  then have t: "TrimRight ((?n @ '';chunk-signature='' @ hx @ [CHR 0x0D]) @ [newline]) CRLF = ?n @ '';chunk-signature='' @ hx"
    using TrimRight_CRLF [of "?n @ '';chunk-signature='' @ hx"] hex_clean(2) [of i] ne by simp
  have clean: "CHR '';'' \<notin> set ?n" "\<forall>c \<in> set ?n. \<not> is_space c"
    using show_nat_hex [of _ 16 n] hex_clean(1) by fastforce+
  then have i: "IndexByte (?n @ '';chunk-signature='' @ hx) (CHR '';'') = Some (length ?n)"
    using IndexByte_append_mem [of "CHR '';''" ?n "''chunk-signature='' @ hx"] by simp
  have "TrimSpace (''chunk-signature='' @ hx) = ''chunk-signature='' @ hx"
    using assms(2) set_EncodeToString space_hexL by (intro TrimSpace_id) (auto simp: is_space_def)
  moreover have "TrimSpace ?n = ?n" using clean(2) by (intro TrimSpace_id) blast
  moreover have "HasPrefix (''chunk-signature='' @ hx) ''chunk-signature=''" by (rule HasPrefix_append)
  moreover have "TrimSpace hx = hx" "ToLower hx = hx" "DecodeString hx = Some g" using assms(2) by simp_all
  ultimately show ?thesis
    unfolding t parseChunkHeader_def i option.case
    using ParseInt_show_nat [OF assms(1)] by (simp add: Let_def)
qed

lemma encode_wire:
  assumes "\<And>d. d \<in> set ds \<Longrightarrow> int (length d) \<le> maxChunkSize"
  shows "signed_wire c prev (encode_stream c prev ds @ rest) (ds @ [[]]) rest"
  using assms
proof (induction ds arbitrary: prev)
  have frame: "signed_wire c prev (encode_chunk c prev d @ s) (d # ds) rest"
    if "int (length d) \<le> maxChunkSize" "signed_wire c (chunk_sig c prev d) s ds rest" for d s ds prev
  proof -
    let ?h = "show_nat 16 (length d) @ '';chunk-signature='' @ chunk_sig c prev d @ [CHR 0x0D]"
    have "newline \<notin> set (show_nat 16 (length d))" using show_nat_hex hex_clean(1) by metis
    moreover have "newline \<notin> set (chunk_sig c prev d)"
      unfolding chunk_sig_def using set_EncodeToString hex_clean(2) by metis
    ultimately have "newline \<notin> set ?h" by simp
    moreover have "hmacSHA256 (signing_key c) (chunk_sts (c\<lparr>prevSig := prev\<rparr>) d) \<noteq> []"
      using length_hmacSHA256 [of "signing_key c" "chunk_sts (c\<lparr>prevSig := prev\<rparr>) d"] by auto
    then have "parseChunkHeader (TrimRight (?h @ [newline]) CRLF) = Inr (int (length d), chunk_sig c prev d)"
      using that(1) by (intro parse_encoded_header) (auto simp: chunk_sig_def maxChunkSize_def)
    ultimately show ?thesis
      using wire_frame [of ?h d c prev s ds rest] that by (simp add: encode_chunk_def)
  qed
  {
    case Nil
    have "int (length []) \<le> maxChunkSize" by (simp add: maxChunkSize_def)
    from frame [OF this wire_nil] show ?case by simp
  next
    case (Cons d ds)
    from frame [OF _ Cons.IH] Cons.prems show ?case by simp
  }
qed

section \<open>Properties\<close>

text \<open>C4: Streaming uploads are delivered only verified. Reading a signed \<^verbatim>\<open>aws-chunked\<close> body to the
  end always returns; the bytes delivered are the concatenation of the data of consecutive frames
  at the front of the body, each carrying the chunk signature chained from the seed signature and
  at most 64 MiB; and the end of file is reported only after a correctly signed empty chunk, so a
  truncated or tampered body is always reported as an error.\<close>

theorem signed_stream_sound:
  "\<exists>ds r cf rest. ReadAll readNextChunk n (NewChunkedReader body key seed region service date) = Some (concat ds, r, cf)
    \<and> signed_wire (NewChunkedReader body key seed region service date) seed (fst body) ds rest
    \<and> (r = None \<longrightarrow> (\<exists>ds'. ds = ds' @ [[]] \<and> [] \<notin> set ds'))
    \<and> (r \<noteq> None \<longrightarrow> [] \<notin> set ds)"
proof -
  let ?c = "NewChunkedReader body key seed region service date"
  have init: "rerr ?c = None" "pending ?c = []" "\<not> rdone ?c" "prevSig ?c = seed" "br ?c = body"
    by (simp_all add: NewChunkedReader_def)
  obtain ds r c1 cf where "ReadAll readNextChunk n ?c = Some (concat ds, r, cf)" and run: "run readNextChunk ?c ds c1"
    and r: "case r of None \<Rightarrow> rdone c1 \<and> cf = c1 | Some e \<Rightarrow> \<not> rdone c1 \<and> (\<exists>c2. readNextChunk c1 = (Some e, c2))"
    using signed.ReadAll_run [OF init(1,2)] by blast
  moreover have "signed_wire ?c seed (fst body) ds (fst (br c1))" using run_wire [OF run] init by simp
  moreover have "if rdone c1 then \<exists>ds'. ds = ds' @ [[]] \<and> [] \<notin> set ds' else [] \<notin> set ds"
    using run_done [OF run init(2)] init(3) by blast
  ultimately show ?thesis by (cases r) (auto split: if_splits)
qed

theorem signed_stream_sound_witness:
  "\<exists>ds r cf rest. ReadAll readNextChunk 3 (NewChunkedReader (''5;chunk-signature=00'', None) ''k'' ''seed'' ''us-east-1'' ''s3'' 0) = Some (concat ds, r, cf)
    \<and> signed_wire (NewChunkedReader (''5;chunk-signature=00'', None) ''k'' ''seed'' ''us-east-1'' ''s3'' 0) ''seed'' ''5;chunk-signature=00'' ds rest
    \<and> (r = None \<longrightarrow> (\<exists>ds'. ds = ds' @ [[]] \<and> [] \<notin> set ds'))
    \<and> (r \<noteq> None \<longrightarrow> [] \<notin> set ds)"
  using signed_stream_sound [of 3 "(''5;chunk-signature=00'', None)" "''k''" "''seed''" "''us-east-1''" "''s3''" 0] by simp

text \<open>C30: Round trip of signed streaming uploads. The stream a client produces for any sequence of
  non-empty chunks of at most 64 MiB, whatever follows it, is read back as exactly those bytes with
  a clean end of file, for every buffer size, and reading stops right behind the terminator.\<close>

theorem signed_roundtrip:
  assumes "c = NewChunkedReader (encode_stream c' seed ds @ rest, e) key seed region service date"
    and "c' = NewChunkedReader ([], None) key seed region service date"
    and "\<forall>d \<in> set ds. d \<noteq> [] \<and> int (length d) \<le> maxChunkSize"
  shows "\<exists>cf. ReadAll readNextChunk n c = Some (concat ds, None, cf) \<and> br cf = (rest, e)"
proof -
  have "chunk_sig c' = chunk_sig c" using assms(1,2) by (auto simp: chunk_sig_def chunk_sts_def NewChunkedReader_def fun_eq_iff)
  moreover have "signed_wire c' seed (encode_stream c' seed ds @ rest) (ds @ [[]]) rest"
    using assms(3) by (intro encode_wire) auto
  ultimately obtain c1 where "run readNextChunk c (ds @ [[]]) c1" "rdone c1" "pending c1 = []" "br c1 = (rest, e)"
    using wire_run [of c' seed _ "ds @ [[]]" rest c e ds] assms(1,3) by (auto simp: NewChunkedReader_def)
  then show ?thesis using signed.run_ReadAll [of c "ds @ [[]]" c1 n] assms(1) by (auto simp: NewChunkedReader_def)
qed

theorem signed_roundtrip_witness:
  "\<exists>cf. ReadAll readNextChunk 3 (NewChunkedReader
      (encode_stream (NewChunkedReader ([], None) ''k'' ''seed'' ''us-east-1'' ''s3'' 0) ''seed'' [''hello '', ''world''] @ ''!'', None)
      ''k'' ''seed'' ''us-east-1'' ''s3'' 0) = Some (''hello world'', None, cf) \<and> br cf = (''!'', None)"
  using signed_roundtrip [OF refl refl, of "[''hello '', ''world'']"] by (simp add: maxChunkSize_def)

text \<open>The constant for the hash of the empty string in the chunk string to sign is right.\<close>

theorem emptySHA256_correct: "emptySHA256 = EncodeToString (sha256 [])"
  by code_simp

end
