(* ===== verification/Routing.thy ===== *)
theory Routing
  imports Complex_Main Verifier
begin

text \<open>
  Addressing and authorisation of requests in \<^verbatim>\<open>internal/s3proxy\<close>: \<^verbatim>\<open>router.go\<close> (which bucket and key a
  request addresses), \<^verbatim>\<open>scope.go\<close> (bucket scopes of a credential), \<^verbatim>\<open>anonymous.go\<close> (the anonymous
  allowlist), \<^verbatim>\<open>vc.go\<close> (credentials and anonymous bindings), \<^verbatim>\<open>logging.go\<close> (redaction) and
  \<^verbatim>\<open>classifyOperation\<close> and \<^verbatim>\<open>isPostObjectRequest\<close> of \<^verbatim>\<open>server.go\<close>.
\<close>

section \<open>Routes\<close>

record RouteInfo =
  Bucket :: string
  Key :: string
  PathStyle :: bool

fun match_suffix :: "request \<Rightarrow> string \<Rightarrow> string list \<Rightarrow> RouteInfo option" where
  "match_suffix r host [] = None"
| "match_suffix r host (suf0 # sufs) =
     (if suf0 = [] then match_suffix r host sufs
      else let suf = ''.'' @ TrimPrefix (ToLower suf0) ''.''
           in if HasSuffix host suf \<and> length suf < length host
              then Some \<lparr>Bucket = take (length host - length suf) host,
                         Key = TrimPrefix (Path (URL r)) ''/'', PathStyle = False\<rparr>
              else match_suffix r host sufs)"

definition ClassifyRoute :: "request \<Rightarrow> string list \<Rightarrow> RouteInfo" where
  "ClassifyRoute r proxyHostSuffixes =
     (let host0 = ToLower (Host r);
          host = (case IndexByte host0 (CHR '':'') of Some i \<Rightarrow> take i host0 | None \<Rightarrow> host0)
      in case match_suffix r host proxyHostSuffixes of
           Some route \<Rightarrow> route
         | None \<Rightarrow>
             (let p = TrimPrefix (Path (URL r)) ''/''
              in if p = [] then \<lparr>Bucket = [], Key = [], PathStyle = True\<rparr>
                 else case IndexByte p (CHR ''/'') of
                        None \<Rightarrow> \<lparr>Bucket = p, Key = [], PathStyle = True\<rparr>
                      | Some slash \<Rightarrow> \<lparr>Bucket = take slash p, Key = drop (slash + 1) p, PathStyle = True\<rparr>))"

section \<open>Credentials and scopes\<close>

record BucketScope =
  bs_BucketName :: string
  bs_BackendName :: string

record VirtualCredential =
  vc_AccessKeyID :: string
  vc_SecretAccessKey :: string
  vc_BucketScopes :: "BucketScope list"
  vc_BackendName :: string
  vc_ExpiresAt :: "time option"
  vc_UserID :: string
  vc_ClaimNamespace :: string
  vc_ClaimName :: string
  vc_Source :: string

text \<open>The per-address rate of a binding is a \<^verbatim>\<open>float64\<close>; the model keeps it as a rational number.\<close>

record AnonymousBinding =
  ab_BackendName :: string
  ab_BucketName :: string
  ab_Mode :: string
  ab_PerSourceIPRPS :: rat
  ab_Source :: string

definition EnforceScope :: "BucketScope list \<Rightarrow> string \<Rightarrow> bool" where
  "EnforceScope scopes requestBucket =
     (if requestBucket = [] then True
      else list_ex (\<lambda>s. EqualFold (bs_BucketName s) requestBucket) scopes)"

section \<open>Operations\<close>

definition isPostObjectRequest :: "request \<Rightarrow> bool" where
  "isPostObjectRequest r =
     (let ct0 = header_Get (Header r) ''Content-Type''
      in if ct0 = [] then False
         else let ct = (case IndexByte ct0 (CHR '';'') of Some semi \<Rightarrow> take semi ct0 | None \<Rightarrow> ct0)
              in EqualFold (TrimSpace ct) ''multipart/form-data'')"

definition classifyOperation :: "request \<Rightarrow> RouteInfo \<Rightarrow> string" where
  "classifyOperation r route =
     (let q = Query (URL r)
      in if Method r = ''GET'' then
           (if Bucket route = [] then ''ListBuckets''
            else if Key route = [] \<and> values_Has q ''location'' then ''GetBucketLocation''
            else if Key route = [] \<and> values_Has q ''uploads'' then ''ListMultipartUploads''
            else if Key route = [] then ''ListObjects''
            else if values_Has q ''uploadId'' then ''ListParts''
            else ''GetObject'')
         else if Method r = ''PUT'' then
           (if Key route = [] then ''PutBucket''
            else if values_Has q ''partNumber'' \<and> values_Has q ''uploadId'' then ''UploadPart''
            else ''PutObject'')
         else if Method r = ''HEAD'' then
           (if Key route = [] then ''HeadBucket'' else ''HeadObject'')
         else if Method r = ''DELETE'' then
           (if Key route = [] then ''DeleteBucket''
            else if values_Has q ''uploadId'' then ''AbortMultipart''
            else ''DeleteObject'')
         else if Method r = ''POST'' then
           (if values_Has q ''uploads'' then ''CreateMultipartUpload''
            else if values_Has q ''uploadId'' then ''CompleteMultipartUpload''
            else if values_Has q ''delete'' then ''DeleteObjects''
            else if Key route = [] \<and> isPostObjectRequest r then ''PostObject''
            else ''Unknown'')
         else ''Unknown'')"

definition uploadOps :: "string list" where
  "uploadOps = [''PutObject'', ''UploadPart'']"

definition isUploadOp :: "string \<Rightarrow> bool" where
  "isUploadOp op \<longleftrightarrow> op \<in> set uploadOps"

section \<open>Anonymous access\<close>

definition anonymousReadAllowedOps :: "string list" where
  "anonymousReadAllowedOps = [''GetObject'', ''HeadObject'', ''HeadBucket'', ''ListObjects'']"

definition anonymousBlockedSubresources :: "string list" where
  "anonymousBlockedSubresources =
     [''acl'', ''policy'', ''versioning'', ''logging'', ''tagging'', ''cors'', ''lifecycle'', ''encryption'',
      ''replication'', ''notification'', ''analytics'', ''inventory'', ''metrics'', ''accelerate'',
      ''requestPayment'', ''website'', ''object-lock'', ''legal-hold'', ''retention'', ''uploads'',
      ''uploadId'', ''delete'', ''restore'', ''select'', ''versionId'', ''torrent'']"

definition IsRequestUnauthenticated :: "request \<Rightarrow> bool" where
  "IsRequestUnauthenticated r =
     (if header_Get (Header r) ''Authorization'' \<noteq> [] then False
      else if values_Get (Query (URL r)) ''X-Amz-Signature'' \<noteq> [] then False else True)"

definition AnonModeReadOnly :: string where
  "AnonModeReadOnly = ''ReadOnly''"

definition AnonymousOpAllowed :: "string \<Rightarrow> string \<Rightarrow> url_values \<Rightarrow> bool" where
  "AnonymousOpAllowed mode operation q =
     (if mode \<noteq> AnonModeReadOnly then False
      else if operation \<notin> set anonymousReadAllowedOps then False
      else \<not> list_ex (\<lambda>k. values_Has q k) anonymousBlockedSubresources)"

section \<open>Redaction\<close>

definition redactedQueryKeys :: "string list" where
  "redactedQueryKeys = [''X-Amz-Signature'', ''X-Amz-Credential'', ''X-Amz-Security-Token'']"

definition RedactPath :: "url \<Rightarrow> string" where
  "RedactPath u =
     (if RawQuery u = [] then Path u
      else let q = map (\<lambda>(k, vs). if k \<in> set redactedQueryKeys then (k, [''REDACTED'']) else (k, vs)) (Query u)
           in Path u @ ''?'' @ values_Encode q)"

definition RedactHeaders :: "header \<Rightarrow> header" where
  "RedactHeaders h =
     map (\<lambda>(k, v).
       let lk = ToLower k
       in if lk = ''authorization'' \<or> lk = ''x-amz-security-token'' then (k, [''REDACTED''])
          else if HasPrefix lk ''x-amz-signature'' then (k, [''REDACTED''])
          else (k, v)) h"

section \<open>Lemmas\<close>

lemma EnforceScope_iff: "b \<noteq> [] \<Longrightarrow> EnforceScope scopes b \<longleftrightarrow> (\<exists>s \<in> set scopes. EqualFold (bs_BucketName s) b)"
  by (simp add: EnforceScope_def list_ex_iff)

lemma match_suffix_None:
  assumes "\<And>suf. suf \<in> set sufs \<Longrightarrow> suf \<noteq> [] \<Longrightarrow> \<not> HasSuffix host (''.'' @ TrimPrefix (ToLower suf) ''.'')"
  shows "match_suffix r host sufs = None"
  using assms by (induction r host sufs rule: match_suffix.induct) (auto simp: Let_def)

lemma match_suffix_Some: "match_suffix r host sufs = Some route \<Longrightarrow>
  \<not> PathStyle route \<and> Bucket route \<noteq> [] \<and> Key route = TrimPrefix (Path (URL r)) ''/'' \<and>
  (\<exists>suf \<in> set sufs. host = Bucket route @ ''.'' @ TrimPrefix (ToLower suf) ''.'')"
proof (induction r host sufs rule: match_suffix.induct)
  case (2 r host suf0 sufs)
  show ?case
  proof (cases "suf0 \<noteq> [] \<and> HasSuffix host (''.'' @ TrimPrefix (ToLower suf0) ''.'')
      \<and> length (''.'' @ TrimPrefix (ToLower suf0) ''.'') < length host")
    case True
    then obtain u where u: "host = u @ ''.'' @ TrimPrefix (ToLower suf0) ''.''" by (auto simp: HasSuffix_iff)
    then have "u \<noteq> []" using True by auto
    moreover have "route = \<lparr>Bucket = u, Key = TrimPrefix (Path (URL r)) ''/'', PathStyle = False\<rparr>"
      using True 2(3) u by (auto simp: Let_def)
    ultimately show ?thesis using u by auto
  next
    case False
    then show ?thesis using 2 by (auto simp: Let_def split: if_splits)
  qed
qed simp

text \<open>What a route says about the path of the request.\<close>

lemma ClassifyRoute_path:
  assumes "PathStyle (ClassifyRoute r sufs)"
  shows "CHR ''/'' \<notin> set (Bucket (ClassifyRoute r sufs))"
    "TrimPrefix (Path (URL r)) ''/'' = Bucket (ClassifyRoute r sufs) \<and> Key (ClassifyRoute r sufs) = [] \<or>
     TrimPrefix (Path (URL r)) ''/'' = Bucket (ClassifyRoute r sufs) @ ''/'' @ Key (ClassifyRoute r sufs)"
proof -
  let ?p = "TrimPrefix (Path (URL r)) ''/''"
  define host where "host = (case IndexByte (ToLower (Host r)) (CHR '':'') of Some i \<Rightarrow> take i (ToLower (Host r)) | None \<Rightarrow> ToLower (Host r))"
  have m: "match_suffix r host sufs = None"
  proof (rule ccontr)
    assume "match_suffix r host sufs \<noteq> None"
    then obtain route where "match_suffix r host sufs = Some route" by blast
    moreover from this have "ClassifyRoute r sufs = route"
      by (simp add: ClassifyRoute_def Let_def host_def)
    ultimately show False using match_suffix_Some assms by blast
  qed
  then have cr: "ClassifyRoute r sufs = (if ?p = [] then \<lparr>Bucket = [], Key = [], PathStyle = True\<rparr>
       else case IndexByte ?p (CHR ''/'') of None \<Rightarrow> \<lparr>Bucket = ?p, Key = [], PathStyle = True\<rparr>
         | Some slash \<Rightarrow> \<lparr>Bucket = take slash ?p, Key = drop (slash + 1) ?p, PathStyle = True\<rparr>)"
    by (simp add: ClassifyRoute_def Let_def host_def)
  show "CHR ''/'' \<notin> set (Bucket (ClassifyRoute r sufs))"
    by (auto simp: cr split: option.splits if_splits dest: IndexByte_SomeD)
  show "?p = Bucket (ClassifyRoute r sufs) \<and> Key (ClassifyRoute r sufs) = [] \<or>
     ?p = Bucket (ClassifyRoute r sufs) @ ''/'' @ Key (ClassifyRoute r sufs)"
    using IndexByte_Some_split [of ?p "CHR ''/''"] by (auto simp: cr split: option.splits if_splits)
qed

lemma classify_read_method:
  "classifyOperation r route \<in> set anonymousReadAllowedOps \<Longrightarrow> Method r = ''GET'' \<or> Method r = ''HEAD''"
  unfolding classifyOperation_def anonymousReadAllowedOps_def Let_def
  by (simp split: if_splits)

lemma map_of_redact:
  "map_of (map (\<lambda>(k, vs). if k \<in> R then (k, x) else (k, vs)) q) k = (if k \<in> R then map_option (\<lambda>_. x) (map_of q k) else map_of q k)"
  by (induction q) auto

lemma distinct_redact: "distinct (map fst q) \<Longrightarrow> distinct (map fst (map (\<lambda>(k, vs). if k \<in> R then (k, x) else (k, vs)) q))"
proof -
  have "map fst (map (\<lambda>(k, vs). if k \<in> R then (k, x) else (k, vs)) q) = map fst q"
    by (induction q) auto
  then show "distinct (map fst q) \<Longrightarrow> distinct (map fst (map (\<lambda>(k, vs). if k \<in> R then (k, x) else (k, vs)) q))" by metis
qed

section \<open>Properties\<close>

text \<open>Both addressing styles name the same object. With the proxy suffix \<open>suf\<close>, a virtual-hosted
  request for \<open>bucket.suf\<close> and path \<open>/key\<close> and a path-style request to the bare suffix for
  \<open>/bucket/key\<close>, each with or without a port in the host, have the same bucket and key.\<close>

theorem addressing_styles_agree:
  assumes "ToLower suf = suf" "suf \<noteq> []" "hd suf \<noteq> CHR ''.''" "CHR '':'' \<notin> set suf"
    and "ToLower bucket = bucket" "bucket \<noteq> []" "CHR ''/'' \<notin> set bucket" "CHR '':'' \<notin> set bucket"
    and "Host r = bucket @ ''.'' @ suf @ port" "Path (URL r) = ''/'' @ key"
    and "Host r' = suf @ port'" "Path (URL r') = ''/'' @ bucket @ ''/'' @ key"
    and "port = [] \<or> hd port = CHR '':''" "port' = [] \<or> hd port' = CHR '':''"
  shows "Bucket (ClassifyRoute r [suf]) = bucket \<and> Key (ClassifyRoute r [suf]) = key
    \<and> Bucket (ClassifyRoute r' [suf]) = bucket \<and> Key (ClassifyRoute r' [suf]) = key"
proof -
  have host: "(case IndexByte (ToLower (h @ p)) (CHR '':'') of Some i \<Rightarrow> take i (ToLower (h @ p)) | None \<Rightarrow> ToLower (h @ p)) = h"
    if "ToLower h = h" "CHR '':'' \<notin> set h" "p = [] \<or> hd p = CHR '':''" for h p
  proof (cases p)
    case Nil
    then show ?thesis using that by (simp add: IndexByte_None_iff [THEN iffD2])
  next
    case (Cons c ps)
    then have "ToLower (h @ p) = h @ CHR '':'' # ToLower ps"
      using that by (simp add: ToLower_def lower_char_def)
    then show ?thesis using that(2) by (simp add: IndexByte_append_mem)
  qed
  have tp: "TrimPrefix suf ''.'' = suf" using assms(2,3) by (cases suf) (auto simp: TrimPrefix_def)
  have h1: "(case IndexByte (ToLower (Host r)) (CHR '':'') of Some i \<Rightarrow> take i (ToLower (Host r)) | None \<Rightarrow> ToLower (Host r)) = bucket @ ''.'' @ suf"
  proof -
    have "ToLower (bucket @ ''.'' @ suf) = bucket @ ''.'' @ suf"
      using assms(1,5) by (simp add: ToLower_def lower_char_def)
    moreover have "CHR '':'' \<notin> set (bucket @ ''.'' @ suf)" using assms(4,8) by simp
    ultimately have "(case IndexByte (ToLower ((bucket @ ''.'' @ suf) @ port)) (CHR '':'') of Some i \<Rightarrow> take i (ToLower ((bucket @ ''.'' @ suf) @ port))
        | None \<Rightarrow> ToLower ((bucket @ ''.'' @ suf) @ port)) = bucket @ ''.'' @ suf"
      using assms(13) by (rule host)
    moreover have "Host r = (bucket @ ''.'' @ suf) @ port" using assms(9) by simp
    ultimately show ?thesis by (simp only:)
  qed
  have h2: "(case IndexByte (ToLower (Host r')) (CHR '':'') of Some i \<Rightarrow> take i (ToLower (Host r')) | None \<Rightarrow> ToLower (Host r')) = suf"
    unfolding assms(11) by (rule host [OF assms(1,4,14)])
  have no: "\<not> HasSuffix suf (''.'' @ suf)" by (auto simp: HasSuffix_iff dest: arg_cong [where f = length])
  have yes: "HasSuffix (bucket @ ''.'' @ suf) (''.'' @ suf)" by (auto simp: HasSuffix_iff)
  have k: "TrimPrefix (Path (URL r)) ''/'' = key" "TrimPrefix (Path (URL r')) ''/'' = bucket @ ''/'' @ key"
    unfolding assms(10,12) by (rule TrimPrefix_append)+
  have "ClassifyRoute r [suf] = \<lparr>Bucket = bucket, Key = key, PathStyle = False\<rparr>"
    unfolding ClassifyRoute_def Let_def h1 using yes assms(1,2,6) by (simp add: tp k Let_def)
  moreover have "ClassifyRoute r' [suf] = \<lparr>Bucket = bucket, Key = key, PathStyle = True\<rparr>"
    unfolding ClassifyRoute_def Let_def h2 using no assms(1,2,6,7) by (simp add: tp k Let_def IndexByte_append_mem)
  ultimately show ?thesis by simp
qed

theorem addressing_styles_agree_witness:
  "let r = ex_request\<lparr>Host := ''photos.s3.example.com:9000'', URL := ex_url\<lparr>Path := ''/a/b.png''\<rparr>\<rparr>;
       r' = ex_request\<lparr>Host := ''s3.example.com'', URL := ex_url\<lparr>Path := ''/photos/a/b.png''\<rparr>\<rparr>
   in Bucket (ClassifyRoute r [''s3.example.com'']) = Bucket (ClassifyRoute r' [''s3.example.com''])
      \<and> Key (ClassifyRoute r [''s3.example.com'']) = Key (ClassifyRoute r' [''s3.example.com''])"
proof -
  have "ToLower ''s3.example.com'' = ''s3.example.com''" "ToLower ''photos'' = ''photos''" by code_simp+
  then show ?thesis
    using addressing_styles_agree [of "''s3.example.com''" "''photos''"
        "ex_request\<lparr>Host := ''photos.s3.example.com:9000'', URL := ex_url\<lparr>Path := ''/a/b.png''\<rparr>\<rparr>" "'':9000''" "''a/b.png''"
        "ex_request\<lparr>Host := ''s3.example.com'', URL := ex_url\<lparr>Path := ''/photos/a/b.png''\<rparr>\<rparr>" "[]"]
    by (simp add: Let_def)
qed

text \<open>Anonymous access is read-only. Whatever request is let through by the anonymous allowlist
  after classification is a \<^verbatim>\<open>GET\<close> or \<^verbatim>\<open>HEAD\<close> on a read-only binding, its operation is one of the four
  plain reads, a \<^verbatim>\<open>GET\<close> names a bucket, and its query has none of the blocked sub-resources.\<close>

theorem anonymous_read_only:
  assumes "AnonymousOpAllowed mode (classifyOperation r route) (Query (URL r))"
  shows "mode = AnonModeReadOnly \<and> (Method r = ''GET'' \<or> Method r = ''HEAD'') \<and> \<not> isUploadOp (classifyOperation r route)
    \<and> (Method r = ''GET'' \<longrightarrow> Bucket route \<noteq> [])
    \<and> (\<forall>k \<in> set anonymousBlockedSubresources. \<not> values_Has (Query (URL r)) k)"
proof -
  from assms have op: "classifyOperation r route \<in> set anonymousReadAllowedOps" and "mode = AnonModeReadOnly"
    and "\<forall>k \<in> set anonymousBlockedSubresources. \<not> values_Has (Query (URL r)) k"
    by (auto simp: AnonymousOpAllowed_def list_ex_iff split: if_splits)
  moreover have "\<not> isUploadOp x" if "x \<in> set anonymousReadAllowedOps" for x
    using that by (auto simp: anonymousReadAllowedOps_def isUploadOp_def uploadOps_def)
  moreover have "Method r = ''GET'' \<Longrightarrow> Bucket route = [] \<Longrightarrow> classifyOperation r route \<notin> set anonymousReadAllowedOps"
    by (simp add: classifyOperation_def anonymousReadAllowedOps_def)
  ultimately show ?thesis using classify_read_method by blast
qed

theorem anonymous_read_only_witness:
  "let r = ex_request\<lparr>URL := ex_url\<lparr>RawQuery := ''list-type=2''\<rparr>\<rparr>; route = \<lparr>Bucket = ''photos'', Key = [], PathStyle = True\<rparr>
   in AnonymousOpAllowed ''ReadOnly'' (classifyOperation r route) (Query (URL r)) \<and> Method r = ''GET''"
proof -
  let ?r = "ex_request\<lparr>URL := ex_url\<lparr>RawQuery := ''list-type=2''\<rparr>\<rparr>"
  let ?route = "\<lparr>Bucket = ''photos'', Key = [], PathStyle = True\<rparr>"
  have a: "AnonymousOpAllowed ''ReadOnly'' (classifyOperation ?r ?route) (Query (URL ?r))" by code_simp
  from anonymous_read_only [OF a] have "Method ?r = ''GET'' \<or> Method ?r = ''HEAD''" by blast
  then show ?thesis using a by (simp add: Let_def ex_request_def)
qed

text \<open>Logged URLs carry no signing material. The logged form of a URL with a query parses back to
  the same parameters, except that every value of the signature, credential and security-token
  parameters is the single word \<^verbatim>\<open>REDACTED\<close>; the path is unchanged.\<close>

theorem redacted_url:
  assumes "RawQuery u \<noteq> []"
  shows "\<exists>qs. RedactPath u = Path u @ ''?'' @ qs \<and>
    (\<forall>k. lookup_or [] (fst (ParseQuery qs)) k =
       (if k \<in> set redactedQueryKeys \<and> values_Has (Query u) k then [''REDACTED''] else lookup_or [] (Query u) k))"
proof -
  let ?q = "map (\<lambda>(k, vs). if k \<in> set redactedQueryKeys then (k, [''REDACTED'']) else (k, vs)) (Query u)"
  have d: "distinct (map fst ?q)" using distinct_ParseQuery by (intro distinct_redact) (simp add: Query_def)
  have "lookup_or [] (fst (ParseQuery (values_Encode ?q))) k =
       (if k \<in> set redactedQueryKeys \<and> values_Has (Query u) k then [''REDACTED''] else lookup_or [] (Query u) k)" for k
    unfolding lookup_ParseQuery_Encode [OF d]
    by (auto simp: lookup_or_def map_of_redact values_Has_def split: option.splits)
  then show ?thesis using assms by (simp add: RedactPath_def Let_def)
qed

theorem redacted_url_witness:
  "\<exists>qs. RedactPath (ex_url\<lparr>RawQuery := ''X-Amz-Signature=deadbeef&versionId=7''\<rparr>) = ''/photos/cat.png?'' @ qs \<and>
    lookup_or [] (fst (ParseQuery qs)) ''X-Amz-Signature'' = [''REDACTED'']"
proof -
  let ?u = "ex_url\<lparr>RawQuery := ''X-Amz-Signature=deadbeef&versionId=7''\<rparr>"
  have "''X-Amz-Signature'' \<in> set redactedQueryKeys" "values_Has (Query ?u) ''X-Amz-Signature''" by code_simp+
  moreover have "Path ?u = ''/photos/cat.png''" by (simp add: ex_url_def)
  ultimately show ?thesis using redacted_url [of ?u] by fastforce
qed

end
