(* ===== verification/Proxy_Rewrite.thy ===== *)
theory Proxy_Rewrite
  imports Routing
begin

text \<open>
  \<^verbatim>\<open>internal/s3proxy/rewrite.go\<close>: what the proxy changes between the inbound request and the request
  it sends to the backend (headers, path, query), and the rewriting of the \<^verbatim>\<open>Location\<close> of a completed
  multipart upload, with \<^verbatim>\<open>inboundObjectLocation\<close> of \<^verbatim>\<open>postobject.go\<close>. The lemmas show that the
  encoded path decodes to the path, so that the URL on the wire is the one that is signed.
\<close>

section \<open>Headers\<close>

definition stripInbound :: "string list" where
  "stripInbound =
     [''authorization'', ''x-amz-date'', ''x-amz-content-sha256'', ''x-amz-security-token'',
      ''x-amz-decoded-content-length'', ''connection'', ''keep-alive'', ''proxy-authenticate'',
      ''proxy-authorization'', ''te'', ''trailer'', ''transfer-encoding'', ''upgrade'',
      ''forwarded'', ''x-forwarded-for'', ''x-forwarded-host'', ''x-forwarded-port'', ''x-forwarded-proto'',
      ''x-forwarded-prefix'', ''x-real-ip'']"

definition allowedAmzPrefixes :: "string list" where
  "allowedAmzPrefixes =
     [''x-amz-acl'', ''x-amz-copy-source'', ''x-amz-copy-source-range'', ''x-amz-metadata-directive'',
      ''x-amz-storage-class'', ''x-amz-tagging'', ''x-amz-server-side-encryption'', ''x-amz-mfa'',
      ''x-amz-grant-full-control'', ''x-amz-grant-read'', ''x-amz-grant-write'', ''x-amz-grant-read-acp'',
      ''x-amz-grant-write-acp'', ''x-amz-website-redirect-location'', ''x-amz-request-payer'']"

definition userMetaPrefix :: string where "userMetaPrefix = ''x-amz-meta-''"
definition checksumPrefix :: string where "checksumPrefix = ''x-amz-checksum-''"
definition sdkChecksumAlgoHeader :: string where "sdkChecksumAlgoHeader = ''x-amz-sdk-checksum-algorithm''"

definition hasChecksumValue :: "header \<Rightarrow> bool" where
  "hasChecksumValue h =
     list_ex (\<lambda>(k, vs). let lk = ToLower k in HasPrefix lk checksumPrefix
        \<and> lk \<noteq> ''x-amz-checksum-algorithm'' \<and> lk \<noteq> ''x-amz-checksum-type'') h"

text \<open>Whether the loop of \<^verbatim>\<open>PrepareOutboundHeaders\<close> copies a header.\<close>

definition forwards :: "bool \<Rightarrow> string \<Rightarrow> bool" where
  "forwards hasChecksum k =
     (let lk = ToLower k
      in if lk \<in> set stripInbound then False
         else if HasPrefix lk ''x-amz-'' then
           (if HasPrefix lk userMetaPrefix then True
            else if HasPrefix lk checksumPrefix then True
            else if lk = sdkChecksumAlgoHeader then hasChecksum
            else lk \<in> set allowedAmzPrefixes)
         else True)"

definition PrepareOutboundHeaders :: "header \<Rightarrow> header" where
  "PrepareOutboundHeaders h = filter (\<lambda>(k, vs). forwards (hasChecksumValue h) k) h"

definition HasAwsChunkedEncoding :: "header \<Rightarrow> bool" where
  "HasAwsChunkedEncoding h =
     list_ex (\<lambda>p. EqualFold (TrimSpace p) ''aws-chunked'') (Split (header_Get h ''Content-Encoding'') (CHR '',''))"

definition StripAwsChunkedEncoding :: "header \<Rightarrow> header" where
  "StripAwsChunkedEncoding h =
     (let ce = header_Get h ''Content-Encoding''
      in if ce = [] then h
         else let kept = filter (\<lambda>p. \<not> (p = [] \<or> EqualFold p ''aws-chunked'')) (map TrimSpace (Split ce (CHR '','')))
              in if kept = [] then header_Del ''Content-Encoding'' h
                 else header_Set ''Content-Encoding'' (Join kept '','') h)"

section \<open>Paths\<close>

definition BuildOutboundPath :: "string \<Rightarrow> string \<Rightarrow> string" where
  "BuildOutboundPath realBucket key =
     (if key = [] then ''/'' @ realBucket else ''/'' @ realBucket @ ''/'' @ key)"

definition isAWSUnreserved :: "char \<Rightarrow> bool" where
  "isAWSUnreserved c \<longleftrightarrow> (let n = (of_char c :: nat) in
     (65 \<le> n \<and> n \<le> 90) \<or> (97 \<le> n \<and> n \<le> 122) \<or> (48 \<le> n \<and> n \<le> 57)
     \<or> c = CHR ''-'' \<or> c = CHR ''.'' \<or> c = CHR ''_'' \<or> c = CHR ''~'')"

definition awsPathEscape :: "string \<Rightarrow> string" where
  "awsPathEscape s =
     (if list_all isAWSUnreserved s then s
      else concat (map (\<lambda>c. if isAWSUnreserved c then [c]
             else [CHR ''%'', ''0123456789ABCDEF'' ! (of_char c div 16), ''0123456789ABCDEF'' ! (of_char c mod 16)]) s))"

definition awsKeyEscape :: "string \<Rightarrow> string" where
  "awsKeyEscape key =
     (if \<not> Contains key ''/'' then awsPathEscape key
      else Join (map awsPathEscape (Split key (CHR ''/''))) ''/'')"

definition BuildOutboundRawPath :: "string \<Rightarrow> string \<Rightarrow> string" where
  "BuildOutboundRawPath realBucket key =
     (if key = [] then ''/'' @ awsPathEscape realBucket
      else ''/'' @ awsPathEscape realBucket @ ''/'' @ awsKeyEscape key)"

section \<open>Queries\<close>

definition presignedQueryParams :: "string list" where
  "presignedQueryParams =
     [''X-Amz-Algorithm'', ''X-Amz-Credential'', ''X-Amz-Date'', ''X-Amz-Expires'', ''X-Amz-SignedHeaders'',
      ''X-Amz-Signature'', ''X-Amz-Security-Token'']"

definition StripPresignedQuery :: "string \<Rightarrow> string" where
  "StripPresignedQuery raw =
     (if raw = [] then raw
      else case ParseQuery raw of (q, err) \<Rightarrow>
        if err then raw
        else (let stripped = list_ex (\<lambda>k. values_Has q k) presignedQueryParams;
                  q' = fold (\<lambda>k q. if values_Has q k then values_Del k q else q) presignedQueryParams q
              in if \<not> stripped then raw else values_Encode q'))"

section \<open>Responses\<close>

record response =
  StatusCode :: int
  rHeader :: header
  rContentLength :: int
  rBody :: stream

definition maxRewritableXMLBody :: nat where
  "maxRewritableXMLBody = 1048576"

text \<open>\<^verbatim>\<open>xmlEscaper\<close> replaces single bytes.\<close>

definition xmlEscaper :: "string \<Rightarrow> string" where
  "xmlEscaper s = concat (map (\<lambda>c. if c = CHR ''&'' then ''&amp;'' else if c = CHR ''<'' then ''&lt;''
     else if c = CHR ''>'' then ''&gt;'' else [c]) s)"

text \<open>\<^verbatim>\<open>URL.String\<close> for a URL with a scheme, a host that needs no escaping and a rooted path.\<close>

definition url_String :: "url \<Rightarrow> string" where
  "url_String u = Scheme u @ ''://'' @ UHost u @ EscapedPath u
     @ (if RawQuery u = [] then [] else ''?'' @ RawQuery u)"

definition inboundObjectLocation :: "request \<Rightarrow> RouteInfo \<Rightarrow> string \<Rightarrow> string \<Rightarrow> string" where
  "inboundObjectLocation r route key publicHostname =
     (let scheme = (if TLS r then ''https''
            else if ToLower (header_Get (Header r) ''X-Forwarded-Proto'') = ''https'' then ''https'' else ''http'');
          host = (if publicHostname \<noteq> [] then
              (if PathStyle route then publicHostname else Bucket route @ ''.'' @ publicHostname) else Host r)
      in url_String (if PathStyle route
           then \<lparr>Scheme = scheme, UHost = host, Path = BuildOutboundPath (Bucket route) key,
                 RawPath = BuildOutboundRawPath (Bucket route) key, RawQuery = []\<rparr>
           else \<lparr>Scheme = scheme, UHost = host, Path = ''/'' @ key, RawPath = ''/'' @ awsKeyEscape key, RawQuery = []\<rparr>))"

definition rewriteCompleteMultipartLocation :: "response \<Rightarrow> request \<Rightarrow> RouteInfo \<Rightarrow> string \<Rightarrow> response" where
  "rewriteCompleteMultipartLocation resp r route publicHostname =
     (let buf = take (maxRewritableXMLBody + 1) (fst (rBody resp));
          err = (length (fst (rBody resp)) \<le> maxRewritableXMLBody \<and> snd (rBody resp) \<noteq> None)
      in if err \<or> maxRewritableXMLBody < length buf then resp
         else case (Index buf ''<Location>'', Index buf ''</Location>'') of
           (Some opn, Some cls) \<Rightarrow>
             (if cls < opn then resp\<lparr>rBody := (buf, None)\<rparr>
              else let loc = xmlEscaper (inboundObjectLocation r route (Key route) publicHostname);
                       rewritten = take (opn + length ''<Location>'') buf @ loc @ drop cls buf
                   in resp\<lparr>rBody := (rewritten, None), rContentLength := int (length rewritten),
                        rHeader := header_Set ''Content-Length'' (FormatInt (int (length rewritten))) (rHeader resp)\<rparr>)
         | _ \<Rightarrow> resp\<lparr>rBody := (buf, None)\<rparr>)"

section \<open>Lemmas\<close>

lemma isAWSUnreserved_iff: "isAWSUnreserved c \<longleftrightarrow> is_unreserved c"
  by (auto simp: isAWSUnreserved_def is_unreserved_def is_alnum_def Let_def)

lemma awsPathEscape_pct: "awsPathEscape s = concat (map (\<lambda>c. if is_unreserved c then [c] else pct c) s)"
proof -
  have "list_all is_unreserved s \<Longrightarrow> concat (map (\<lambda>c. if is_unreserved c then [c] else pct c) s) = s"
    by (induction s) auto
  moreover have "isAWSUnreserved = is_unreserved" by (rule ext) (rule isAWSUnreserved_iff)
  ultimately show ?thesis
    by (simp add: awsPathEscape_def pct_def hexU_def Let_def cong: if_cong)
qed

text \<open>The escaping fast path and the segment-wise escaping both compute one map over the bytes.\<close>

lemma awsKeyEscape_pct: "awsKeyEscape key = concat (map (\<lambda>c. if is_unreserved c \<or> c = CHR ''/'' then [c] else pct c) key)"
proof -
  let ?f = "\<lambda>c. if is_unreserved c \<or> c = CHR ''/'' then [c] else pct c"
  have seg: "concat (map ?f s) = awsPathEscape s" if "CHR ''/'' \<notin> set s" for s
    using that unfolding awsPathEscape_pct by (induction s) auto
  have join: "concat (map ?f (Join ss ''/'')) = Join (map awsPathEscape ss) ''/''"
    if "\<And>s. s \<in> set ss \<Longrightarrow> CHR ''/'' \<notin> set s" for ss
    using that by (induction ss rule: induct_list012) (auto simp: seg)
  show ?thesis
  proof (cases "Contains key ''/''")
    case True
    have "concat (map ?f (Join (Split key (CHR ''/'')) ''/'')) = Join (map awsPathEscape (Split key (CHR ''/''))) ''/''"
      by (rule join) (rule Split_sep_free)
    then show ?thesis using True by (simp add: awsKeyEscape_def)
  next
    case False
    have "CHR ''/'' \<in> set s \<Longrightarrow> Index s ''/'' \<noteq> None" for s
    proof (induction s)
      case (Cons a s)
      then show ?case by (subst Index.simps) auto
    qed simp
    then have "CHR ''/'' \<notin> set key" using False by (metis Contains_def)
    then show ?thesis using False seg by (simp add: awsKeyEscape_def)
  qed
qed

lemma unescape_append_enc:
  "unescape m (concat (map (\<lambda>c. if keep c then [c] else pct c) s) @ t) = map_option ((@) s) (unescape m t)"
  if "\<And>c. keep c \<Longrightarrow> c \<noteq> CHR ''%'' \<and> (m \<longrightarrow> c \<noteq> CHR ''+'')"
proof (induction s)
  case Nil
  then show ?case by (cases "unescape m t") auto
next
  case (Cons c s)
  then show ?case using that [of c] by (cases "unescape m t") auto
qed

lemma unescape_rawpath: "unescape False (BuildOutboundRawPath b k) = Some (BuildOutboundPath b k)"
proof -
  have p: "unescape False (awsPathEscape s @ t) = map_option ((@) s) (unescape False t)" for s t
    unfolding awsPathEscape_pct by (rule unescape_append_enc) auto
  have q: "unescape False (awsKeyEscape s) = Some s" for s
    unfolding awsKeyEscape_pct by (rule unescape_encode) auto
  show ?thesis
    using p [of b "[]"] p [of b "''/'' @ awsKeyEscape k"] q [of k]
    by (simp add: BuildOutboundRawPath_def BuildOutboundPath_def)
qed

lemma validEncoded_pct: "validEncodedPath (pct c)"
  by (auto simp: validEncodedPath_def pct_def Let_def shouldEscapePath_def is_unreserved_def)

lemma validEncodedPath_append: "validEncodedPath (s @ t) \<longleftrightarrow> validEncodedPath s \<and> validEncodedPath t"
  by (simp add: validEncodedPath_def)

lemma validEncoded_enc:
  assumes "\<And>c. keep c \<Longrightarrow> is_unreserved c \<or> c = CHR ''/''"
  shows "validEncodedPath (concat (map (\<lambda>c. if keep c then [c] else pct c) s))"
proof (induction s)
  case (Cons c s)
  have "keep c \<Longrightarrow> validEncodedPath [c]"
    using assms [of c] by (auto simp: validEncodedPath_def shouldEscapePath_def)
  then show ?case using Cons validEncoded_pct [of c] by (auto simp: validEncodedPath_append)
qed (simp add: validEncodedPath_def)

lemma validEncoded_rawpath: "validEncodedPath (BuildOutboundRawPath b k)"
proof -
  have "validEncodedPath (awsPathEscape s)" for s unfolding awsPathEscape_pct by (rule validEncoded_enc) auto
  moreover have "validEncodedPath (awsKeyEscape s)" for s unfolding awsKeyEscape_pct by (rule validEncoded_enc) auto
  moreover have "validEncodedPath ''/''" by code_simp
  ultimately show ?thesis by (simp add: BuildOutboundRawPath_def validEncodedPath_append del: append.simps)
qed

lemma unescape_append: "unescape m s = Some s' \<Longrightarrow> unescape m (s @ t) = map_option ((@) s') (unescape m t)"
proof (induction m s arbitrary: s' rule: unescape.induct)
  case (1 m)
  then show ?case by (cases "unescape m t") auto
next
  case (2 m c cs)
  show ?case
  proof (cases "c = CHR ''%''")
    case True
    then obtain a b rest u where *: "cs = a # b # rest" "ishex a" "ishex b" "unescape m rest = Some u"
      "s' = char_of (16 * unhex a + unhex b) # u"
      using 2(4) by (auto split: list.splits if_splits)
    then have "unescape m (rest @ t) = map_option ((@) u) (unescape m t)" using 2(1) True by blast
    then show ?thesis using True * by (cases "unescape m t") auto
  next
    case False
    then show ?thesis using 2(2-4) by (cases "unescape m t") (auto split: if_splits)
  qed
qed

lemma rawpath_not_Nil [simp]: "BuildOutboundRawPath b k \<noteq> []"
  by (simp add: BuildOutboundRawPath_def)

lemma map_of_values_Del: "map_of (values_Del k q) = (map_of q)(k := None)"
  by (simp add: values_Del_def delete_conv fun_eq_iff)

lemma fold_values_Del:
  "map_of (fold (\<lambda>k q. if values_Has q k then values_Del k q else q) ks q) = (\<lambda>k. if k \<in> set ks then None else map_of q k)"
proof (induction ks arbitrary: q)
  case (Cons a ks)
  have h: "map_of (if values_Has q a then values_Del a q else q) = (map_of q)(a := None)"
    by (auto simp: map_of_values_Del values_Has_def fun_eq_iff)
  show ?case by (simp only: fold_simps(2) Cons.IH h) (auto simp: fun_eq_iff)
qed simp

lemma distinct_fold_values_Del:
  "distinct (map fst q) \<Longrightarrow> distinct (map fst (fold (\<lambda>k q. if values_Has q k then values_Del k q else q) ks q))"
  by (induction ks arbitrary: q) (auto simp: values_Del_def intro: distinct_delete)

lemma TrimSpace_idem: "TrimSpace (TrimSpace s) = TrimSpace s"
proof -
  have r: "TrimRightFunc p (TrimRightFunc p s) = TrimRightFunc p s" for p and s :: string
  proof (rule TrimRightFunc_id)
    show "TrimRightFunc p s = [] \<or> \<not> p (last (TrimRightFunc p s))"
      using hd_dropWhile [of p "rev s"] by (cases "dropWhile p (rev s) = []") (simp_all add: TrimRightFunc_def last_rev)
  qed
  have "dropWhile is_space (TrimRightFunc is_space (dropWhile is_space s)) = TrimRightFunc is_space (dropWhile is_space s)"
  proof (cases "dropWhile is_space s")
    case (Cons c cs)
    then have nc: "\<not> is_space c" by (metis dropWhile_eq_Cons_conv)
    then have "TrimRightFunc is_space (c # cs) = c # TrimRightFunc is_space cs"
      by (cases "\<forall>x \<in> set cs. is_space x") (auto simp: TrimRightFunc_def dropWhile_append)
    then show ?thesis using Cons nc by auto
  next
    case Nil
    show ?thesis unfolding Nil by (simp add: TrimRightFunc_def)
  qed
  then show ?thesis by (simp add: TrimSpace_def r)
qed

section \<open>Properties\<close>

text \<open>The outbound headers. A header reaches the backend, with exactly its values, if and only if
  its lower-cased name is not one of the stripped signing, hop-by-hop and forwarding headers and,
  when it starts with \<^verbatim>\<open>x-amz-\<close>, it is user metadata, a checksum header, the checksum announcement
  together with a checksum value, or on the allowlist. In particular no inbound \<^verbatim>\<open>Authorization\<close>,
  date, payload hash or security token is forwarded under any capitalisation.\<close>

theorem outbound_headers:
  "map_of (PrepareOutboundHeaders h) k = (if forwards (hasChecksumValue h) k then map_of h k else None)
   \<and> (NoCase k s \<and> s \<in> set stripInbound \<longrightarrow> map_of (PrepareOutboundHeaders h) k = None)"
proof
  show "map_of (PrepareOutboundHeaders h) k = (if forwards (hasChecksumValue h) k then map_of h k else None)"
    by (simp add: PrepareOutboundHeaders_def map_of_filter_key)
  have "list_all (\<lambda>s. ToLower s = s) stripInbound" by code_simp
  then have "\<not> forwards b k" if "NoCase k s" "s \<in> set stripInbound" for b
    using that by (simp add: forwards_def NoCase_def list_all_iff Let_def)
  then show "NoCase k s \<and> s \<in> set stripInbound \<longrightarrow> map_of (PrepareOutboundHeaders h) k = None"
    by (simp add: PrepareOutboundHeaders_def map_of_filter_key)
qed

theorem outbound_headers_witness:
  "map_of (PrepareOutboundHeaders [(''AUTHORIZATION'', [''secret'']), (''X-Amz-Acl'', [''private''])]) ''AUTHORIZATION'' = None"
proof -
  have "NoCase ''AUTHORIZATION'' ''authorization''" "''authorization'' \<in> set stripInbound" by code_simp+
  then show ?thesis using outbound_headers [of "[(''AUTHORIZATION'', [''secret'']), (''X-Amz-Acl'', [''private''])]" "''AUTHORIZATION''" "''authorization''"] by blast
qed

text \<open>C35: The outbound URL. For any base path of the backend without percent signs and trailing slash
  issues, the encoded path the proxy sets is a valid encoding that decodes to the plain path, so the
  request line carries that encoding, which is the one the signature is computed over; every
  reserved byte of bucket and key is percent-encoded and slashes of the key are kept.\<close>

theorem outbound_path_encoding:
  assumes "unescape False base = Some base" "validEncodedPath base"
  shows "EscapedPath (u\<lparr>Path := base @ BuildOutboundPath b k, RawPath := base @ BuildOutboundRawPath b k\<rparr>)
    = base @ BuildOutboundRawPath b k
    \<and> BuildOutboundRawPath b k = ''/'' @ awsURLEncode b True @ (if k = [] then [] else ''/'' @ awsURLEncode k False)"
proof
  have "unescape False (base @ BuildOutboundRawPath b k) = Some (base @ BuildOutboundPath b k)"
    using unescape_append [OF assms(1), of "BuildOutboundRawPath b k"] by (simp add: unescape_rawpath)
  then show "EscapedPath (u\<lparr>Path := base @ BuildOutboundPath b k, RawPath := base @ BuildOutboundRawPath b k\<rparr>)
    = base @ BuildOutboundRawPath b k"
    using assms(2) validEncoded_rawpath by (simp add: EscapedPath_def validEncodedPath_append)
  show "BuildOutboundRawPath b k = ''/'' @ awsURLEncode b True @ (if k = [] then [] else ''/'' @ awsURLEncode k False)"
    by (simp add: BuildOutboundRawPath_def awsPathEscape_pct awsKeyEscape_pct awsURLEncode_pct)
qed

theorem outbound_path_encoding_witness:
  "EscapedPath (ex_url\<lparr>Path := ''/s3'' @ BuildOutboundPath ''photos'' ''a b+c/d=e'', RawPath := ''/s3'' @ BuildOutboundRawPath ''photos'' ''a b+c/d=e''\<rparr>)
     = ''/s3/photos/a%20b%2Bc/d%3De''"
proof -
  have b: "unescape False ''/s3'' = Some ''/s3''" "validEncodedPath ''/s3''"
    and r: "''/s3'' @ BuildOutboundRawPath ''photos'' ''a b+c/d=e'' = ''/s3/photos/a%20b%2Bc/d%3De''"
    by code_simp+
  show ?thesis by (rule trans [OF conjunct1 [OF outbound_path_encoding [OF b]] r])
qed

text \<open>The outbound query. When the query parses, the outbound query has none of the presigned
  signing parameters and every other parameter with the same values in the same order; a query
  without signing parameters, or one that does not parse, is passed on byte for byte.\<close>

theorem stripped_query:
  "(snd (ParseQuery raw) \<longrightarrow> StripPresignedQuery raw = raw)
   \<and> (\<not> snd (ParseQuery raw) \<longrightarrow>
       lookup_or [] (fst (ParseQuery (StripPresignedQuery raw))) k =
         (if k \<in> set presignedQueryParams then [] else lookup_or [] (fst (ParseQuery raw)) k))
   \<and> ((\<forall>k \<in> set presignedQueryParams. \<not> values_Has (fst (ParseQuery raw)) k) \<longrightarrow> StripPresignedQuery raw = raw)"
proof -
  let ?q = "fst (ParseQuery raw)"
  let ?q' = "fold (\<lambda>k q. if values_Has q k then values_Del k q else q) presignedQueryParams ?q"
  have a: "snd (ParseQuery raw) \<Longrightarrow> StripPresignedQuery raw = raw"
    by (auto simp: StripPresignedQuery_def split: prod.splits)
  have b: "(\<forall>k \<in> set presignedQueryParams. \<not> values_Has ?q k) \<Longrightarrow> StripPresignedQuery raw = raw"
    by (auto simp: StripPresignedQuery_def list_ex_iff Let_def split: prod.splits)
  have c: "lookup_or [] (fst (ParseQuery (StripPresignedQuery raw))) k =
         (if k \<in> set presignedQueryParams then [] else lookup_or [] ?q k)" if "\<not> snd (ParseQuery raw)"
  proof (cases "\<exists>k \<in> set presignedQueryParams. values_Has ?q k")
    case True
    then have "raw \<noteq> []" by (auto simp: ParseQuery_def parse_pair_def values_Has_def)
    then have "StripPresignedQuery raw = values_Encode ?q'"
      using that True by (auto simp: StripPresignedQuery_def list_ex_iff Let_def split: prod.splits)
    moreover have "distinct (map fst ?q')" by (rule distinct_fold_values_Del) (rule distinct_ParseQuery)
    ultimately show ?thesis by (simp add: lookup_ParseQuery_Encode) (simp add: lookup_or_def fold_values_Del)
  next
    case False
    then show ?thesis using b by (auto simp: lookup_or_def values_Has_def)
  qed
  from a b c show ?thesis by blast
qed

theorem stripped_query_witness:
  "lookup_or [] (fst (ParseQuery (StripPresignedQuery ''X-Amz-Signature=ab&x-id=GetObject''))) ''X-Amz-Signature'' = []
   \<and> lookup_or [] (fst (ParseQuery (StripPresignedQuery ''X-Amz-Signature=ab&x-id=GetObject''))) ''x-id'' = [''GetObject'']"
proof -
  have "\<not> snd (ParseQuery ''X-Amz-Signature=ab&x-id=GetObject'')"
    "''X-Amz-Signature'' \<in> set presignedQueryParams" "''x-id'' \<notin> set presignedQueryParams"
    "lookup_or [] (fst (ParseQuery ''X-Amz-Signature=ab&x-id=GetObject'')) ''x-id'' = [''GetObject'']"
    by code_simp+
  then show ?thesis
    using stripped_query [of "''X-Amz-Signature=ab&x-id=GetObject''" "''X-Amz-Signature''"]
      stripped_query [of "''X-Amz-Signature=ab&x-id=GetObject''" "''x-id''"] by simp
qed

text \<open>The content codings a header names, as the code splits them.\<close>

definition content_codings :: "header \<Rightarrow> string list" where
  "content_codings h = filter (\<lambda>p. p \<noteq> []) (map TrimSpace (Split (header_Get h ''Content-Encoding'') (CHR '','')))"

lemma TrimSpace_no_comma: "CHR '','' \<notin> set s \<Longrightarrow> CHR '','' \<notin> set (TrimSpace s)"
  using set_TrimSpace by blast

text \<open>Once the chunked framing is decoded, the \<^verbatim>\<open>aws-chunked\<close> coding is gone from the
  \<^verbatim>\<open>Content-Encoding\<close> header under any capitalisation and spacing, and all other codings are kept in
  their order.\<close>

theorem aws_chunked_stripped:
  "content_codings (StripAwsChunkedEncoding h) = filter (\<lambda>p. \<not> EqualFold p ''aws-chunked'') (content_codings h)
   \<and> \<not> HasAwsChunkedEncoding (StripAwsChunkedEncoding h)"
proof -
  let ?ce = "header_Get h ''Content-Encoding''" and ?h = "StripAwsChunkedEncoding h"
  let ?kept = "filter (\<lambda>p. \<not> (p = [] \<or> EqualFold p ''aws-chunked'')) (map TrimSpace (Split ?ce (CHR '','')))"
  have kept: "?kept = filter (\<lambda>p. \<not> EqualFold p ''aws-chunked'') (content_codings h)"
    by (simp add: content_codings_def)
  have pieces: "Split (header_Get ?h ''Content-Encoding'') (CHR '','') = (if ?kept = [] then [[]] else ?kept)"
  proof (cases "?kept = []")
    case True
    then have "header_Get ?h ''Content-Encoding'' = []"
      by (simp add: StripAwsChunkedEncoding_def Let_def)
    with True show ?thesis by simp
  next
    case False
    then have "?ce \<noteq> []" by (auto simp: TrimSpace_def TrimRightFunc_def)
    then have "header_Get ?h ''Content-Encoding'' = Join ?kept '',''"
      using False by (simp add: StripAwsChunkedEncoding_def Let_def)
    moreover have "Split (Join ?kept '','') (CHR '','') = ?kept"
      using False by (intro Split_Join) (auto intro!: TrimSpace_no_comma dest: Split_sep_free)
    ultimately show ?thesis using False by simp
  qed
  have id: "map TrimSpace ?kept = ?kept" by (intro map_idI) (auto simp: TrimSpace_idem)
  have "TrimSpace [] = []" by (simp add: TrimSpace_def TrimRightFunc_def)
  then have "content_codings ?h = ?kept"
    unfolding content_codings_def pieces using arg_cong [OF id, of "filter (\<lambda>p. p \<noteq> [])"]
    by (auto simp: filter_id_conv conj_commute conj_left_commute split: if_splits)
  moreover have "\<not> HasAwsChunkedEncoding ?h"
    unfolding HasAwsChunkedEncoding_def pieces using \<open>TrimSpace [] = []\<close>
    by (auto simp: list_ex_iff TrimSpace_idem)
  ultimately show ?thesis using kept by simp
qed

end
