(* ===== verification/Cors.thy ===== *)
theory Cors
  imports Routing
begin

text \<open>
  \<^verbatim>\<open>internal/s3proxy/cors.go\<close>: CORS preflights and the decoration of responses. The response writer is
  the header map it has accumulated and, once written, the status.
\<close>

section \<open>Definitions\<close>

record BucketCORSRule =
  AllowedOrigins :: "string list"
  AllowedMethods :: "string list"
  AllowedHeaders :: "string list"
  ExposeHeaders :: "string list"
  MaxAgeSeconds :: int

definition defaultCORSHeaders :: "string list" where
  "defaultCORSHeaders =
     [''Authorization'', ''Content-Type'', ''Content-Disposition'', ''Content-Encoding'', ''Cache-Control'', ''Expires'',
      ''x-amz-date'', ''x-amz-content-sha256'', ''x-amz-security-token'', ''x-amz-user-agent'', ''x-amz-acl'',
      ''x-amz-storage-class'', ''x-amz-server-side-encryption'', ''x-amz-tagging'', ''x-amz-meta-*'']"

definition defaultCORSExposed :: "string list" where
  "defaultCORSExposed = [''ETag'', ''x-amz-version-id'', ''x-amz-request-id'']"

definition defaultCORSMaxAge :: duration where
  "defaultCORSMaxAge = 10 * Minute"

fun matchOrigin :: "string list \<Rightarrow> string \<Rightarrow> string" where
  "matchOrigin [] origin = []"
| "matchOrigin (o1 # os) origin =
     (if o1 = ''*'' then ''*'' else if o1 = origin then origin else matchOrigin os origin)"

definition sliceContainsFold :: "string list \<Rightarrow> string \<Rightarrow> bool" where
  "sliceContainsFold haystack needle = list_ex (\<lambda>v. EqualFold v needle) haystack"

fun match_rules :: "BucketCORSRule list \<Rightarrow> string \<Rightarrow> string \<Rightarrow> (BucketCORSRule \<times> string) option" where
  "match_rules [] origin meth = None"
| "match_rules (ru # rules) origin meth =
     (let allow = matchOrigin (AllowedOrigins ru) origin
      in if allow = [] then match_rules rules origin meth
         else if meth \<noteq> [] \<and> \<not> sliceContainsFold (AllowedMethods ru) meth then match_rules rules origin meth
         else Some (ru, allow))"

definition matchCORSRule :: "BucketCORSRule list \<Rightarrow> string \<Rightarrow> string \<Rightarrow> (BucketCORSRule \<times> string) option" where
  "matchCORSRule rules origin meth = (if origin = [] then None else match_rules rules origin meth)"

text \<open>The preflight answer: \<^term>\<open>None\<close> when the request falls through, else the headers set with
  status 204. \<^verbatim>\<open>time.Duration(n) * time.Second\<close> is computed at 64 bits.\<close>

definition handlePreflight :: "BucketCORSRule list \<Rightarrow> header \<Rightarrow> request \<Rightarrow> header option" where
  "handlePreflight rules w r =
     (if rules = [] then None
      else if Method r \<noteq> ''OPTIONS'' then None
      else let reqMethod = header_Get (Header r) ''Access-Control-Request-Method''
        in if reqMethod = [] then None
      else case matchCORSRule rules (header_Get (Header r) ''Origin'') reqMethod of
        None \<Rightarrow> None
      | Some (ru, allow) \<Rightarrow>
          (let headers = (if AllowedHeaders ru = [] then defaultCORSHeaders else AllowedHeaders ru);
               age0 = wrap64 (MaxAgeSeconds ru * Second);
               maxAge = (if age0 \<le> 0 then defaultCORSMaxAge else age0);
               h1 = header_Set ''Access-Control-Allow-Origin'' allow w;
               h2 = header_Set ''Access-Control-Allow-Methods'' (Join (AllowedMethods ru) '', '') h1;
               h3 = header_Set ''Access-Control-Allow-Headers'' (Join headers '', '') h2;
               h4 = header_Set ''Access-Control-Max-Age'' (FormatInt (maxAge div Second)) h3;
               h5 = header_Add ''Vary'' ''Origin'' h4;
               h6 = header_Add ''Vary'' ''Access-Control-Request-Method'' h5
           in Some (header_Add ''Vary'' ''Access-Control-Request-Headers'' h6)))"

definition decorateCORS :: "BucketCORSRule list \<Rightarrow> header \<Rightarrow> request \<Rightarrow> header" where
  "decorateCORS rules w r =
     (if rules = [] then w
      else case matchCORSRule rules (header_Get (Header r) ''Origin'') [] of
        None \<Rightarrow> w
      | Some (ru, allow) \<Rightarrow>
          (let exposed = (if ExposeHeaders ru = [] then defaultCORSExposed else ExposeHeaders ru);
               h1 = header_Set ''Access-Control-Allow-Origin'' allow w;
               h2 = header_Set ''Access-Control-Expose-Headers'' (Join exposed '', '') h1
           in header_Add ''Vary'' ''Origin'' h2))"

section \<open>Lemmas\<close>

lemma matchOrigin_iff: "origin \<noteq> [] \<Longrightarrow> matchOrigin os origin \<noteq> [] \<longleftrightarrow> origin \<in> set os \<or> ''*'' \<in> set os"
  by (induction os origin rule: matchOrigin.induct) auto

lemma matchOrigin_value: "matchOrigin os origin = [] \<or> matchOrigin os origin = ''*'' \<and> ''*'' \<in> set os
    \<or> matchOrigin os origin = origin \<and> origin \<in> set os"
  by (induction os origin rule: matchOrigin.induct) auto

lemma match_rules_Some: "match_rules rules origin meth = Some (ru, allow) \<Longrightarrow>
   ru \<in> set rules \<and> allow = matchOrigin (AllowedOrigins ru) origin \<and> allow \<noteq> [] \<and>
   (meth \<noteq> [] \<longrightarrow> sliceContainsFold (AllowedMethods ru) meth)"
  by (induction rules origin meth rule: match_rules.induct) (auto simp: Let_def split: if_splits)

lemma match_rules_None: "match_rules rules origin meth = None \<longleftrightarrow>
   (\<forall>ru \<in> set rules. matchOrigin (AllowedOrigins ru) origin = [] \<or>
      (meth \<noteq> [] \<and> \<not> sliceContainsFold (AllowedMethods ru) meth))"
  by (induction rules origin meth rule: match_rules.induct) (auto simp: Let_def)

lemma header_Get_Add_other:
  "CanonicalHeaderKey k \<noteq> CanonicalHeaderKey k' \<Longrightarrow> header_Get (header_Add k v h) k' = header_Get h k'"
  by (simp add: header_Get_def header_Add_def header_Values_def lookup_or_def update_conv)

lemma cors_keys:
  "CanonicalHeaderKey ''Vary'' \<noteq> CanonicalHeaderKey ''Access-Control-Allow-Origin''"
  "CanonicalHeaderKey ''Access-Control-Max-Age'' \<noteq> CanonicalHeaderKey ''Access-Control-Allow-Origin''"
  "CanonicalHeaderKey ''Access-Control-Allow-Headers'' \<noteq> CanonicalHeaderKey ''Access-Control-Allow-Origin''"
  "CanonicalHeaderKey ''Access-Control-Allow-Methods'' \<noteq> CanonicalHeaderKey ''Access-Control-Allow-Origin''"
  "CanonicalHeaderKey ''Access-Control-Expose-Headers'' \<noteq> CanonicalHeaderKey ''Access-Control-Allow-Origin''"
  by code_simp+

section \<open>Properties\<close>

text \<open>A preflight is answered exactly when the request is an \<^verbatim>\<open>OPTIONS\<close> request that names an origin
  and a method and some rule of the bucket allows that origin (literally or by \<^verbatim>\<open>*\<close>) together with
  that method (ignoring case); the answer then echoes \<^verbatim>\<open>*\<close> or the origin itself, and only when a rule
  with that method lists it.\<close>

theorem preflight_iff:
  "(handlePreflight rules w r \<noteq> None \<longleftrightarrow>
     Method r = ''OPTIONS'' \<and> header_Get (Header r) ''Access-Control-Request-Method'' \<noteq> [] \<and> header_Get (Header r) ''Origin'' \<noteq> [] \<and>
     (\<exists>ru \<in> set rules. (header_Get (Header r) ''Origin'' \<in> set (AllowedOrigins ru) \<or> ''*'' \<in> set (AllowedOrigins ru)) \<and>
        (\<exists>m \<in> set (AllowedMethods ru). EqualFold m (header_Get (Header r) ''Access-Control-Request-Method''))))
   \<and> (\<forall>h. handlePreflight rules w r = Some h \<longrightarrow>
        (\<exists>ru \<in> set rules. header_Get h ''Access-Control-Allow-Origin'' \<in> {''*'', header_Get (Header r) ''Origin''} \<inter> set (AllowedOrigins ru) \<and>
          (\<exists>m \<in> set (AllowedMethods ru). EqualFold m (header_Get (Header r) ''Access-Control-Request-Method''))))"
proof -
  let ?o = "header_Get (Header r) ''Origin''" and ?m = "header_Get (Header r) ''Access-Control-Request-Method''"
  have 1: "handlePreflight rules w r \<noteq> None \<longleftrightarrow> Method r = ''OPTIONS'' \<and> ?m \<noteq> [] \<and> ?o \<noteq> [] \<and> match_rules rules ?o ?m \<noteq> None"
    by (cases rules) (auto simp: handlePreflight_def matchCORSRule_def Let_def split: option.splits)
  have 2: "\<exists>ru \<in> set rules. header_Get h ''Access-Control-Allow-Origin'' \<in> {''*'', ?o} \<inter> set (AllowedOrigins ru) \<and>
      (\<exists>m \<in> set (AllowedMethods ru). EqualFold m ?m)" if h: "handlePreflight rules w r = Some h" for h
  proof -
    from h obtain ru allow where m: "match_rules rules ?o ?m = Some (ru, allow)" "?m \<noteq> []"
      and "header_Get h ''Access-Control-Allow-Origin'' = allow"
      by (auto simp: handlePreflight_def matchCORSRule_def Let_def header_Get_Add_other header_Get_Set_other cors_keys
          split: if_splits option.splits)
    with match_rules_Some [OF m(1)] matchOrigin_value [of "AllowedOrigins ru" ?o] show ?thesis
      by (auto simp: sliceContainsFold_def list_ex_iff)
  qed
  have 3: "match_rules rules ?o ?m \<noteq> None \<longleftrightarrow> (\<exists>ru \<in> set rules. (?o \<in> set (AllowedOrigins ru) \<or> ''*'' \<in> set (AllowedOrigins ru)) \<and>
      (\<exists>m \<in> set (AllowedMethods ru). EqualFold m ?m))" if "?o \<noteq> []" "?m \<noteq> []"
    unfolding match_rules_None using that matchOrigin_iff [of ?o] by (auto simp: sliceContainsFold_def list_ex_iff)
  from 1 2 3 show ?thesis by blast
qed

theorem preflight_iff_witness:
  "let r = ex_request\<lparr>Method := ''OPTIONS'', Header := [(''Origin'', [''https://app.example'']), (''Access-Control-Request-Method'', [''put''])]\<rparr>;
       rule = \<lparr>AllowedOrigins = [''https://app.example''], AllowedMethods = [''PUT''], AllowedHeaders = [], ExposeHeaders = [], MaxAgeSeconds = 0\<rparr>
   in handlePreflight [rule] [] r \<noteq> None"
proof -
  let ?r = "ex_request\<lparr>Method := ''OPTIONS'', Header := [(''Origin'', [''https://app.example'']), (''Access-Control-Request-Method'', [''put''])]\<rparr>"
  let ?rule = "\<lparr>AllowedOrigins = [''https://app.example''], AllowedMethods = [''PUT''], AllowedHeaders = [], ExposeHeaders = [], MaxAgeSeconds = 0\<rparr>"
  have "header_Get (Header ?r) ''Origin'' = ''https://app.example''" "header_Get (Header ?r) ''Access-Control-Request-Method'' = ''put''"
    "EqualFold ''PUT'' ''put''"
    by code_simp+
  then show ?thesis using preflight_iff [of "[?rule]" "[]" ?r] by (simp add: Let_def)
qed

end
