(* ===== verification/Go_Json.thy ===== *)
theory Go_Json
  imports Go_Time
begin

text \<open>
  The parts of Go's \<^verbatim>\<open>encoding/base64\<close> and \<^verbatim>\<open>encoding/json\<close> packages the source uses. A document is
  parsed into a tree; a number keeps its literal, since \<^verbatim>\<open>json.Unmarshal\<close> into an \<^verbatim>\<open>int64\<close> parses the
  literal itself. The parser takes fuel: every nested call follows at least one consumed byte, so
  the length of the input is enough. Go's replacement of invalid UTF-8 and its limit of 10000
  nested levels are not modelled.
\<close>

section \<open>Base64\<close>

definition std_alphabet :: string where
  "std_alphabet = ''ABCDEFGHIJKLMNOPQRSTUVWXYZabcdefghijklmnopqrstuvwxyz0123456789+/''"

definition url_alphabet :: string where
  "url_alphabet = ''ABCDEFGHIJKLMNOPQRSTUVWXYZabcdefghijklmnopqrstuvwxyz0123456789-_''"

definition b64_val :: "string \<Rightarrow> char \<Rightarrow> nat option" where
  "b64_val alphabet c = IndexByte alphabet c"

text \<open>Groups of four characters; the last one may be padded.\<close>

fun b64_groups :: "string \<Rightarrow> string \<Rightarrow> string option" where
  "b64_groups al [] = Some []"
| "b64_groups al [a] = None"
| "b64_groups al [a, b] = None"
| "b64_groups al [a, b, c] = None"
| "b64_groups al (a # b # c # d # rest) =
     (case (b64_val al a, b64_val al b) of
        (Some x, Some y) \<Rightarrow>
          (case b64_val al c of
             None \<Rightarrow> if c = CHR ''='' \<and> d = CHR ''='' \<and> rest = [] then Some [char_of (x * 4 + y div 16)] else None
           | Some z \<Rightarrow>
               (case b64_val al d of
                  None \<Rightarrow> if d = CHR ''='' \<and> rest = []
                          then Some [char_of (x * 4 + y div 16), char_of (y mod 16 * 16 + z div 4)] else None
                | Some w \<Rightarrow> map_option (\<lambda>s. char_of (x * 4 + y div 16) # char_of (y mod 16 * 16 + z div 4) # char_of (z mod 4 * 64 + w) # s)
                    (b64_groups al rest)))
      | _ \<Rightarrow> None)"

text \<open>\<^verbatim>\<open>DecodeString\<close> of the two padded encodings: line breaks are ignored.\<close>

definition b64_DecodeString :: "string \<Rightarrow> string \<Rightarrow> string option" where
  "b64_DecodeString al s = b64_groups al (filter (\<lambda>c. c \<noteq> CHR 0x0A \<and> c \<noteq> CHR 0x0D) s)"

fun b64_EncodeToString :: "string \<Rightarrow> string \<Rightarrow> string" where
  "b64_EncodeToString al [] = []"
| "b64_EncodeToString al [a] =
     (let x = (of_char a :: nat) in [al ! (x div 4), al ! (x mod 4 * 16), CHR ''='', CHR ''=''])"
| "b64_EncodeToString al [a, b] =
     (let x = (of_char a :: nat); y = (of_char b :: nat)
      in [al ! (x div 4), al ! (x mod 4 * 16 + y div 16), al ! (y mod 16 * 4), CHR ''=''])"
| "b64_EncodeToString al (a # b # c # rest) =
     (let x = (of_char a :: nat); y = (of_char b :: nat); z = (of_char c :: nat)
      in [al ! (x div 4), al ! (x mod 4 * 16 + y div 16), al ! (y mod 16 * 4 + z div 64), al ! (z mod 64)]
         @ b64_EncodeToString al rest)"

section \<open>JSON\<close>

datatype json = JNull | JBool bool | JNum string | JStr string | JArr "json list" | JObj "(string \<times> json) list"

definition json_ws :: "char \<Rightarrow> bool" where
  "json_ws c \<longleftrightarrow> c = CHR '' '' \<or> c = CHR 0x09 \<or> c = CHR 0x0A \<or> c = CHR 0x0D"

definition skip_ws :: "string \<Rightarrow> string" where
  "skip_ws s = dropWhile json_ws s"

definition utf8 :: "nat \<Rightarrow> string" where
  "utf8 r = (if r < 128 then [char_of r]
     else if r < 2048 then [char_of (192 + r div 64), char_of (128 + r mod 64)]
     else if r < 65536 then [char_of (224 + r div 4096), char_of (128 + r div 64 mod 64), char_of (128 + r mod 64)]
     else [char_of (240 + r div 262144), char_of (128 + r div 4096 mod 64), char_of (128 + r div 64 mod 64), char_of (128 + r mod 64)])"

definition hex4 :: "string \<Rightarrow> nat option" where
  "hex4 s = (if 4 \<le> length s \<and> list_all ishex (take 4 s) then Some (foldl (\<lambda>n c. 16 * n + unhex c) 0 (take 4 s)) else None)"

text \<open>The escape after \<^verbatim>\<open>\u\<close>: the bytes it stands for and how many bytes of input it takes; an
  unpaired surrogate becomes the replacement character.\<close>

definition unicode_escape :: "string \<Rightarrow> (string \<times> nat) option" where
  "unicode_escape s =
     (case hex4 s of None \<Rightarrow> None
      | Some r \<Rightarrow>
          if 0xD800 \<le> r \<and> r < 0xE000 then
            (case (if take 2 (drop 4 s) = [CHR 0x5C, CHR ''u''] then hex4 (drop 6 s) else None) of
               Some r2 \<Rightarrow> if r < 0xDC00 \<and> 0xDC00 \<le> r2 \<and> r2 < 0xE000
                 then Some (utf8 ((r - 0xD800) * 1024 + (r2 - 0xDC00) + 65536), 10)
                 else Some (utf8 0xFFFD, 4)
             | None \<Rightarrow> Some (utf8 0xFFFD, 4))
          else Some (utf8 r, 4))"

definition escape_char :: "char \<Rightarrow> char option" where
  "escape_char e = (if e = CHR 0x22 \<or> e = CHR 0x5C \<or> e = CHR ''/'' then Some e
     else if e = CHR ''b'' then Some (CHR 0x08) else if e = CHR ''f'' then Some (CHR 0x0C)
     else if e = CHR ''n'' then Some (CHR 0x0A) else if e = CHR ''r'' then Some (CHR 0x0D)
     else if e = CHR ''t'' then Some (CHR 0x09) else None)"

function json_str :: "string \<Rightarrow> (string \<times> string) option" where
  "json_str [] = None"
| "json_str (c # cs) =
     (if c = CHR 0x22 then Some ([], cs)
      else if c = CHR 0x5C then
        (case cs of [] \<Rightarrow> None
         | e # es \<Rightarrow>
             if e = CHR ''u'' then
               (case unicode_escape es of None \<Rightarrow> None
                | Some (u, n) \<Rightarrow> map_option (\<lambda>(s, r). (u @ s, r)) (json_str (drop n es)))
             else (case escape_char e of None \<Rightarrow> None
                | Some x \<Rightarrow> map_option (\<lambda>(s, r). (x # s, r)) (json_str es)))
      else if (of_char c :: nat) < 32 then None
      else map_option (\<lambda>(s, r). (c # s, r)) (json_str cs))"
  by pat_completeness auto
termination
  by (relation "measure length") auto

text \<open>The grammar of number literals.\<close>

definition digits1 :: "string \<Rightarrow> bool" where
  "digits1 s \<longleftrightarrow> s \<noteq> [] \<and> list_all is_digit s"

definition valid_number :: "string \<Rightarrow> bool" where
  "valid_number lit =
     (let s = (case lit of c # cs \<Rightarrow> if c = CHR ''-'' then cs else lit | [] \<Rightarrow> []);
          ip = takeWhile is_digit s; r1 = dropWhile is_digit s;
          frac_ok = (case r1 of c # cs \<Rightarrow> if c = CHR ''.'' then (digits1 (takeWhile is_digit cs)) else True | [] \<Rightarrow> True);
          r2 = (case r1 of c # cs \<Rightarrow> if c = CHR ''.'' then dropWhile is_digit cs else r1 | [] \<Rightarrow> [])
      in digits1 ip \<and> (length ip = 1 \<or> hd ip \<noteq> CHR ''0'') \<and> frac_ok \<and>
         (case r2 of [] \<Rightarrow> True
          | e # es \<Rightarrow> (e = CHR ''e'' \<or> e = CHR ''E'') \<and>
              digits1 (case es of x # xs \<Rightarrow> if x = CHR ''+'' \<or> x = CHR ''-'' then xs else es | [] \<Rightarrow> [])))"

definition number_char :: "char \<Rightarrow> bool" where
  "number_char c \<longleftrightarrow> is_digit c \<or> c \<in> set ''+-.eE''"

fun json_value :: "nat \<Rightarrow> string \<Rightarrow> (json \<times> string) option"
  and json_elems :: "nat \<Rightarrow> string \<Rightarrow> (json list \<times> string) option"
  and json_members :: "nat \<Rightarrow> string \<Rightarrow> ((string \<times> json) list \<times> string) option" where
  "json_value 0 s = None"
| "json_value (Suc n) s =
     (case skip_ws s of
        [] \<Rightarrow> None
      | c # cs \<Rightarrow>
          if c = CHR 0x22 then map_option (\<lambda>(x, r). (JStr x, r)) (json_str cs)
          else if c = CHR ''['' then
            (case skip_ws cs of
               [] \<Rightarrow> None
             | d # ds \<Rightarrow> if d = CHR '']'' then Some (JArr [], ds)
                 else map_option (\<lambda>(xs, r). (JArr xs, r)) (json_elems n (d # ds)))
          else if c = CHR ''{'' then
            (case skip_ws cs of
               [] \<Rightarrow> None
             | d # ds \<Rightarrow> if d = CHR ''}'' then Some (JObj [], ds)
                 else map_option (\<lambda>(xs, r). (JObj xs, r)) (json_members n (d # ds)))
          else if HasPrefix (c # cs) ''true'' then Some (JBool True, drop 4 (c # cs))
          else if HasPrefix (c # cs) ''false'' then Some (JBool False, drop 5 (c # cs))
          else if HasPrefix (c # cs) ''null'' then Some (JNull, drop 4 (c # cs))
          else let lit = takeWhile number_char (c # cs)
               in if valid_number lit then Some (JNum lit, dropWhile number_char (c # cs)) else None)"
| "json_elems 0 s = None"
| "json_elems (Suc n) s =
     (case json_value n s of None \<Rightarrow> None
      | Some (v, r) \<Rightarrow>
          (case skip_ws r of
             [] \<Rightarrow> None
           | c # cs \<Rightarrow> if c = CHR '']'' then Some ([v], cs)
               else if c = CHR '','' then map_option (\<lambda>(vs, r'). (v # vs, r')) (json_elems n cs)
               else None))"
| "json_members 0 s = None"
| "json_members (Suc n) s =
     (case skip_ws s of
        [] \<Rightarrow> None
      | q # qs \<Rightarrow>
          if q \<noteq> CHR 0x22 then None
          else (case json_str qs of None \<Rightarrow> None
            | Some (k, r0) \<Rightarrow>
                (case skip_ws r0 of
                   [] \<Rightarrow> None
                 | col # r1 \<Rightarrow>
                     if col \<noteq> CHR '':'' then None
                     else (case json_value n r1 of None \<Rightarrow> None
                       | Some (v, r) \<Rightarrow>
                           (case skip_ws r of
                              [] \<Rightarrow> None
                            | c # cs \<Rightarrow> if c = CHR ''}'' then Some ([(k, v)], cs)
                                else if c = CHR '','' then map_option (\<lambda>(vs, r'). ((k, v) # vs, r')) (json_members n cs)
                                else None)))))"

definition json_parse :: "string \<Rightarrow> json option" where
  "json_parse s = (case json_value (2 * length s + 2) s of
     None \<Rightarrow> None | Some (v, r) \<Rightarrow> if skip_ws r = [] then Some v else None)"

text \<open>\<^verbatim>\<open>json.Unmarshal\<close> into a \<^verbatim>\<open>string\<close> and an \<^verbatim>\<open>int64\<close> variable: \<^verbatim>\<open>null\<close> leaves the zero value.\<close>

definition json_string :: "json \<Rightarrow> string option" where
  "json_string j = (case j of JStr s \<Rightarrow> Some s | JNull \<Rightarrow> Some [] | _ \<Rightarrow> None)"

definition json_int64 :: "json \<Rightarrow> int option" where
  "json_int64 j = (case j of JNum lit \<Rightarrow> ParseInt 10 lit | JNull \<Rightarrow> Some 0 | _ \<Rightarrow> None)"

section \<open>ISO 8601 dates\<close>

text \<open>\<^verbatim>\<open>time.Parse\<close> with the layouts \<^verbatim>\<open>2006-01-02T15:04:05.000Z\<close>, \<^verbatim>\<open>2006-01-02T15:04:05Z\<close> and the two
  RFC 3339 layouts accepts, together, an optional fraction and \<^verbatim>\<open>Z\<close> or a numeric offset; the hour may
  have one digit.\<close>

definition take_char :: "char \<Rightarrow> string \<Rightarrow> string option" where
  "take_char c s = (case s of x # xs \<Rightarrow> if x = c then Some xs else None | [] \<Rightarrow> None)"

definition take_hour :: "string \<Rightarrow> (int \<times> string) option" where
  "take_hour s = (case take_digits 2 s of Some x \<Rightarrow> Some x | None \<Rightarrow> take_digits 1 s)"

definition parse_zone :: "string \<Rightarrow> int option" where
  "parse_zone s =
     (if s = ''Z'' then Some 0
      else case s of [] \<Rightarrow> None | sg # s1 \<Rightarrow>
        if sg \<noteq> CHR ''+'' \<and> sg \<noteq> CHR ''-'' then None
        else (case take_digits 2 s1 of None \<Rightarrow> None | Some (h, s2) \<Rightarrow>
          (case take_char (CHR '':'') s2 of None \<Rightarrow> None | Some s3 \<Rightarrow>
          (case take_digits 2 s3 of None \<Rightarrow> None | Some (m, s4) \<Rightarrow>
             if s4 \<noteq> [] \<or> 24 < h \<or> 60 < m then None
             else Some ((if sg = CHR ''-'' then -1 else 1) * (h * 3600 + m * 60))))))"

definition parse_iso :: "string \<Rightarrow> time option" where
  "parse_iso s =
     (case take_digits 4 s of None \<Rightarrow> None | Some (y, s1) \<Rightarrow>
      (case take_char (CHR ''-'') s1 of None \<Rightarrow> None | Some s2 \<Rightarrow>
      (case take_digits 2 s2 of None \<Rightarrow> None | Some (mo, s3) \<Rightarrow>
      (case take_char (CHR ''-'') s3 of None \<Rightarrow> None | Some s4 \<Rightarrow>
      (case take_digits 2 s4 of None \<Rightarrow> None | Some (d, s5) \<Rightarrow>
      (case take_char (CHR ''T'') s5 of None \<Rightarrow> None | Some s6 \<Rightarrow>
      (case take_hour s6 of None \<Rightarrow> None | Some (h, s7) \<Rightarrow>
      (case take_char (CHR '':'') s7 of None \<Rightarrow> None | Some s8 \<Rightarrow>
      (case take_digits 2 s8 of None \<Rightarrow> None | Some (mi, s9) \<Rightarrow>
      (case take_char (CHR '':'') s9 of None \<Rightarrow> None | Some s10 \<Rightarrow>
      (case take_digits 2 s10 of None \<Rightarrow> None | Some (sec, s11) \<Rightarrow>
      (case take_fraction s11 of (ns, s12) \<Rightarrow>
      (case parse_zone s12 of None \<Rightarrow> None | Some off \<Rightarrow>
        if 1 \<le> mo \<and> mo \<le> 12 \<and> 1 \<le> d \<and> d \<le> daysIn mo y \<and> h < 24 \<and> mi < 60 \<and> sec < 60
        then Some (civil_time y mo d h mi sec ns - off * Second) else None)))))))))))))"

end
