(* ===== verification/Post_Policy.thy ===== *)
theory Post_Policy
  imports Routing Go_Json
begin

text \<open>
  \<^verbatim>\<open>internal/s3proxy/postpolicy.go\<close>: parsing the policy document of a browser-form upload and enforcing
  its conditions on the form fields. Go maps are association lists with distinct keys; their
  iteration order is arbitrary, and the lemmas show that the verdict does not depend on it.
\<close>

section \<open>Policies\<close>

record PostPolicy =
  Expiration :: "time option"
  Equals :: "(string \<times> string) list"
  StartsWith :: "(string \<times> string) list"
  ContentLengthMin :: int
  ContentLengthMax :: int

definition HasContentLengthRange :: "PostPolicy \<Rightarrow> bool" where
  "HasContentLengthRange p \<longleftrightarrow> 0 \<le> ContentLengthMin p \<and> 0 \<le> ContentLengthMax p"

text \<open>The sentinel errors; a malformed condition carries its index.\<close>

datatype policy_err = ErrPolicyDecode | ErrPolicyJSON | ErrPolicyExpired | ErrPolicyConditions "nat option"

definition MaxPolicyBytes :: int where
  "MaxPolicyBytes = 65536"

definition stripDollar :: "string \<Rightarrow> string" where
  "stripDollar s = (if HasPrefix s ''$'' then drop 1 s else s)"

definition normalizeField :: "string \<Rightarrow> string" where
  "normalizeField s = ToLower s"

definition parsePolicyExpiration :: "string \<Rightarrow> time option" where
  "parsePolicyExpiration s = parse_iso s"

text \<open>A JSON object decoded into a \<^verbatim>\<open>map[string]string\<close>.\<close>

fun decode_string_map :: "(string \<times> json) list \<Rightarrow> (string \<times> string) list \<Rightarrow> (string \<times> string) list option" where
  "decode_string_map [] m = Some m"
| "decode_string_map ((k, j) # rest) m =
     (case json_string j of None \<Rightarrow> None | Some v \<Rightarrow> decode_string_map rest (AList.update k v m))"

definition mergeCondition :: "PostPolicy \<Rightarrow> json \<Rightarrow> PostPolicy option" where
  "mergeCondition policy raw =
     (case raw of
        JObj members \<Rightarrow>
          (case decode_string_map members [] of
             Some [(k, v)] \<Rightarrow> Some (policy\<lparr>Equals := AList.update (normalizeField k) v (Equals policy)\<rparr>)
           | _ \<Rightarrow> None)
      | JArr arr \<Rightarrow>
          (case arr of
             [a0, a1, a2] \<Rightarrow>
               (case json_string a0 of
                  None \<Rightarrow> None
                | Some op \<Rightarrow>
                    if op = ''eq'' then
                      (case (json_string a1, json_string a2) of
                         (Some field, Some val) \<Rightarrow>
                           Some (policy\<lparr>Equals := AList.update (normalizeField (stripDollar field)) val (Equals policy)\<rparr>)
                       | _ \<Rightarrow> None)
                    else if op = ''starts-with'' then
                      (case (json_string a1, json_string a2) of
                         (Some field, Some val) \<Rightarrow>
                           Some (policy\<lparr>StartsWith := AList.update (normalizeField (stripDollar field)) val (StartsWith policy)\<rparr>)
                       | _ \<Rightarrow> None)
                    else if op = ''content-length-range'' then
                      (case (json_int64 a1, json_int64 a2) of
                         (Some lo, Some hi) \<Rightarrow>
                           if lo < 0 \<or> hi < lo then None
                           else Some (policy\<lparr>ContentLengthMin := lo, ContentLengthMax := hi\<rparr>)
                       | _ \<Rightarrow> None)
                    else None)
           | _ \<Rightarrow> None)
      | _ \<Rightarrow> None)"

fun mergeConditions :: "PostPolicy \<Rightarrow> nat \<Rightarrow> json list \<Rightarrow> policy_err + PostPolicy" where
  "mergeConditions policy i [] = Inr policy"
| "mergeConditions policy i (c # cs) =
     (case mergeCondition policy c of
        None \<Rightarrow> Inl (ErrPolicyConditions (Some i))
      | Some policy' \<Rightarrow> mergeConditions policy' (Suc i) cs)"

text \<open>Decoding into the struct with the fields \<^verbatim>\<open>expiration\<close> and \<^verbatim>\<open>conditions\<close>: keys match ignoring
  case, later members win, other members are ignored.\<close>

fun decode_doc :: "(string \<times> json) list \<Rightarrow> string \<times> json list \<Rightarrow> (string \<times> json list) option" where
  "decode_doc [] d = Some d"
| "decode_doc ((k, j) # rest) (expi, conds) =
     (if EqualFold k ''expiration'' then
        (case j of JStr s \<Rightarrow> decode_doc rest (s, conds) | JNull \<Rightarrow> decode_doc rest (expi, conds) | _ \<Rightarrow> None)
      else if EqualFold k ''conditions'' then
        (case j of JArr js \<Rightarrow> decode_doc rest (expi, js) | JNull \<Rightarrow> decode_doc rest (expi, []) | _ \<Rightarrow> None)
      else decode_doc rest (expi, conds))"

definition emptyPolicy :: PostPolicy where
  "emptyPolicy = \<lparr>Expiration = None, Equals = [], StartsWith = [], ContentLengthMin = -1, ContentLengthMax = -1\<rparr>"

definition policyFromDoc :: "string \<times> json list \<Rightarrow> time \<Rightarrow> policy_err + PostPolicy" where
  "policyFromDoc d now =
     (case d of (expi, conds) \<Rightarrow>
        if expi = [] then mergeConditions emptyPolicy 0 conds
        else case parsePolicyExpiration expi of
               None \<Rightarrow> Inl (ErrPolicyConditions None)
             | Some e \<Rightarrow>
                 if time_After now e then Inl ErrPolicyExpired
                 else mergeConditions (emptyPolicy\<lparr>Expiration := Some e\<rparr>) 0 conds)"

definition ParsePostPolicy :: "string \<Rightarrow> time \<Rightarrow> policy_err + PostPolicy" where
  "ParsePostPolicy policyB64 now =
     (case (case b64_DecodeString std_alphabet policyB64 of Some raw \<Rightarrow> Some raw | None \<Rightarrow> b64_DecodeString url_alphabet policyB64) of
        None \<Rightarrow> Inl ErrPolicyDecode
      | Some raw \<Rightarrow>
          if MaxPolicyBytes < int (length raw) then Inl ErrPolicyJSON
          else (case json_parse raw of
                  None \<Rightarrow> Inl ErrPolicyJSON
                | Some JNull \<Rightarrow> policyFromDoc ([], []) now
                | Some (JObj members) \<Rightarrow>
                    (case decode_doc members ([], []) of
                       None \<Rightarrow> Inl ErrPolicyJSON
                     | Some d \<Rightarrow> policyFromDoc d now)
                | Some _ \<Rightarrow> Inl ErrPolicyJSON))"

section \<open>Enforcement\<close>

definition signingFormFields :: "string list" where
  "signingFormFields = [''policy'', ''x-amz-signature'', ''x-amz-algorithm'', ''x-amz-credential'', ''x-amz-date'',
     ''x-amz-security-token'', ''file'', ''awsaccesskeyid'', ''signature'']"

text \<open>A violation names the field and which of the rules it broke.\<close>

datatype violation_reason = NoMatchingCondition | EqualsMissing | EqualsDiffers | PrefixMissing | PrefixDiffers

datatype PolicyViolation = PolicyViolation (viol_Field: string) (viol_Reason: violation_reason)

fun check_fields :: "PostPolicy \<Rightarrow> (string \<times> string) list \<Rightarrow> PolicyViolation option" where
  "check_fields policy [] = None"
| "check_fields policy ((name, v) # rest) =
     (if name \<in> set signingFormFields then check_fields policy rest
      else if map_of (Equals policy) name \<noteq> None then check_fields policy rest
      else if map_of (StartsWith policy) name \<noteq> None then check_fields policy rest
      else Some (PolicyViolation name NoMatchingCondition))"

fun check_equals :: "(string \<times> string) list \<Rightarrow> (string \<times> string) list \<Rightarrow> PolicyViolation option" where
  "check_equals form [] = None"
| "check_equals form ((name, want) # rest) =
     (case map_of form name of
        None \<Rightarrow> Some (PolicyViolation name EqualsMissing)
      | Some got \<Rightarrow> if got \<noteq> want then Some (PolicyViolation name EqualsDiffers) else check_equals form rest)"

fun check_prefixes :: "(string \<times> string) list \<Rightarrow> (string \<times> string) list \<Rightarrow> PolicyViolation option" where
  "check_prefixes form [] = None"
| "check_prefixes form ((name, prefix) # rest) =
     (case map_of form name of
        None \<Rightarrow> Some (PolicyViolation name PrefixMissing)
      | Some got \<Rightarrow> if \<not> HasPrefix got prefix then Some (PolicyViolation name PrefixDiffers) else check_prefixes form rest)"

definition EnforcePolicy :: "PostPolicy \<Rightarrow> (string \<times> string) list \<Rightarrow> PolicyViolation option" where
  "EnforcePolicy policy form =
     (case check_fields policy form of Some v \<Rightarrow> Some v
      | None \<Rightarrow> (case check_equals form (Equals policy) of Some v \<Rightarrow> Some v
        | None \<Rightarrow> check_prefixes form (StartsWith policy)))"

section \<open>Lemmas\<close>

text \<open>Every policy the parser returns has its expiry in the future, distinct condition keys in lower
  case, and a length range that is either absent or ordered.\<close>

definition lower_keys :: "(string \<times> string) list \<Rightarrow> bool" where
  "lower_keys m \<longleftrightarrow> list_all (\<lambda>(k, v). ToLower k = k) m"

definition policy_wf :: "PostPolicy \<Rightarrow> bool" where
  "policy_wf p \<longleftrightarrow> distinct (map fst (Equals p)) \<and> distinct (map fst (StartsWith p))
     \<and> lower_keys (Equals p) \<and> lower_keys (StartsWith p)
     \<and> (ContentLengthMin p = -1 \<and> ContentLengthMax p = -1 \<or> 0 \<le> ContentLengthMin p \<and> ContentLengthMin p \<le> ContentLengthMax p)"

lemma lower_keys_update: "lower_keys m \<Longrightarrow> lower_keys (AList.update (ToLower k) v m)"
  unfolding lower_keys_def by (induction m) auto

lemma mergeCondition_cases: "mergeCondition p c = Some p' \<Longrightarrow>
   (\<exists>k v. p' = p\<lparr>Equals := AList.update (ToLower k) v (Equals p)\<rparr>) \<or>
   (\<exists>k v. p' = p\<lparr>StartsWith := AList.update (ToLower k) v (StartsWith p)\<rparr>) \<or>
   (\<exists>lo hi. p' = p\<lparr>ContentLengthMin := lo, ContentLengthMax := hi\<rparr> \<and> \<not> lo < 0 \<and> \<not> hi < lo)"
proof (cases c)
  case (JArr arr)
  assume m: "mergeCondition p c = Some p'"
  then obtain a0 a1 a2 where "arr = [a0, a1, a2]"
    using JArr by (auto simp: mergeCondition_def split: list.splits)
  then show ?thesis
    using m JArr by (auto simp: mergeCondition_def normalizeField_def split: option.splits if_splits)
next
  case (JObj members)
  assume m: "mergeCondition p c = Some p'"
  then obtain k v where "p' = p\<lparr>Equals := AList.update (ToLower k) v (Equals p)\<rparr>"
    using JObj by (auto simp: mergeCondition_def normalizeField_def split: option.splits list.splits)
  then show ?thesis by blast
qed (simp_all add: mergeCondition_def)

lemma mergeCondition_wf: "mergeCondition p c = Some p' \<Longrightarrow> policy_wf p \<Longrightarrow> policy_wf p' \<and> Expiration p' = Expiration p"
  by (drule mergeCondition_cases) (auto simp: policy_wf_def lower_keys_update distinct_update)

lemma mergeConditions_wf: "mergeConditions p i cs = Inr p' \<Longrightarrow> policy_wf p \<Longrightarrow> policy_wf p' \<and> Expiration p' = Expiration p"
proof (induction p i cs rule: mergeConditions.induct)
  case (2 policy i c cs)
  then obtain q where q: "mergeCondition policy c = Some q" "mergeConditions q (Suc i) cs = Inr p'"
    by (auto split: option.splits)
  from mergeCondition_wf [OF q(1) 2(3)] 2(1) [OF q] show ?case by simp
qed simp

lemma ParsePostPolicy_wf:
  assumes "ParsePostPolicy s now = Inr p"
  shows "policy_wf p" "case Expiration p of None \<Rightarrow> True | Some e \<Rightarrow> now \<le> e"
proof -
  obtain d where "policyFromDoc d now = Inr p"
    using assms by (auto simp: ParsePostPolicy_def split: option.splits json.splits if_splits)
  then obtain p0 conds where p0: "mergeConditions p0 0 conds = Inr p" "policy_wf p0"
    "case Expiration p0 of None \<Rightarrow> True | Some e \<Rightarrow> now \<le> e"
    by (auto simp: policyFromDoc_def emptyPolicy_def policy_wf_def lower_keys_def time_After_def split: prod.splits option.splits if_splits)
  from mergeConditions_wf [OF p0(1,2)] p0(3) show "policy_wf p" "case Expiration p of None \<Rightarrow> True | Some e \<Rightarrow> now \<le> e"
    by simp_all
qed

lemma check_fields_None: "check_fields p fs = None \<longleftrightarrow>
   (\<forall>n \<in> fst ` set fs. n \<in> set signingFormFields \<or> map_of (Equals p) n \<noteq> None \<or> map_of (StartsWith p) n \<noteq> None)"
  by (induction p fs rule: check_fields.induct) auto

lemma check_equals_None: "check_equals fs cs = None \<longleftrightarrow> (\<forall>(n, want) \<in> set cs. map_of fs n = Some want)"
  by (induction fs cs rule: check_equals.induct) (auto split: option.splits)

lemma check_prefixes_None: "check_prefixes fs cs = None \<longleftrightarrow>
   (\<forall>(n, prefix) \<in> set cs. \<exists>got. map_of fs n = Some got \<and> HasPrefix got prefix)"
  by (induction fs cs rule: check_prefixes.induct) (auto split: option.splits)

lemma EnforcePolicy_None: "EnforcePolicy p fs = None \<longleftrightarrow>
   check_fields p fs = None \<and> check_equals fs (Equals p) = None \<and> check_prefixes fs (StartsWith p) = None"
  by (auto simp: EnforcePolicy_def split: option.splits)

section \<open>Properties\<close>

text \<open>C36: Enforcement of a parsed policy. A form passes exactly when every field that is not part of the
  signature has a condition, every exact condition names a field with that very value and every
  prefix condition names a field with that prefix. This is a statement about the fields and the
  conditions as maps, so the verdict does not depend on the order in which the code visits them.\<close>

theorem enforce_iff:
  assumes "policy_wf p"
  shows "EnforcePolicy p fs = None \<longleftrightarrow>
    (\<forall>n. map_of fs n \<noteq> None \<longrightarrow> n \<in> set signingFormFields \<or> map_of (Equals p) n \<noteq> None \<or> map_of (StartsWith p) n \<noteq> None)
    \<and> (\<forall>n want. map_of (Equals p) n = Some want \<longrightarrow> map_of fs n = Some want)
    \<and> (\<forall>n prefix. map_of (StartsWith p) n = Some prefix \<longrightarrow> (\<exists>rest. map_of fs n = Some (prefix @ rest)))"
proof -
  have d: "distinct (map fst (Equals p))" "distinct (map fst (StartsWith p))" using assms by (auto simp: policy_wf_def)
  have f: "(\<forall>n \<in> fst ` set fs. P n) \<longleftrightarrow> (\<forall>n. map_of fs n \<noteq> None \<longrightarrow> P n)" for P
    by (metis map_of_eq_None_iff)
  have g: "(\<forall>(n, v) \<in> set m. Q n v) \<longleftrightarrow> (\<forall>n v. map_of m n = Some v \<longrightarrow> Q n v)" if "distinct (map fst m)" for m :: "(string \<times> string) list" and Q
    using that by (auto simp: map_of_eq_Some_iff)
  show ?thesis
    unfolding EnforcePolicy_None check_fields_None check_equals_None check_prefixes_None f g [OF d(1)] g [OF d(2)] HasPrefix_iff
    by blast
qed

text \<open>The policy document of the AWS documentation, in short.\<close>

definition ex_doc :: json where
  "ex_doc = JObj [(''expiration'', JStr ''2026-12-30T12:00:00.000Z''),
     (''conditions'', JArr [JObj [(''bucket'', JStr ''photos'')], JArr [JStr ''starts-with'', JStr ''$key'', JStr ''user/''],
        JArr [JStr ''content-length-range'', JNum ''1'', JNum ''1048576'']])]"

definition ex_policy_doc :: PostPolicy where
  "ex_policy_doc = \<lparr>Expiration = Some (civil_time 2026 12 30 12 0 0 0), Equals = [(''bucket'', ''photos'')],
     StartsWith = [(''key'', ''user/'')], ContentLengthMin = 1, ContentLengthMax = 1048576\<rparr>"

theorem enforce_iff_witness:
  "policy_wf ex_policy_doc \<and> EnforcePolicy ex_policy_doc [(''key'', ''user/cat.png''), (''policy'', ''e30=''), (''bucket'', ''photos'')] = None
   \<and> EnforcePolicy ex_policy_doc [(''key'', ''admin/cat.png''), (''bucket'', ''photos'')] \<noteq> None"
proof -
  have lower: "ToLower ''bucket'' = ''bucket''" "ToLower ''key'' = ''key''" by code_simp+
  have wf: "policy_wf ex_policy_doc" by (simp add: policy_wf_def lower_keys_def ex_policy_doc_def lower)
  have "''policy'' \<in> set signingFormFields" by (simp add: signingFormFields_def)
  then show ?thesis
    using wf enforce_iff [OF wf, of "[(''key'', ''user/cat.png''), (''policy'', ''e30=''), (''bucket'', ''photos'')]"]
      enforce_iff [OF wf, of "[(''key'', ''admin/cat.png''), (''bucket'', ''photos'')]"]
    by (simp add: ex_policy_doc_def)
qed

text \<open>What the parser guarantees. Every policy it returns has not expired, its length range is absent
  or an ordered range of non-negative numbers, and the names of its conditions are distinct and in
  lower case, like the names of the form fields they are compared with.\<close>

theorem parsed_policy_wf:
  assumes "ParsePostPolicy s now = Inr p"
  shows "policy_wf p \<and> (case Expiration p of None \<Rightarrow> True | Some e \<Rightarrow> now \<le> e)
    \<and> (HasContentLengthRange p \<longrightarrow> ContentLengthMin p \<le> ContentLengthMax p)"
  using ParsePostPolicy_wf [OF assms] by (auto simp: policy_wf_def HasContentLengthRange_def)

definition ex_policy_b64 :: string where
  "ex_policy_b64 = ''eyJjb25kaXRpb25zIjpbWyJlcSIsIiRLZXkiLCJhIl1dfQ==''"

theorem parsed_policy_wf_witness:
  "ParsePostPolicy ex_policy_b64 0 = Inr (emptyPolicy\<lparr>Equals := [(''key'', ''a'')]\<rparr>)
   \<and> policy_wf (emptyPolicy\<lparr>Equals := [(''key'', ''a'')]\<rparr>)"
proof -
  have p: "ParsePostPolicy ex_policy_b64 0 = Inr (emptyPolicy\<lparr>Equals := [(''key'', ''a'')]\<rparr>)" by code_simp
  from parsed_policy_wf [OF p] p show ?thesis by blast
qed

text \<open>A condition on a field replaces an earlier condition of the same kind on that field: after
  \<^verbatim>\<open>["starts-with", "$key", "user/"]\<close> a later \<^verbatim>\<open>["starts-with", "$key", ""]\<close> lets every key through,
  although both conditions are part of the signed policy.\<close>

theorem later_condition_wins:
  assumes "mergeConditions emptyPolicy 0 [JArr [JStr ''starts-with'', JStr f, JStr first], JArr [JStr ''starts-with'', JStr f, JStr []]] = Inr p"
  shows "EnforcePolicy p [(normalizeField (stripDollar f), v)] = None"
  using assms by (auto simp: mergeCondition_def json_string_def emptyPolicy_def EnforcePolicy_def)

theorem later_condition_wins_witness:
  "\<exists>p. mergeConditions emptyPolicy 0 [JArr [JStr ''starts-with'', JStr ''$key'', JStr ''user/''], JArr [JStr ''starts-with'', JStr ''$key'', JStr []]] = Inr p
     \<and> EnforcePolicy p [(normalizeField (stripDollar ''$key''), ''admin/secret'')] = None"
proof -
  have "\<exists>p. mergeConditions emptyPolicy 0 [JArr [JStr ''starts-with'', JStr ''$key'', JStr ''user/''], JArr [JStr ''starts-with'', JStr ''$key'', JStr []]] = Inr p"
    by (simp add: mergeCondition_def json_string_def emptyPolicy_def)
  then show ?thesis using later_condition_wins by blast
qed

end
