(* ===== verification/Rate_Limits.thy ===== *)
theory Rate_Limits
  imports Routing
begin

text \<open>
  Admission control of \<^verbatim>\<open>internal/s3proxy\<close>: the token-bucket limiters of \<^verbatim>\<open>ratelimit.go\<close> and
  \<^verbatim>\<open>iplimiter.go\<close>, and the in-flight limiter of \<^verbatim>\<open>concurrency.go\<close> as a transition system whose steps
  are the channel operations of the requests.

  The token bucket itself is \<^verbatim>\<open>golang.org/x/time/rate\<close>, a third-party package: its operations are a
  parameter, and what the code relies on is the locale \<open>token_bucket\<close>. It is interpreted on a
  bucket that refills continuously up to its burst, which is the behaviour that package documents.
\<close>

section \<open>Token buckets\<close>

record 'l rate_ops =
  NewRateLimiter :: "rat \<Rightarrow> int \<Rightarrow> 'l"
  LimitOf :: "'l \<Rightarrow> rat"
  TakeToken :: "time \<Rightarrow> 'l \<Rightarrow> bool \<times> 'l"

text \<open>\<^verbatim>\<open>int(x)\<close> of a float truncates towards zero.\<close>

definition trunc :: "rat \<Rightarrow> int" where
  "trunc x = (if 0 \<le> x then \<lfloor>x\<rfloor> else \<lceil>x\<rceil>)"

record 'l Limiter =
  lim_global :: "'l option"
  lim_perKey :: "string \<Rightarrow> 'l option"
  lim_perRate :: rat
  lim_perBurst :: int

definition NewLimiter :: "'l rate_ops \<Rightarrow> rat \<Rightarrow> rat \<Rightarrow> 'l Limiter" where
  "NewLimiter ops globalRPS perKeyRPS =
     \<lparr>lim_global = (if 0 < globalRPS then Some (NewRateLimiter ops globalRPS (trunc (globalRPS * 2) + 1)) else None),
      lim_perKey = Map.empty, lim_perRate = perKeyRPS, lim_perBurst = trunc (perKeyRPS * 2) + 1\<rparr>"

definition Limiter_Allow :: "'l rate_ops \<Rightarrow> time \<Rightarrow> string \<Rightarrow> 'l Limiter \<Rightarrow> bool \<times> 'l Limiter" where
  "Limiter_Allow ops now accessKeyID l =
     (let (ok, l1) = (case lim_global l of
             None \<Rightarrow> (True, l)
           | Some g \<Rightarrow> (case TakeToken ops now g of (b, g') \<Rightarrow> (b, l\<lparr>lim_global := Some g'\<rparr>)))
      in if \<not> ok then (False, l1)
         else if lim_perRate l1 \<le> 0 then (True, l1)
         else let lm = (case lim_perKey l1 accessKeyID of
                     None \<Rightarrow> NewRateLimiter ops (lim_perRate l1) (lim_perBurst l1)
                   | Some lm \<Rightarrow> lm);
                  (b, lm') = TakeToken ops now lm
              in (b, l1\<lparr>lim_perKey := (lim_perKey l1)(accessKeyID \<mapsto> lm')\<rparr>))"

record 'l IPLimiter =
  ip_perIP :: "string \<Rightarrow> 'l option"
  ip_perRate :: rat
  ip_burst :: int

definition NewIPLimiter :: "rat \<Rightarrow> 'l IPLimiter" where
  "NewIPLimiter perIPRPS = \<lparr>ip_perIP = Map.empty, ip_perRate = perIPRPS, ip_burst = trunc (perIPRPS * 2) + 1\<rparr>"

definition IPLimiter_Allow :: "'l rate_ops \<Rightarrow> time \<Rightarrow> string \<Rightarrow> 'l IPLimiter \<Rightarrow> bool \<times> 'l IPLimiter" where
  "IPLimiter_Allow ops now ip l =
     (if ip_perRate l \<le> 0 then (True, l)
      else let lm = (case ip_perIP l ip of None \<Rightarrow> NewRateLimiter ops (ip_perRate l) (ip_burst l) | Some lm \<Rightarrow> lm);
               (b, lm') = TakeToken ops now lm
           in (b, l\<lparr>ip_perIP := (ip_perIP l)(ip \<mapsto> lm')\<rparr>))"

definition IPLimiter_AllowAt :: "'l rate_ops \<Rightarrow> time \<Rightarrow> string \<Rightarrow> rat \<Rightarrow> 'l IPLimiter \<Rightarrow> bool \<times> 'l IPLimiter" where
  "IPLimiter_AllowAt ops now ip bindingRPS l =
     (let r = (if bindingRPS \<le> 0 then ip_perRate l else bindingRPS)
      in if r \<le> 0 then (True, l)
         else let lm = (case ip_perIP l ip of
                     None \<Rightarrow> NewRateLimiter ops r (trunc (r * 2) + 1)
                   | Some lm \<Rightarrow> if LimitOf ops lm \<noteq> r then NewRateLimiter ops r (trunc (r * 2) + 1) else lm);
                  (b, lm') = TakeToken ops now lm
              in (b, l\<lparr>ip_perIP := (ip_perIP l)(ip \<mapsto> lm')\<rparr>))"

section \<open>Client addresses\<close>

text \<open>\<^verbatim>\<open>net.SplitHostPort\<close>: the host, or an error.\<close>

definition SplitHostPort :: "string \<Rightarrow> (string \<times> string) option" where
  "SplitHostPort hostport =
     (case LastIndexByte hostport (CHR '':'') of
        None \<Rightarrow> None
      | Some i \<Rightarrow>
          if HasPrefix hostport ''['' then
            (case IndexByte hostport (CHR '']'') of
               None \<Rightarrow> None
             | Some e \<Rightarrow>
                 if e + 1 \<noteq> i then None
                 else if CHR ''['' \<in> set (drop 1 hostport) \<or> CHR '']'' \<in> set (drop (e + 1) hostport) then None
                 else Some (take (e - 1) (drop 1 hostport), drop (i + 1) hostport))
          else if CHR '':'' \<in> set (take i hostport) then None
          else if CHR ''['' \<in> set hostport \<or> CHR '']'' \<in> set hostport then None
          else Some (take i hostport, drop (i + 1) hostport))"

definition remoteIP :: "string \<Rightarrow> string" where
  "remoteIP addr = (case SplitHostPort addr of None \<Rightarrow> addr | Some (host, port) \<Rightarrow> host)"

text \<open>Addresses and networks are those of package \<^verbatim>\<open>net\<close>: \<open>parse\<close> is \<^verbatim>\<open>net.ParseIP\<close> and a network is the
  predicate \<^verbatim>\<open>IPNet.Contains\<close>.\<close>

definition ipIsTrusted :: "(string \<Rightarrow> 'ip option) \<Rightarrow> string \<Rightarrow> ('ip \<Rightarrow> bool) list \<Rightarrow> bool" where
  "ipIsTrusted parse ip cidrs =
     (case parse ip of None \<Rightarrow> False | Some parsed \<Rightarrow> list_ex (\<lambda>n. n parsed) cidrs)"

definition ClientIP :: "(string \<Rightarrow> 'ip option) \<Rightarrow> request \<Rightarrow> ('ip \<Rightarrow> bool) list option \<Rightarrow> string" where
  "ClientIP parse r trustedProxies =
     (let remote = remoteIP (RemoteAddr r);
          xff = header_Get (Header r) ''X-Forwarded-For''
      in if xff = [] then remote
         else if (case trustedProxies of None \<Rightarrow> True | Some cidrs \<Rightarrow> ipIsTrusted parse remote cidrs)
         then (case IndexByte xff (CHR '','') of Some i \<Rightarrow> TrimSpace (take i xff) | None \<Rightarrow> TrimSpace xff)
         else remote)"

section \<open>The contract of the token bucket\<close>

text \<open>The verdicts when one address alternates between bindings of two rates.\<close>

fun alternate :: "'l rate_ops \<Rightarrow> nat \<Rightarrow> (nat \<Rightarrow> time) \<Rightarrow> string \<Rightarrow> rat \<Rightarrow> rat \<Rightarrow> 'l IPLimiter \<Rightarrow> bool list" where
  "alternate ops 0 clock ip r1 r2 l = []"
| "alternate ops (Suc n) clock ip r1 r2 l =
     (case IPLimiter_AllowAt ops (clock n) ip r1 l of (b, l') \<Rightarrow> b # alternate ops n clock ip r2 r1 l')"

locale token_bucket =
  fixes ops :: "'l rate_ops"
  assumes limit_new: "LimitOf ops (NewRateLimiter ops r b) = r"
    and limit_take: "LimitOf ops (snd (TakeToken ops now l)) = LimitOf ops l"
    and fresh_allows: "0 < r \<Longrightarrow> 1 \<le> b \<Longrightarrow> fst (TakeToken ops now (NewRateLimiter ops r b))"
begin

text \<open>A request of a key never touches the bucket of another key.\<close>

lemma Limiter_isolated: "k \<noteq> k' \<Longrightarrow> lim_perKey (snd (Limiter_Allow ops now k l)) k' = lim_perKey l k'"
  by (auto simp: Limiter_Allow_def Let_def case_prod_beta split: option.splits prod.splits)

lemma trunc_burst: "0 < r \<Longrightarrow> 1 \<le> trunc (r * 2) + 1"
  by (simp add: trunc_def)

text \<open>The first request of an address at a rate is always allowed, and so is a request at a rate other
  than the one its bucket was made for.\<close>

lemma AllowAt_fresh:
  assumes "0 < r" "case ip_perIP l ip of None \<Rightarrow> True | Some lm \<Rightarrow> LimitOf ops lm \<noteq> r"
  shows "fst (IPLimiter_AllowAt ops now ip r l)"
    "\<exists>lm. ip_perIP (snd (IPLimiter_AllowAt ops now ip r l)) ip = Some lm \<and> LimitOf ops lm = r"
proof -
  have "(case ip_perIP l ip of None \<Rightarrow> NewRateLimiter ops r (trunc (r * 2) + 1)
     | Some lm \<Rightarrow> if LimitOf ops lm \<noteq> r then NewRateLimiter ops r (trunc (r * 2) + 1) else lm) = NewRateLimiter ops r (trunc (r * 2) + 1)"
    using assms(2) by (auto split: option.splits)
  then have eq: "IPLimiter_AllowAt ops now ip r l =
     (fst (TakeToken ops now (NewRateLimiter ops r (trunc (r * 2) + 1))),
      l\<lparr>ip_perIP := (ip_perIP l)(ip \<mapsto> snd (TakeToken ops now (NewRateLimiter ops r (trunc (r * 2) + 1))))\<rparr>)"
    using assms(1) by (simp add: IPLimiter_AllowAt_def Let_def case_prod_beta)
  then show "fst (IPLimiter_AllowAt ops now ip r l)"
    using fresh_allows [OF assms(1) trunc_burst [OF assms(1)]] by simp
  show "\<exists>lm. ip_perIP (snd (IPLimiter_AllowAt ops now ip r l)) ip = Some lm \<and> LimitOf ops lm = r"
    using eq by (simp add: limit_take limit_new)
qed

text \<open>One address that alternates between two bindings with different rates is never limited: every
  switch replaces the bucket by a full one.\<close>

lemma alternate_allowed:
  assumes "0 < r1" "0 < r2" "r1 \<noteq> r2" "case ip_perIP l ip of None \<Rightarrow> True | Some lm \<Rightarrow> LimitOf ops lm \<noteq> r1"
  shows "list_all (\<lambda>b. b) (alternate ops n clock ip r1 r2 l)"
  using assms
proof (induction n arbitrary: r1 r2 l)
  case (Suc n)
  obtain b l' where bl: "IPLimiter_AllowAt ops (clock n) ip r1 l = (b, l')" by (cases "IPLimiter_AllowAt ops (clock n) ip r1 l")
  have "b" using AllowAt_fresh(1) [OF Suc.prems(1,4), of "clock n"] bl by simp
  obtain lm where lm: "ip_perIP l' ip = Some lm" "LimitOf ops lm = r1"
    using AllowAt_fresh(2) [OF Suc.prems(1,4), of "clock n"] bl by auto
  have "list_all (\<lambda>b. b) (alternate ops n clock ip r2 r1 l')"
    by (rule Suc.IH) (use Suc.prems lm in auto)
  then show ?case using bl \<open>b\<close> by simp
qed simp

end

section \<open>A token bucket\<close>

record bucket =
  tb_rate :: rat
  tb_burst :: int
  tb_tokens :: rat
  tb_last :: "time option"

definition tb_advance :: "time \<Rightarrow> bucket \<Rightarrow> rat" where
  "tb_advance now b =
     (case tb_last b of
        None \<Rightarrow> of_int (tb_burst b)
      | Some t0 \<Rightarrow> min (of_int (tb_burst b)) (tb_tokens b + of_int (max 0 (now - t0)) * tb_rate b / 1000000000))"

definition tb_ops :: "bucket rate_ops" where
  "tb_ops = \<lparr>NewRateLimiter = (\<lambda>r b. \<lparr>tb_rate = r, tb_burst = b, tb_tokens = 0, tb_last = None\<rparr>),
     LimitOf = tb_rate,
     TakeToken = (\<lambda>now b. let tokens = tb_advance now b
        in if 1 \<le> tokens then (True, b\<lparr>tb_tokens := tokens - 1, tb_last := Some now\<rparr>)
           else (False, b\<lparr>tb_tokens := tokens, tb_last := Some now\<rparr>))\<rparr>"

interpretation tb: token_bucket tb_ops
  by unfold_locales (auto simp: tb_ops_def tb_advance_def Let_def)

section \<open>In-flight requests\<close>

text \<open>A channel used as a semaphore is its capacity and how many tokens are in it. \<open>globalMax\<close> is
  \<^term>\<open>None\<close> when the global channel is nil; a key without a channel yet has none of its slots used.\<close>

record ConcurrencyLimiter =
  globalMax :: "nat option"
  perMax :: int
  g_used :: nat
  k_used :: "string \<Rightarrow> nat"

definition NewConcurrencyLimiter :: "int \<Rightarrow> int \<Rightarrow> ConcurrencyLimiter" where
  "NewConcurrencyLimiter gmax perKeyMax =
     \<lparr>globalMax = (if 0 < gmax then Some (nat gmax) else None), perMax = perKeyMax, g_used = 0, k_used = (\<lambda>_. 0)\<rparr>"

text \<open>Where a request is in \<^verbatim>\<open>Acquire\<close> or in the release function it returned.\<close>

datatype req_pc =
    Entered          \<comment> \<open>at the select on the key channel\<close>
  | KeyHeld          \<comment> \<open>at the select on the global channel\<close>
  | BackingOut       \<comment> \<open>giving the key slot back after the context ended\<close>
  | InFlight         \<comment> \<open>\<^verbatim>\<open>Acquire\<close> returned a release function\<close>
  | ReleasingKey     \<comment> \<open>the global slot is given back, the key slot not yet\<close>
  | Finished
  | Refused string

datatype conc_event = Arrive string | Proceed nat | CtxDone nat

record conc_state =
  limiter :: ConcurrencyLimiter
  reqs :: "(string \<times> req_pc) list"

definition goto :: "conc_state \<Rightarrow> nat \<Rightarrow> string \<Rightarrow> req_pc \<Rightarrow> ConcurrencyLimiter \<Rightarrow> conc_state" where
  "goto s i k pc l = s\<lparr>limiter := l, reqs := (reqs s)[i := (k, pc)]\<rparr>"

text \<open>One channel operation of request \<open>i\<close>; \<^term>\<open>None\<close> when it blocks.\<close>

definition proceed :: "conc_state \<Rightarrow> nat \<Rightarrow> conc_state option" where
  "proceed s i =
     (if length (reqs s) \<le> i then None
      else let l = limiter s; (k, pc) = reqs s ! i
      in case pc of
        Entered \<Rightarrow>
          if globalMax l = None \<and> perMax l \<le> 0 then Some (goto s i k InFlight l)
          else if 0 < perMax l then
            (if int (k_used l k) < perMax l
             then Some (goto s i k KeyHeld (l\<lparr>k_used := (k_used l)(k := k_used l k + 1)\<rparr>)) else None)
          else Some (goto s i k KeyHeld l)
      | KeyHeld \<Rightarrow>
          (case globalMax l of
             None \<Rightarrow> Some (goto s i k InFlight l)
           | Some m \<Rightarrow> if g_used l < m then Some (goto s i k InFlight (l\<lparr>g_used := g_used l + 1\<rparr>)) else None)
      | InFlight \<Rightarrow>
          (case globalMax l of
             None \<Rightarrow> Some (goto s i k ReleasingKey l)
           | Some m \<Rightarrow> if 0 < g_used l then Some (goto s i k ReleasingKey (l\<lparr>g_used := g_used l - 1\<rparr>)) else None)
      | ReleasingKey \<Rightarrow>
          if 0 < perMax l then
            (if 0 < k_used l k then Some (goto s i k Finished (l\<lparr>k_used := (k_used l)(k := k_used l k - 1)\<rparr>)) else None)
          else Some (goto s i k Finished l)
      | BackingOut \<Rightarrow>
          if 0 < perMax l then
            (if 0 < k_used l k then Some (goto s i k (Refused ''global'') (l\<lparr>k_used := (k_used l)(k := k_used l k - 1)\<rparr>)) else None)
          else Some (goto s i k (Refused ''global'') l)
      | _ \<Rightarrow> None)"

text \<open>The context of a waiting request ends: it is refused by the tier it waits on.\<close>

definition ctx_done :: "conc_state \<Rightarrow> nat \<Rightarrow> conc_state option" where
  "ctx_done s i =
     (if length (reqs s) \<le> i then None
      else let l = limiter s; (k, pc) = reqs s ! i
      in case pc of
        Entered \<Rightarrow> if 0 < perMax l then Some (goto s i k (Refused ''per-key'') l) else None
      | KeyHeld \<Rightarrow> if globalMax l \<noteq> None then Some (goto s i k BackingOut l) else None
      | _ \<Rightarrow> None)"

fun conc_step :: "conc_event \<Rightarrow> conc_state \<Rightarrow> conc_state option" where
  "conc_step (Arrive k) s = Some (s\<lparr>reqs := reqs s @ [(k, Entered)]\<rparr>)"
| "conc_step (Proceed i) s = proceed s i"
| "conc_step (CtxDone i) s = ctx_done s i"

inductive conc_reach :: "int \<Rightarrow> int \<Rightarrow> conc_state \<Rightarrow> bool" for gmax pmax where
  conc_init: "conc_reach gmax pmax \<lparr>limiter = NewConcurrencyLimiter gmax pmax, reqs = []\<rparr>"
| conc_next: "conc_reach gmax pmax s \<Longrightarrow> conc_step e s = Some s' \<Longrightarrow> conc_reach gmax pmax s'"

definition holds_key :: "string \<Rightarrow> string \<times> req_pc \<Rightarrow> bool" where
  "holds_key k r \<longleftrightarrow> fst r = k \<and> snd r \<in> {KeyHeld, BackingOut, InFlight, ReleasingKey}"

definition in_flight :: "string \<times> req_pc \<Rightarrow> bool" where
  "in_flight r \<longleftrightarrow> snd r = InFlight"

definition cnt :: "('a \<Rightarrow> bool) \<Rightarrow> 'a list \<Rightarrow> nat" where
  "cnt P xs = length (filter P xs)"

lemma cnt_append [simp]: "cnt P (xs @ ys) = cnt P xs + cnt P ys"
  by (simp add: cnt_def)

lemma cnt_single [simp]: "cnt P [x] = (if P x then 1 else 0)" "cnt P [] = 0"
  by (simp_all add: cnt_def)

lemma cnt_update: "i < length xs \<Longrightarrow> cnt P (xs[i := y]) + (if P (xs ! i) then 1 else 0) = cnt P xs + (if P y then 1 else 0)"
proof (induction xs arbitrary: i)
  case (Cons x xs)
  then show ?case by (cases i) (auto simp: cnt_def)
qed simp

lemma cnt_pos: "i < length xs \<Longrightarrow> P (xs ! i) \<Longrightarrow> 0 < cnt P xs"
  by (auto simp: cnt_def length_greater_0_conv filter_empty_conv)

lemma cnt_mono: "(\<And>x. P x \<Longrightarrow> Q x) \<Longrightarrow> cnt P xs \<le> cnt Q xs"
  unfolding cnt_def by (induction xs) auto

text \<open>The channels hold exactly the tokens of the requests that are between taking and giving back.\<close>

definition conc_inv :: "int \<Rightarrow> int \<Rightarrow> conc_state \<Rightarrow> bool" where
  "conc_inv gmax pmax s \<longleftrightarrow>
     globalMax (limiter s) = (if 0 < gmax then Some (nat gmax) else None) \<and> perMax (limiter s) = pmax
     \<and> (0 < gmax \<longrightarrow> g_used (limiter s) = cnt in_flight (reqs s) \<and> int (cnt in_flight (reqs s)) \<le> gmax)
     \<and> (0 < pmax \<longrightarrow> (\<forall>k. k_used (limiter s) k = cnt (holds_key k) (reqs s) \<and> int (cnt (holds_key k) (reqs s)) \<le> pmax))"

lemma conc_inv_goto:
  assumes "conc_inv gmax pmax s" "i < length (reqs s)" "reqs s ! i = (k, pc)"
    and "globalMax l = globalMax (limiter s)" "perMax l = perMax (limiter s)"
    and "0 < gmax \<Longrightarrow> g_used l + (if pc = InFlight then 1 else 0) = g_used (limiter s) + (if pc' = InFlight then 1 else 0) \<and> int (g_used l) \<le> gmax"
    and "0 < pmax \<Longrightarrow> k_used l k + (if holds_key k (k, pc) then 1 else 0) = k_used (limiter s) k + (if holds_key k (k, pc') then 1 else 0) \<and> int (k_used l k) \<le> pmax"
    and "0 < pmax \<Longrightarrow> \<forall>k'. k' \<noteq> k \<longrightarrow> k_used l k' = k_used (limiter s) k'"
  shows "conc_inv gmax pmax (goto s i k pc' l)"
proof -
  have f: "cnt in_flight ((reqs s)[i := (k, pc')]) + (if pc = InFlight then 1 else 0) = cnt in_flight (reqs s) + (if pc' = InFlight then 1 else 0)"
    using cnt_update [OF assms(2), of in_flight "(k, pc')"] assms(3) by (simp add: in_flight_def)
  have h: "cnt (holds_key k') ((reqs s)[i := (k, pc')]) + (if holds_key k' (k, pc) then 1 else 0) = cnt (holds_key k') (reqs s) + (if holds_key k' (k, pc') then 1 else 0)" for k'
    using cnt_update [OF assms(2), of "holds_key k'" "(k, pc')"] assms(3) by simp
  have other: "k' \<noteq> k \<Longrightarrow> \<not> holds_key k' (k, x)" for k' x by (simp add: holds_key_def)
  have K: "k_used l k' = cnt (holds_key k') ((reqs s)[i := (k, pc')]) \<and> int (k_used l k') \<le> pmax" if "0 < pmax" for k'
  proof (cases "k' = k")
    case True
    then show ?thesis using assms(1,7) h [of k] that by (auto simp: conc_inv_def split: if_splits)
  next
    case False
    then show ?thesis using assms(1,8) h [of k'] other [OF False] that by (auto simp: conc_inv_def)
  qed
  have G: "g_used l = cnt in_flight ((reqs s)[i := (k, pc')]) \<and> int (g_used l) \<le> gmax" if "0 < gmax"
    using assms(1,6) f that by (auto simp: conc_inv_def split: if_splits)
  have K': "0 < pmax \<Longrightarrow> int (cnt (holds_key k') ((reqs s)[i := (k, pc')])) \<le> pmax" for k' using K [of k'] by simp
  have G': "0 < gmax \<Longrightarrow> int (cnt in_flight ((reqs s)[i := (k, pc')])) \<le> gmax" using G by simp
  show ?thesis using assms(1,4,5) K G K' G' by (simp add: conc_inv_def goto_def)
qed

lemmas req_pc_splits = req_pc.splits option.splits if_splits prod.splits

lemma proceed_inv:
  assumes "conc_inv gmax pmax s" "proceed s i = Some s'"
  shows "conc_inv gmax pmax s'"
proof -
  have i: "i < length (reqs s)" using assms(2) by (auto simp: proceed_def split: if_splits)
  obtain k pc where r: "reqs s ! i = (k, pc)" by (cases "reqs s ! i")
  note inv = conc_inv_goto [OF assms(1) i r]
  have g: "globalMax (limiter s) = (if 0 < gmax then Some (nat gmax) else None)" "perMax (limiter s) = pmax"
    "0 < gmax \<Longrightarrow> int (g_used (limiter s)) \<le> gmax" "0 < pmax \<Longrightarrow> int (k_used (limiter s) k) \<le> pmax"
    using assms(1) by (simp_all add: conc_inv_def)
  have b: "0 < gmax \<Longrightarrow> int (g_used (limiter s)) - 1 \<le> gmax" "0 < pmax \<Longrightarrow> int (k_used (limiter s) k) - 1 \<le> pmax"
    using g(3,4) by linarith+
  show ?thesis
    using assms(2) i r
    by (cases pc)
      (auto simp: g b proceed_def Let_def holds_key_def intro!: inv split: if_splits option.splits)
qed

lemma ctx_done_inv:
  assumes "conc_inv gmax pmax s" "ctx_done s i = Some s'"
  shows "conc_inv gmax pmax s'"
proof -
  have i: "i < length (reqs s)" using assms(2) by (auto simp: ctx_done_def split: if_splits)
  obtain k pc where r: "reqs s ! i = (k, pc)" by (cases "reqs s ! i")
  note inv = conc_inv_goto [OF assms(1) i r]
  have g: "0 < gmax \<Longrightarrow> int (g_used (limiter s)) \<le> gmax" "0 < pmax \<Longrightarrow> int (k_used (limiter s) k) \<le> pmax"
    using assms(1) by (simp_all add: conc_inv_def)
  show ?thesis
    using assms(2) i r
    by (cases pc) (auto simp: g ctx_done_def Let_def holds_key_def intro!: inv split: if_splits option.splits)
qed

lemma conc_reach_inv: "conc_reach gmax pmax s \<Longrightarrow> conc_inv gmax pmax s"
proof (induction rule: conc_reach.induct)
  case conc_init
  then show ?case by (simp add: conc_inv_def NewConcurrencyLimiter_def)
next
  case (conc_next s e s')
  then show ?case
  proof (cases e)
    case (Arrive k)
    then have "s' = s\<lparr>reqs := reqs s @ [(k, Entered)]\<rparr>" using conc_next by simp
    then show ?thesis using conc_next.IH by (simp add: conc_inv_def holds_key_def in_flight_def)
  qed (auto intro: proceed_inv ctx_done_inv)
qed

section \<open>Properties\<close>

text \<open>C8: The in-flight bound. In every interleaving of arrivals, channel operations and ended contexts,
  the requests in flight never exceed the global limit, and those of one key never exceed the
  per-key limit, so one key can hold at most that many of the global slots.\<close>

theorem in_flight_bounded:
  assumes "conc_reach gmax pmax s"
  shows "(0 < gmax \<longrightarrow> int (cnt in_flight (reqs s)) \<le> gmax)
    \<and> (0 < pmax \<longrightarrow> int (cnt (\<lambda>r. fst r = k \<and> in_flight r) (reqs s)) \<le> pmax)"
proof -
  have "cnt (\<lambda>r. fst r = k \<and> in_flight r) (reqs s) \<le> cnt (holds_key k) (reqs s)"
    by (rule cnt_mono) (simp add: holds_key_def in_flight_def)
  moreover have "0 < gmax \<Longrightarrow> int (cnt in_flight (reqs s)) \<le> gmax" "0 < pmax \<Longrightarrow> int (cnt (holds_key k) (reqs s)) \<le> pmax"
    using conc_reach_inv [OF assms] by (simp_all add: conc_inv_def)
  ultimately show ?thesis by linarith
qed

definition ex_conc :: conc_state where
  "ex_conc = (let s = \<lparr>limiter = NewConcurrencyLimiter 1 1, reqs = []\<rparr>;
     run = (\<lambda>e s. the (conc_step e s))
     in run (Proceed 0) (run (Proceed 0) (run (Arrive ''B'') (run (Arrive ''A'') s))))"

lemma ex_conc_reach: "conc_reach 1 1 ex_conc"
proof -
  have "conc_reach 1 1 s \<Longrightarrow> conc_step e s \<noteq> None \<Longrightarrow> conc_reach 1 1 (the (conc_step e s))" for e s
    by (auto intro: conc_next)
  then show ?thesis
    unfolding ex_conc_def Let_def
    by (intro conc_reach.intros(1) \<open>\<And>s e. conc_reach 1 1 s \<Longrightarrow> conc_step e s \<noteq> None \<Longrightarrow> conc_reach 1 1 (the (conc_step e s))\<close>)
      (simp_all add: NewConcurrencyLimiter_def proceed_def goto_def)
qed

theorem in_flight_bounded_witness: "int (cnt in_flight (reqs ex_conc)) \<le> 1 \<and> cnt in_flight (reqs ex_conc) = 1"
proof
  show "int (cnt in_flight (reqs ex_conc)) \<le> 1" using in_flight_bounded [OF ex_conc_reach] by simp
  show "cnt in_flight (reqs ex_conc) = 1"
    by (simp add: ex_conc_def Let_def NewConcurrencyLimiter_def proceed_def goto_def cnt_def in_flight_def)
qed

text \<open>C37: Slots are always given back, and a free key is never blocked by others. In every reachable state
  a request that holds a slot and is releasing it (after its response, or after its context ended)
  is not blocked at any of its channel receives; and a request that waits for its key while fewer
  than the per-key limit of that key's slots are taken and fewer than the global limit of requests
  are in flight gets into flight by its own next two steps, whatever the requests of other keys do
  or wait for.\<close>

theorem slots_released_and_fair:
  assumes "conc_reach gmax pmax s" "i < length (reqs s)" "reqs s ! i = (k, pc)"
  shows "(pc \<in> {InFlight, ReleasingKey, BackingOut} \<longrightarrow> conc_step (Proceed i) s \<noteq> None)
    \<and> (pc = Entered \<and> 0 < gmax \<and> 0 < pmax \<and> int (cnt (holds_key k) (reqs s)) < pmax \<and> int (cnt in_flight (reqs s)) < gmax \<longrightarrow>
        (\<exists>s1 s2. conc_step (Proceed i) s = Some s1 \<and> conc_step (Proceed i) s1 = Some s2 \<and> reqs s2 ! i = (k, InFlight)))"
proof -
  have g: "globalMax (limiter s) = (if 0 < gmax then Some (nat gmax) else None)" "perMax (limiter s) = pmax"
    "0 < gmax \<Longrightarrow> g_used (limiter s) = cnt in_flight (reqs s)" "0 < pmax \<Longrightarrow> k_used (limiter s) k = cnt (holds_key k) (reqs s)"
    using conc_reach_inv [OF assms(1)] by (simp_all add: conc_inv_def)
  have "pc = InFlight \<Longrightarrow> 0 < cnt in_flight (reqs s)"
    using cnt_pos [OF assms(2), of in_flight] assms(3) by (simp add: in_flight_def)
  moreover have "pc \<in> {ReleasingKey, BackingOut} \<Longrightarrow> 0 < cnt (holds_key k) (reqs s)"
    using cnt_pos [OF assms(2), of "holds_key k"] assms(3) by (auto simp: holds_key_def)
  ultimately have "pc \<in> {InFlight, ReleasingKey, BackingOut} \<Longrightarrow> conc_step (Proceed i) s \<noteq> None"
    using assms(2,3) by (auto simp: proceed_def g Let_def)
  moreover have "\<exists>s1 s2. conc_step (Proceed i) s = Some s1 \<and> conc_step (Proceed i) s1 = Some s2 \<and> reqs s2 ! i = (k, InFlight)"
    if "pc = Entered" "0 < gmax" "0 < pmax" "int (cnt (holds_key k) (reqs s)) < pmax" "int (cnt in_flight (reqs s)) < gmax"
    using that assms(2,3) by (simp add: proceed_def g goto_def Let_def zless_nat_conj)
  ultimately show ?thesis by blast
qed

theorem slots_released_and_fair_witness:
  "conc_step (Proceed 0) ex_conc \<noteq> None \<and> conc_step (Proceed 1) ex_conc \<noteq> None"
proof -
  have r: "0 < length (reqs ex_conc)" "reqs ex_conc ! 0 = (''A'', InFlight)" "1 < length (reqs ex_conc)" "reqs ex_conc ! 1 = (''B'', Entered)"
    by (simp_all add: ex_conc_def Let_def NewConcurrencyLimiter_def proceed_def goto_def)
  have "conc_step (Proceed 1) ex_conc \<noteq> None"
    by (simp add: ex_conc_def Let_def NewConcurrencyLimiter_def proceed_def goto_def)
  with slots_released_and_fair [OF ex_conc_reach r(1,2)] show ?thesis by simp
qed

text \<open>The per-address limit does not bind a client that alternates between two anonymous buckets
  whose bindings have different rates: with the bucket arithmetic of a token bucket every one of
  its requests is allowed, however fast they come, because each switch of the rate replaces the
  address's bucket by a full one.\<close>

theorem alternating_rates_unlimited:
  assumes "0 < r1" "0 < r2" "r1 \<noteq> r2"
  shows "list_all (\<lambda>b. b) (alternate tb_ops n clock ip r1 r2 (NewIPLimiter dflt))"
  using assms by (intro tb.alternate_allowed) (simp_all add: NewIPLimiter_def)

theorem alternating_rates_unlimited_witness:
  "list_all (\<lambda>b. b) (alternate tb_ops 1000 (\<lambda>i. 0) ''203.0.113.9'' 1 2 (NewIPLimiter 0))"
  by (rule alternating_rates_unlimited) simp_all

text \<open>Rate limits are isolated per access key: a request of one key never changes the bucket of
  another key, and with a per-key rate of zero or less only the global bucket decides.\<close>

theorem key_limits_isolated:
  "(k \<noteq> k' \<longrightarrow> lim_perKey (snd (Limiter_Allow tb_ops now k l)) k' = lim_perKey l k')
   \<and> (lim_perRate l \<le> 0 \<longrightarrow> fst (Limiter_Allow tb_ops now k l) =
        (case lim_global l of None \<Rightarrow> True | Some g \<Rightarrow> fst (TakeToken tb_ops now g)))"
proof
  show "k \<noteq> k' \<longrightarrow> lim_perKey (snd (Limiter_Allow tb_ops now k l)) k' = lim_perKey l k'"
    using tb.Limiter_isolated by blast
  show "lim_perRate l \<le> 0 \<longrightarrow> fst (Limiter_Allow tb_ops now k l) =
        (case lim_global l of None \<Rightarrow> True | Some g \<Rightarrow> fst (TakeToken tb_ops now g))"
    by (auto simp: Limiter_Allow_def Let_def case_prod_beta split: option.splits)
qed

theorem key_limits_isolated_witness:
  "lim_perKey (snd (Limiter_Allow tb_ops 0 ''A'' (NewLimiter tb_ops 0 5))) ''B'' = None"
  using key_limits_isolated [of "''A''" "''B''" 0 "NewLimiter tb_ops 0 5"] by (simp add: NewLimiter_def)

end
