(* ===== verification/Quotas.thy ===== *)
theory Quotas
  imports Go_Time
begin

text \<open>
  Per-bucket storage quotas (\<^verbatim>\<open>internal/quotas\<close>): the limit sources of \<^verbatim>\<open>sources.go\<close> (the table of
  the admin dashboard, the limits published from Kubernetes, their merged view) and the service of
  \<^verbatim>\<open>quotas.go\<close> (the usage cache, the check before an upload, the bookkeeping after it, the scanner
  and the dashboard's summaries).

  A Go map that is iterated over is an association list with distinct keys; the order of the list
  is the order of the iteration, which the results do not depend on. The rows of the database, the
  clock and the pages a backend lists are arguments. A scan may follow continuation tokens for
  ever, so it is a partial function; the \<open>i\<close>-th listing call of a scan may depend on \<open>i\<close>.
\<close>

section \<open>Limits and their keys\<close>

record Limit =
  SoftBytes :: int
  HardBytes :: int
  UpdatedAt :: time
  UpdatedBy :: string
  LSource :: string

datatype LimitKey = LimitKey (lk_BackendID: string) (lk_Bucket: string)

text \<open>The order of the \<^verbatim>\<open>sort.Slice\<close> comparisons: backend first, then bucket.\<close>

instantiation LimitKey :: linorder
begin

definition less_LimitKey :: "LimitKey \<Rightarrow> LimitKey \<Rightarrow> bool" where
  "less_LimitKey a b = (if lk_BackendID a \<noteq> lk_BackendID b then lk_BackendID a < lk_BackendID b else lk_Bucket a < lk_Bucket b)"

definition less_eq_LimitKey :: "LimitKey \<Rightarrow> LimitKey \<Rightarrow> bool" where
  "less_eq_LimitKey a b \<longleftrightarrow> a < b \<or> a = b"

instance
proof
  fix x y z :: LimitKey
  show "(x < y) = (x \<le> y \<and> \<not> y \<le> x)"
    by (cases x; cases y) (auto simp: less_LimitKey_def less_eq_LimitKey_def split: if_splits)
  show "x \<le> x" by (simp add: less_eq_LimitKey_def)
  show "x \<le> y \<Longrightarrow> y \<le> z \<Longrightarrow> x \<le> z"
    by (cases x; cases y; cases z) (auto simp: less_LimitKey_def less_eq_LimitKey_def split: if_splits)
  show "x \<le> y \<Longrightarrow> y \<le> x \<Longrightarrow> x = y"
    by (cases x; cases y) (auto simp: less_LimitKey_def less_eq_LimitKey_def split: if_splits)
  show "x \<le> y \<or> y \<le> x"
    by (cases x; cases y) (auto simp: less_LimitKey_def less_eq_LimitKey_def split: if_splits)
qed

end

definition cacheKey :: "string \<Rightarrow> string \<Rightarrow> string" where
  "cacheKey backendID bucket = backendID @ ''/'' @ bucket"

definition indexOfSlash :: "string \<Rightarrow> int" where
  "indexOfSlash s = (case IndexByte s (CHR ''/'') of None \<Rightarrow> -1 | Some i \<Rightarrow> int i)"

text \<open>The keys of a cache as pairs; a key without slash is skipped.\<close>

definition split_key :: "string \<Rightarrow> LimitKey option" where
  "split_key k = (let i = indexOfSlash k in
     if i < 0 then None else Some (LimitKey (take (nat i) k) (drop (nat i + 1) k)))"

section \<open>Limit sources\<close>

text \<open>Subscribers are identified by numbers; an operation that fires them returns the callbacks it
  calls, in order. Unsubscribing leaves a hole in the list.\<close>

type_synonym subscribers = "nat option list"

definition fire :: "subscribers \<Rightarrow> nat list" where
  "fire subs = concat (map (\<lambda>fn. case fn of None \<Rightarrow> [] | Some f \<Rightarrow> [f]) subs)"

definition Subscribe :: "nat \<Rightarrow> subscribers \<Rightarrow> nat \<times> subscribers" where
  "Subscribe fn subs = (length subs, subs @ [Some fn])"

definition unsubscribe :: "nat \<Rightarrow> subscribers \<Rightarrow> subscribers" where
  "unsubscribe idx subs = (if idx < length subs then subs[idx := None] else subs)"

definition sorted_keys :: "(string \<times> 'v) list \<Rightarrow> LimitKey list" where
  "sorted_keys cache = sort (List.map_filter split_key (map fst cache))"

record SQLiteLimitSource =
  sq_cache :: "(string \<times> Limit) list"
  sq_subs :: subscribers

record BucketQuota =
  bq_BackendID :: string
  bq_Bucket :: string
  bq_SoftBytes :: int
  bq_HardBytes :: int
  bq_UpdatedAt :: time
  bq_UpdatedBy :: string

definition NewSQLiteLimitSource :: SQLiteLimitSource where
  "NewSQLiteLimitSource = \<lparr>sq_cache = [], sq_subs = []\<rparr>"

definition SQLiteLimitSource_Get :: "SQLiteLimitSource \<Rightarrow> string \<Rightarrow> string \<Rightarrow> Limit option" where
  "SQLiteLimitSource_Get s backendID bucket = map_of (sq_cache s) (cacheKey backendID bucket)"

definition SQLiteLimitSource_List :: "SQLiteLimitSource \<Rightarrow> LimitKey list" where
  "SQLiteLimitSource_List s = sorted_keys (sq_cache s)"

definition limit_of_row :: "BucketQuota \<Rightarrow> Limit" where
  "limit_of_row q = \<lparr>SoftBytes = bq_SoftBytes q, HardBytes = bq_HardBytes q, UpdatedAt = bq_UpdatedAt q,
      UpdatedBy = bq_UpdatedBy q, LSource = ''sqlite''\<rparr>"

text \<open>\<^verbatim>\<open>Reload\<close> on what \<^verbatim>\<open>ListAllQuotas\<close> returned: on an error the cache and the subscribers are left
  alone.\<close>

definition SQLiteLimitSource_Reload ::
  "string + BucketQuota list \<Rightarrow> SQLiteLimitSource \<Rightarrow> string option \<times> nat list \<times> SQLiteLimitSource" where
  "SQLiteLimitSource_Reload rows s = (case rows of
     Inl err \<Rightarrow> (Some (''list bucket_quotas: '' @ err), [], s)
   | Inr rs \<Rightarrow>
       (None, fire (sq_subs s),
        s\<lparr>sq_cache := fold (\<lambda>q. AList.update (cacheKey (bq_BackendID q) (bq_Bucket q)) (limit_of_row q)) rs []\<rparr>))"

record KubernetesLimitSource =
  k8_cache :: "(string \<times> Limit) list"
  k8_subs :: subscribers

definition NewKubernetesLimitSource :: KubernetesLimitSource where
  "NewKubernetesLimitSource = \<lparr>k8_cache = [], k8_subs = []\<rparr>"

definition KubernetesLimitSource_Set ::
  "string \<Rightarrow> string \<Rightarrow> Limit \<Rightarrow> KubernetesLimitSource \<Rightarrow> nat list \<times> KubernetesLimitSource" where
  "KubernetesLimitSource_Set backendID bucket l s =
     (fire (k8_subs s), s\<lparr>k8_cache := AList.update (cacheKey backendID bucket) (l\<lparr>LSource := ''kubernetes''\<rparr>) (k8_cache s)\<rparr>)"

definition KubernetesLimitSource_Delete ::
  "string \<Rightarrow> string \<Rightarrow> KubernetesLimitSource \<Rightarrow> nat list \<times> KubernetesLimitSource" where
  "KubernetesLimitSource_Delete backendID bucket s =
     (fire (k8_subs s), s\<lparr>k8_cache := AList.delete (cacheKey backendID bucket) (k8_cache s)\<rparr>)"

definition KubernetesLimitSource_Get :: "KubernetesLimitSource \<Rightarrow> string \<Rightarrow> string \<Rightarrow> Limit option" where
  "KubernetesLimitSource_Get s backendID bucket = map_of (k8_cache s) (cacheKey backendID bucket)"

definition KubernetesLimitSource_List :: "KubernetesLimitSource \<Rightarrow> LimitKey list" where
  "KubernetesLimitSource_List s = sorted_keys (k8_cache s)"

text \<open>An interface value: one of the two sources.\<close>

datatype LimitSource = SQLite SQLiteLimitSource | Kubernetes KubernetesLimitSource

fun LimitSource_Get :: "LimitSource \<Rightarrow> string \<Rightarrow> string \<Rightarrow> Limit option" where
  "LimitSource_Get (SQLite s) = SQLiteLimitSource_Get s"
| "LimitSource_Get (Kubernetes s) = KubernetesLimitSource_Get s"

fun LimitSource_List :: "LimitSource \<Rightarrow> LimitKey list" where
  "LimitSource_List (SQLite s) = SQLiteLimitSource_List s"
| "LimitSource_List (Kubernetes s) = KubernetesLimitSource_List s"

text \<open>The merged view. Its state is the set of collisions already logged; \<open>ml_log\<close> is the log itself.\<close>

record MergedLimitSource =
  ml_sources :: "LimitSource list"
  ml_shadowed :: "string list"
  ml_log :: "(string \<times> string \<times> string \<times> string) list"

definition NewMergedLimitSource :: "LimitSource option list \<Rightarrow> MergedLimitSource" where
  "NewMergedLimitSource sources =
     \<lparr>ml_sources = concat (map (\<lambda>s. case s of None \<Rightarrow> [] | Some x \<Rightarrow> [x]) sources), ml_shadowed = [], ml_log = []\<rparr>"

definition MergedLimitSource_warnShadow ::
  "string \<Rightarrow> string \<Rightarrow> string \<Rightarrow> string \<Rightarrow> MergedLimitSource \<Rightarrow> MergedLimitSource" where
  "MergedLimitSource_warnShadow backendID bucket winner loser m =
     (let key = cacheKey backendID bucket @ ''|'' @ winner @ ''|'' @ loser
      in if key \<in> set (ml_shadowed m) then m
         else m\<lparr>ml_shadowed := key # ml_shadowed m, ml_log := ml_log m @ [(backendID, bucket, winner, loser)]\<rparr>)"

fun merged_get ::
  "LimitSource list \<Rightarrow> string \<Rightarrow> string \<Rightarrow> Limit option \<Rightarrow> MergedLimitSource \<Rightarrow> Limit option \<times> MergedLimitSource" where
  "merged_get [] backendID bucket winner m = (winner, m)"
| "merged_get (s # ss) backendID bucket winner m =
     (case LimitSource_Get s backendID bucket of
        None \<Rightarrow> merged_get ss backendID bucket winner m
      | Some l \<Rightarrow> (case winner of
          None \<Rightarrow> merged_get ss backendID bucket (Some l) m
        | Some w \<Rightarrow> merged_get ss backendID bucket winner
                      (MergedLimitSource_warnShadow backendID bucket (LSource w) (LSource l) m)))"

definition MergedLimitSource_Get ::
  "string \<Rightarrow> string \<Rightarrow> MergedLimitSource \<Rightarrow> Limit option \<times> MergedLimitSource" where
  "MergedLimitSource_Get backendID bucket m = merged_get (ml_sources m) backendID bucket None m"

fun merged_list :: "LimitKey list \<Rightarrow> string list \<Rightarrow> LimitKey list" where
  "merged_list [] seen = []"
| "merged_list (k # ks) seen =
     (let ck = cacheKey (lk_BackendID k) (lk_Bucket k)
      in if ck \<in> set seen then merged_list ks seen else k # merged_list ks (ck # seen))"

definition MergedLimitSource_List :: "MergedLimitSource \<Rightarrow> LimitKey list" where
  "MergedLimitSource_List m = sort (merged_list (concat (map LimitSource_List (ml_sources m))) [])"

text \<open>\<^verbatim>\<open>Reload\<close> fans out to the sources that can reload, keeps the first error and goes on.\<close>

fun reload_sources :: "string + BucketQuota list \<Rightarrow> LimitSource list \<Rightarrow> string option \<times> nat list \<times> LimitSource list" where
  "reload_sources rows [] = (None, [], [])"
| "reload_sources rows (Kubernetes s # ss) =
     (case reload_sources rows ss of (e, fs, ss') \<Rightarrow> (e, fs, Kubernetes s # ss'))"
| "reload_sources rows (SQLite s # ss) =
     (case SQLiteLimitSource_Reload rows s of (e1, fs1, s') \<Rightarrow>
      case reload_sources rows ss of (e, fs, ss') \<Rightarrow>
        (if e1 = None then e else e1, fs1 @ fs, SQLite s' # ss'))"

definition MergedLimitSource_Reload ::
  "string + BucketQuota list \<Rightarrow> MergedLimitSource \<Rightarrow> string option \<times> nat list \<times> MergedLimitSource" where
  "MergedLimitSource_Reload rows m =
     (case reload_sources rows (ml_sources m) of (e, fs, ss) \<Rightarrow> (e, fs, m\<lparr>ml_sources := ss\<rparr>))"

section \<open>The service\<close>

record Usage =
  Bytes :: int
  ObjectCount :: int
  ComputedAt :: time

record Service =
  Limits :: MergedLimitSource
  cache :: "(string \<times> Usage) list"
  failedScans :: "(string \<times> time) list"
  inlineScans :: "string list"

definition syncScanBackoff :: duration where "syncScanBackoff = 10 * Minute"

definition NewService :: "MergedLimitSource \<Rightarrow> Service" where
  "NewService limits = \<lparr>Limits = limits, cache = [], failedScans = [], inlineScans = []\<rparr>"

definition ReloadLimits :: "string + BucketQuota list \<Rightarrow> Service \<Rightarrow> string option \<times> Service" where
  "ReloadLimits rows svc = (case MergedLimitSource_Reload rows (Limits svc) of (e, fs, m) \<Rightarrow> (e, svc\<lparr>Limits := m\<rparr>))"

definition Service_Get :: "Service \<Rightarrow> string \<Rightarrow> string \<Rightarrow> Usage option" where
  "Service_Get svc backendID bucket = map_of (cache svc) (cacheKey backendID bucket)"

definition Status :: "string \<Rightarrow> string \<Rightarrow> Service \<Rightarrow> (Limit option \<times> Usage option) \<times> Service" where
  "Status backendID bucket svc =
     (case MergedLimitSource_Get backendID bucket (Limits svc) of
        (l, m) \<Rightarrow> ((l, Service_Get svc backendID bucket), svc\<lparr>Limits := m\<rparr>))"

definition Recorded :: "string \<Rightarrow> string \<Rightarrow> int \<Rightarrow> Service \<Rightarrow> Service" where
  "Recorded backendID bucket addBytes svc =
     (case map_of (cache svc) (cacheKey backendID bucket) of
        None \<Rightarrow> svc
      | Some u \<Rightarrow> svc\<lparr>cache := AList.update (cacheKey backendID bucket)
            (u\<lparr>Bytes := wrap64 (Bytes u + addBytes), ObjectCount := wrap64 (ObjectCount u + 1)\<rparr>) (cache svc)\<rparr>)"

definition inSyncScanBackoff :: "time \<Rightarrow> string \<Rightarrow> string \<Rightarrow> Service \<Rightarrow> bool" where
  "inSyncScanBackoff now backendID bucket svc =
     (case map_of (failedScans svc) (cacheKey backendID bucket) of
        None \<Rightarrow> False | Some t \<Rightarrow> time_Sub now t < syncScanBackoff)"

definition beginInlineScan :: "string \<Rightarrow> string \<Rightarrow> Service \<Rightarrow> bool \<times> Service" where
  "beginInlineScan backendID bucket svc =
     (let k = cacheKey backendID bucket
      in if k \<in> set (inlineScans svc) then (False, svc) else (True, svc\<lparr>inlineScans := k # inlineScans svc\<rparr>))"

definition endInlineScan :: "string \<Rightarrow> string \<Rightarrow> Service \<Rightarrow> Service" where
  "endInlineScan backendID bucket svc =
     svc\<lparr>inlineScans := filter (\<lambda>k. k \<noteq> cacheKey backendID bucket) (inlineScans svc)\<rparr>"

definition markSyncScanFailed :: "time \<Rightarrow> string \<Rightarrow> string \<Rightarrow> Service \<Rightarrow> Service" where
  "markSyncScanFailed now backendID bucket svc =
     svc\<lparr>failedScans := AList.update (cacheKey backendID bucket) now (failedScans svc)\<rparr>"

text \<open>Listing a bucket. \<open>ListObjects i bucket token\<close> is the answer to the \<open>i\<close>-th listing call of a scan.\<close>

record ListPage =
  page_sizes :: "int list"
  IsTruncated :: bool
  NextContinuationToken :: string

type_synonym ListObjects = "nat \<Rightarrow> string \<Rightarrow> string \<Rightarrow> string + ListPage"

definition add_page :: "int list \<Rightarrow> int \<times> int \<Rightarrow> int \<times> int" where
  "add_page sizes acc = fold (\<lambda>sz (bytes, count). (wrap64 (bytes + sz), wrap64 (count + 1))) sizes acc"

datatype scan_err = NotRegistered string | ListFailed string

partial_function (option) scan_loop ::
  "ListObjects \<Rightarrow> string \<Rightarrow> nat \<Rightarrow> string \<Rightarrow> int \<times> int \<Rightarrow> (scan_err + int \<times> int) option" where
  "scan_loop lst bucket i token acc =
     (case lst i bucket token of
        Inl err \<Rightarrow> Some (Inl (ListFailed err))
      | Inr res \<Rightarrow>
          if \<not> IsTruncated res \<or> NextContinuationToken res = [] then Some (Inr (add_page (page_sizes res) acc))
          else scan_loop lst bucket (i + 1) (NextContinuationToken res) (add_page (page_sizes res) acc))"

declare scan_loop.simps [code]

type_synonym registry = "string \<Rightarrow> ListObjects option"

definition Scan :: "registry \<Rightarrow> time \<Rightarrow> string \<Rightarrow> string \<Rightarrow> Service \<Rightarrow> ((scan_err + Usage) \<times> Service) option" where
  "Scan reg now backendID bucket svc =
     (case reg backendID of
        None \<Rightarrow> Some (Inl (NotRegistered backendID), svc)
      | Some b \<Rightarrow> (case scan_loop b bucket 0 [] (0, 0) of
          None \<Rightarrow> None
        | Some (Inl err) \<Rightarrow> Some (Inl err, svc)
        | Some (Inr (bytes, count)) \<Rightarrow>
            (let usage = \<lparr>Bytes = bytes, ObjectCount = count, ComputedAt = now\<rparr>; k = cacheKey backendID bucket
             in Some (Inr usage, svc\<lparr>cache := AList.update k usage (cache svc), failedScans := AList.delete k (failedScans svc)\<rparr>))))"

datatype quota_err = ErrQuotaExceeded int int int

definition quota_verdict :: "Usage \<Rightarrow> int \<Rightarrow> Limit \<Rightarrow> quota_err option" where
  "quota_verdict usage addBytes l =
     (if wrap64 (Bytes usage + addBytes) > HardBytes l then Some (ErrQuotaExceeded (Bytes usage) addBytes (HardBytes l)) else None)"

text \<open>\<^verbatim>\<open>CheckUpload\<close>: \<^term>\<open>None\<close> as the outer value when the inline scan does not end (the scan runs
  under a ten-second deadline, after which \<^verbatim>\<open>ListObjects\<close> reports an error).\<close>

definition CheckUpload ::
  "registry \<Rightarrow> time \<Rightarrow> string \<Rightarrow> string \<Rightarrow> int \<Rightarrow> Service \<Rightarrow> (quota_err option \<times> Service) option" where
  "CheckUpload reg now backendID bucket addBytes svc0 =
     (case MergedLimitSource_Get backendID bucket (Limits svc0) of (lim_opt, m) \<Rightarrow>
      let svc = svc0\<lparr>Limits := m\<rparr> in
      case lim_opt of
        None \<Rightarrow> Some (None, svc)
      | Some l \<Rightarrow>
        if HardBytes l \<le> 0 then Some (None, svc)
        else case Service_Get svc backendID bucket of
          Some u \<Rightarrow> Some (quota_verdict u addBytes l, svc)
        | None \<Rightarrow>
          if inSyncScanBackoff now backendID bucket svc then Some (None, svc)
          else case beginInlineScan backendID bucket svc of
            (False, svc1) \<Rightarrow> Some (None, svc1)
          | (True, svc1) \<Rightarrow> (case Scan reg now backendID bucket svc1 of
              None \<Rightarrow> None
            | Some (Inr u, svc2) \<Rightarrow> Some (quota_verdict u addBytes l, endInlineScan backendID bucket svc2)
            | Some (Inl err, svc2) \<Rightarrow>
                Some (None, endInlineScan backendID bucket (markSyncScanFailed now backendID bucket svc2))))"

text \<open>The deadline of an inline scan: after \<open>n\<close> listing calls every further one fails.\<close>

definition scan_deadline :: "nat \<Rightarrow> registry \<Rightarrow> registry" where
  "scan_deadline n reg = (\<lambda>b. map_option (\<lambda>lst i bkt tok. if n \<le> i then Inl ''context deadline exceeded'' else lst i bkt tok) (reg b))"

text \<open>\<^verbatim>\<open>ScanAll\<close> over the merged list of keys; \<open>cancelled i\<close> says whether the context has ended before
  the \<open>i\<close>-th scan.\<close>

fun scan_keys :: "registry \<Rightarrow> time \<Rightarrow> (nat \<Rightarrow> bool) \<Rightarrow> nat \<Rightarrow> LimitKey list \<Rightarrow> Service \<Rightarrow> Service option" where
  "scan_keys reg now cancelled i [] svc = Some svc"
| "scan_keys reg now cancelled i (k # ks) svc =
     (if cancelled i then Some svc
      else case Scan reg now (lk_BackendID k) (lk_Bucket k) svc of
        None \<Rightarrow> None
      | Some (Inr u, svc') \<Rightarrow> scan_keys reg now cancelled (i + 1) ks svc'
      | Some (Inl e, svc') \<Rightarrow> scan_keys reg now cancelled (i + 1) ks (markSyncScanFailed now (lk_BackendID k) (lk_Bucket k) svc'))"

definition ScanAll :: "registry \<Rightarrow> time \<Rightarrow> (nat \<Rightarrow> bool) \<Rightarrow> Service \<Rightarrow> Service option" where
  "ScanAll reg now cancelled svc = scan_keys reg now cancelled 0 (MergedLimitSource_List (Limits svc)) svc"

section \<open>The dashboard's summaries\<close>

record BucketUsage =
  bu_BackendID :: string
  bu_Bucket :: string
  bu_Bytes :: int
  bu_Objects :: int
  bu_ComputedAt :: time

record UnscannedBucket =
  ub_BackendID :: string
  ub_Bucket :: string
  ub_FailedAt :: time

record BackendTotal =
  bt_BackendID :: string
  bt_Bytes :: int
  bt_Objects :: int
  bt_Buckets :: int

definition Unscanned :: "Service \<Rightarrow> UnscannedBucket list" where
  "Unscanned svc = List.map_filter (\<lambda>(k, t).
     if map_of (cache svc) k \<noteq> None then None
     else map_option (\<lambda>lk. \<lparr>ub_BackendID = lk_BackendID lk, ub_Bucket = lk_Bucket lk, ub_FailedAt = t\<rparr>) (split_key k))
     (failedScans svc)"

text \<open>The inner loop of the insertion sort: swap element \<open>j\<close> down while it is bigger than the one before.\<close>

fun sink :: "nat \<Rightarrow> BucketUsage list \<Rightarrow> BucketUsage list" where
  "sink 0 xs = xs"
| "sink (Suc j) xs =
     (if bu_Bytes (xs ! Suc j) > bu_Bytes (xs ! j) then sink j (xs[Suc j := xs ! j, j := xs ! Suc j]) else xs)"

definition sort_usage :: "BucketUsage list \<Rightarrow> BucketUsage list" where
  "sort_usage xs = fold sink [1..<length xs] xs"

definition usage_rows :: "(string \<times> Usage) list \<Rightarrow> BucketUsage list" where
  "usage_rows c = List.map_filter (\<lambda>(k, u). map_option (\<lambda>lk. \<lparr>bu_BackendID = lk_BackendID lk, bu_Bucket = lk_Bucket lk,
      bu_Bytes = Bytes u, bu_Objects = ObjectCount u, bu_ComputedAt = ComputedAt u\<rparr>) (split_key k)) c"

definition TopBuckets :: "int \<Rightarrow> Service \<Rightarrow> BucketUsage list" where
  "TopBuckets n svc =
     (let rows = sort_usage (usage_rows (cache svc))
      in if 0 < n \<and> int (length rows) > n then take (nat n) rows else rows)"

definition add_total :: "BucketUsage \<Rightarrow> (string \<times> BackendTotal) list \<Rightarrow> (string \<times> BackendTotal) list" where
  "add_total b out =
     (let row = (case map_of out (bu_BackendID b) of
            None \<Rightarrow> \<lparr>bt_BackendID = bu_BackendID b, bt_Bytes = 0, bt_Objects = 0, bt_Buckets = 0\<rparr> | Some r \<Rightarrow> r)
      in AList.update (bu_BackendID b) (row\<lparr>bt_Bytes := wrap64 (bt_Bytes row + bu_Bytes b),
           bt_Objects := wrap64 (bt_Objects row + bu_Objects b), bt_Buckets := wrap64 (bt_Buckets row + 1)\<rparr>) out)"

definition BackendTotals :: "Service \<Rightarrow> (string \<times> BackendTotal) list" where
  "BackendTotals svc = fold add_total (usage_rows (cache svc)) []"

section \<open>The interface of limit sources\<close>

text \<open>What the service relies on: the listed keys are sorted and distinct, name backends without a
  slash, and are exactly the keys \<open>get\<close> knows (up to the joined cache key).\<close>

locale limit_source =
  fixes inv :: "'s \<Rightarrow> bool"
    and get :: "'s \<Rightarrow> string \<Rightarrow> string \<Rightarrow> Limit option"
    and keys :: "'s \<Rightarrow> LimitKey list"
  assumes keys_sound: "inv s \<Longrightarrow> x \<in> set (keys s) \<Longrightarrow> get s (lk_BackendID x) (lk_Bucket x) \<noteq> None"
    and keys_complete: "inv s \<Longrightarrow> get s b k \<noteq> None \<Longrightarrow> \<exists>x \<in> set (keys s). cacheKey (lk_BackendID x) (lk_Bucket x) = cacheKey b k"
    and keys_clean: "inv s \<Longrightarrow> x \<in> set (keys s) \<Longrightarrow> CHR ''/'' \<notin> set (lk_BackendID x)"
    and keys_sorted: "inv s \<Longrightarrow> sorted (keys s) \<and> distinct (keys s)"

lemma cacheKey_inject:
  "CHR ''/'' \<notin> set b \<Longrightarrow> CHR ''/'' \<notin> set b' \<Longrightarrow> cacheKey b k = cacheKey b' k' \<longleftrightarrow> b = b' \<and> k = k'"
  using IndexByte_append_mem [of "CHR ''/''" b k] IndexByte_append_mem [of "CHR ''/''" b' k']
  by (auto simp: cacheKey_def)

context limit_source
begin

lemma keys_iff:
  assumes "inv s" "CHR ''/'' \<notin> set b"
  shows "LimitKey b k \<in> set (keys s) \<longleftrightarrow> get s b k \<noteq> None"
proof
  show "get s b k \<noteq> None" if "LimitKey b k \<in> set (keys s)" using keys_sound [OF assms(1) that] by simp
next
  assume "get s b k \<noteq> None"
  then obtain x where "x \<in> set (keys s)" "cacheKey (lk_BackendID x) (lk_Bucket x) = cacheKey b k"
    using keys_complete assms(1) by blast
  then show "LimitKey b k \<in> set (keys s)"
    using keys_clean [OF assms(1)] cacheKey_inject [of "lk_BackendID x" b] assms(2) by (metis LimitKey.collapse)
qed

text \<open>So the list is determined by the lookups, whatever order the map was iterated in.\<close>

lemma keys_determined:
  assumes "inv s" "inv t" "get s = get t"
  shows "keys s = keys t"
proof -
  have "set (keys s) = set (keys t)"
    using keys_iff [OF assms(1)] keys_iff [OF assms(2)] keys_clean [OF assms(1)] keys_clean [OF assms(2)] assms(3)
    by (metis LimitKey.collapse subsetI subset_antisym)
  then show ?thesis using keys_sorted [OF assms(1)] keys_sorted [OF assms(2)] sorted_distinct_set_unique by blast
qed

end

lemma split_key_Some: "split_key k = Some x \<Longrightarrow> k = cacheKey (lk_BackendID x) (lk_Bucket x) \<and> CHR ''/'' \<notin> set (lk_BackendID x)"
  using IndexByte_SomeD IndexByte_Some_split
  by (fastforce simp: split_key_def indexOfSlash_def cacheKey_def Let_def split: option.splits if_splits)

lemma split_key_cacheKey: "\<exists>x. split_key (cacheKey b k) = Some x"
  by (auto simp: split_key_def indexOfSlash_def cacheKey_def Let_def split: option.splits)

lemma set_sorted_keys: "x \<in> set (sorted_keys c) \<longleftrightarrow> (\<exists>k v. (k, v) \<in> set c \<and> split_key k = Some x)"
  by (force simp: sorted_keys_def map_filter_def)

lemma sorted_keys_props:
  assumes "distinct (map fst c)"
  shows "sorted (sorted_keys c) \<and> distinct (sorted_keys c)"
proof -
  have "inj_on (the \<circ> split_key) {k. split_key k \<noteq> None}"
    by (rule inj_onI) (metis (mono_tags, lifting) comp_apply mem_Collect_eq option.collapse split_key_Some)
  then have "distinct (map (the \<circ> split_key) (filter (\<lambda>k. split_key k \<noteq> None) (map fst c)))"
    using assms by (auto simp: distinct_map intro: inj_on_subset)
  then show ?thesis by (simp add: sorted_keys_def map_filter_def comp_def)
qed

lemma sorted_keys_laws:
  shows "x \<in> set (sorted_keys c) \<Longrightarrow> map_of c (cacheKey (lk_BackendID x) (lk_Bucket x)) \<noteq> None"
    and "map_of c (cacheKey b k) \<noteq> None \<Longrightarrow> \<exists>x \<in> set (sorted_keys c). cacheKey (lk_BackendID x) (lk_Bucket x) = cacheKey b k"
    and "x \<in> set (sorted_keys c) \<Longrightarrow> CHR ''/'' \<notin> set (lk_BackendID x)"
proof -
  show "map_of c (cacheKey (lk_BackendID x) (lk_Bucket x)) \<noteq> None" if "x \<in> set (sorted_keys c)"
  proof -
    from that obtain k v where "(k, v) \<in> set c" "split_key k = Some x" by (auto simp: set_sorted_keys)
    then show ?thesis using split_key_Some [of k x] by (auto simp: map_of_eq_None_iff rev_image_eqI)
  qed
  show "\<exists>x \<in> set (sorted_keys c). cacheKey (lk_BackendID x) (lk_Bucket x) = cacheKey b k" if "map_of c (cacheKey b k) \<noteq> None"
    using that split_key_cacheKey split_key_Some map_of_SomeD by (metis not_None_eq set_sorted_keys)
  show "CHR ''/'' \<notin> set (lk_BackendID x)" if "x \<in> set (sorted_keys c)"
    using that split_key_Some by (auto simp: set_sorted_keys)
qed

interpretation sq: limit_source "\<lambda>s. distinct (map fst (sq_cache s))" SQLiteLimitSource_Get SQLiteLimitSource_List
  unfolding SQLiteLimitSource_Get_def SQLiteLimitSource_List_def
  by unfold_locales (rule sorted_keys_laws sorted_keys_props, assumption)+

interpretation k8: limit_source "\<lambda>s. distinct (map fst (k8_cache s))" KubernetesLimitSource_Get KubernetesLimitSource_List
  unfolding KubernetesLimitSource_Get_def KubernetesLimitSource_List_def
  by unfold_locales (rule sorted_keys_laws sorted_keys_props, assumption)+

text \<open>The merged view: the first source with an entry wins, and the listed keys are those of some source.\<close>

fun source_inv :: "LimitSource \<Rightarrow> bool" where
  "source_inv (SQLite s) = distinct (map fst (sq_cache s))"
| "source_inv (Kubernetes s) = distinct (map fst (k8_cache s))"

interpretation src: limit_source source_inv LimitSource_Get LimitSource_List
proof unfold_locales
  fix s x b k
  assume inv: "source_inv s"
  show "x \<in> set (LimitSource_List s) \<Longrightarrow> LimitSource_Get s (lk_BackendID x) (lk_Bucket x) \<noteq> None"
    using inv sq.keys_sound k8.keys_sound by (cases s) (auto simp del: not_None_eq)
  show "LimitSource_Get s b k \<noteq> None \<Longrightarrow> \<exists>x \<in> set (LimitSource_List s). cacheKey (lk_BackendID x) (lk_Bucket x) = cacheKey b k"
    using inv sq.keys_complete k8.keys_complete by (cases s) (auto simp del: not_None_eq)
  show "x \<in> set (LimitSource_List s) \<Longrightarrow> CHR ''/'' \<notin> set (lk_BackendID x)"
    using inv sq.keys_clean k8.keys_clean by (cases s) auto
  show "sorted (LimitSource_List s) \<and> distinct (LimitSource_List s)"
    using inv sq.keys_sorted k8.keys_sorted by (cases s) auto
qed

definition merged_inv :: "MergedLimitSource \<Rightarrow> bool" where
  "merged_inv m \<longleftrightarrow> list_all source_inv (ml_sources m)"

lemma merged_get_first:
  "fst (merged_get ss b k w m) = (case w of Some _ \<Rightarrow> w | None \<Rightarrow> first_some (map (\<lambda>s. LimitSource_Get s b k) ss))"
  by (induction ss b k w m rule: merged_get.induct) (auto split: option.splits)

lemma MergedLimitSource_Get_first:
  "fst (MergedLimitSource_Get b k m) = first_some (map (\<lambda>s. LimitSource_Get s b k) (ml_sources m))"
  by (simp add: MergedLimitSource_Get_def merged_get_first)

lemma merged_list_set:
  "x \<in> set (merged_list ks seen) \<Longrightarrow> x \<in> set ks \<and> cacheKey (lk_BackendID x) (lk_Bucket x) \<notin> set seen"
  by (induction ks seen rule: merged_list.induct) (auto simp: Let_def split: if_splits)

lemma merged_list_complete:
  "x \<in> set ks \<Longrightarrow> cacheKey (lk_BackendID x) (lk_Bucket x) \<notin> set seen \<Longrightarrow>
   \<exists>y \<in> set (merged_list ks seen). cacheKey (lk_BackendID y) (lk_Bucket y) = cacheKey (lk_BackendID x) (lk_Bucket x)"
proof (induction ks seen rule: merged_list.induct)
  case (2 k ks seen)
  then show ?case
    by (cases "cacheKey (lk_BackendID x) (lk_Bucket x) = cacheKey (lk_BackendID k) (lk_Bucket k)") (auto simp: Let_def)
qed simp

lemma merged_list_distinct: "distinct (merged_list ks seen)"
  by (induction ks seen rule: merged_list.induct) (auto simp: Let_def dest: merged_list_set)

interpretation mg: limit_source merged_inv "\<lambda>m b k. fst (MergedLimitSource_Get b k m)" MergedLimitSource_List
proof unfold_locales
  fix m x b k
  assume inv: "merged_inv m"
  have src: "s \<in> set (ml_sources m) \<Longrightarrow> source_inv s" for s using inv by (auto simp: merged_inv_def list_all_iff)
  show "fst (MergedLimitSource_Get (lk_BackendID x) (lk_Bucket x) m) \<noteq> None" if "x \<in> set (MergedLimitSource_List m)"
  proof -
    from that obtain s where "s \<in> set (ml_sources m)" "x \<in> set (LimitSource_List s)"
      by (auto simp: MergedLimitSource_List_def dest!: merged_list_set)
    then show ?thesis using src.keys_sound [OF src] unfolding MergedLimitSource_Get_first first_some_None by force
  qed
  show "\<exists>x \<in> set (MergedLimitSource_List m). cacheKey (lk_BackendID x) (lk_Bucket x) = cacheKey b k"
    if "fst (MergedLimitSource_Get b k m) \<noteq> None"
  proof -
    from that obtain s where s: "s \<in> set (ml_sources m)" "LimitSource_Get s b k \<noteq> None"
      by (auto simp: MergedLimitSource_Get_first first_some_None)
    then obtain y where "y \<in> set (LimitSource_List s)" "cacheKey (lk_BackendID y) (lk_Bucket y) = cacheKey b k"
      using src.keys_complete [OF src] by blast
    then show ?thesis using merged_list_complete [of y "concat (map LimitSource_List (ml_sources m))" "[]"] s(1)
      by (auto simp: MergedLimitSource_List_def)
  qed
  show "x \<in> set (MergedLimitSource_List m) \<Longrightarrow> CHR ''/'' \<notin> set (lk_BackendID x)"
    using src.keys_clean [OF src] by (auto simp: MergedLimitSource_List_def dest!: merged_list_set)
  show "sorted (MergedLimitSource_List m) \<and> distinct (MergedLimitSource_List m)"
    by (simp add: MergedLimitSource_List_def merged_list_distinct)
qed

lemma warnShadow_sources [simp]: "ml_sources (MergedLimitSource_warnShadow b k w l m) = ml_sources m"
  by (simp add: MergedLimitSource_warnShadow_def Let_def)

lemma merged_get_sources: "ml_sources (snd (merged_get ss b k w m)) = ml_sources m"
  by (induction ss b k w m rule: merged_get.induct) (auto split: option.splits)

lemma MergedLimitSource_Get_sources [simp]: "ml_sources (snd (MergedLimitSource_Get b k m)) = ml_sources m"
  by (simp add: MergedLimitSource_Get_def merged_get_sources)

text \<open>The log holds each collision once.\<close>

definition shadow_key :: "string \<times> string \<times> string \<times> string \<Rightarrow> string" where
  "shadow_key = (\<lambda>(b, k, w, l). cacheKey b k @ ''|'' @ w @ ''|'' @ l)"

definition log_inv :: "MergedLimitSource \<Rightarrow> bool" where
  "log_inv m \<longleftrightarrow> ml_shadowed m = rev (map shadow_key (ml_log m)) \<and> distinct (ml_shadowed m)"

lemma warnShadow_log: "log_inv m \<Longrightarrow> log_inv (MergedLimitSource_warnShadow b k w l m)"
  by (auto simp: log_inv_def MergedLimitSource_warnShadow_def shadow_key_def Let_def)

lemma merged_get_log: "log_inv m \<Longrightarrow> log_inv (snd (merged_get ss b k w m))"
  by (induction ss b k w m rule: merged_get.induct) (auto simp: warnShadow_log split: option.splits)

section \<open>Scans\<close>

lemma wrap64_wrap64_add [simp]: "wrap64 (wrap64 a + b) = wrap64 (a + b)"
  by (simp add: wrap64_def mod_simps algebra_simps)

lemma add_page_eq: "add_page sizes (wrap64 b, wrap64 c) = (wrap64 (b + sum_list sizes), wrap64 (c + int (length sizes)))"
  unfolding add_page_def
  by (induction sizes arbitrary: b c) (simp_all add: add.assoc)

text \<open>A complete listing: the pages a scan sees, from the first call to the last page.\<close>

inductive listing :: "ListObjects \<Rightarrow> string \<Rightarrow> nat \<Rightarrow> string \<Rightarrow> int list \<Rightarrow> bool" for lst bucket where
  last_page: "lst i bucket token = Inr res \<Longrightarrow> \<not> IsTruncated res \<or> NextContinuationToken res = [] \<Longrightarrow>
     listing lst bucket i token (page_sizes res)"
| next_page: "lst i bucket token = Inr res \<Longrightarrow> IsTruncated res \<Longrightarrow> NextContinuationToken res \<noteq> [] \<Longrightarrow>
     listing lst bucket (i + 1) (NextContinuationToken res) sizes \<Longrightarrow> listing lst bucket i token (page_sizes res @ sizes)"

lemma listing_scan_loop:
  "listing lst bucket i token sizes \<Longrightarrow>
   scan_loop lst bucket i token (wrap64 b, wrap64 c) = Some (Inr (wrap64 (b + sum_list sizes), wrap64 (c + int (length sizes))))"
  by (induction arbitrary: b c rule: listing.induct) (subst scan_loop.simps, simp add: add_page_eq algebra_simps)+

lemma scan_deadline_ends: "scan_deadline n reg b = Some lst \<Longrightarrow> \<exists>m. \<forall>tok. \<exists>e. lst m k tok = Inl e"
  by (auto simp: scan_deadline_def)

text \<open>A scan ends whenever some call answers without a further page: with an error or a last page.\<close>

lemma scan_loop_ends:
  assumes "\<And>tok. case lst n bucket tok of Inl _ \<Rightarrow> True | Inr res \<Rightarrow> \<not> IsTruncated res \<or> NextContinuationToken res = []"
    and "i \<le> n"
  shows "(\<exists>e. scan_loop lst bucket i token acc = Some (Inl e)) \<or> (\<exists>sizes. listing lst bucket i token sizes)"
  using assms(2)
proof (induction "n - i" arbitrary: i token acc)
  case 0
  then show ?case using assms(1) [of token] by (subst scan_loop.simps) (auto split: sum.splits intro: listing.intros)
next
  case (Suc d)
  show ?case
  proof (cases "lst i bucket token")
    case (Inl e)
    then show ?thesis by (subst scan_loop.simps) simp
  next
    case (Inr res)
    show ?thesis
    proof (cases "IsTruncated res \<and> NextContinuationToken res \<noteq> []")
      case True
      have step: "scan_loop lst bucket i token acc =
          scan_loop lst bucket (i + 1) (NextContinuationToken res) (add_page (page_sizes res) acc)"
        using True Inr by (subst scan_loop.simps) simp
      have "d = n - (i + 1)" "i + 1 \<le> n" using Suc.hyps(2) by simp_all
      from Suc.hyps(1) [OF this] show ?thesis unfolding step using next_page [of lst i bucket token res] Inr True by blast
    qed (use Inr in \<open>auto intro: last_page\<close>)
  qed
qed

lemma Scan_listing:
  assumes "reg b = Some lst" "listing lst k 0 [] sizes"
  shows "Scan reg now b k svc = Some (Inr \<lparr>Bytes = wrap64 (sum_list sizes), ObjectCount = wrap64 (int (length sizes)), ComputedAt = now\<rparr>,
    svc\<lparr>cache := AList.update (cacheKey b k) \<lparr>Bytes = wrap64 (sum_list sizes), ObjectCount = wrap64 (int (length sizes)), ComputedAt = now\<rparr> (cache svc),
        failedScans := AList.delete (cacheKey b k) (failedScans svc)\<rparr>)"
proof -
  have "wrap64 0 = 0" by (simp add: wrap64_def)
  then show ?thesis using listing_scan_loop [OF assms(2), of 0 0] assms(1) by (simp add: Scan_def Let_def)
qed

section \<open>Checked uploads\<close>

lemma Service_Get_upd [simp]: "Service_Get (svc\<lparr>Limits := m\<rparr>) b k = Service_Get svc b k"
  by (simp add: Service_Get_def)


text \<open>What an upload changes: nothing in the limits, and in the cache at most the entry of its bucket.\<close>

lemma Scan_frame:
  "Scan reg now b k svc = Some (r, svc') \<Longrightarrow> Limits svc' = Limits svc \<and> inlineScans svc' = inlineScans svc \<and>
     (case r of Inl _ \<Rightarrow> cache svc' = cache svc | Inr u \<Rightarrow> cache svc' = AList.update (cacheKey b k) u (cache svc))"
  by (auto simp: Scan_def Let_def split: option.splits sum.splits prod.splits)

lemma CheckUpload_frame:
  assumes "CheckUpload reg now b k add svc = Some (v, svc')"
  shows "ml_sources (Limits svc') = ml_sources (Limits svc)"
    and "ck \<noteq> cacheKey b k \<Longrightarrow> map_of (cache svc') ck = map_of (cache svc) ck"
    and "set (inlineScans svc') = set (inlineScans svc)"
proof -
  obtain lo m where g: "MergedLimitSource_Get b k (Limits svc) = (lo, m)" by fastforce
  have "ml_sources m = ml_sources (Limits svc)" using MergedLimitSource_Get_sources [of b k "Limits svc"] g by simp
  then show "ml_sources (Limits svc') = ml_sources (Limits svc)"
    and "ck \<noteq> cacheKey b k \<Longrightarrow> map_of (cache svc') ck = map_of (cache svc) ck"
    and "set (inlineScans svc') = set (inlineScans svc)"
    using assms
    by (auto simp: CheckUpload_def g Let_def beginInlineScan_def endInlineScan_def markSyncScanFailed_def update_conv'
        split: option.splits if_splits sum.splits prod.splits dest!: Scan_frame)
qed

lemma CheckUpload_verdict:
  assumes "CheckUpload reg now b k add svc = Some (v, svc')"
  shows "v \<noteq> None \<longleftrightarrow> (\<exists>l u. first_some (map (\<lambda>s. LimitSource_Get s b k) (ml_sources (Limits svc))) = Some l \<and>
     0 < HardBytes l \<and> Service_Get svc' b k = Some u \<and> HardBytes l < wrap64 (Bytes u + add))"
proof -
  obtain m where g: "MergedLimitSource_Get b k (Limits svc) = (first_some (map (\<lambda>s. LimitSource_Get s b k) (ml_sources (Limits svc))), m)"
    by (metis MergedLimitSource_Get_first prod.collapse)
  show ?thesis using assms
    by (auto simp: CheckUpload_def g Let_def beginInlineScan_def endInlineScan_def markSyncScanFailed_def update_conv'
        Service_Get_def quota_verdict_def split: option.splits if_splits sum.splits prod.splits dest!: Scan_frame)
qed

lemma LimitSource_Get_key: "cacheKey b k = cacheKey b' k' \<Longrightarrow> LimitSource_Get s b k = LimitSource_Get s b' k'"
  by (cases s) (simp_all add: SQLiteLimitSource_Get_def KubernetesLimitSource_Get_def)

text \<open>The uploads to one bucket, interleaved. An upload is admitted by a check of what it declares, is then in flight, and is
  recorded with what it stored, at most what it declared, or fails. At an admission at most \<open>B\<close> bytes of other uploads
  to the bucket are in flight; nothing that declares more than \<open>M\<close> bytes is stored. Between these steps the rest of the service may do anything that leaves
  the usage and the limit of the bucket alone. The last argument counts the bytes recorded.\<close>

definition flight_bytes :: "int \<Rightarrow> int list \<Rightarrow> int" where
  "flight_bytes M fl = sum_list (filter (\<lambda>add. add \<le> M) fl)"



lemma Limits_Recorded [simp]: "Limits (Recorded b k add svc) = Limits svc"
  by (simp add: Recorded_def split: option.splits)

lemma flight_bytes_Cons [simp]: "flight_bytes M (add # fl) = (if add \<le> M then add else 0) + flight_bytes M fl"
  by (simp add: flight_bytes_def)







section \<open>Properties\<close>


definition ex_limit :: Limit where
  "ex_limit = \<lparr>SoftBytes = 0, HardBytes = 100, UpdatedAt = 0, UpdatedBy = ''ops'', LSource = ''kubernetes''\<rparr>"

definition ex_service :: Service where
  "ex_service = (NewService (NewMergedLimitSource [Some (Kubernetes (snd (KubernetesLimitSource_Set ''b'' ''k'' ex_limit NewKubernetesLimitSource))), None]))
     \<lparr>cache := [(''b/k'', \<lparr>Bytes = 40, ObjectCount = 1, ComputedAt = 0\<rparr>)]\<rparr>"


lemma CheckUpload_returns:
  assumes "\<forall>lst. reg b = Some lst \<longrightarrow> (\<exists>n. \<forall>tok. \<exists>e. lst n k tok = Inl e)"
  shows "CheckUpload reg now b k add svc \<noteq> None"
proof -
  have scan: "Scan reg now b k s \<noteq> None" for s
  proof (cases "reg b")
    case (Some lst)
    with assms obtain n where n: "\<forall>tok. \<exists>e. lst n k tok = Inl e" by blast
    have "(\<exists>e. scan_loop lst k 0 [] (0, 0) = Some (Inl e)) \<or> (\<exists>sizes. listing lst k 0 [] sizes)"
    proof (rule scan_loop_ends [of lst n])
      fix tok
      from n obtain e where "lst n k tok = Inl e" by blast
      then show "case lst n k tok of Inl _ \<Rightarrow> True | Inr res \<Rightarrow> \<not> IsTruncated res \<or> NextContinuationToken res = []" by simp
    qed simp
    then show ?thesis using Some Scan_listing [of reg b lst k] by (auto simp: Scan_def)
  qed (simp add: Scan_def)
  obtain lo m where "MergedLimitSource_Get b k (Limits svc) = (lo, m)" by fastforce
  then show ?thesis
    by (auto simp: scan CheckUpload_def Let_def split: option.splits prod.splits sum.splits bool.splits)
qed

text \<open>C33: The upload check on every branch. When the inline scan's deadline makes the backend report an
  error at the latest, the check always returns; it refuses the upload exactly when a positive hard
  limit is configured, the usage is known after the call (cached or just scanned) and usage plus
  size, in \<^verbatim>\<open>int64\<close> arithmetic, is above the limit; it gives the inline-scan slot back and
  leaves the entries of other buckets alone.\<close>

theorem check_upload_exact:
  assumes "\<forall>lst. reg b = Some lst \<longrightarrow> (\<exists>n. \<forall>tok. \<exists>e. lst n k tok = Inl e)"
  shows "\<exists>v svc'. CheckUpload reg now b k add svc = Some (v, svc')
    \<and> (v \<noteq> None \<longleftrightarrow> (\<exists>l u. fst (MergedLimitSource_Get b k (Limits svc)) = Some l \<and> 0 < HardBytes l
          \<and> Service_Get svc' b k = Some u \<and> HardBytes l < wrap64 (Bytes u + add)))
    \<and> set (inlineScans svc') = set (inlineScans svc)
    \<and> (\<forall>ck. ck \<noteq> cacheKey b k \<longrightarrow> map_of (cache svc') ck = map_of (cache svc) ck)"
proof -
  obtain v svc' where c: "CheckUpload reg now b k add svc = Some (v, svc')" using CheckUpload_returns [of reg b k] assms by fastforce
  then show ?thesis using CheckUpload_frame(2,3) [OF c] CheckUpload_verdict [OF c] by (auto simp: MergedLimitSource_Get_first)
qed

theorem check_upload_exact_witness:
  "\<exists>v svc'. CheckUpload (\<lambda>_. Some (\<lambda>i _ _. if i = 0 then Inr \<lparr>page_sizes = [70], IsTruncated = False, NextContinuationToken = []\<rparr> else Inl ''deadline''))
       5 ''b'' ''k'' 40 (ex_service\<lparr>cache := []\<rparr>) = Some (v, svc')
    \<and> (v \<noteq> None \<longleftrightarrow> (\<exists>l u. fst (MergedLimitSource_Get ''b'' ''k'' (Limits (ex_service\<lparr>cache := []\<rparr>))) = Some l \<and> 0 < HardBytes l
          \<and> Service_Get svc' ''b'' ''k'' = Some u \<and> HardBytes l < wrap64 (Bytes u + 40)))
    \<and> inlineScans svc' = []"
  using check_upload_exact [of "\<lambda>_. Some (\<lambda>i _ _. if i = 0 then Inr \<lparr>page_sizes = [70], IsTruncated = False, NextContinuationToken = []\<rparr> else Inl ''deadline'')"
      "''b''" "''k''" 5 40 "ex_service\<lparr>cache := []\<rparr>"]
  by (force simp: ex_service_def NewService_def)

text \<open>C38: Limits from Kubernetes win. With the Kubernetes source in front of the table, a limit published
  by \<^verbatim>\<open>Set\<close> is what the merged view answers for its bucket, marked as coming from Kubernetes; after
  \<^verbatim>\<open>Delete\<close> the answer is the last row for the bucket in the table as it was last reloaded, and a
  failed reload changes nothing. The merged list is sorted, without duplicates, names exactly the
  buckets with a limit, and does not depend on the iteration order of the maps behind it; and no
  collision of two sources is logged twice.\<close>

theorem merged_limits:
  assumes "distinct (map fst (k8_cache ks))" "distinct (map fst (sq_cache sq))" "log_inv m"
    and "ml_sources m = [Kubernetes ks, SQLite sq]" "CHR ''/'' \<notin> set b"
  shows "(ks = snd (KubernetesLimitSource_Set b k l ks0) \<longrightarrow>
      fst (MergedLimitSource_Get b k m) = Some (l\<lparr>LSource := ''kubernetes''\<rparr>))
    \<and> (ks = snd (KubernetesLimitSource_Delete b k ks0) \<and> sq = snd (snd (SQLiteLimitSource_Reload (Inr rows) sq0)) \<longrightarrow>
      fst (MergedLimitSource_Get b k m) = map_of (rev (map (\<lambda>q. (cacheKey (bq_BackendID q) (bq_Bucket q), limit_of_row q)) rows)) (cacheKey b k))
    \<and> snd (snd (SQLiteLimitSource_Reload (Inl e) sq)) = sq
    \<and> (LimitKey b k \<in> set (MergedLimitSource_List m) \<longleftrightarrow> fst (MergedLimitSource_Get b k m) \<noteq> None)
    \<and> sorted (MergedLimitSource_List m) \<and> distinct (MergedLimitSource_List m)
    \<and> log_inv (snd (MergedLimitSource_Get b k m)) \<and> distinct (ml_log (snd (MergedLimitSource_Get b k m)))"
proof -
  have inv: "merged_inv m" using assms(1,2,4) by (simp add: merged_inv_def)
  have get: "fst (MergedLimitSource_Get b k m) = first_some [map_of (k8_cache ks) (cacheKey b k), map_of (sq_cache sq) (cacheKey b k)]"
    using assms(4) by (simp add: MergedLimitSource_Get_first KubernetesLimitSource_Get_def SQLiteLimitSource_Get_def)
  have 1: "ks = snd (KubernetesLimitSource_Set b k l ks0) \<Longrightarrow> fst (MergedLimitSource_Get b k m) = Some (l\<lparr>LSource := ''kubernetes''\<rparr>)"
    unfolding get by (simp add: KubernetesLimitSource_Set_def update_conv')
  have 2: "fst (MergedLimitSource_Get b k m) = map_of (rev (map (\<lambda>q. (cacheKey (bq_BackendID q) (bq_Bucket q), limit_of_row q)) rows)) (cacheKey b k)"
    if "ks = snd (KubernetesLimitSource_Delete b k ks0)" "sq = snd (snd (SQLiteLimitSource_Reload (Inr rows) sq0))"
  proof -
    have "map_of (k8_cache ks) (cacheKey b k) = None" using that(1) by (simp add: KubernetesLimitSource_Delete_def delete_conv')
    moreover have "map_of (sq_cache sq) (cacheKey b k) =
        map_of (rev (map (\<lambda>q. (cacheKey (bq_BackendID q) (bq_Bucket q), limit_of_row q)) rows)) (cacheKey b k)"
      using that(2) by (simp add: SQLiteLimitSource_Reload_def map_of_fold_update split: option.splits)
    ultimately show ?thesis unfolding get by (cases "map_of (sq_cache sq) (cacheKey b k)") auto
  qed
  have 3: "snd (snd (SQLiteLimitSource_Reload (Inl e) sq)) = sq" by (simp add: SQLiteLimitSource_Reload_def)
  have 4: "log_inv (snd (MergedLimitSource_Get b k m))" using merged_get_log [OF assms(3)] by (simp add: MergedLimitSource_Get_def)
  then have 5: "distinct (ml_log (snd (MergedLimitSource_Get b k m)))" by (auto simp: log_inv_def distinct_map)
  show ?thesis
    using 1 2 3 4 5 mg.keys_iff [OF inv assms(5)] mg.keys_sorted [OF inv] by blast
qed

theorem merged_limits_witness:
  "fst (MergedLimitSource_Get ''b'' ''k'' (NewMergedLimitSource [Some (Kubernetes (snd (KubernetesLimitSource_Set ''b'' ''k'' ex_limit NewKubernetesLimitSource))),
     Some (SQLite NewSQLiteLimitSource)])) = Some ex_limit"
  using merged_limits [of "snd (KubernetesLimitSource_Set ''b'' ''k'' ex_limit NewKubernetesLimitSource)" NewSQLiteLimitSource
      "NewMergedLimitSource [Some (Kubernetes (snd (KubernetesLimitSource_Set ''b'' ''k'' ex_limit NewKubernetesLimitSource))), Some (SQLite NewSQLiteLimitSource)]"
      "''b''" "''k''" ex_limit NewKubernetesLimitSource]
  by (simp add: ex_limit_def log_inv_def NewMergedLimitSource_def KubernetesLimitSource_Set_def NewKubernetesLimitSource_def NewSQLiteLimitSource_def)

section \<open>Summaries\<close>

text \<open>Insertion behind the elements that are at least as big.\<close>

fun insert_behind :: "BucketUsage \<Rightarrow> BucketUsage list \<Rightarrow> BucketUsage list" where
  "insert_behind x [] = [x]"
| "insert_behind x (y # ys) = (if bu_Bytes x \<le> bu_Bytes y then y # insert_behind x ys else x # y # ys)"

abbreviation desc :: "BucketUsage \<Rightarrow> int" where "desc b \<equiv> - bu_Bytes b"

lemma insert_behind_all: "(\<And>y. y \<in> set ys \<Longrightarrow> bu_Bytes x \<le> bu_Bytes y) \<Longrightarrow> insert_behind x ys = ys @ [x]"
  by (induction ys) auto

lemma insert_behind_snoc: "bu_Bytes x > bu_Bytes l \<Longrightarrow> insert_behind x (ys @ [l]) = insert_behind x ys @ [l]"
  by (induction ys) auto

lemma sink_insert:
  "sorted (map desc pre) \<Longrightarrow> sink (length pre) (pre @ x # suf) = insert_behind x pre @ suf"
proof (induction pre arbitrary: suf rule: rev_induct)
  case (snoc l pre)
  have sub: "sorted (map desc pre)" "\<And>y. y \<in> set pre \<Longrightarrow> bu_Bytes l \<le> bu_Bytes y" using snoc.prems by (auto simp: sorted_append)
  show ?case
  proof (cases "bu_Bytes x > bu_Bytes l")
    case True
    have "sink (length (pre @ [l])) ((pre @ [l]) @ x # suf) = sink (length pre) (pre @ x # l # suf)"
      using True by (simp add: nth_append list_update_append)
    then show ?thesis using snoc.IH [OF sub(1)] insert_behind_snoc [OF True] by simp
  next
    case False
    then have "insert_behind x (pre @ [l]) = (pre @ [l]) @ [x]" using sub(2) by (intro insert_behind_all) force
    then show ?thesis using False by (simp add: nth_append)
  qed
qed simp

lemma insort_behind: "sorted (map desc ys) \<Longrightarrow> insort_key desc y (insert_behind x ys) = insert_behind x (insort_key desc y ys)"
  by (induction ys) auto

lemma sort_key_snoc: "sort_key desc (ys @ [x]) = insert_behind x (sort_key desc ys)"
  by (induction ys) (simp_all add: insort_behind)

lemma fold_sink: "n \<le> length xs \<Longrightarrow> 0 < n \<Longrightarrow> fold sink [1..<n] xs = sort_key desc (take n xs) @ drop n xs"
proof (induction n)
  case (Suc n)
  show ?case
  proof (cases "n = 0")
    case True
    then show ?thesis using Suc.prems by (cases xs) simp_all
  next
    case False
    then have "fold sink [1..<Suc n] xs = sink n (sort_key desc (take n xs) @ drop n xs)" using Suc by simp
    also have "\<dots> = sink (length (sort_key desc (take n xs))) (sort_key desc (take n xs) @ xs ! n # drop (Suc n) xs)"
      using Suc.prems by (simp add: Cons_nth_drop_Suc min_def)
    also have "\<dots> = sort_key desc (take (Suc n) xs) @ drop (Suc n) xs"
      using Suc.prems by (subst sink_insert) (simp_all add: sort_key_snoc take_Suc_conv_app_nth)
    finally show ?thesis .
  qed
qed simp

lemma sort_usage_eq: "sort_usage xs = sort_key desc xs"
  using fold_sink [of "length xs" xs] by (cases xs) (auto simp: sort_usage_def)

lemma map_of_add_total1:
  "map_of (add_total r out) b =
     (if bu_BackendID r \<noteq> b then map_of out b
      else let row = (case map_of out b of None \<Rightarrow> \<lparr>bt_BackendID = b, bt_Bytes = 0, bt_Objects = 0, bt_Buckets = 0\<rparr> | Some r \<Rightarrow> r)
        in Some (row\<lparr>bt_Bytes := wrap64 (bt_Bytes row + bu_Bytes r),
             bt_Objects := wrap64 (bt_Objects row + bu_Objects r), bt_Buckets := wrap64 (bt_Buckets row + 1)\<rparr>))"
  by (cases "bu_BackendID r = b") (auto simp: add_total_def update_conv' Let_def)

lemma map_of_add_total:
  "map_of (fold add_total rows out) b =
     (let rs = filter (\<lambda>r. bu_BackendID r = b) rows;
          row = (case map_of out b of None \<Rightarrow> \<lparr>bt_BackendID = b, bt_Bytes = 0, bt_Objects = 0, bt_Buckets = 0\<rparr> | Some r \<Rightarrow> r)
      in if rs = [] then map_of out b
         else Some (row\<lparr>bt_Bytes := wrap64 (bt_Bytes row + sum_list (map bu_Bytes rs)),
              bt_Objects := wrap64 (bt_Objects row + sum_list (map bu_Objects rs)), bt_Buckets := wrap64 (bt_Buckets row + int (length rs))\<rparr>))"
proof (induction rows arbitrary: out)
  case (Cons r rows)
  show ?case by (cases "bu_BackendID r = b") (simp_all add: Cons map_of_add_total1 Let_def add.assoc)
qed simp

text \<open>The dashboard's summaries. The hand-written insertion sort is the stable descending sort, so
  \<^verbatim>\<open>TopBuckets\<close> returns the first \<open>n\<close> scanned buckets by size (all of them for \<open>n \<le> 0\<close>); the total
  of a backend adds up the sizes, object counts and number of its scanned buckets in \<^verbatim>\<open>int64\<close>
  arithmetic, and a backend without a scanned bucket has no row.\<close>

theorem usage_summaries:
  "TopBuckets n svc = (let rows = sort_key (\<lambda>b. - bu_Bytes b) (usage_rows (cache svc)) in if 0 < n then take (nat n) rows else rows)
   \<and> map_of (BackendTotals svc) b =
      (let rs = filter (\<lambda>r. bu_BackendID r = b) (usage_rows (cache svc))
       in if rs = [] then None
          else Some \<lparr>bt_BackendID = b, bt_Bytes = wrap64 (sum_list (map bu_Bytes rs)),
             bt_Objects = wrap64 (sum_list (map bu_Objects rs)), bt_Buckets = wrap64 (int (length rs))\<rparr>)"
  by (auto simp: TopBuckets_def sort_usage_eq BackendTotals_def map_of_add_total Let_def)

end
