(* ===== verification/Sources.thy ===== *)
theory Sources
  imports Cors Quotas Go_Json
begin

text \<open>
  Where credentials come from (\<^verbatim>\<open>internal/s3proxy\<close>): \<^verbatim>\<open>source_sqlite.go\<close> (the tables of the admin
  dashboard), \<^verbatim>\<open>source_kubernetes.go\<close> (Secrets seen by the informer, with the quota limits they carry)
  and \<^verbatim>\<open>source.go\<close> (the merged view). The interface the proxy uses is the locale \<open>credential_source\<close>.

  The rows of the database, the informer's events, the clock, the sealer that opens stored secrets
  and the float parser are arguments. Maps that are iterated over or counted are association lists.
\<close>

section \<open>Decoding\<close>

text \<open>\<^verbatim>\<open>json.Unmarshal\<close> into a slice, and into the two structs the sources store as JSON.\<close>

definition json_list :: "(json \<Rightarrow> 'a option) \<Rightarrow> json \<Rightarrow> 'a list option" where
  "json_list f j = (case j of JArr js \<Rightarrow> those (map f js) | JNull \<Rightarrow> Some [] | _ \<Rightarrow> None)"

fun decode_fields :: "(string \<Rightarrow> json \<Rightarrow> 'r \<Rightarrow> 'r option) \<Rightarrow> (string \<times> json) list \<Rightarrow> 'r \<Rightarrow> 'r option" where
  "decode_fields f [] r = Some r"
| "decode_fields f ((k, j) # rest) r =
     (if j = JNull then decode_fields f rest r
      else case f k j r of None \<Rightarrow> None | Some r' \<Rightarrow> decode_fields f rest r')"

definition json_struct :: "(string \<Rightarrow> json \<Rightarrow> 'r \<Rightarrow> 'r option) \<Rightarrow> 'r \<Rightarrow> json \<Rightarrow> 'r option" where
  "json_struct f zero j = (case j of JObj ms \<Rightarrow> decode_fields f ms zero | JNull \<Rightarrow> Some zero | _ \<Rightarrow> None)"

definition scope_field :: "string \<Rightarrow> json \<Rightarrow> BucketScope \<Rightarrow> BucketScope option" where
  "scope_field k j s =
     (if EqualFold k ''bucket'' then map_option (\<lambda>v. s\<lparr>bs_BucketName := v\<rparr>) (json_string j)
      else if EqualFold k ''backend'' then map_option (\<lambda>v. s\<lparr>bs_BackendName := v\<rparr>) (json_string j)
      else Some s)"

definition decode_scopes :: "string \<Rightarrow> BucketScope list option" where
  "decode_scopes raw = Option.bind (json_parse raw) (json_list (json_struct scope_field \<lparr>bs_BucketName = [], bs_BackendName = []\<rparr>))"

definition rule_field :: "string \<Rightarrow> json \<Rightarrow> BucketCORSRule \<Rightarrow> BucketCORSRule option" where
  "rule_field k j ru =
     (if EqualFold k ''allowed_origins'' then map_option (\<lambda>v. ru\<lparr>AllowedOrigins := v\<rparr>) (json_list json_string j)
      else if EqualFold k ''allowed_methods'' then map_option (\<lambda>v. ru\<lparr>AllowedMethods := v\<rparr>) (json_list json_string j)
      else if EqualFold k ''allowed_headers'' then map_option (\<lambda>v. ru\<lparr>AllowedHeaders := v\<rparr>) (json_list json_string j)
      else if EqualFold k ''expose_headers'' then map_option (\<lambda>v. ru\<lparr>ExposeHeaders := v\<rparr>) (json_list json_string j)
      else if EqualFold k ''max_age_seconds'' then map_option (\<lambda>v. ru\<lparr>MaxAgeSeconds := v\<rparr>) (json_int64 j)
      else Some ru)"

definition decode_rules :: "string \<Rightarrow> BucketCORSRule list option" where
  "decode_rules raw = Option.bind (json_parse raw) (json_list (json_struct rule_field
     \<lparr>AllowedOrigins = [], AllowedMethods = [], AllowedHeaders = [], ExposeHeaders = [], MaxAgeSeconds = 0\<rparr>))"

section \<open>The dashboard's tables\<close>

record S3Credential =
  c_AccessKey :: string
  c_SecretKeyEnc :: string
  c_BackendID :: string
  c_Buckets :: string
  c_UserID :: "string option"
  c_Enabled :: bool
  c_ExpiresAt :: "time option"

definition UnmarshalBuckets :: "S3Credential \<Rightarrow> string list option" where
  "UnmarshalBuckets c = (if c_Buckets c = [] then Some [] else Option.bind (json_parse (c_Buckets c)) (json_list json_string))"

record S3AnonymousBinding =
  an_BackendID :: string
  an_Bucket :: string
  an_Mode :: string
  an_PerSourceIPRPS :: int

record S3BucketCORS =
  co_BackendID :: string
  co_Bucket :: string
  co_Rules :: string
  co_CreatedAt :: time
  co_UpdatedAt :: time

record SQLiteSource =
  ss_byAKID :: "(string \<times> VirtualCredential) list"
  ss_byBucket :: "(string \<times> AnonymousBinding) list"
  ss_byBucketCORS :: "(string \<times> BucketCORSRule list) list"
  ss_onReload :: bool

definition NewSQLiteSource :: SQLiteSource where
  "NewSQLiteSource = \<lparr>ss_byAKID = [], ss_byBucket = [], ss_byBucketCORS = [], ss_onReload = False\<rparr>"

text \<open>The lookups are the same in both sources, on their three maps.\<close>

definition lookup_credential :: "(string \<times> VirtualCredential) list \<Rightarrow> time \<Rightarrow> string \<Rightarrow> VirtualCredential option" where
  "lookup_credential byAKID now akid =
     (case map_of byAKID akid of
        None \<Rightarrow> None
      | Some vc \<Rightarrow> (case vc_ExpiresAt vc of
          Some t \<Rightarrow> if time_After now t then None else Some vc
        | None \<Rightarrow> Some vc))"

definition lookup_anon :: "(string \<times> AnonymousBinding) list \<Rightarrow> string \<Rightarrow> AnonymousBinding option" where
  "lookup_anon byBucket bucket = (if bucket = [] then None else map_of byBucket (ToLower bucket))"

definition lookup_cors :: "(string \<times> BucketCORSRule list) list \<Rightarrow> string \<Rightarrow> BucketCORSRule list option" where
  "lookup_cors byBucketCORS bucket =
     (if bucket = [] then None
      else case map_of byBucketCORS (ToLower bucket) of
        None \<Rightarrow> None | Some rules \<Rightarrow> if rules = [] then None else Some rules)"

definition SQLiteSource_Lookup :: "SQLiteSource \<Rightarrow> time \<Rightarrow> string \<Rightarrow> VirtualCredential option" where
  "SQLiteSource_Lookup s = lookup_credential (ss_byAKID s)"

definition SQLiteSource_LookupAnon :: "SQLiteSource \<Rightarrow> string \<Rightarrow> AnonymousBinding option" where
  "SQLiteSource_LookupAnon s = lookup_anon (ss_byBucket s)"

definition SQLiteSource_LookupCORS :: "SQLiteSource \<Rightarrow> string \<Rightarrow> BucketCORSRule list option" where
  "SQLiteSource_LookupCORS s = lookup_cors (ss_byBucketCORS s)"

definition SQLiteSource_Size :: "SQLiteSource \<Rightarrow> int" where
  "SQLiteSource_Size s = int (length (ss_byAKID s))"

datatype reload_err = NoSealer | ListCredentials string | ListAnonymous string | ListCORS string

text \<open>One row of \<^verbatim>\<open>s3_credentials\<close>: skipped when disabled, expired, sealed with another key or malformed.\<close>

definition row_credential :: "(string \<Rightarrow> string option) \<Rightarrow> time \<Rightarrow> S3Credential \<Rightarrow> VirtualCredential option" where
  "row_credential unseal now c =
     (if \<not> c_Enabled c then None
      else if (case c_ExpiresAt c of Some t \<Rightarrow> time_After now t | None \<Rightarrow> False) then None
      else case unseal (c_SecretKeyEnc c) of
        None \<Rightarrow> None
      | Some secret \<Rightarrow> (case UnmarshalBuckets c of
          None \<Rightarrow> None
        | Some buckets \<Rightarrow>
            Some \<lparr>vc_AccessKeyID = c_AccessKey c, vc_SecretAccessKey = secret,
              vc_BucketScopes = map (\<lambda>b. \<lparr>bs_BucketName = b, bs_BackendName = c_BackendID c\<rparr>) buckets,
              vc_BackendName = c_BackendID c, vc_ExpiresAt = c_ExpiresAt c,
              vc_UserID = (case c_UserID c of None \<Rightarrow> [] | Some u \<Rightarrow> u),
              vc_ClaimNamespace = [], vc_ClaimName = [], vc_Source = ''sqlite''\<rparr>))"

definition load_credentials :: "(string \<Rightarrow> string option) \<Rightarrow> time \<Rightarrow> S3Credential list \<Rightarrow> (string \<times> VirtualCredential) list" where
  "load_credentials unseal now rows =
     fold (\<lambda>c m. case row_credential unseal now c of None \<Rightarrow> m | Some vc \<Rightarrow> AList.update (c_AccessKey c) vc m) rows []"

definition row_binding :: "S3AnonymousBinding \<Rightarrow> AnonymousBinding" where
  "row_binding b = \<lparr>ab_BackendName = an_BackendID b, ab_BucketName = an_Bucket b, ab_Mode = an_Mode b,
     ab_PerSourceIPRPS = of_int (an_PerSourceIPRPS b), ab_Source = ''sqlite''\<rparr>"

definition load_bindings :: "S3AnonymousBinding list \<Rightarrow> (string \<times> AnonymousBinding) list" where
  "load_bindings rows = fold (\<lambda>b. AList.update (ToLower (an_Bucket b)) (row_binding b)) rows []"

definition load_cors :: "S3BucketCORS list \<Rightarrow> (string \<times> BucketCORSRule list) list" where
  "load_cors rows = fold (\<lambda>row m. case decode_rules (co_Rules row) of
       None \<Rightarrow> m
     | Some rules \<Rightarrow> if rules = [] then m
         else AList.update (ToLower (co_Bucket row)) (lookup_or [] m (ToLower (co_Bucket row)) @ rules) m) rows []"

text \<open>\<^verbatim>\<open>Reload\<close>: an error leaves the source as it was; a successful one swaps all three maps and calls
  the registered callback (the second component), which drops the cached signing keys.\<close>

definition SQLiteSource_Reload ::
  "(string \<Rightarrow> string option) option \<Rightarrow> time \<Rightarrow> string + S3Credential list \<Rightarrow> string + S3AnonymousBinding list \<Rightarrow>
   string + S3BucketCORS list \<Rightarrow> SQLiteSource \<Rightarrow> reload_err option \<times> bool \<times> SQLiteSource" where
  "SQLiteSource_Reload sealer now creds bindings corsRows s =
     (case sealer of None \<Rightarrow> (Some NoSealer, False, s)
      | Some unseal \<Rightarrow> (case creds of Inl e \<Rightarrow> (Some (ListCredentials e), False, s)
      | Inr cs \<Rightarrow> (case bindings of Inl e \<Rightarrow> (Some (ListAnonymous e), False, s)
      | Inr bs \<Rightarrow> (case corsRows of Inl e \<Rightarrow> (Some (ListCORS e), False, s)
      | Inr rs \<Rightarrow> (None, ss_onReload s,
          s\<lparr>ss_byAKID := load_credentials unseal now cs, ss_byBucket := load_bindings bs, ss_byBucketCORS := load_cors rs\<rparr>)))))"

section \<open>Kubernetes Secrets\<close>

definition k8sLabelRole :: string where "k8sLabelRole = ''broker.stowage.io/role''"
definition k8sLabelClaimNS :: string where "k8sLabelClaimNS = ''broker.stowage.io/claim-namespace''"
definition k8sLabelClaimName :: string where "k8sLabelClaimName = ''broker.stowage.io/claim-name''"
definition k8sLabelBucket :: string where "k8sLabelBucket = ''broker.stowage.io/bucket''"
definition k8sAnnotationExpiresAt :: string where "k8sAnnotationExpiresAt = ''broker.stowage.io/expires-at''"

record Secret =
  sec_Labels :: "(string \<times> string) list"
  sec_Annotations :: "(string \<times> string) list"
  sec_Data :: "(string \<times> string) list"

abbreviation label_of :: "Secret \<Rightarrow> string \<Rightarrow> string" where "label_of sec k \<equiv> lookup_or [] (sec_Labels sec) k"
abbreviation data_of :: "Secret \<Rightarrow> string \<Rightarrow> string" where "data_of sec k \<equiv> lookup_or [] (sec_Data sec) k"

record KubernetesSource =
  ks_byAKID :: "(string \<times> VirtualCredential) list"
  ks_byBucket :: "(string \<times> AnonymousBinding) list"
  ks_byBucketCORS :: "(string \<times> BucketCORSRule list) list"
  ks_limits :: "KubernetesLimitSource option"

definition NewKubernetesSource :: "KubernetesLimitSource option \<Rightarrow> KubernetesSource" where
  "NewKubernetesSource obs = \<lparr>ks_byAKID = [], ks_byBucket = [], ks_byBucketCORS = [], ks_limits = obs\<rparr>"

definition KubernetesSource_Lookup :: "KubernetesSource \<Rightarrow> time \<Rightarrow> string \<Rightarrow> VirtualCredential option" where
  "KubernetesSource_Lookup s = lookup_credential (ks_byAKID s)"

definition KubernetesSource_LookupAnon :: "KubernetesSource \<Rightarrow> string \<Rightarrow> AnonymousBinding option" where
  "KubernetesSource_LookupAnon s = lookup_anon (ks_byBucket s)"

definition KubernetesSource_LookupCORS :: "KubernetesSource \<Rightarrow> string \<Rightarrow> BucketCORSRule list option" where
  "KubernetesSource_LookupCORS s = lookup_cors (ks_byBucketCORS s)"

definition KubernetesSource_Size :: "KubernetesSource \<Rightarrow> int" where
  "KubernetesSource_Size s = int (length (ks_byAKID s))"

definition SnapshotCredentials :: "KubernetesSource \<Rightarrow> VirtualCredential list" where
  "SnapshotCredentials s = map (\<lambda>(k, vc). vc\<lparr>vc_SecretAccessKey := []\<rparr>) (ks_byAKID s)"

definition SnapshotAnonymousBindings :: "KubernetesSource \<Rightarrow> AnonymousBinding list" where
  "SnapshotAnonymousBindings s = map snd (ks_byBucket s)"

definition secretToVirtualCredential :: "Secret \<Rightarrow> VirtualCredential option" where
  "secretToVirtualCredential sec =
     (let akid = data_of sec ''access_key_id''; sk = data_of sec ''secret_access_key'';
          primary = data_of sec ''bucket_name''; backend = data_of sec ''backend''
      in if akid = [] \<or> sk = [] \<or> backend = [] then None
         else let raw = data_of sec ''bucket_scopes'';
                  scopes0 = (if raw = [] then [] else case decode_scopes raw of None \<Rightarrow> [] | Some ss \<Rightarrow> ss);
                  scopes = (if scopes0 = [] \<and> primary \<noteq> [] then [\<lparr>bs_BucketName = primary, bs_BackendName = backend\<rparr>] else scopes0);
                  expi = lookup_or [] (sec_Annotations sec) k8sAnnotationExpiresAt
              in Some \<lparr>vc_AccessKeyID = akid, vc_SecretAccessKey = sk, vc_BucketScopes = scopes, vc_BackendName = backend,
                   vc_ExpiresAt = (if expi = [] then None else parse_iso expi), vc_UserID = [],
                   vc_ClaimNamespace = label_of sec k8sLabelClaimNS, vc_ClaimName = label_of sec k8sLabelClaimName,
                   vc_Source = ''kubernetes''\<rparr>)"

definition secretToBucketCORS :: "Secret \<Rightarrow> (string \<times> BucketCORSRule list) option" where
  "secretToBucketCORS sec =
     (let bucket0 = data_of sec ''bucket_name''; bucket = (if bucket0 = [] then label_of sec k8sLabelBucket else bucket0)
      in if bucket = [] then None
         else case decode_rules (data_of sec ''cors_rules'') of
           None \<Rightarrow> None
         | Some rules \<Rightarrow>
             if rules = [] \<or> list_ex (\<lambda>ru. AllowedOrigins ru = [] \<or> AllowedMethods ru = []) rules then None
             else Some (ToLower bucket, rules))"

definition secretToAnonymousBinding :: "(string \<Rightarrow> rat option) \<Rightarrow> Secret \<Rightarrow> AnonymousBinding option" where
  "secretToAnonymousBinding parseFloat sec =
     (let bucket = data_of sec ''bucket_name''; backend = data_of sec ''backend''; mode = data_of sec ''anonymous_mode'';
          raw = data_of sec ''anonymous_per_source_ip_rps''
      in if bucket = [] \<or> backend = [] \<or> mode = [] then None
         else Some \<lparr>ab_BackendName = backend, ab_BucketName = bucket, ab_Mode = mode,
            ab_PerSourceIPRPS = (if raw = [] then 0 else case parseFloat raw of None \<Rightarrow> 0 | Some n \<Rightarrow> n),
            ab_Source = ''kubernetes''\<rparr>)"

definition parseInt64Bytes :: "string \<Rightarrow> int" where
  "parseInt64Bytes raw = (if raw = [] then 0 else case ParseInt 10 raw of None \<Rightarrow> 0 | Some n \<Rightarrow> if n < 0 then 0 else n)"

text \<open>The observer of \<^verbatim>\<open>internal/server\<close> publishes into the quota service's Kubernetes limit source.\<close>

definition SetLimit :: "string \<Rightarrow> string \<Rightarrow> int \<Rightarrow> int \<Rightarrow> KubernetesLimitSource \<Rightarrow> KubernetesLimitSource" where
  "SetLimit backendID bucket soft hard src =
     snd (KubernetesLimitSource_Set backendID bucket \<lparr>SoftBytes = soft, HardBytes = hard, UpdatedAt = 0, UpdatedBy = [], LSource = []\<rparr> src)"

definition DeleteLimit :: "string \<Rightarrow> string \<Rightarrow> KubernetesLimitSource \<Rightarrow> KubernetesLimitSource" where
  "DeleteLimit backendID bucket src = snd (KubernetesLimitSource_Delete backendID bucket src)"

definition publishQuota :: "Secret \<Rightarrow> VirtualCredential \<Rightarrow> KubernetesSource \<Rightarrow> KubernetesSource" where
  "publishQuota sec vc s =
     (let soft = parseInt64Bytes (data_of sec ''quota_soft_bytes''); hard = parseInt64Bytes (data_of sec ''quota_hard_bytes'')
      in s\<lparr>ks_limits := map_option (fold (\<lambda>scope obs.
            if soft = 0 \<and> hard = 0 then DeleteLimit (bs_BackendName scope) (bs_BucketName scope) obs
            else SetLimit (bs_BackendName scope) (bs_BucketName scope) soft hard obs) (vc_BucketScopes vc)) (ks_limits s)\<rparr>)"

text \<open>The objects an informer hands to its handlers: a Secret, a tombstone that may hold one, or
  anything else.\<close>

datatype informer_obj = SecretObj Secret | Tombstone "Secret option" | OtherObj

definition upsert :: "(string \<Rightarrow> rat option) \<Rightarrow> informer_obj \<Rightarrow> KubernetesSource \<Rightarrow> KubernetesSource" where
  "upsert parseFloat obj s = (case obj of
     SecretObj sec \<Rightarrow>
       (let role = label_of sec k8sLabelRole
        in if role = ''virtual-credential'' then
             (case secretToVirtualCredential sec of None \<Rightarrow> s
              | Some vc \<Rightarrow> publishQuota sec vc (s\<lparr>ks_byAKID := AList.update (vc_AccessKeyID vc) vc (ks_byAKID s)\<rparr>))
           else if role = ''anonymous-binding'' then
             (case secretToAnonymousBinding parseFloat sec of None \<Rightarrow> s
              | Some a \<Rightarrow> s\<lparr>ks_byBucket := AList.update (ToLower (ab_BucketName a)) a (ks_byBucket s)\<rparr>)
           else if role = ''bucket-cors'' then
             (case secretToBucketCORS sec of None \<Rightarrow> s
              | Some (bucket, rules) \<Rightarrow> s\<lparr>ks_byBucketCORS := AList.update bucket rules (ks_byBucketCORS s)\<rparr>)
           else s)
   | _ \<Rightarrow> s)"

definition deleted_bucket :: "Secret \<Rightarrow> string" where
  "deleted_bucket sec = (if label_of sec k8sLabelBucket = [] then data_of sec ''bucket_name'' else label_of sec k8sLabelBucket)"

definition delete_secret :: "Secret \<Rightarrow> KubernetesSource \<Rightarrow> KubernetesSource" where
  "delete_secret sec s =
     (let role = label_of sec k8sLabelRole
      in if role = ''virtual-credential'' then
           (let v = data_of sec ''access_key_id''; akid = (if v \<noteq> [] then v else label_of sec k8sLabelBucket)
            in if akid = [] then s
               else let scopes = (case map_of (ks_byAKID s) akid of None \<Rightarrow> [] | Some vc \<Rightarrow> vc_BucketScopes vc)
                    in s\<lparr>ks_byAKID := AList.delete akid (ks_byAKID s),
                        ks_limits := map_option (fold (\<lambda>scope. DeleteLimit (bs_BackendName scope) (bs_BucketName scope)) scopes) (ks_limits s)\<rparr>)
         else if role = ''anonymous-binding'' then
           (if deleted_bucket sec = [] then s
            else s\<lparr>ks_byBucket := AList.delete (ToLower (deleted_bucket sec)) (ks_byBucket s)\<rparr>)
         else if role = ''bucket-cors'' then
           (if deleted_bucket sec = [] then s
            else s\<lparr>ks_byBucketCORS := AList.delete (ToLower (deleted_bucket sec)) (ks_byBucketCORS s)\<rparr>)
         else s)"

definition handleDelete :: "informer_obj \<Rightarrow> KubernetesSource \<Rightarrow> KubernetesSource" where
  "handleDelete obj s = (case obj of
     SecretObj sec \<Rightarrow> delete_secret sec s
   | Tombstone (Some sec) \<Rightarrow> delete_secret sec s
   | _ \<Rightarrow> s)"

section \<open>The merged source\<close>

datatype Source = SqliteSrc SQLiteSource | K8sSrc KubernetesSource

fun Source_Lookup :: "Source \<Rightarrow> time \<Rightarrow> string \<Rightarrow> VirtualCredential option" where
  "Source_Lookup (SqliteSrc s) = SQLiteSource_Lookup s"
| "Source_Lookup (K8sSrc s) = KubernetesSource_Lookup s"

fun Source_LookupAnon :: "Source \<Rightarrow> string \<Rightarrow> AnonymousBinding option" where
  "Source_LookupAnon (SqliteSrc s) = SQLiteSource_LookupAnon s"
| "Source_LookupAnon (K8sSrc s) = KubernetesSource_LookupAnon s"

fun Source_LookupCORS :: "Source \<Rightarrow> string \<Rightarrow> BucketCORSRule list option" where
  "Source_LookupCORS (SqliteSrc s) = SQLiteSource_LookupCORS s"
| "Source_LookupCORS (K8sSrc s) = KubernetesSource_LookupCORS s"

fun Source_Size :: "Source \<Rightarrow> int" where
  "Source_Size (SqliteSrc s) = SQLiteSource_Size s"
| "Source_Size (K8sSrc s) = KubernetesSource_Size s"

record MergedSource =
  ms_sources :: "Source list"
  ms_logging :: bool
  ms_shadowed :: "string list"
  ms_log :: "(string \<times> string \<times> string) list"

definition NewMergedSource :: "bool \<Rightarrow> Source option list \<Rightarrow> MergedSource" where
  "NewMergedSource logging sources =
     \<lparr>ms_sources = concat (map (\<lambda>s. case s of None \<Rightarrow> [] | Some x \<Rightarrow> [x]) sources), ms_logging = logging, ms_shadowed = [], ms_log = []\<rparr>"

definition MergedSource_warnShadow :: "string \<Rightarrow> string \<Rightarrow> string \<Rightarrow> MergedSource \<Rightarrow> MergedSource" where
  "MergedSource_warnShadow akid winner loser m =
     (if \<not> ms_logging m \<or> akid \<in> set (ms_shadowed m) then m
      else m\<lparr>ms_shadowed := akid # ms_shadowed m, ms_log := ms_log m @ [(akid, winner, loser)]\<rparr>)"

fun merged_lookup ::
  "Source list \<Rightarrow> time \<Rightarrow> string \<Rightarrow> VirtualCredential option \<Rightarrow> MergedSource \<Rightarrow> VirtualCredential option \<times> MergedSource" where
  "merged_lookup [] now akid winner m = (winner, m)"
| "merged_lookup (s # ss) now akid winner m =
     (case Source_Lookup s now akid of
        None \<Rightarrow> merged_lookup ss now akid winner m
      | Some vc \<Rightarrow> (case winner of
          None \<Rightarrow> if ss = [] then (Some vc, m) else merged_lookup ss now akid (Some vc) m
        | Some w \<Rightarrow> merged_lookup ss now akid winner (MergedSource_warnShadow akid (vc_Source w) (vc_Source vc) m)))"

definition MergedSource_Lookup :: "time \<Rightarrow> string \<Rightarrow> MergedSource \<Rightarrow> VirtualCredential option \<times> MergedSource" where
  "MergedSource_Lookup now akid m = merged_lookup (ms_sources m) now akid None m"

definition MergedSource_LookupAnon :: "MergedSource \<Rightarrow> string \<Rightarrow> AnonymousBinding option" where
  "MergedSource_LookupAnon m bucket = first_some (map (\<lambda>s. Source_LookupAnon s bucket) (ms_sources m))"

definition MergedSource_LookupCORS :: "MergedSource \<Rightarrow> string \<Rightarrow> BucketCORSRule list option" where
  "MergedSource_LookupCORS m bucket =
     (let out = concat (map (\<lambda>s. case Source_LookupCORS s bucket of None \<Rightarrow> [] | Some rules \<Rightarrow> rules) (ms_sources m))
      in if out = [] then None else Some out)"

definition MergedSource_Size :: "MergedSource \<Rightarrow> int" where
  "MergedSource_Size m = sum_list (map Source_Size (ms_sources m))"

section \<open>The interface of credential sources\<close>

text \<open>What the proxy relies on: a credential found under an access key is the one of that key and has
  not expired; a key that has stopped resolving does not resolve later without a change of the
  source; an anonymous binding found for a bucket is for that bucket, and buckets are compared
  without regard to case.\<close>

locale credential_source =
  fixes inv :: "'s \<Rightarrow> bool"
    and lookup :: "'s \<Rightarrow> time \<Rightarrow> string \<Rightarrow> VirtualCredential option"
    and anon :: "'s \<Rightarrow> string \<Rightarrow> AnonymousBinding option"
  assumes lookup_key: "inv s \<Longrightarrow> lookup s now akid = Some vc \<Longrightarrow> vc_AccessKeyID vc = akid"
    and lookup_fresh: "lookup s now akid = Some vc \<Longrightarrow> vc_ExpiresAt vc = Some t \<Longrightarrow> now \<le> t"
    and lookup_expired: "lookup s now akid = None \<Longrightarrow> now \<le> now' \<Longrightarrow> lookup s now' akid = None"
    and anon_bucket: "inv s \<Longrightarrow> anon s bucket = Some b \<Longrightarrow> bucket \<noteq> [] \<and> NoCase (ab_BucketName b) bucket"
    and anon_fold: "NoCase bucket bucket' \<Longrightarrow> anon s bucket = anon s bucket'"

context credential_source
begin

text \<open>Resolving is antitone in time: what resolves now resolved before.\<close>

lemma lookup_earlier: "lookup s now akid \<noteq> None \<Longrightarrow> now0 \<le> now \<Longrightarrow> lookup s now0 akid \<noteq> None"
  using lookup_expired [of s now0 akid now] by (cases "lookup s now0 akid") auto

lemma anon_same_bucket:
  "inv s \<Longrightarrow> anon s bucket = Some b \<Longrightarrow> anon s (ab_BucketName b) = Some b"
  using anon_bucket [of s bucket b] anon_fold [of "ab_BucketName b" bucket s] by simp

end

definition keyed_credentials :: "(string \<times> VirtualCredential) list \<Rightarrow> bool" where
  "keyed_credentials m \<longleftrightarrow> (\<forall>(k, vc) \<in> set m. vc_AccessKeyID vc = k)"

definition keyed_bindings :: "(string \<times> AnonymousBinding) list \<Rightarrow> bool" where
  "keyed_bindings m \<longleftrightarrow> (\<forall>(k, b) \<in> set m. k = ToLower (ab_BucketName b))"

lemma lookup_credential_Some:
  "lookup_credential m now akid = Some vc \<longleftrightarrow> map_of m akid = Some vc \<and> (\<forall>t. vc_ExpiresAt vc = Some t \<longrightarrow> now \<le> t)"
  by (auto simp: lookup_credential_def time_After_def split: option.splits)

lemma lookup_credential_None:
  "lookup_credential m now akid = None \<longleftrightarrow> (\<forall>vc. map_of m akid = Some vc \<longrightarrow> (\<exists>t. vc_ExpiresAt vc = Some t \<and> t < now))"
  by (auto simp: lookup_credential_def time_After_def split: option.splits)

lemma lookup_laws:
  shows "keyed_credentials m \<Longrightarrow> lookup_credential m now akid = Some vc \<Longrightarrow> vc_AccessKeyID vc = akid"
    and "lookup_credential m now akid = Some vc \<Longrightarrow> vc_ExpiresAt vc = Some t \<Longrightarrow> now \<le> t"
    and "lookup_credential m now akid = None \<Longrightarrow> now \<le> now' \<Longrightarrow> lookup_credential m now' akid = None"
    and "keyed_bindings bm \<Longrightarrow> lookup_anon bm bucket = Some b \<Longrightarrow> bucket \<noteq> [] \<and> NoCase (ab_BucketName b) bucket"
    and "NoCase bucket bucket' \<Longrightarrow> lookup_anon bm bucket = lookup_anon bm bucket'"
proof -
  show "keyed_credentials m \<Longrightarrow> lookup_credential m now akid = Some vc \<Longrightarrow> vc_AccessKeyID vc = akid"
    by (auto simp: lookup_credential_Some keyed_credentials_def dest: map_of_SomeD)
  show "lookup_credential m now akid = Some vc \<Longrightarrow> vc_ExpiresAt vc = Some t \<Longrightarrow> now \<le> t"
    by (simp add: lookup_credential_Some)
  show "lookup_credential m now akid = None \<Longrightarrow> now \<le> now' \<Longrightarrow> lookup_credential m now' akid = None"
    unfolding lookup_credential_None by (meson less_le_trans)
  show "keyed_bindings bm \<Longrightarrow> lookup_anon bm bucket = Some b \<Longrightarrow> bucket \<noteq> [] \<and> NoCase (ab_BucketName b) bucket"
    by (fastforce simp: lookup_anon_def keyed_bindings_def NoCase_def split: if_splits dest: map_of_SomeD)
  show "NoCase bucket bucket' \<Longrightarrow> lookup_anon bm bucket = lookup_anon bm bucket'"
    by (auto simp: lookup_anon_def NoCase_def ToLower_def)
qed

lemma first_some_map: "first_some (map f xs) = Some a \<Longrightarrow> \<exists>x \<in> set xs. f x = Some a"
  using first_some_mem [of "map f xs" a] by auto

interpretation sqls: credential_source "\<lambda>s. keyed_credentials (ss_byAKID s) \<and> keyed_bindings (ss_byBucket s)" SQLiteSource_Lookup SQLiteSource_LookupAnon
  unfolding SQLiteSource_Lookup_def SQLiteSource_LookupAnon_def
  by (unfold_locales, use lookup_laws(1) in blast, use lookup_laws(2) in blast, use lookup_laws(3) in blast,
      use lookup_laws(4) in blast, use lookup_laws(5) in blast)

interpretation k8ss: credential_source "\<lambda>s. keyed_credentials (ks_byAKID s) \<and> keyed_bindings (ks_byBucket s)" KubernetesSource_Lookup KubernetesSource_LookupAnon
  unfolding KubernetesSource_Lookup_def KubernetesSource_LookupAnon_def
  by (unfold_locales, use lookup_laws(1) in blast, use lookup_laws(2) in blast, use lookup_laws(3) in blast,
      use lookup_laws(4) in blast, use lookup_laws(5) in blast)

fun keyed_source :: "Source \<Rightarrow> bool" where
  "keyed_source (SqliteSrc s) \<longleftrightarrow> keyed_credentials (ss_byAKID s) \<and> keyed_bindings (ss_byBucket s)"
| "keyed_source (K8sSrc s) \<longleftrightarrow> keyed_credentials (ks_byAKID s) \<and> keyed_bindings (ks_byBucket s)"

interpretation srcs: credential_source keyed_source Source_Lookup Source_LookupAnon
proof unfold_locales
  fix s now now' akid vc t bucket bucket' b
  show "keyed_source s \<Longrightarrow> Source_Lookup s now akid = Some vc \<Longrightarrow> vc_AccessKeyID vc = akid"
    using sqls.lookup_key k8ss.lookup_key by (cases s) auto
  show "Source_Lookup s now akid = Some vc \<Longrightarrow> vc_ExpiresAt vc = Some t \<Longrightarrow> now \<le> t"
    using sqls.lookup_fresh k8ss.lookup_fresh by (cases s) auto
  show "Source_Lookup s now akid = None \<Longrightarrow> now \<le> now' \<Longrightarrow> Source_Lookup s now' akid = None"
    using sqls.lookup_expired k8ss.lookup_expired by (cases s) auto
  show "keyed_source s \<Longrightarrow> Source_LookupAnon s bucket = Some b \<Longrightarrow> bucket \<noteq> [] \<and> NoCase (ab_BucketName b) bucket"
    using sqls.anon_bucket k8ss.anon_bucket by (cases s) auto
  show "NoCase bucket bucket' \<Longrightarrow> Source_LookupAnon s bucket = Source_LookupAnon s bucket'"
    using sqls.anon_fold k8ss.anon_fold by (cases s) auto
qed

lemma merged_lookup_first:
  "fst (merged_lookup ss now akid w m) = (case w of Some _ \<Rightarrow> w | None \<Rightarrow> first_some (map (\<lambda>s. Source_Lookup s now akid) ss))"
  by (induction ss now akid w m rule: merged_lookup.induct) (auto split: option.splits)

lemma MergedSource_Lookup_first:
  "fst (MergedSource_Lookup now akid m) = first_some (map (\<lambda>s. Source_Lookup s now akid) (ms_sources m))"
  by (simp add: MergedSource_Lookup_def merged_lookup_first)

lemma warnShadow_ms_sources [simp]: "ms_sources (MergedSource_warnShadow akid w l m) = ms_sources m"
  by (simp add: MergedSource_warnShadow_def)

lemma merged_lookup_sources: "ms_sources (snd (merged_lookup ss now akid w m)) = ms_sources m"
  by (induction ss now akid w m rule: merged_lookup.induct) (auto split: option.splits)

lemma MergedSource_Lookup_sources [simp]: "ms_sources (snd (MergedSource_Lookup now akid m)) = ms_sources m"
  by (simp add: MergedSource_Lookup_def merged_lookup_sources)

definition keyed :: "MergedSource \<Rightarrow> bool" where
  "keyed m \<longleftrightarrow> list_all keyed_source (ms_sources m)"

interpretation merged: credential_source keyed "\<lambda>m now akid. fst (MergedSource_Lookup now akid m)" MergedSource_LookupAnon
proof unfold_locales
  fix m now now' akid vc t bucket bucket' b
  have src: "keyed m \<Longrightarrow> s \<in> set (ms_sources m) \<Longrightarrow> keyed_source s" for s by (auto simp: keyed_def list_all_iff)
  show "vc_AccessKeyID vc = akid" if "keyed m" "fst (MergedSource_Lookup now akid m) = Some vc"
  proof -
    from that(2) obtain s where "s \<in> set (ms_sources m)" "Source_Lookup s now akid = Some vc"
      by (auto simp: MergedSource_Lookup_first dest!: first_some_map)
    then show ?thesis using srcs.lookup_key src that(1) by blast
  qed
  show "now \<le> t" if "fst (MergedSource_Lookup now akid m) = Some vc" "vc_ExpiresAt vc = Some t"
    using that srcs.lookup_fresh by (auto simp: MergedSource_Lookup_first dest!: first_some_map)
  show "fst (MergedSource_Lookup now' akid m) = None" if "fst (MergedSource_Lookup now akid m) = None" "now \<le> now'"
    using that srcs.lookup_expired by (auto simp: MergedSource_Lookup_first first_some_None)
  show "bucket \<noteq> [] \<and> NoCase (ab_BucketName b) bucket" if "keyed m" "MergedSource_LookupAnon m bucket = Some b"
  proof -
    from that(2) obtain s where "s \<in> set (ms_sources m)" "Source_LookupAnon s bucket = Some b"
      by (auto simp: MergedSource_LookupAnon_def dest!: first_some_map)
    then show ?thesis using srcs.anon_bucket src that(1) by blast
  qed
  show "MergedSource_LookupAnon m bucket = MergedSource_LookupAnon m bucket'" if "NoCase bucket bucket'"
    using srcs.anon_fold [OF that] by (simp add: MergedSource_LookupAnon_def)
qed

section \<open>The sources over time\<close>

text \<open>The states of the two sources: the start, a reload of the tables, and the informer's events.\<close>

inductive sources_reach :: "KubernetesSource \<Rightarrow> SQLiteSource \<Rightarrow> bool" where
  init: "sources_reach (NewKubernetesSource obs) NewSQLiteSource"
| reload: "sources_reach k s \<Longrightarrow> sources_reach k (snd (snd (SQLiteSource_Reload sealer now cs bs rs s)))"
| added: "sources_reach k s \<Longrightarrow> sources_reach (upsert parseFloat obj k) s"
| deleted: "sources_reach k s \<Longrightarrow> sources_reach (handleDelete obj k) s"

lemma set_update_subset: "set (AList.update k v m) \<subseteq> insert (k, v) (set m)"
  by (induction m) auto

lemma set_delete_subset: "set (AList.delete k m) \<subseteq> set m"
  by (auto simp: AList.delete_eq)

lemma keyed_update [simp]:
  "keyed_credentials m \<Longrightarrow> vc_AccessKeyID vc = k \<Longrightarrow> keyed_credentials (AList.update k vc m)"
  "keyed_bindings bm \<Longrightarrow> k = ToLower (ab_BucketName b) \<Longrightarrow> keyed_bindings (AList.update k b bm)"
  unfolding keyed_credentials_def keyed_bindings_def using set_update_subset by fastforce+

lemma keyed_delete [simp]:
  "keyed_credentials m \<Longrightarrow> keyed_credentials (AList.delete k m)"
  "keyed_bindings bm \<Longrightarrow> keyed_bindings (AList.delete k bm)"
  unfolding keyed_credentials_def keyed_bindings_def using set_delete_subset by fastforce+

lemma row_credential_key: "row_credential unseal now c = Some vc \<Longrightarrow> vc_AccessKeyID vc = c_AccessKey c \<and> vc_Source vc = ''sqlite''"
  by (auto simp: row_credential_def split: if_splits option.splits)

lemma keyed_load:
  "keyed_credentials m \<Longrightarrow> keyed_credentials (fold (\<lambda>c m. case row_credential unseal now c of None \<Rightarrow> m | Some vc \<Rightarrow> AList.update (c_AccessKey c) vc m) rows m)"
  by (induction rows arbitrary: m) (auto simp: row_credential_key split: option.splits)

lemma keyed_load_bindings:
  "keyed_bindings bm \<Longrightarrow> keyed_bindings (fold (\<lambda>b. AList.update (ToLower (an_Bucket b)) (row_binding b)) rows bm)"
  by (induction rows arbitrary: bm) (auto simp: row_binding_def)

lemma keyed_Nil [simp]: "keyed_credentials []" "keyed_bindings []"
  by (simp_all add: keyed_credentials_def keyed_bindings_def)

lemma publishQuota_frame [simp]:
  "ks_byAKID (publishQuota sec vc s) = ks_byAKID s" "ks_byBucket (publishQuota sec vc s) = ks_byBucket s" "ks_byBucketCORS (publishQuota sec vc s) = ks_byBucketCORS s"
  by (simp_all add: publishQuota_def Let_def)

lemma delete_secret_keyed: "keyed_source (K8sSrc k) \<Longrightarrow> keyed_source (K8sSrc (delete_secret sec k))"
  by (auto simp: delete_secret_def Let_def)

text \<open>Every reachable pair of sources satisfies the laws of the interface, and each source marks its
  credentials as its own.\<close>

definition marked :: "string \<Rightarrow> (string \<times> VirtualCredential) list \<Rightarrow> bool" where
  "marked src m \<longleftrightarrow> (\<forall>(k, vc) \<in> set m. vc_Source vc = src)"

lemma marked_update: "marked src m \<Longrightarrow> vc_Source vc = src \<Longrightarrow> marked src (AList.update k vc m)"
  unfolding marked_def using set_update_subset [of k vc m] by fastforce

lemma marked_delete: "marked src m \<Longrightarrow> marked src (AList.delete k m)"
  unfolding marked_def using set_delete_subset [of k m] by fastforce

lemma marked_load:
  "marked ''sqlite'' m \<Longrightarrow> marked ''sqlite'' (fold (\<lambda>c m. case row_credential unseal now c of None \<Rightarrow> m | Some vc \<Rightarrow> AList.update (c_AccessKey c) vc m) rows m)"
  by (induction rows arbitrary: m) (auto simp: row_credential_key marked_update split: option.splits)

lemma secret_source: "secretToVirtualCredential sec = Some vc \<Longrightarrow> vc_Source vc = ''kubernetes''"
  by (auto simp: secretToVirtualCredential_def Let_def split: if_splits)

lemma upsert_inv:
  assumes "keyed_source (K8sSrc k)" "marked ''kubernetes'' (ks_byAKID k)"
  shows "keyed_source (K8sSrc (upsert pf obj k)) \<and> marked ''kubernetes'' (ks_byAKID (upsert pf obj k))"
  using assms by (auto simp: upsert_def Let_def marked_update secret_source split: informer_obj.splits option.splits)

lemma handleDelete_inv:
  assumes "keyed_source (K8sSrc k)" "marked ''kubernetes'' (ks_byAKID k)"
  shows "keyed_source (K8sSrc (handleDelete obj k)) \<and> marked ''kubernetes'' (ks_byAKID (handleDelete obj k))"
  using assms
  by (auto simp: handleDelete_def delete_secret_def Let_def marked_delete split: informer_obj.splits option.splits)

lemma sources_reach_inv:
  "sources_reach k s \<Longrightarrow> keyed_source (K8sSrc k) \<and> keyed_source (SqliteSrc s) \<and>
     marked ''kubernetes'' (ks_byAKID k) \<and> marked ''sqlite'' (ss_byAKID s)"
proof (induction rule: sources_reach.induct)
  case (init obs)
  then show ?case by (simp add: NewKubernetesSource_def NewSQLiteSource_def marked_def)
next
  case (reload k s sealer now cs bs rs)
  have "marked ''sqlite'' []" by (simp add: marked_def)
  then show ?case using reload.IH
    by (auto simp: SQLiteSource_Reload_def load_credentials_def load_bindings_def keyed_load keyed_load_bindings marked_load
        split: option.splits sum.splits)
qed (use upsert_inv handleDelete_inv in blast)+

section \<open>Properties\<close>

text \<open>C5: Only live credentials resolve, and Kubernetes wins. In every state the two sources can reach by
  reloads and informer events, a credential the merged source returns is stored under the requested
  access key and has not expired; it comes from the Kubernetes source, or from the table and then
  the Kubernetes source has no live credential for the key. An anonymous binding returned for a
  bucket names that bucket up to case.\<close>

theorem resolved_credentials:
  assumes "sources_reach k s" "ms_sources m = [K8sSrc k, SqliteSrc s]"
  shows "(fst (MergedSource_Lookup now akid m) = Some vc \<longrightarrow>
      vc_AccessKeyID vc = akid \<and> (\<forall>t. vc_ExpiresAt vc = Some t \<longrightarrow> now \<le> t) \<and>
      (vc_Source vc = ''kubernetes'' \<and> KubernetesSource_Lookup k now akid = Some vc \<or>
       vc_Source vc = ''sqlite'' \<and> KubernetesSource_Lookup k now akid = None \<and> SQLiteSource_Lookup s now akid = Some vc))
    \<and> (MergedSource_LookupAnon m bucket = Some b \<longrightarrow> bucket \<noteq> [] \<and> NoCase (ab_BucketName b) bucket)"
proof (intro conjI impI)
  have inv: "keyed m" "marked ''kubernetes'' (ks_byAKID k)" "marked ''sqlite'' (ss_byAKID s)"
    using sources_reach_inv [OF assms(1)] assms(2) by (simp_all add: keyed_def)
  have mk: "marked src c \<Longrightarrow> lookup_credential c now akid = Some vc \<Longrightarrow> vc_Source vc = src" for src c
    by (auto simp: marked_def lookup_credential_Some dest: map_of_SomeD)
  show "vc_AccessKeyID vc = akid" "\<forall>t. vc_ExpiresAt vc = Some t \<longrightarrow> now \<le> t"
    "vc_Source vc = ''kubernetes'' \<and> KubernetesSource_Lookup k now akid = Some vc \<or>
      vc_Source vc = ''sqlite'' \<and> KubernetesSource_Lookup k now akid = None \<and> SQLiteSource_Lookup s now akid = Some vc"
    if l: "fst (MergedSource_Lookup now akid m) = Some vc"
  proof -
    show "vc_AccessKeyID vc = akid" "\<forall>t. vc_ExpiresAt vc = Some t \<longrightarrow> now \<le> t"
      using merged.lookup_key [OF inv(1) l] merged.lookup_fresh [OF l] by simp_all
    have "first_some [KubernetesSource_Lookup k now akid, SQLiteSource_Lookup s now akid] = Some vc"
      using l assms(2) by (simp add: MergedSource_Lookup_first)
    then show "vc_Source vc = ''kubernetes'' \<and> KubernetesSource_Lookup k now akid = Some vc \<or>
        vc_Source vc = ''sqlite'' \<and> KubernetesSource_Lookup k now akid = None \<and> SQLiteSource_Lookup s now akid = Some vc"
      using mk inv(2,3) by (cases "KubernetesSource_Lookup k now akid") (auto simp: KubernetesSource_Lookup_def SQLiteSource_Lookup_def)
  qed
  show "bucket \<noteq> []" "NoCase (ab_BucketName b) bucket" if "MergedSource_LookupAnon m bucket = Some b"
    using merged.anon_bucket [OF inv(1) that] by simp_all
qed

definition ex_secret :: Secret where
  "ex_secret = \<lparr>sec_Labels = [(k8sLabelRole, ''virtual-credential'')], sec_Annotations = [(k8sAnnotationExpiresAt, ''2030-01-01T00:00:00Z'')],
     sec_Data = [(''access_key_id'', ''AK''), (''secret_access_key'', ''s''), (''bucket_name'', ''data''), (''backend'', ''b1''),
       (''quota_hard_bytes'', ''1000'')]\<rparr>"

definition ex_k8s :: KubernetesSource where
  "ex_k8s = upsert (\<lambda>_. None) (SecretObj ex_secret) (NewKubernetesSource (Some NewKubernetesLimitSource))"

definition ex_merged :: MergedSource where
  "ex_merged = NewMergedSource True [Some (K8sSrc ex_k8s), Some (SqliteSrc NewSQLiteSource)]"

lemma ex_sources_reach: "sources_reach ex_k8s NewSQLiteSource"
  unfolding ex_k8s_def by (intro sources_reach.intros)

theorem resolved_credentials_witness:
  "\<exists>vc. fst (MergedSource_Lookup 0 ''AK'' ex_merged) = Some vc \<and> vc_AccessKeyID vc = ''AK'' \<and>
     (vc_Source vc = ''kubernetes'' \<and> KubernetesSource_Lookup ex_k8s 0 ''AK'' = Some vc \<or>
      vc_Source vc = ''sqlite'' \<and> KubernetesSource_Lookup ex_k8s 0 ''AK'' = None \<and> SQLiteSource_Lookup NewSQLiteSource 0 ''AK'' = Some vc)"
proof -
  have "fst (MergedSource_Lookup 0 ''AK'' ex_merged) \<noteq> None" by code_simp
  then obtain vc where "fst (MergedSource_Lookup 0 ''AK'' ex_merged) = Some vc" by blast
  then show ?thesis using resolved_credentials [OF ex_sources_reach, of ex_merged 0 "''AK''" vc]
    by (simp add: ex_merged_def NewMergedSource_def)
qed

lemma map_of_load:
  "distinct (map c_AccessKey rows) \<Longrightarrow> (\<forall>c \<in> set rows. map_of m (c_AccessKey c) = None) \<Longrightarrow>
   map_of (fold (\<lambda>c m. case row_credential unseal now c of None \<Rightarrow> m | Some vc \<Rightarrow> AList.update (c_AccessKey c) vc m) rows m) akid = Some vc
   \<longleftrightarrow> map_of m akid = Some vc \<or> (\<exists>c \<in> set rows. c_AccessKey c = akid \<and> row_credential unseal now c = Some vc)"
proof (induction rows arbitrary: m)
  case (Cons c rows)
  show ?case
  proof (cases "row_credential unseal now c")
    case None
    then show ?thesis using Cons by auto
  next
    case (Some v)
    have "\<forall>c' \<in> set rows. map_of (AList.update (c_AccessKey c) v m) (c_AccessKey c') = None"
      using Cons.prems by (auto simp: update_conv' image_iff)
    with Cons.IH [of "AList.update (c_AccessKey c) v m"] Cons.prems Some show ?thesis
      by (auto simp: update_conv')
  qed
qed simp

text \<open>C23: What a reload makes of the table. After a successful reload an access key resolves exactly when
  the table has an enabled row for it that had not expired at the reload and has not expired since,
  whose secret the sealer opens and whose bucket list parses; the credential has the row's secret,
  backend and buckets. A failed reload keeps the previous credentials, and the callback that drops
  cached signing keys runs only after a successful one.\<close>

theorem reloaded_credentials:
  assumes "distinct (map c_AccessKey rows)"
    and "SQLiteSource_Reload (Some unseal) now (Inr rows) (Inr bs) (Inr rs) s = (e, fired, s')"
  shows "e = None \<and> fired = ss_onReload s
    \<and> (SQLiteSource_Lookup s' later akid = Some vc \<longleftrightarrow>
      (\<exists>c \<in> set rows. c_AccessKey c = akid \<and> c_Enabled c \<and> (\<forall>t. c_ExpiresAt c = Some t \<longrightarrow> now \<le> t \<and> later \<le> t) \<and>
         (\<exists>secret buckets. unseal (c_SecretKeyEnc c) = Some secret \<and> UnmarshalBuckets c = Some buckets \<and>
            vc = \<lparr>vc_AccessKeyID = akid, vc_SecretAccessKey = secret,
              vc_BucketScopes = map (\<lambda>b. \<lparr>bs_BucketName = b, bs_BackendName = c_BackendID c\<rparr>) buckets,
              vc_BackendName = c_BackendID c, vc_ExpiresAt = c_ExpiresAt c,
              vc_UserID = (case c_UserID c of None \<Rightarrow> [] | Some u \<Rightarrow> u), vc_ClaimNamespace = [], vc_ClaimName = [], vc_Source = ''sqlite''\<rparr>)))
    \<and> (fst (SQLiteSource_Reload sealer now cs bs' rs' s) \<noteq> None \<longrightarrow> snd (SQLiteSource_Reload sealer now cs bs' rs' s) = (False, s))"
proof (intro conjI impI)
  show "e = None" "fired = ss_onReload s" using assms(2) by (auto simp: SQLiteSource_Reload_def)
  have row: "row_credential unseal now c = Some vc \<longleftrightarrow> c_Enabled c \<and> (\<forall>t. c_ExpiresAt c = Some t \<longrightarrow> now \<le> t) \<and>
      (\<exists>secret buckets. unseal (c_SecretKeyEnc c) = Some secret \<and> UnmarshalBuckets c = Some buckets \<and>
            vc = \<lparr>vc_AccessKeyID = c_AccessKey c, vc_SecretAccessKey = secret,
              vc_BucketScopes = map (\<lambda>b. \<lparr>bs_BucketName = b, bs_BackendName = c_BackendID c\<rparr>) buckets,
              vc_BackendName = c_BackendID c, vc_ExpiresAt = c_ExpiresAt c,
              vc_UserID = (case c_UserID c of None \<Rightarrow> [] | Some u \<Rightarrow> u), vc_ClaimNamespace = [], vc_ClaimName = [], vc_Source = ''sqlite''\<rparr>)" for c
    by (auto simp: row_credential_def time_After_def split: option.splits if_splits)
  have "ss_byAKID s' = load_credentials unseal now rows" using assms(2) by (auto simp: SQLiteSource_Reload_def)
  then have look: "SQLiteSource_Lookup s' later akid = Some vc \<longleftrightarrow>
      (\<exists>c \<in> set rows. c_AccessKey c = akid \<and> row_credential unseal now c = Some vc) \<and> (\<forall>t. vc_ExpiresAt vc = Some t \<longrightarrow> later \<le> t)"
    using map_of_load [OF assms(1), of "[]" unseal now akid vc]
    by (simp add: SQLiteSource_Lookup_def lookup_credential_Some load_credentials_def)
  show "SQLiteSource_Lookup s' later akid = Some vc \<longleftrightarrow>
      (\<exists>c \<in> set rows. c_AccessKey c = akid \<and> c_Enabled c \<and> (\<forall>t. c_ExpiresAt c = Some t \<longrightarrow> now \<le> t \<and> later \<le> t) \<and>
         (\<exists>secret buckets. unseal (c_SecretKeyEnc c) = Some secret \<and> UnmarshalBuckets c = Some buckets \<and>
            vc = \<lparr>vc_AccessKeyID = akid, vc_SecretAccessKey = secret,
              vc_BucketScopes = map (\<lambda>b. \<lparr>bs_BucketName = b, bs_BackendName = c_BackendID c\<rparr>) buckets,
              vc_BackendName = c_BackendID c, vc_ExpiresAt = c_ExpiresAt c,
              vc_UserID = (case c_UserID c of None \<Rightarrow> [] | Some u \<Rightarrow> u), vc_ClaimNamespace = [], vc_ClaimName = [], vc_Source = ''sqlite''\<rparr>))"
    unfolding look row by fastforce
  show "snd (SQLiteSource_Reload sealer now cs bs' rs' s) = (False, s)" if "fst (SQLiteSource_Reload sealer now cs bs' rs' s) \<noteq> None"
    using that by (auto simp: SQLiteSource_Reload_def split: option.splits sum.splits)
qed

theorem reloaded_credentials_witness:
  "\<exists>vc. SQLiteSource_Lookup (snd (snd (SQLiteSource_Reload (Some Some) 5
      (Inr [\<lparr>c_AccessKey = ''AK'', c_SecretKeyEnc = ''s'', c_BackendID = ''b1'', c_Buckets = [CHR 0x5B, CHR 0x22, CHR ''x'', CHR 0x22, CHR 0x5D], c_UserID = None, c_Enabled = True, c_ExpiresAt = Some 9\<rparr>,
            \<lparr>c_AccessKey = ''OFF'', c_SecretKeyEnc = ''s'', c_BackendID = ''b1'', c_Buckets = [], c_UserID = None, c_Enabled = False, c_ExpiresAt = None\<rparr>])
      (Inr []) (Inr []) NewSQLiteSource))) 8 ''AK'' = Some vc \<and> vc_BucketScopes vc = [\<lparr>bs_BucketName = ''x'', bs_BackendName = ''b1''\<rparr>]"
proof -
  let ?c = "\<lparr>c_AccessKey = ''AK'', c_SecretKeyEnc = ''s'', c_BackendID = ''b1'', c_Buckets = [CHR 0x5B, CHR 0x22, CHR ''x'', CHR 0x22, CHR 0x5D], c_UserID = None, c_Enabled = True, c_ExpiresAt = Some 9\<rparr>"
  let ?d = "\<lparr>c_AccessKey = ''OFF'', c_SecretKeyEnc = ''s'', c_BackendID = ''b1'', c_Buckets = [], c_UserID = None, c_Enabled = False, c_ExpiresAt = None\<rparr>"
  let ?r = "SQLiteSource_Reload (Some Some) 5 (Inr [?c, ?d]) (Inr []) (Inr []) NewSQLiteSource"
  have b: "UnmarshalBuckets ?c = Some [''x'']" by code_simp
  have "?r = (fst ?r, fst (snd ?r), snd (snd ?r))" by simp
  from reloaded_credentials [of "[?c, ?d]", OF _ this, of 8 "''AK''"] b show ?thesis by simp
qed

lemma map_of_SetLimit:
  "map_of (k8_cache (SetLimit b k soft hard src)) = (map_of (k8_cache src))(cacheKey b k \<mapsto>
     \<lparr>SoftBytes = soft, HardBytes = hard, UpdatedAt = 0, UpdatedBy = [], LSource = ''kubernetes''\<rparr>)"
  by (simp add: SetLimit_def KubernetesLimitSource_Set_def update_conv')

lemma map_of_DeleteLimit: "map_of (k8_cache (DeleteLimit b k src)) = (map_of (k8_cache src))(cacheKey b k := None)"
  by (simp add: DeleteLimit_def KubernetesLimitSource_Delete_def delete_conv')

abbreviation scope_key :: "BucketScope \<Rightarrow> string" where "scope_key sc \<equiv> cacheKey (bs_BackendName sc) (bs_BucketName sc)"

lemma fold_SetLimit:
  "map_of (k8_cache (fold (\<lambda>sc. SetLimit (bs_BackendName sc) (bs_BucketName sc) soft hard) scs obs)) ck =
     (if ck \<in> scope_key ` set scs then Some \<lparr>SoftBytes = soft, HardBytes = hard, UpdatedAt = 0, UpdatedBy = [], LSource = ''kubernetes''\<rparr>
      else map_of (k8_cache obs) ck)"
  by (induction scs arbitrary: obs) (auto simp: map_of_SetLimit)

lemma fold_DeleteLimit:
  "map_of (k8_cache (fold (\<lambda>sc. DeleteLimit (bs_BackendName sc) (bs_BucketName sc)) scs obs)) ck =
     (if ck \<in> scope_key ` set scs then None else map_of (k8_cache obs) ck)"
  by (induction scs arbitrary: obs) (auto simp: map_of_DeleteLimit)

lemma secret_key: "secretToVirtualCredential sec = Some vc \<Longrightarrow> vc_AccessKeyID vc = data_of sec ''access_key_id'' \<and> vc_AccessKeyID vc \<noteq> []"
  by (auto simp: secretToVirtualCredential_def Let_def split: if_splits)

text \<open>The limit the observer holds for a bucket; the buckets a credential names, by cache key.\<close>

definition limit_at :: "KubernetesSource \<Rightarrow> string \<Rightarrow> string \<Rightarrow> Limit option" where
  "limit_at k b bkt = (case ks_limits k of None \<Rightarrow> None | Some obs \<Rightarrow> KubernetesLimitSource_Get obs b bkt)"

lemma limit_at_publishQuota:
  assumes "ks_limits s \<noteq> None"
  shows "limit_at (publishQuota sec vc s) b bkt =
    (if cacheKey b bkt \<in> scope_key ` set (vc_BucketScopes vc)
     then (if parseInt64Bytes (data_of sec ''quota_soft_bytes'') = 0 \<and> parseInt64Bytes (data_of sec ''quota_hard_bytes'') = 0 then None
           else Some \<lparr>SoftBytes = parseInt64Bytes (data_of sec ''quota_soft_bytes''), HardBytes = parseInt64Bytes (data_of sec ''quota_hard_bytes''),
             UpdatedAt = 0, UpdatedBy = [], LSource = ''kubernetes''\<rparr>)
     else limit_at s b bkt)"
  using assms by (auto simp: limit_at_def publishQuota_def Let_def KubernetesLimitSource_Get_def fold_SetLimit fold_DeleteLimit split: option.splits)

lemma delete_credential:
  assumes "label_of sec k8sLabelRole = ''virtual-credential''" "secretToVirtualCredential sec = Some vc"
    and "obj = SecretObj sec \<or> obj = Tombstone (Some sec)" "map_of (ks_byAKID k) (vc_AccessKeyID vc) = Some held"
  shows "handleDelete obj k = k\<lparr>ks_byAKID := AList.delete (vc_AccessKeyID vc) (ks_byAKID k),
      ks_limits := map_option (fold (\<lambda>sc. DeleteLimit (bs_BackendName sc) (bs_BucketName sc)) (vc_BucketScopes held)) (ks_limits k)\<rparr>"
  using assms secret_key [OF assms(2)] by (auto simp: handleDelete_def delete_secret_def Let_def)

text \<open>C39: Informer events, exactly. A valid credential Secret that is added or updated is found under its access
  key, and the limit of each bucket it names becomes its quota, or none when it carries none; other keys and the limits of other
  buckets stay. When it is deleted, directly or by a tombstone, its key is no longer found, and the limits of
  the buckets of the credential held for that key are dropped; other keys and the limits of other buckets stay. Bindings and CORS rules are never touched.\<close>

theorem informer_events:
  assumes "label_of sec k8sLabelRole = ''virtual-credential''" "secretToVirtualCredential sec = Some vc"
    and "ks_limits k \<noteq> None" "k1 = upsert pf (SecretObj sec) k"
    and "ks_limits k2 \<noteq> None" "map_of (ks_byAKID k2) (vc_AccessKeyID vc) = Some held"
    and "obj = SecretObj sec \<or> obj = Tombstone (Some sec)" "k3 = handleDelete obj k2"
  shows "map_of (ks_byAKID k1) = (map_of (ks_byAKID k))(vc_AccessKeyID vc \<mapsto> vc)
    \<and> (\<forall>b bkt. limit_at k1 b bkt =
         (if cacheKey b bkt \<in> scope_key ` set (vc_BucketScopes vc)
          then (if parseInt64Bytes (data_of sec ''quota_soft_bytes'') = 0 \<and> parseInt64Bytes (data_of sec ''quota_hard_bytes'') = 0 then None
                else Some \<lparr>SoftBytes = parseInt64Bytes (data_of sec ''quota_soft_bytes''), HardBytes = parseInt64Bytes (data_of sec ''quota_hard_bytes''),
                  UpdatedAt = 0, UpdatedBy = [], LSource = ''kubernetes''\<rparr>)
          else limit_at k b bkt))
    \<and> map_of (ks_byAKID k3) = (map_of (ks_byAKID k2))(vc_AccessKeyID vc := None)
    \<and> (\<forall>b bkt. limit_at k3 b bkt = (if cacheKey b bkt \<in> scope_key ` set (vc_BucketScopes held) then None else limit_at k2 b bkt))
    \<and> ks_byBucket k1 = ks_byBucket k \<and> ks_byBucketCORS k1 = ks_byBucketCORS k
    \<and> ks_byBucket k3 = ks_byBucket k2 \<and> ks_byBucketCORS k3 = ks_byBucketCORS k2"
proof -
  have u: "k1 = publishQuota sec vc (k\<lparr>ks_byAKID := AList.update (vc_AccessKeyID vc) vc (ks_byAKID k)\<rparr>)"
    using assms(1,2,4) by (simp add: upsert_def)
  have l: "limit_at (k\<lparr>ks_byAKID := a\<rparr>) b bkt = limit_at k b bkt" for a b bkt by (simp add: limit_at_def)
  note d = delete_credential [OF assms(1,2,7,6), folded assms(8)]
  have "limit_at k3 b bkt = (if cacheKey b bkt \<in> scope_key ` set (vc_BucketScopes held) then None else limit_at k2 b bkt)" for b bkt
    using assms(5) by (auto simp: d limit_at_def KubernetesLimitSource_Get_def fold_DeleteLimit)
  then show ?thesis using assms(3) unfolding u by (simp add: limit_at_publishQuota l update_conv' d delete_conv')
qed

text \<open>The example's Secret limits its bucket to 1000 bytes; its tombstone takes key and limit away again.\<close>

theorem informer_events_witness:
  "limit_at ex_k8s ''b1'' ''data'' = Some \<lparr>SoftBytes = 0, HardBytes = 1000, UpdatedAt = 0, UpdatedBy = [], LSource = ''kubernetes''\<rparr>
   \<and> limit_at (handleDelete (Tombstone (Some ex_secret)) ex_k8s) ''b1'' ''data'' = None
   \<and> map_of (ks_byAKID ex_k8s) ''AK'' \<noteq> None \<and> map_of (ks_byAKID (handleDelete (Tombstone (Some ex_secret)) ex_k8s)) ''AK'' = None"
proof -
  have "map_option (\<lambda>vc. (vc_AccessKeyID vc, vc_BucketScopes vc)) (secretToVirtualCredential ex_secret) = Some (''AK'', [\<lparr>bs_BucketName = ''data'', bs_BackendName = ''b1''\<rparr>])"
    by code_simp
  then obtain vc where vc: "secretToVirtualCredential ex_secret = Some vc" "vc_AccessKeyID vc = ''AK''"
    "vc_BucketScopes vc = [\<lparr>bs_BucketName = ''data'', bs_BackendName = ''b1''\<rparr>]" by auto
  let ?k = "NewKubernetesSource (Some NewKubernetesLimitSource)"
  have r: "label_of ex_secret k8sLabelRole = ''virtual-credential''" "parseInt64Bytes (data_of ex_secret ''quota_soft_bytes'') = 0"
    "parseInt64Bytes (data_of ex_secret ''quota_hard_bytes'') = 1000" by code_simp+
  have k: "ks_limits ?k \<noteq> None" "ex_k8s = upsert (\<lambda>_. None) (SecretObj ex_secret) ?k" by (simp_all add: NewKubernetesSource_def ex_k8s_def)
  have "\<not> Option.is_none (ks_limits ex_k8s)" "\<not> Option.is_none (map_of (ks_byAKID ex_k8s) ''AK'')" by code_simp+
  then obtain held where h: "ks_limits ex_k8s \<noteq> None" "map_of (ks_byAKID ex_k8s) (vc_AccessKeyID vc) = Some held"
    using vc(2) by (auto simp: Option.is_none_def)
  note i = informer_events [OF r(1) vc(1) k h disjI2 [OF refl] refl]
  have "held = vc" using i h(2) by simp
  then show ?thesis using i r(2,3) vc(2,3) h(2) by simp
qed

end
