(* ===== verification/Proxy_Server.thy ===== *)
theory Proxy_Server
  imports Chunked Proxy_Rewrite Rate_Limits Sources
begin

text \<open>
  The proxy's request handler (\<^verbatim>\<open>internal/s3proxy\<close>: \<^verbatim>\<open>server.go\<close>, \<^verbatim>\<open>errors.go\<close>, \<^verbatim>\<open>listbuckets.go\<close> and
  \<^verbatim>\<open>backendresolver.go\<close>), composed of the components of the other theories: verification, decoding of
  streaming bodies, credential lookup, limits, routing, scope, quota, rewriting, the upstream round
  trip with its retries, the response, the audit record.

  A handler transforms a \<open>World\<close>: the state shared by requests (sources, signing-key cache, limiters,
  quota service), the response written so far and the trace of effects (slots taken and given back,
  requests sent upstream, usage recorded, audit events, log lines). What the outside decides during
  one request is the record \<open>env\<close>: the clock, the outcome of waiting for a slot, the backend
  registry, the AWS signer, the answers of the transport, whether the client has gone, and what a
  concurrent reload does to the sources between verification and lookup. Prometheus counters are not
  modelled.
\<close>

section \<open>Responses\<close>

record writer =
  w_header :: header
  w_status :: "int option"
  w_body :: string

definition WriteHeader :: "int \<Rightarrow> writer \<Rightarrow> writer" where
  "WriteHeader st w = (case w_status w of None \<Rightarrow> w\<lparr>w_status := Some st\<rparr> | Some _ \<Rightarrow> w)"

definition Write :: "string \<Rightarrow> writer \<Rightarrow> writer" where
  "Write s w = (let w1 = WriteHeader 200 w in w1\<lparr>w_body := w_body w1 @ s\<rparr>)"

text \<open>\<^verbatim>\<open>xml.EscapeText\<close> on ASCII text.\<close>

definition xml_escape_char :: "char \<Rightarrow> string" where
  "xml_escape_char c =
     (if c = CHR 0x22 then ''&#34;'' else if c = CHR 0x27 then ''&#39;'' else if c = CHR ''&'' then ''&amp;''
      else if c = CHR ''<'' then ''&lt;'' else if c = CHR ''>'' then ''&gt;'' else if c = CHR 0x09 then ''&#x9;''
      else if c = CHR 0x0A then ''&#xA;'' else if c = CHR 0x0D then ''&#xD;''
      else if (of_char c :: nat) < 32 then utf8 0xFFFD else [c])"

definition xml_text :: "string \<Rightarrow> string" where
  "xml_text s = concat (map xml_escape_char s)"

definition xml_elem :: "string \<Rightarrow> string \<Rightarrow> string" where
  "xml_elem name body = ''<'' @ name @ ''>'' @ body @ ''</'' @ name @ ''>''"

record S3Error =
  er_Code :: string
  er_Message :: string
  er_Resource :: string
  er_RequestID :: string

definition S3Error_xml :: "S3Error \<Rightarrow> string" where
  "S3Error_xml e = xml_elem ''Error'' (xml_elem ''Code'' (xml_text (er_Code e)) @ xml_elem ''Message'' (xml_text (er_Message e))
     @ (if er_Resource e = [] then [] else xml_elem ''Resource'' (xml_text (er_Resource e)))
     @ (if er_RequestID e = [] then [] else xml_elem ''RequestId'' (xml_text (er_RequestID e))))"

definition writeS3Error :: "int \<Rightarrow> string \<Rightarrow> string \<Rightarrow> string \<Rightarrow> string \<Rightarrow> writer \<Rightarrow> writer" where
  "writeS3Error status code msg resource reqID w =
     Write (S3Error_xml \<lparr>er_Code = code, er_Message = msg, er_Resource = resource, er_RequestID = reqID\<rparr>)
       (WriteHeader status (w\<lparr>w_header := header_Set ''x-amz-request-id'' reqID (header_Set ''Content-Type'' ''application/xml'' (w_header w))\<rparr>))"

text \<open>\<^verbatim>\<open>created.UTC().Format("2006-01-02T15:04:05.000Z")\<close>: milliseconds are truncated.\<close>

definition format_iso_ms :: "time \<Rightarrow> string" where
  "format_iso_ms t =
     (let secs = (t div Second) mod daySeconds;
          (y, mo, d) = civil_from_days ((t div Second) div daySeconds)
      in pad_digits 4 y @ ''-'' @ pad_digits 2 mo @ ''-'' @ pad_digits 2 d @ ''T'' @ pad_digits 2 (secs div 3600) @ '':''
         @ pad_digits 2 (secs div 60 mod 60) @ '':'' @ pad_digits 2 (secs mod 60) @ ''.'' @ pad_digits 3 (t mod Second div 1000000) @ ''Z'')"

definition ListBuckets_xml :: "string list \<Rightarrow> string \<Rightarrow> string" where
  "ListBuckets_xml names creationDate =
     ''<ListAllMyBucketsResult xmlns='' @ [CHR 0x22] @ ''http://s3.amazonaws.com/doc/2006-03-01/'' @ [CHR 0x22] @ ''>''
     @ xml_elem ''Owner'' (xml_elem ''ID'' ''stowage'' @ xml_elem ''DisplayName'' ''stowage'')
     @ xml_elem ''Buckets'' (concat (map (\<lambda>n. xml_elem ''Bucket'' (xml_elem ''Name'' (xml_text n) @ xml_elem ''CreationDate'' creationDate)) names))
     @ ''</ListAllMyBucketsResult>''"

definition xml_Header :: string where
  "xml_Header = ''<?xml version='' @ [CHR 0x22] @ ''1.0'' @ [CHR 0x22] @ '' encoding='' @ [CHR 0x22] @ ''UTF-8'' @ [CHR 0x22] @ ''?>'' @ [CHR 0x0A]"

definition WriteSynthesizedListBuckets :: "string list \<Rightarrow> time \<Rightarrow> writer \<Rightarrow> writer" where
  "WriteSynthesizedListBuckets names created w =
     Write (ListBuckets_xml names (format_iso_ms created)) (Write xml_Header (WriteHeader 200
       (w\<lparr>w_header := header_Set ''Content-Type'' ''application/xml'' (w_header w)\<rparr>)))"

section \<open>Backends\<close>

record ProxyTarget =
  t_Endpoint :: url
  t_Region :: string
  t_PathStyle :: bool
  t_AccessKey :: string
  t_SecretKey :: string

record BackendSpec =
  sp_Endpoint :: url
  sp_Region :: string
  sp_PathStyle :: bool
  sp_AccessKey :: string
  sp_SecretKey :: string

record credentials =
  cr_AccessKeyID :: string
  cr_SecretAccessKey :: string

type_synonym target_lookup = "string \<Rightarrow> string + ProxyTarget option"

text \<open>\<^verbatim>\<open>Backend\<close>: an error of the registry, or a backend that is missing or cannot be proxied.\<close>

definition Backend :: "target_lookup \<Rightarrow> string \<Rightarrow> string + (url \<times> BackendSpec)" where
  "Backend lookup name =
     (case lookup name of
        Inl err \<Rightarrow> Inl (''backend '' @ name @ '': '' @ err)
      | Inr None \<Rightarrow> Inl (''backend '' @ name @ '': not registered or does not support proxy forwarding'')
      | Inr (Some t) \<Rightarrow> Inr (t_Endpoint t, \<lparr>sp_Endpoint = t_Endpoint t, sp_Region = t_Region t, sp_PathStyle = t_PathStyle t,
          sp_AccessKey = t_AccessKey t, sp_SecretKey = t_SecretKey t\<rparr>))"

definition AdminCreds :: "target_lookup \<Rightarrow> string \<Rightarrow> string + (credentials \<times> BackendSpec)" where
  "AdminCreds lookup name =
     (case Backend lookup name of
        Inl err \<Rightarrow> Inl err
      | Inr (u, spec) \<Rightarrow> Inr (\<lparr>cr_AccessKeyID = sp_AccessKey spec, cr_SecretAccessKey = sp_SecretKey spec\<rparr>, spec))"

section \<open>Requests to the backend\<close>

text \<open>An inbound body: as it came, or behind one of the two decoding readers. What a reader yields until
  it ends, and whether it ended in an error.\<close>

datatype in_body = RawBody stream | SignedChunks chunkedReader | UnsignedChunks unsignedChunkedReader

definition body_bytes :: "in_body \<Rightarrow> string \<times> bool" where
  "body_bytes b = (case b of
     RawBody s \<Rightarrow> (fst s, snd s \<noteq> None)
   | SignedChunks c \<Rightarrow> (case ReadAll readNextChunk 511 c of Some (d, r, cf) \<Rightarrow> (d, r \<noteq> None) | None \<Rightarrow> ([], True))
   | UnsignedChunks c \<Rightarrow> (case ReadAll readNextChunkUnsigned 511 c of Some (d, r, cf) \<Rightarrow> (d, r \<noteq> None) | None \<Rightarrow> ([], True)))"

text \<open>\<^verbatim>\<open>io.ReadAll(io.LimitReader(body, n))\<close>: an error only if it comes before \<open>n\<close> bytes did.\<close>

definition read_limited :: "in_body \<Rightarrow> int \<Rightarrow> string option" where
  "read_limited b n =
     (case body_bytes b of (d, failed) \<Rightarrow>
        if failed \<and> int (length d) < n then None else Some (take (nat n) d))"

text \<open>The body of an outbound request: replayable bytes, the inbound stream, or the capped file part of a
  form upload.\<close>

datatype out_body = Buffered string | Streamed in_body | FilePart stream int

record outbound =
  o_Method :: string
  o_URL :: url
  o_Host :: string
  o_Header :: header
  o_Body :: "out_body option"
  o_GetBody :: bool
  o_ContentLength :: int

definition maxReplayableBody :: int where "maxReplayableBody = 1048576"
definition statusClientClosedRequest :: int where "statusClientClosedRequest = 499"
definition upstreamIdempotentAttempts :: nat where "upstreamIdempotentAttempts = 3"

definition validMethod :: "string \<Rightarrow> bool" where
  "validMethod m \<longleftrightarrow> m \<noteq> [] \<and> list_all validHeaderFieldByte m"

definition outbound_url :: "url \<Rightarrow> string \<Rightarrow> string \<Rightarrow> string \<Rightarrow> url" where
  "outbound_url backendURL bucket key query =
     (let basePath = TrimRight (Path backendURL) ''/''
      in backendURL\<lparr>Path := basePath @ BuildOutboundPath bucket key, RawPath := basePath @ BuildOutboundRawPath bucket key,
           RawQuery := query\<rparr>)"

definition outbound_body :: "request \<Rightarrow> in_body \<Rightarrow> string + out_body" where
  "outbound_body r body =
     (if 0 < ContentLength r \<and> ContentLength r \<le> maxReplayableBody then
        (case read_limited body (ContentLength r) of
           None \<Rightarrow> Inl ''read body''
         | Some buf \<Rightarrow> if int (length buf) \<noteq> ContentLength r
             then Inl (''request body shorter than declared length '' @ FormatInt (ContentLength r)) else Inr (Buffered buf))
      else Inr (Streamed body))"

text \<open>\<^verbatim>\<open>buildOutbound\<close>. The server always gives a request a body (an empty one is \<^verbatim>\<open>http.NoBody\<close>), so the
  outbound request has one too; \<^verbatim>\<open>NewRequest\<close> makes it replayable only when it is a bytes reader.\<close>

definition buildOutbound :: "request \<Rightarrow> in_body \<Rightarrow> RouteInfo \<Rightarrow> string \<Rightarrow> url \<Rightarrow> string + outbound" where
  "buildOutbound r body route realBucket backendURL =
     (case outbound_body r body of
        Inl err \<Rightarrow> Inl err
      | Inr ob \<Rightarrow>
          if \<not> validMethod (Method r) then Inl (''net/http: invalid method '' @ Method r)
          else Inr \<lparr>o_Method = Method r, o_URL = outbound_url backendURL realBucket (Key route) (StripPresignedQuery (RawQuery (URL r))),
             o_Host = UHost backendURL, o_Header = header_Set ''Host'' (UHost backendURL) (PrepareOutboundHeaders (Header r)),
             o_Body = Some ob, o_GetBody = (case ob of Buffered _ \<Rightarrow> True | _ \<Rightarrow> False),
             o_ContentLength = (if 0 < ContentLength r then ContentLength r else 0)\<rparr>)"

text \<open>A transport error: its message and the sentinels \<^verbatim>\<open>errors.Is\<close> finds in it.\<close>

datatype sentinel = IsEOF | IsUnexpectedEOF | IsECONNRESET | IsEPIPE | IsFileTooLarge

record transport_err =
  te_msg :: string
  te_is :: "sentinel list"

definition isIdempotentMethod :: "string \<Rightarrow> bool" where
  "isIdempotentMethod m \<longleftrightarrow> m = ''GET'' \<or> m = ''HEAD'' \<or> m = ''DELETE''"

definition isRetryableStatus :: "int \<Rightarrow> bool" where
  "isRetryableStatus code \<longleftrightarrow> code = 502 \<or> code = 503 \<or> code = 504"

definition isStaleConnErr :: "transport_err \<Rightarrow> bool" where
  "isStaleConnErr err \<longleftrightarrow>
     list_ex (\<lambda>s. s \<in> set (te_is err)) [IsEOF, IsUnexpectedEOF, IsECONNRESET, IsEPIPE] \<or> Contains (te_msg err) ''server closed idle connection''"

section \<open>The world of a request\<close>

text \<open>The parts of a multipart form, as \<^verbatim>\<open>mime/multipart\<close> hands them out: form name, file name, content; after
  the last one the end of the form or an error.\<close>

record part =
  FormName :: string
  FileName :: string
  Content :: stream

type_synonym form = "part list \<times> string option"

record AuditEvent =
  a_Timestamp :: time
  a_Action :: string
  a_Backend :: string
  a_Bucket :: string
  a_Key :: string
  a_RequestID :: string
  a_IP :: string
  a_UserAgent :: string
  a_Status :: string
  a_Detail :: "(string \<times> string) list"

datatype effect =
    SlotTaken string
  | SlotReleased string
  | Sent outbound
  | UsageRecorded string string int
  | Audited AuditEvent
  | LogBackend5xx string int string
  | LogRequest string string string int

record 'l World =
  W_source :: MergedSource
  W_keys :: key_cache
  W_limiter :: "'l Limiter"
  W_ip :: "'l IPLimiter"
  W_quotas :: "Service option"
  W_writer :: writer
  W_trace :: "effect list"

record env =
  e_reqID :: string
  e_now :: time
  e_later :: time
  e_rfc1123 :: "string \<Rightarrow> time option"
  e_reload :: "MergedSource \<Rightarrow> MergedSource"
  e_slot :: "string \<Rightarrow> string option"
  e_listing :: registry
  e_deadline :: nat
  e_target :: target_lookup
  e_sign :: "credentials \<Rightarrow> string \<Rightarrow> outbound \<Rightarrow> string + header"
  e_roundTrip :: "nat \<Rightarrow> outbound \<Rightarrow> transport_err + response"
  e_ctxErr :: "nat \<Rightarrow> bool"
  e_rand :: rat
  e_form :: "string + form"
  e_parseURL :: "string \<Rightarrow> string + url"
  e_fileRead :: nat

record ('l, 'ip) Config =
  HostSuffixes :: "string list"
  BucketCreated :: time
  PublicHostname :: string
  AnonymousEnabled :: bool
  TrustedProxies :: "('ip \<Rightarrow> bool) list option"
  ParseIP :: "string \<Rightarrow> 'ip option"
  HasCORSSource :: bool
  HasAudit :: bool
  SuccessReadAuditRate :: rat
  RateOps :: "'l rate_ops"
  AdminCredsOverride :: "(BackendSpec \<Rightarrow> string + credentials) option"

definition emit :: "effect \<Rightarrow> 'l World \<Rightarrow> 'l World" where
  "emit e W = W\<lparr>W_trace := W_trace W @ [e]\<rparr>"

definition on_writer :: "(writer \<Rightarrow> writer) \<Rightarrow> 'l World \<Rightarrow> 'l World" where
  "on_writer f W = W\<lparr>W_writer := f (W_writer W)\<rparr>"

section \<open>The upstream round trip\<close>

text \<open>The requests sent so far number the round trips; \<open>e_ctxErr n\<close> says whether the client is gone after
  the \<open>n\<close>-th one.\<close>

definition sends :: "'l World \<Rightarrow> nat" where
  "sends W = length (filter (\<lambda>e. case e of Sent _ \<Rightarrow> True | _ \<Rightarrow> False) (W_trace W))"

definition RoundTrip :: "env \<Rightarrow> outbound \<Rightarrow> 'l World \<Rightarrow> (transport_err + response) \<times> 'l World" where
  "RoundTrip E req W = (e_roundTrip E (sends W) req, emit (Sent req) W)"

definition ctxErr :: "env \<Rightarrow> 'l World \<Rightarrow> bool" where
  "ctxErr E W = e_ctxErr E (sends W)"

definition ctx_error :: transport_err where
  "ctx_error = \<lparr>te_msg = ''context canceled'', te_is = []\<rparr>"

fun idempotent_attempts :: "env \<Rightarrow> outbound \<Rightarrow> nat \<Rightarrow> nat \<Rightarrow> transport_err + response \<Rightarrow> 'l World \<Rightarrow> (transport_err + response) \<times> 'l World" where
  "idempotent_attempts E req 0 attempt prev W = (prev, W)"
| "idempotent_attempts E req (Suc left) attempt prev W =
     (if 0 < attempt \<and> ctxErr E W then (Inl ctx_error, W)
      else case RoundTrip E req W of
        (Inl err, W1) \<Rightarrow> if ctxErr E W1 then (Inl err, W1) else idempotent_attempts E req left (attempt + 1) (Inl err) W1
      | (Inr resp, W1) \<Rightarrow> if \<not> isRetryableStatus (StatusCode resp) then (Inr resp, W1)
          else idempotent_attempts E req left (attempt + 1) (Inr resp) W1)"

definition doUpstreamIdempotent :: "env \<Rightarrow> outbound \<Rightarrow> 'l World \<Rightarrow> (transport_err + response) \<times> 'l World" where
  "doUpstreamIdempotent E req W = idempotent_attempts E req upstreamIdempotentAttempts 0 (Inl ctx_error) W"

definition doUpstream :: "env \<Rightarrow> outbound \<Rightarrow> 'l World \<Rightarrow> (transport_err + response) \<times> 'l World" where
  "doUpstream E req W =
     (if isIdempotentMethod (o_Method req) \<and> o_Body req = None then doUpstreamIdempotent E req W
      else case RoundTrip E req W of
        (Inr resp, W1) \<Rightarrow> (Inr resp, W1)
      | (Inl err, W1) \<Rightarrow>
          if ctxErr E W1 \<or> \<not> isStaleConnErr err then (Inl err, W1)
          else if o_Body req \<noteq> None \<and> \<not> o_GetBody req then (Inl err, W1)
          else RoundTrip E req W1)"

definition admCredsFor :: "('l, 'ip) Config \<Rightarrow> env \<Rightarrow> string \<Rightarrow> BackendSpec \<Rightarrow> string + credentials" where
  "admCredsFor cfg E backendName spec =
     (case AdminCredsOverride cfg of
        Some f \<Rightarrow> f spec
      | None \<Rightarrow> (case AdminCreds (e_target E) backendName of Inl err \<Rightarrow> Inl err | Inr (admin, _) \<Rightarrow> Inr admin))"

definition signOutbound :: "('l, 'ip) Config \<Rightarrow> env \<Rightarrow> outbound \<Rightarrow> string \<Rightarrow> BackendSpec \<Rightarrow> string + outbound" where
  "signOutbound cfg E req backendName spec =
     (let region = (if sp_Region spec = [] then ''us-east-1'' else sp_Region spec)
      in case admCredsFor cfg E backendName spec of
        Inl err \<Rightarrow> Inl err
      | Inr creds \<Rightarrow>
          (let req1 = req\<lparr>o_Header := header_Set ''X-Amz-Content-Sha256'' UnsignedPayload (o_Header req)\<rparr>
           in case e_sign E creds region req1 of Inl err \<Rightarrow> Inl err | Inr h \<Rightarrow> Inr (req1\<lparr>o_Header := h\<rparr>)))"

text \<open>\<^verbatim>\<open>streamResponse\<close>: a response of the 500s is logged with its first 4096 bytes.\<close>

definition copied_headers :: "header \<Rightarrow> header \<Rightarrow> header" where
  "copied_headers resp w =
     fold (\<lambda>(k, vs) h. if ToLower k \<in> set stripInbound \<or> ToLower k = ''server'' then h else fold (\<lambda>v. header_Add k v) vs h) resp w"

definition streamResponse :: "response \<Rightarrow> outbound \<Rightarrow> 'l World \<Rightarrow> 'l World" where
  "streamResponse resp outReq W =
     (let W1 = on_writer (\<lambda>w. WriteHeader (StatusCode resp) (w\<lparr>w_header := copied_headers (rHeader resp) (w_header w)\<rparr>)) W;
          data = fst (rBody resp); failed = snd (rBody resp) \<noteq> None
      in if 500 \<le> StatusCode resp then
           (let head = take 4096 data; readErr = (failed \<and> length data < 4096);
                W2 = on_writer (Write head) (emit (LogBackend5xx (url_String (o_URL outReq)) (StatusCode resp) head) W1)
            in if readErr then W2 else on_writer (Write (drop 4096 data)) W2)
         else on_writer (Write data) W1)"

section \<open>The signed and the anonymous path\<close>

text \<open>What the handler reports about a request it served.\<close>

record servedRequest =
  s_operation :: string
  s_status :: int
  s_result :: string
  s_authMode :: string
  s_akid :: string
  s_backend :: string
  s_bucket :: string
  s_key :: string
  s_source :: string
  s_claimNS :: string
  s_claimName :: string

definition zeroServed :: servedRequest where
  "zeroServed = \<lparr>s_operation = [], s_status = 0, s_result = [], s_authMode = [], s_akid = [], s_backend = [], s_bucket = [], s_key = [],
     s_source = [], s_claimNS = [], s_claimName = []\<rparr>"

definition refuse ::
  "env \<Rightarrow> request \<Rightarrow> int \<Rightarrow> string \<Rightarrow> string \<Rightarrow> string \<Rightarrow> servedRequest \<Rightarrow> 'l World \<Rightarrow> servedRequest \<times> 'l World" where
  "refuse E r st code msg res out W =
     (out\<lparr>s_status := st, s_result := res\<rparr>, on_writer (writeS3Error st code msg (Path (URL r)) (e_reqID E)) W)"

definition verr_text :: "verr \<Rightarrow> string" where
  "verr_text e = (case e of
     ErrMissingAuth \<Rightarrow> ''missing authentication token'' | ErrMalformedAuth \<Rightarrow> ''malformed authorization''
   | ErrInvalidAccessKey \<Rightarrow> ''invalid access key id'' | ErrSignatureMismatch \<Rightarrow> ''signature does not match''
   | ErrRequestExpired \<Rightarrow> ''request expired'' | ErrRequestTimeSkewed \<Rightarrow> ''request time skewed''
   | ErrUnsupportedAlgo \<Rightarrow> ''unsupported signing algorithm'' | ErrInvalidCredential \<Rightarrow> ''invalid credential scope'')"

definition auth_failure :: "verr \<Rightarrow> string \<times> string" where
  "auth_failure e = (case e of
     ErrMissingAuth \<Rightarrow> (''MissingAuthenticationToken'', ''missing-auth'')
   | ErrInvalidAccessKey \<Rightarrow> (''InvalidAccessKeyId'', ''unknown-akid'')
   | ErrSignatureMismatch \<Rightarrow> (''SignatureDoesNotMatch'', ''bad-sig'')
   | ErrRequestExpired \<Rightarrow> (''AccessDenied'', ''expired'')
   | ErrRequestTimeSkewed \<Rightarrow> (''RequestTimeTooSkewed'', ''skew'')
   | _ \<Rightarrow> (''AccessDenied'', ''auth-error''))"

definition writeAuthFailure :: "env \<Rightarrow> verr \<Rightarrow> servedRequest \<Rightarrow> 'l World \<Rightarrow> servedRequest \<times> 'l World" where
  "writeAuthFailure E err out W =
     (case auth_failure err of (code, reason) \<Rightarrow>
        (out\<lparr>s_status := 403, s_result := reason\<rparr>, on_writer (writeS3Error 403 code (verr_text err) [] (e_reqID E)) W))"

definition acquireSlot :: "env \<Rightarrow> request \<Rightarrow> string \<Rightarrow> 'l World \<Rightarrow> bool \<times> 'l World" where
  "acquireSlot E r k W = (case e_slot E k of
     Some scope \<Rightarrow> (False, on_writer (writeS3Error 503 ''SlowDown'' ''too many requests in flight, retry with backoff'' (Path (URL r)) (e_reqID E)) W)
   | None \<Rightarrow> (True, emit (SlotTaken k) W))"

text \<open>The resolver of the server's verifier asks the credential source.\<close>

definition verifier_of :: "env \<Rightarrow> MergedSource \<Rightarrow> verifier" where
  "verifier_of E src = \<lparr>Resolver = (\<lambda>a. map_option vc_SecretAccessKey (fst (MergedSource_Lookup (e_now E) a src))),
     Now = (\<lambda>_. e_now E), MaxSkew = 0, ParseRFC1123 = e_rfc1123 E\<rparr>"

definition decode_body :: "request \<Rightarrow> result \<Rightarrow> (request \<times> in_body) option" where
  "decode_body r res =
     (let presignedChunked = (Presigned res \<and> HasAwsChunkedEncoding (Header r))
      in if PayloadHash res = StreamingPayload \<or> PayloadHash res = StreamingUnsignedTrailer \<or> presignedChunked then
           (case ParseInt 10 (header_Get (Header r) ''X-Amz-Decoded-Content-Length'') of
              None \<Rightarrow> None
            | Some decoded \<Rightarrow>
                Some (r\<lparr>ContentLength := decoded,
                        Header := StripAwsChunkedEncoding (header_Set ''Content-Length'' (FormatInt decoded) (Header r))\<rparr>,
                      if PayloadHash res = StreamingPayload
                      then SignedChunks (NewChunkedReader (Body r) (SigningKey res) (SeedSignature res) (Region res) (Service res) (Date res))
                      else UnsignedChunks (NewUnsignedChunkedReader (Body r))))
         else Some (r, RawBody (Body r)))"

definition quota_text :: "quota_err \<Rightarrow> string" where
  "quota_text e = (case e of ErrQuotaExceeded u a h \<Rightarrow>
     ''bucket hard quota exceeded: '' @ FormatInt u @ '' + '' @ FormatInt a @ '' > '' @ FormatInt h)"

text \<open>The quota check of an upload, when the service is configured. The inline scan runs under a deadline,
  after which every listing call fails; so the check returns (\<open>CheckUpload_returns\<close>).\<close>

definition check_quota :: "env \<Rightarrow> bool \<Rightarrow> string \<Rightarrow> string \<Rightarrow> int \<Rightarrow> 'l World \<Rightarrow> string option \<times> 'l World" where
  "check_quota E applies backendName bkt n W =
     (case W_quotas W of
        None \<Rightarrow> (None, W)
      | Some q \<Rightarrow>
          if \<not> applies then (None, W)
          else case CheckUpload (scan_deadline (e_deadline E) (e_listing E)) (e_later E) backendName bkt n q of
            None \<Rightarrow> (None, W)
          | Some (v, q') \<Rightarrow> (map_option quota_text v, W\<lparr>W_quotas := Some q'\<rparr>))"

definition record_usage :: "string \<Rightarrow> string \<Rightarrow> int \<Rightarrow> 'l World \<Rightarrow> 'l World" where
  "record_usage backendName bkt n W =
     (case W_quotas W of None \<Rightarrow> W
      | Some q \<Rightarrow> emit (UsageRecorded backendName bkt n) (W\<lparr>W_quotas := Some (Recorded backendName bkt n q)\<rparr>))"

text \<open>From the backend lookup to the answer: common to both paths.\<close>

datatype forwarded = Refused int string string string | ClientGone | Answered outbound response

definition forward ::
  "('l, 'ip) Config \<Rightarrow> env \<Rightarrow> request \<Rightarrow> in_body \<Rightarrow> RouteInfo \<Rightarrow> string \<Rightarrow> string \<Rightarrow> 'l World \<Rightarrow> forwarded \<times> 'l World" where
  "forward cfg E r body route realBucket backendName W =
     (case Backend (e_target E) backendName of
        Inl err \<Rightarrow> (Refused 502 ''InternalError'' err ''backend-unavailable'', W)
      | Inr (u, spec) \<Rightarrow> (case buildOutbound r body route realBucket u of
        Inl err \<Rightarrow> (Refused 400 ''InvalidRequest'' err ''bad-request'', W)
      | Inr req \<Rightarrow> (case signOutbound cfg E req backendName spec of
        Inl err \<Rightarrow> (Refused 502 ''InternalError'' (''sign outbound: '' @ err) ''sign-error'', W)
      | Inr sreq \<Rightarrow> (case doUpstream E sreq W of
        (Inl err, W1) \<Rightarrow> (if ctxErr E W1 then ClientGone else Refused 502 ''InternalError'' (te_msg err) ''upstream-error'', W1)
      | (Inr resp, W1) \<Rightarrow> (Answered sreq resp, W1)))))"

text \<open>A request of credential \<open>vc\<close> that holds its slot.\<close>

definition serve_in_slot ::
  "('l, 'ip) Config \<Rightarrow> env \<Rightarrow> request \<Rightarrow> in_body \<Rightarrow> VirtualCredential \<Rightarrow> servedRequest \<Rightarrow> 'l World \<Rightarrow> servedRequest \<times> 'l World" where
  "serve_in_slot cfg E r body vc out0 W =
     (let route = ClassifyRoute r (HostSuffixes cfg); op = classifyOperation r route;
          out = out0\<lparr>s_operation := op, s_bucket := Bucket route, s_key := Key route\<rparr>;
          upload = (isUploadOp op \<and> 0 < ContentLength r)
      in if Bucket route = [] then
           (out\<lparr>s_operation := ''ListBuckets'', s_status := 200, s_result := ''ok''\<rparr>,
            on_writer (WriteSynthesizedListBuckets (map bs_BucketName (vc_BucketScopes vc)) (BucketCreated cfg)) W)
         else if \<not> EnforceScope (vc_BucketScopes vc) (Bucket route) then
           refuse E r 403 ''AccessDenied'' ''credential is not scoped to this bucket'' ''scope-violation'' out W
         else case check_quota E upload (vc_BackendName vc) (Bucket route) (ContentLength r) W of
           (Some msg, W1) \<Rightarrow> refuse E r 507 ''EntityTooLarge'' msg ''quota-exceeded'' out W1
         | (None, W1) \<Rightarrow> (case forward cfg E r body route (Bucket route) (vc_BackendName vc) W1 of
             (Refused st code msg res, W2) \<Rightarrow> refuse E r st code msg res out W2
           | (ClientGone, W2) \<Rightarrow> (out\<lparr>s_status := statusClientClosedRequest, s_result := ''client-cancelled''\<rparr>, W2)
           | (Answered req resp0, W2) \<Rightarrow>
               (let resp = (if op = ''CompleteMultipartUpload'' \<and> StatusCode resp0 = 200
                      then rewriteCompleteMultipartLocation resp0 r route (PublicHostname cfg) else resp0);
                    W3 = streamResponse resp req W2;
                    W4 = (if upload \<and> StatusCode resp < 400 then record_usage (vc_BackendName vc) (Bucket route) (ContentLength r) W3 else W3)
                in (out\<lparr>s_status := StatusCode resp, s_result := ''ok''\<rparr>, W4))))"

definition serveSigned :: "('l, 'ip) Config \<Rightarrow> env \<Rightarrow> request \<Rightarrow> 'l World \<Rightarrow> servedRequest \<times> 'l World" where
  "serveSigned cfg E r W =
     (let out = zeroServed\<lparr>s_operation := ''Unknown'',
            s_authMode := (if values_Get (Query (URL r)) ''X-Amz-Signature'' \<noteq> [] then ''presigned'' else ''signed'')\<rparr>
      in case Verify (verifier_of E (W_source W)) (W_keys W) r of
        (Inl err, ks) \<Rightarrow> writeAuthFailure E err out (W\<lparr>W_keys := ks\<rparr>)
      | (Inr res, ks) \<Rightarrow>
          (let W1 = W\<lparr>W_keys := ks, W_source := e_reload E (W_source W)\<rparr>
           in case decode_body r res of
             None \<Rightarrow> refuse E r 400 ''InvalidRequest'' ''missing or bad X-Amz-Decoded-Content-Length'' ''bad-chunked-header'' out W1
           | Some (r1, body) \<Rightarrow> (case MergedSource_Lookup (e_later E) (AccessKeyID res) (W_source W1) of
               (None, src) \<Rightarrow> refuse E r 403 ''InvalidAccessKeyId'' ''access key not recognized'' ''unknown-akid''
                  (out\<lparr>s_akid := AccessKeyID res\<rparr>) (W1\<lparr>W_source := src\<rparr>)
             | (Some vc, src) \<Rightarrow>
                 (let out1 = out\<lparr>s_akid := vc_AccessKeyID vc, s_backend := vc_BackendName vc, s_source := vc_Source vc,
                        s_claimNS := vc_ClaimNamespace vc, s_claimName := vc_ClaimName vc\<rparr>
                  in case Limiter_Allow (RateOps cfg) (e_later E) (vc_AccessKeyID vc) (W_limiter W1) of
                    (ok, lm) \<Rightarrow>
                      (let W2 = W1\<lparr>W_source := src, W_limiter := lm\<rparr>
                       in if \<not> ok then refuse E r 503 ''SlowDown'' ''rate limit exceeded'' ''rate-limited'' out1 W2
                          else case acquireSlot E r (vc_AccessKeyID vc) W2 of
                            (False, W3) \<Rightarrow> (out1\<lparr>s_status := 503, s_result := ''concurrency-limited''\<rparr>, W3)
                          | (True, W3) \<Rightarrow> (case serve_in_slot cfg E r1 body vc out1 W3 of
                              (o1, W4) \<Rightarrow> (o1, emit (SlotReleased (vc_AccessKeyID vc)) W4)))))))"

definition serve_anon_slot ::
  "('l, 'ip) Config \<Rightarrow> env \<Rightarrow> request \<Rightarrow> RouteInfo \<Rightarrow> AnonymousBinding \<Rightarrow> servedRequest \<Rightarrow> 'l World \<Rightarrow> servedRequest \<times> 'l World" where
  "serve_anon_slot cfg E r route b out W =
     (case forward cfg E r (RawBody (Body r)) route (ab_BucketName b) (ab_BackendName b) W of
        (Refused st code msg res, W1) \<Rightarrow> refuse E r st code msg res out W1
      | (ClientGone, W1) \<Rightarrow> (out\<lparr>s_status := statusClientClosedRequest, s_result := ''client-cancelled''\<rparr>, W1)
      | (Answered req resp, W1) \<Rightarrow> (out\<lparr>s_status := StatusCode resp, s_result := ''ok''\<rparr>, streamResponse resp req W1))"

definition serveAnonymous :: "('l, 'ip) Config \<Rightarrow> env \<Rightarrow> request \<Rightarrow> 'l World \<Rightarrow> servedRequest \<times> 'l World" where
  "serveAnonymous cfg E r W =
     (let route = ClassifyRoute r (HostSuffixes cfg);
          out = zeroServed\<lparr>s_operation := classifyOperation r route, s_source := ''anonymous'', s_bucket := Bucket route, s_key := Key route\<rparr>
      in if Bucket route = [] then
           refuse E r 403 ''MissingAuthenticationToken'' ''anonymous service-level requests are not allowed'' ''missing-auth'' out W
         else case MergedSource_LookupAnon (W_source W) (Bucket route) of
           None \<Rightarrow> refuse E r 403 ''MissingAuthenticationToken'' ''request requires authentication'' ''missing-auth'' out W
         | Some b \<Rightarrow>
             (let out1 = out\<lparr>s_backend := ab_BackendName b\<rparr>; q = Query (URL r)
              in if \<not> AnonymousOpAllowed (ab_Mode b) (s_operation out1) q then
                   refuse E r 403 ''AccessDenied'' ''operation not permitted on anonymous bucket''
                     (if list_ex (values_Has q) anonymousBlockedSubresources then ''subresource-not-allowed'' else ''op-not-allowed'') out1 W
                 else let ip = ClientIP (ParseIP cfg) r (TrustedProxies cfg)
                   in case IPLimiter_AllowAt (RateOps cfg) (e_now E) ip (ab_PerSourceIPRPS b) (W_ip W) of
                     (ok, lm) \<Rightarrow>
                       (let W1 = W\<lparr>W_ip := lm\<rparr>
                        in if \<not> ok then refuse E r 503 ''SlowDown'' ''rate limit exceeded'' ''rate-limited'' out1 W1
                           else case acquireSlot E r (''anon:'' @ ip) W1 of
                             (False, W2) \<Rightarrow> (out1\<lparr>s_status := 503, s_result := ''concurrency-limited''\<rparr>, W2)
                           | (True, W2) \<Rightarrow> (case serve_anon_slot cfg E r route b out1 W2 of
                               (o1, W3) \<Rightarrow> (o1, emit (SlotReleased (''anon:'' @ ip)) W3)))))"

section \<open>Frame lemmas\<close>

lemma emit_sel [simp]:
  "W_trace (emit e W) = W_trace W @ [e]" "W_writer (emit e W) = W_writer W" "W_quotas (emit e W) = W_quotas W"
  "W_source (emit e W) = W_source W" "W_keys (emit e W) = W_keys W" "W_limiter (emit e W) = W_limiter W" "W_ip (emit e W) = W_ip W"
  by (simp_all add: emit_def)

lemma on_writer_sel [simp]:
  "W_trace (on_writer f W) = W_trace W" "W_writer (on_writer f W) = f (W_writer W)" "W_quotas (on_writer f W) = W_quotas W"
  "W_source (on_writer f W) = W_source W" "W_keys (on_writer f W) = W_keys W" "W_limiter (on_writer f W) = W_limiter W"
  "W_ip (on_writer f W) = W_ip W"
  by (simp_all add: on_writer_def)

lemma status_WriteHeader [simp]: "w_status (WriteHeader st w) = Some (case w_status w of None \<Rightarrow> st | Some s \<Rightarrow> s)"
  by (simp add: WriteHeader_def split: option.splits)

lemma status_Write [simp]: "w_status (Write d w) = Some (case w_status w of None \<Rightarrow> 200 | Some s \<Rightarrow> s)"
  by (simp add: Write_def Let_def split: option.splits)

lemma status_writeS3Error [simp]: "w_status (writeS3Error st code msg res rid w) = Some (case w_status w of None \<Rightarrow> st | Some s \<Rightarrow> s)"
  by (simp add: writeS3Error_def)

lemma status_ListBuckets [simp]: "w_status (WriteSynthesizedListBuckets ns t w) = Some (case w_status w of None \<Rightarrow> 200 | Some s \<Rightarrow> s)"
  by (simp add: WriteSynthesizedListBuckets_def)

lemma status_streamResponse [simp]:
  "w_status (W_writer (streamResponse resp q W)) = Some (case w_status (W_writer W) of None \<Rightarrow> StatusCode resp | Some s \<Rightarrow> s)"
  by (simp add: streamResponse_def Let_def)

lemma quotas_streamResponse [simp]: "W_quotas (streamResponse resp q W) = W_quotas W"
  by (simp add: streamResponse_def Let_def)

lemma trace_streamResponse:
  "W_trace (streamResponse resp q W) = W_trace W @
     (if 500 \<le> StatusCode resp then [LogBackend5xx (url_String (o_URL q)) (StatusCode resp) (take 4096 (fst (rBody resp)))] else [])"
  by (simp add: streamResponse_def Let_def)

lemma refuse_sel [simp]:
  "W_trace (snd (refuse E r st code msg res out W)) = W_trace W" "W_quotas (snd (refuse E r st code msg res out W)) = W_quotas W"
  "w_status (W_writer (snd (refuse E r st code msg res out W))) = Some (case w_status (W_writer W) of None \<Rightarrow> st | Some s \<Rightarrow> s)"
  "s_status (fst (refuse E r st code msg res out W)) = st" "s_result (fst (refuse E r st code msg res out W)) = res"
  by (simp_all add: refuse_def)

section \<open>Round trips\<close>

lemma RoundTrip_world: "RoundTrip E q W = (e_roundTrip E (sends W) q, W\<lparr>W_trace := W_trace W @ [Sent q]\<rparr>)"
  by (simp add: RoundTrip_def emit_def)

lemma idempotent_attempts_world:
  "idempotent_attempts E q k attempt prev W = (res, W1) \<Longrightarrow>
     \<exists>n \<le> k. W1 = W\<lparr>W_trace := W_trace W @ replicate n (Sent q)\<rparr> \<and> (0 < k \<and> attempt = 0 \<longrightarrow> 0 < n)"
proof (induction k arbitrary: attempt prev W)
  case (Suc k)
  show ?case
  proof (cases "\<exists>attempt' prev' W'. W' = W\<lparr>W_trace := W_trace W @ [Sent q]\<rparr> \<and> idempotent_attempts E q k attempt' prev' W' = (res, W1)")
    case True
    then obtain n where "n \<le> k" "W1 = W\<lparr>W_trace := W_trace W @ [Sent q] @ replicate n (Sent q)\<rparr>" using Suc.IH by fastforce
    then show ?thesis by (intro exI [of _ "Suc n"]) simp
  next
    case False
    then have "W1 = W \<and> 0 < attempt \<or> W1 = W\<lparr>W_trace := W_trace W @ [Sent q]\<rparr>"
      using Suc.prems by (auto simp: RoundTrip_world split: if_splits sum.splits)
    then show ?thesis
    proof
      assume "W1 = W \<and> 0 < attempt" then show ?thesis by (intro exI [of _ 0]) simp
    next
      assume "W1 = W\<lparr>W_trace := W_trace W @ [Sent q]\<rparr>" then show ?thesis by (intro exI [of _ 1]) simp
    qed
  qed
qed simp

lemma doUpstream_world:
  assumes "doUpstream E q W = (res, W1)"
  obtains n where "0 < n" "n \<le> upstreamIdempotentAttempts" "W1 = W\<lparr>W_trace := W_trace W @ replicate n (Sent q)\<rparr>"
    "o_Body q \<noteq> None \<Longrightarrow> n \<le> (if o_GetBody q then 2 else 1)"
proof (cases "isIdempotentMethod (o_Method q) \<and> o_Body q = None")
  case True
  with assms idempotent_attempts_world [of E q upstreamIdempotentAttempts 0 "Inl ctx_error" W res W1] that show ?thesis
    by (auto simp: doUpstream_def doUpstreamIdempotent_def upstreamIdempotentAttempts_def)
next
  case False
  with assms have "W1 = W\<lparr>W_trace := W_trace W @ replicate 1 (Sent q)\<rparr> \<or>
      W1 = W\<lparr>W_trace := W_trace W @ replicate 2 (Sent q)\<rparr> \<and> \<not> (o_Body q \<noteq> None \<and> \<not> o_GetBody q)"
    by (auto simp: doUpstream_def RoundTrip_world numeral_2_eq_2 split: if_splits sum.splits)
  then show ?thesis
  proof (elim disjE conjE)
    assume "W1 = W\<lparr>W_trace := W_trace W @ replicate 1 (Sent q)\<rparr>"
    then show ?thesis by (rule that [of 1, rotated 2]) (simp_all add: upstreamIdempotentAttempts_def)
  next
    assume "W1 = W\<lparr>W_trace := W_trace W @ replicate 2 (Sent q)\<rparr>" "\<not> (o_Body q \<noteq> None \<and> \<not> o_GetBody q)"
    then show ?thesis by (intro that [of 2]) (auto simp: upstreamIdempotentAttempts_def)
  qed
qed

section \<open>What a handler does\<close>

text \<open>The one request that forwarding a client's request can put on the wire, if any.\<close>

definition outbound_for :: "('l, 'ip) Config \<Rightarrow> env \<Rightarrow> request \<Rightarrow> in_body \<Rightarrow> RouteInfo \<Rightarrow> string \<Rightarrow> string \<Rightarrow> outbound option" where
  "outbound_for cfg E r body route realBucket backendName =
     (case Backend (e_target E) backendName of Inl _ \<Rightarrow> None
      | Inr (u, spec) \<Rightarrow> (case buildOutbound r body route realBucket u of Inl _ \<Rightarrow> None
      | Inr req \<Rightarrow> (case signOutbound cfg E req backendName spec of Inl _ \<Rightarrow> None | Inr sreq \<Rightarrow> Some sreq)))"

text \<open>Effects between the taking and the release of a slot, when only requests satisfying \<open>P\<close> are sent.\<close>

definition in_slot :: "(outbound \<Rightarrow> bool) \<Rightarrow> effect \<Rightarrow> bool" where
  "in_slot P e = (case e of Sent q \<Rightarrow> P q | UsageRecorded _ _ _ \<Rightarrow> True | LogBackend5xx _ _ _ \<Rightarrow> True | _ \<Rightarrow> False)"

text \<open>The status reported is the one written; nothing is written only when the client has gone.\<close>

definition reported :: "env \<Rightarrow> servedRequest \<times> 'l World \<Rightarrow> bool" where
  "reported E res \<longleftrightarrow>
     (if s_result (fst res) = ''client-cancelled''
      then s_status (fst res) = statusClientClosedRequest \<and> ctxErr E (snd res) \<and> w_status (W_writer (snd res)) = None
      else w_status (W_writer (snd res)) = Some (s_status (fst res)))"

definition handled :: "env \<Rightarrow> (outbound \<Rightarrow> bool) \<Rightarrow> 'l World \<Rightarrow> servedRequest \<times> 'l World \<Rightarrow> bool" where
  "handled E P W res \<longleftrightarrow> (\<exists>es. W_trace (snd res) = W_trace W @ es \<and> list_all (in_slot P) es)
     \<and> (w_status (W_writer W) = None \<longrightarrow> reported E res)"

definition served :: "env \<Rightarrow> (outbound \<Rightarrow> bool) \<Rightarrow> 'l World \<Rightarrow> servedRequest \<times> 'l World \<Rightarrow> bool" where
  "served E P W res \<longleftrightarrow>
     (W_trace (snd res) = W_trace W \<or>
      (\<exists>k mid. W_trace (snd res) = W_trace W @ SlotTaken k # mid @ [SlotReleased k] \<and> list_all (in_slot P) mid))
     \<and> (w_status (W_writer W) = None \<longrightarrow> reported E res)"

lemma ctxErr_emit_released [simp]: "ctxErr E (emit (SlotReleased k) W) = ctxErr E W"
  by (simp add: ctxErr_def sends_def emit_def)

lemma in_slot_simps [simp]:
  "in_slot P (Sent q) = P q" "in_slot P (UsageRecorded b bkt n)" "in_slot P (LogBackend5xx u st d)"
  "\<not> in_slot P (SlotTaken k)" "\<not> in_slot P (SlotReleased k)"
  by (simp_all add: in_slot_def)

lemma handled_refuse:
  assumes "res \<noteq> ''client-cancelled''" "W_trace W1 = W_trace W @ es" "list_all (in_slot P) es" "W_writer W1 = W_writer W"
  shows "handled E P W (refuse E r st code msg res out W1)"
  using assms by (auto simp: handled_def reported_def)

lemma handled_gone:
  assumes "W_trace W1 = W_trace W @ es" "list_all (in_slot P) es" "W_writer W1 = W_writer W" "ctxErr E W1"
  shows "handled E P W (out\<lparr>s_status := statusClientClosedRequest, s_result := ''client-cancelled''\<rparr>, W1)"
  using assms by (auto simp: handled_def reported_def)

lemma served_refuse:
  assumes "res \<noteq> ''client-cancelled''" "W_trace W1 = W_trace W" "W_writer W1 = W_writer W"
  shows "served E P W (refuse E r st code msg res out W1)"
  using assms by (auto simp: served_def reported_def)

text \<open>The frame shared by the three paths: a handler run inside a slot, or the refusal of the slot.\<close>

lemma served_in_slot:
  assumes "W_trace W1 = W_trace W" "W_writer W1 = W_writer W"
    and "acquireSlot E r k W1 = (ok, W2)"
    and "ok \<Longrightarrow> handled E P W2 hres"
    and "res = (if ok then (case hres of (o1, W3) \<Rightarrow> (o1, emit (SlotReleased k) W3)) else (out\<lparr>s_status := 503, s_result := ''concurrency-limited''\<rparr>, W2))"
  shows "served E P W res"
  using assms by (cases ok) (force simp: acquireSlot_def served_def handled_def reported_def split: option.splits prod.splits)+

lemma forward_cases:
  assumes "forward cfg E r body route bkt bn W = (f, W1)"
  obtains (unsent) st code msg res where "f = Refused st code msg res" "res \<in> {''backend-unavailable'', ''bad-request'', ''sign-error''}" "W1 = W"
  | (sent) q n where "outbound_for cfg E r body route bkt bn = Some q" "0 < n" "W1 = W\<lparr>W_trace := W_trace W @ replicate n (Sent q)\<rparr>"
      "f = ClientGone \<and> ctxErr E W1 \<or> (\<exists>msg. f = Refused 502 ''InternalError'' msg ''upstream-error'') \<or> (\<exists>resp. f = Answered q resp)"
proof -
  from assms consider st code msg res where "f = Refused st code msg res" "res \<in> {''backend-unavailable'', ''bad-request'', ''sign-error''}" "W1 = W"
    | u spec req q rs where "Backend (e_target E) bn = Inr (u, spec)" "buildOutbound r body route bkt u = Inr req"
        "signOutbound cfg E req bn spec = Inr q" "doUpstream E q W = (rs, W1)"
        "f = (case rs of Inl err \<Rightarrow> if ctxErr E W1 then ClientGone else Refused 502 ''InternalError'' (te_msg err) ''upstream-error'' | Inr resp \<Rightarrow> Answered q resp)"
    by (fastforce simp: forward_def split: sum.splits prod.splits)
  then show ?thesis
  proof cases
    case 1 then show ?thesis by (rule unsent)
  next
    case 2
    from 2(4) obtain n where "0 < n" "W1 = W\<lparr>W_trace := W_trace W @ replicate n (Sent q)\<rparr>" by (rule doUpstream_world)
    with 2 show ?thesis by (intro sent [of q n]) (auto simp: outbound_for_def split: sum.splits)
  qed
qed

lemma check_quota_frame:
  "check_quota E b bn bkt n W = (m, W1) \<Longrightarrow> W_trace W1 = W_trace W \<and> W_writer W1 = W_writer W"
  by (auto simp: check_quota_def split: option.splits if_splits)

lemma record_usage_frame [simp]:
  "W_trace (record_usage bn bkt n W) = W_trace W @ (if W_quotas W = None then [] else [UsageRecorded bn bkt n])"
  "W_writer (record_usage bn bkt n W) = W_writer W"
  by (auto simp: record_usage_def split: option.splits)

lemma handled_answer:
  assumes "W_trace W1 = W_trace W @ es" "list_all (in_slot P) es" "W_writer W1 = W_writer W" "res \<noteq> ''client-cancelled''"
  shows "handled E P W (out\<lparr>s_status := StatusCode resp, s_result := res\<rparr>, streamResponse resp q W1)"
    "handled E P W (out\<lparr>s_status := StatusCode resp, s_result := res\<rparr>, record_usage bn bkt n (streamResponse resp q W1))"
  using assms by (auto simp: handled_def reported_def trace_streamResponse)

lemma serve_in_slot_handled:
  "handled E (\<lambda>q. Bucket (ClassifyRoute r (HostSuffixes cfg)) \<noteq> [] \<and> EnforceScope (vc_BucketScopes vc) (Bucket (ClassifyRoute r (HostSuffixes cfg)))
      \<and> outbound_for cfg E r body (ClassifyRoute r (HostSuffixes cfg)) (Bucket (ClassifyRoute r (HostSuffixes cfg))) (vc_BackendName vc) = Some q)
    W (serve_in_slot cfg E r body vc out0 W)"
  (is "handled E ?P W _")
proof -
  define route where "route = ClassifyRoute r (HostSuffixes cfg)"
  define op where "op = classifyOperation r route"
  define out where "out = out0\<lparr>s_operation := op, s_bucket := Bucket route, s_key := Key route\<rparr>"
  define upload where "upload \<longleftrightarrow> isUploadOp op \<and> 0 < ContentLength r"
  note defs = serve_in_slot_def Let_def route_def [symmetric] op_def [symmetric] out_def [symmetric] upload_def [symmetric]
  consider "Bucket route = []" | "Bucket route \<noteq> []" "\<not> EnforceScope (vc_BucketScopes vc) (Bucket route)"
    | "Bucket route \<noteq> []" "EnforceScope (vc_BucketScopes vc) (Bucket route)" by blast
  then show ?thesis
  proof cases
    case 1
    then show ?thesis by (simp add: defs handled_def reported_def)
  next
    case 2
    then show ?thesis by (simp add: defs handled_refuse [of _ _ _ "[]"])
  next
    case 3
    obtain m W1 where q: "check_quota E upload (vc_BackendName vc) (Bucket route) (ContentLength r) W = (m, W1)" by force
    note W1 = check_quota_frame [OF q]
    show ?thesis
    proof (cases m)
      case (Some msg)
      with 3 q W1 show ?thesis by (simp add: defs handled_refuse [of _ _ _ "[]"])
    next
      case None
      obtain f W2 where f: "forward cfg E r body route (Bucket route) (vc_BackendName vc) W1 = (f, W2)" by force
      from f show ?thesis
      proof (cases rule: forward_cases)
        case unsent
        with 3 None q W1 f show ?thesis by (auto simp: defs intro!: handled_refuse [of _ _ _ "[]"])
      next
        case (sent sq n)
        define P where "P = ?P"
        have es: "list_all (in_slot P) (replicate n (Sent sq))" using 3 sent by (simp add: P_def route_def list_all_iff)
        have tr: "W_trace W2 = W_trace W @ replicate n (Sent sq)" "W_writer W2 = W_writer W" using sent(3) W1 by simp_all
        note step = 3 None q f defs
        have "handled E P W (serve_in_slot cfg E r body vc out0 W)"
          using sent(4)
        proof (elim disjE exE conjE)
          assume "f = ClientGone" "ctxErr E W2"
          then show ?thesis by (simp add: step handled_gone [OF tr(1) es tr(2)])
        next
          fix msg assume "f = Refused 502 ''InternalError'' msg ''upstream-error''"
          then show ?thesis by (simp add: step handled_refuse [OF _ tr(1) es tr(2)])
        next
          fix resp assume "f = Answered sq resp"
          then show ?thesis
            by (simp add: step) (simp add: handled_answer [OF tr(1) es tr(2)])
        qed
        then show ?thesis by (simp only: P_def)
      qed
    qed
  qed
qed

lemma serve_anon_slot_handled:
  "handled E (\<lambda>q. outbound_for cfg E r (RawBody (Body r)) route (ab_BucketName b) (ab_BackendName b) = Some q) W
     (serve_anon_slot cfg E r route b out W)" (is "handled E ?P W _")
proof -
  obtain f W2 where f: "forward cfg E r (RawBody (Body r)) route (ab_BucketName b) (ab_BackendName b) W = (f, W2)" by force
  from f show ?thesis
  proof (cases rule: forward_cases)
    case unsent
    with f show ?thesis by (auto simp: serve_anon_slot_def intro!: handled_refuse [of _ _ _ "[]"])
  next
    case (sent sq n)
    define P where "P = ?P"
    have es: "list_all (in_slot P) (replicate n (Sent sq))" using sent by (simp add: P_def list_all_iff)
    have tr: "W_trace W2 = W_trace W @ replicate n (Sent sq)" "W_writer W2 = W_writer W" using sent(3) by simp_all
    have "handled E P W (serve_anon_slot cfg E r route b out W)"
      using sent(4)
    proof (elim disjE exE conjE)
      assume "f = ClientGone" "ctxErr E W2"
      then show ?thesis by (simp add: serve_anon_slot_def f handled_gone [OF tr(1) es tr(2)])
    next
      fix msg assume "f = Refused 502 ''InternalError'' msg ''upstream-error''"
      then show ?thesis by (simp add: serve_anon_slot_def f handled_refuse [OF _ tr(1) es tr(2)])
    next
      fix resp assume "f = Answered sq resp"
      then show ?thesis by (simp add: serve_anon_slot_def f) (simp add: handled_answer [OF tr(1) es tr(2)])
    qed
    then show ?thesis by (simp only: P_def)
  qed
qed

section \<open>Whole paths\<close>

text \<open>Why a request on the signed path may be sent.\<close>

definition signed_ok :: "('l, 'ip) Config \<Rightarrow> env \<Rightarrow> request \<Rightarrow> 'l World \<Rightarrow> outbound \<Rightarrow> bool" where
  "signed_ok cfg E r W q \<longleftrightarrow>
     (let route = ClassifyRoute r (HostSuffixes cfg)
      in Bucket route \<noteq> [] \<and>
         (\<exists>res r1 body vc. fst (Verify (verifier_of E (W_source W)) (W_keys W) r) = Inr res \<and> decode_body r res = Some (r1, body)
            \<and> fst (MergedSource_Lookup (e_later E) (AccessKeyID res) (e_reload E (W_source W))) = Some vc
            \<and> EnforceScope (vc_BucketScopes vc) (Bucket route)
            \<and> outbound_for cfg E r1 body route (Bucket route) (vc_BackendName vc) = Some q))"

definition anonymous_ok :: "('l, 'ip) Config \<Rightarrow> env \<Rightarrow> request \<Rightarrow> 'l World \<Rightarrow> outbound \<Rightarrow> bool" where
  "anonymous_ok cfg E r W q \<longleftrightarrow>
     (let route = ClassifyRoute r (HostSuffixes cfg)
      in Bucket route \<noteq> [] \<and>
         (\<exists>b. MergedSource_LookupAnon (W_source W) (Bucket route) = Some b
            \<and> AnonymousOpAllowed (ab_Mode b) (classifyOperation r route) (Query (URL r))
            \<and> outbound_for cfg E r (RawBody (Body r)) route (ab_BucketName b) (ab_BackendName b) = Some q))"

lemma match_suffix_cong: "Path (URL r1) = Path (URL r) \<Longrightarrow> match_suffix r1 host sufs = match_suffix r host sufs"
  by (induction r host sufs rule: match_suffix.induct) (auto simp: Let_def)

lemma decode_body_keeps: "decode_body r res = Some (r1, body) \<Longrightarrow> URL r1 = URL r \<and> Host r1 = Host r \<and> Method r1 = Method r"
  unfolding decode_body_def Let_def by (simp only: split: if_split_asm option.split_asm) auto

lemma decode_body_route: "decode_body r res = Some (r1, body) \<Longrightarrow> ClassifyRoute r1 sufs = ClassifyRoute r sufs"
  unfolding ClassifyRoute_def using decode_body_keeps [of r res r1 body] match_suffix_cong [of r1 r]
  by (simp add: Let_def split: option.split)

lemma auth_failure_reason: "snd (auth_failure e) \<noteq> ''client-cancelled''"
  by (cases e) (simp_all add: auth_failure_def)

lemma served_auth_failure:
  assumes "W_trace W1 = W_trace W" "W_writer W1 = W_writer W"
  shows "served E P W (writeAuthFailure E err out W1)"
  using assms auth_failure_reason [of err] by (auto simp: writeAuthFailure_def served_def reported_def split: prod.splits)

lemma handled_mono: "handled E P W res \<Longrightarrow> (\<And>q. P q \<Longrightarrow> Q q) \<Longrightarrow> handled E Q W res"
  unfolding handled_def by (fastforce simp: list_all_iff in_slot_def split: effect.splits)

lemma serveSigned_served: "served E (signed_ok cfg E r W) W (serveSigned cfg E r W)"
proof -
  define out where "out = zeroServed\<lparr>s_operation := ''Unknown'',
      s_authMode := (if values_Get (Query (URL r)) ''X-Amz-Signature'' \<noteq> [] then ''presigned'' else ''signed'')\<rparr>"
  obtain v ks where v: "Verify (verifier_of E (W_source W)) (W_keys W) r = (v, ks)" by force
  note defs = serveSigned_def Let_def out_def [symmetric] v
  show ?thesis
  proof (cases v)
    case (Inl err)
    then show ?thesis by (simp add: defs served_auth_failure)
  next
    case (Inr res)
    define W1 where "W1 = W\<lparr>W_keys := ks, W_source := e_reload E (W_source W)\<rparr>"
    show ?thesis
    proof (cases "decode_body r res")
      case None
      then show ?thesis by (simp add: defs Inr served_refuse)
    next
      case (Some d)
      obtain r1 body where d: "d = (r1, body)" by force
      obtain l src where l: "MergedSource_Lookup (e_later E) (AccessKeyID res) (e_reload E (W_source W)) = (l, src)" by force
      show ?thesis
      proof (cases l)
        case None
        then show ?thesis by (simp add: defs Inr Some d l served_refuse)
      next
        case vc: (Some vc)
        obtain ok lm where a: "Limiter_Allow (RateOps cfg) (e_later E) (vc_AccessKeyID vc) (W_limiter W) = (ok, lm)" by force
        define out1 where "out1 = out\<lparr>s_akid := vc_AccessKeyID vc, s_backend := vc_BackendName vc, s_source := vc_Source vc,
            s_claimNS := vc_ClaimNamespace vc, s_claimName := vc_ClaimName vc\<rparr>"
        define W2 where "W2 = W\<lparr>W_keys := ks, W_source := src, W_limiter := lm\<rparr>"
        obtain ok' W3 where s: "acquireSlot E r (vc_AccessKeyID vc) W2 = (ok', W3)" by force
        have h: "handled E (signed_ok cfg E r W) W3 (serve_in_slot cfg E r1 body vc out1 W3)"
          by (rule handled_mono [OF serve_in_slot_handled])
            (use v Inr Some d l vc decode_body_route in \<open>auto simp: signed_ok_def Let_def\<close>)
        show ?thesis
        proof (cases ok)
          case False
          then show ?thesis by (simp add: defs Inr Some d l vc a served_refuse)
        next
          case True
          show ?thesis
            by (rule served_in_slot [OF _ _ s h, where out = out1])
              (simp_all add: defs Inr Some d l vc a True s W2_def [symmetric] out1_def [symmetric] split: bool.split, simp_all add: W2_def)
        qed
      qed
    qed
  qed
qed

lemma serveAnonymous_served: "served E (anonymous_ok cfg E r W) W (serveAnonymous cfg E r W)"
proof -
  define route where "route = ClassifyRoute r (HostSuffixes cfg)"
  define out where "out = zeroServed\<lparr>s_operation := classifyOperation r route, s_source := ''anonymous'', s_bucket := Bucket route, s_key := Key route\<rparr>"
  note defs = serveAnonymous_def Let_def route_def [symmetric] out_def [symmetric]
  consider "Bucket route = []" | "Bucket route \<noteq> []" "MergedSource_LookupAnon (W_source W) (Bucket route) = None"
    | b where "Bucket route \<noteq> []" "MergedSource_LookupAnon (W_source W) (Bucket route) = Some b" by (cases "MergedSource_LookupAnon (W_source W) (Bucket route)") auto
  then show ?thesis
  proof cases
    case 1
    then show ?thesis by (simp add: defs served_refuse)
  next
    case 2
    then show ?thesis by (simp add: defs served_refuse)
  next
    case (3 b)
    define out1 where "out1 = out\<lparr>s_backend := ab_BackendName b\<rparr>"
    define ip where "ip = ClientIP (ParseIP cfg) r (TrustedProxies cfg)"
    obtain ok lm where a: "IPLimiter_AllowAt (RateOps cfg) (e_now E) ip (ab_PerSourceIPRPS b) (W_ip W) = (ok, lm)" by force
    define W1 where "W1 = W\<lparr>W_ip := lm\<rparr>"
    obtain ok' W2 where s: "acquireSlot E r (''anon:'' @ ip) W1 = (ok', W2)" by force
    note step = defs 3 a out1_def [symmetric] ip_def [symmetric] W1_def [symmetric] s
    have op: "s_operation out1 = classifyOperation r route" by (simp add: out1_def out_def)
    show ?thesis
    proof (cases "AnonymousOpAllowed (ab_Mode b) (classifyOperation r route) (Query (URL r))")
      case False
      then show ?thesis by (simp add: step op served_refuse)
    next
      case True
      then have h: "handled E (anonymous_ok cfg E r W) W2 (serve_anon_slot cfg E r route b out1 W2)"
        by (intro handled_mono [OF serve_anon_slot_handled]) (use 3 in \<open>auto simp: anonymous_ok_def Let_def route_def [symmetric]\<close>)
      show ?thesis
      proof (cases ok)
        case False
        then show ?thesis using True by (simp add: step op served_refuse, simp add: W1_def served_refuse)
      next
        case ok: True
        show ?thesis
          by (rule served_in_slot [OF _ _ s h, where out = out1])
            (simp_all add: step op True ok del: append_Cons append_Nil split: bool.split, simp_all add: W1_def)
      qed
    qed
  qed
qed

section \<open>A concrete deployment\<close>

definition ex_env :: env where
  "ex_env = \<lparr>e_reqID = ''r1'', e_now = 0, e_later = 0, e_rfc1123 = (\<lambda>_. None), e_reload = (\<lambda>s. s), e_slot = (\<lambda>_. None),
     e_listing = (\<lambda>_. None), e_deadline = 0,
     e_target = (\<lambda>b. if b = ''main'' then Inr (Some \<lparr>t_Endpoint = \<lparr>Scheme = ''http'', UHost = ''minio:9000'', Path = [], RawPath = [], RawQuery = []\<rparr>,
        t_Region = [], t_PathStyle = True, t_AccessKey = ''adm'', t_SecretKey = ''pw''\<rparr>) else Inr None),
     e_sign = (\<lambda>c region q. Inr (header_Set ''Authorization'' (cr_AccessKeyID c) (o_Header q))),
     e_roundTrip = (\<lambda>i q. Inr \<lparr>StatusCode = 200, rHeader = [], rContentLength = 3, rBody = (''cat'', None)\<rparr>),
     e_ctxErr = (\<lambda>_. False), e_rand = 0, e_form = Inl ''no form'', e_parseURL = (\<lambda>_. Inl ''bad''), e_fileRead = 0\<rparr>"

definition ex_config :: "(bucket, nat) Config" where
  "ex_config = \<lparr>HostSuffixes = [], BucketCreated = 0, PublicHostname = [], AnonymousEnabled = True, TrustedProxies = None, ParseIP = (\<lambda>_. None),
     HasCORSSource = True, HasAudit = True, SuccessReadAuditRate = 1, RateOps = tb_ops, AdminCredsOverride = None\<rparr>"

definition ex_world :: "bucket World" where
  "ex_world = \<lparr>W_source = NewMergedSource False [Some (SqliteSrc (NewSQLiteSource\<lparr>ss_byBucket := [(''photos'',
        \<lparr>ab_BackendName = ''main'', ab_BucketName = ''photos'', ab_Mode = AnonModeReadOnly, ab_PerSourceIPRPS = 0, ab_Source = ''sqlite''\<rparr>)]\<rparr>))],
     W_keys = Map.empty, W_limiter = NewLimiter tb_ops 0 0, W_ip = NewIPLimiter 0, W_quotas = None,
     W_writer = \<lparr>w_header = [], w_status = None, w_body = []\<rparr>, W_trace = []\<rparr>"

definition ex_get :: request where
  "ex_get = ex_request\<lparr>URL := ex_url\<lparr>RawQuery := []\<rparr>\<rparr>"

definition effect_tag :: "effect \<Rightarrow> string" where
  "effect_tag e = (case e of SlotTaken k \<Rightarrow> ''taken '' @ k | SlotReleased k \<Rightarrow> ''released '' @ k | Sent q \<Rightarrow> ''sent '' @ o_Method q @ '' '' @ url_String (o_URL q)
     | UsageRecorded _ _ n \<Rightarrow> ''usage '' @ FormatInt n | Audited ev \<Rightarrow> ''audited '' @ a_Status ev | LogBackend5xx _ _ _ \<Rightarrow> ''backend 5xx'' | LogRequest _ _ _ _ \<Rightarrow> ''logged'')"

section \<open>Attempts\<close>

lemma sends_upd [simp]: "sends (W\<lparr>W_trace := W_trace W @ replicate n (Sent q)\<rparr>) = sends W + n"
  by (simp add: sends_def)

lemma buildOutbound_body:
  assumes "buildOutbound r body route bkt u = Inr req"
  shows "o_Body req \<noteq> None \<and> (o_GetBody req \<longrightarrow> 0 < ContentLength r \<and> ContentLength r \<le> maxReplayableBody)"
  using assms by (auto simp: buildOutbound_def outbound_body_def split: sum.splits if_splits option.splits)

lemma signOutbound_keeps:
  assumes "signOutbound cfg E req bn spec = Inr q"
  shows "o_Method q = o_Method req \<and> o_URL q = o_URL req \<and> o_Host q = o_Host req \<and> o_Body q = o_Body req
    \<and> o_GetBody q = o_GetBody req \<and> o_ContentLength q = o_ContentLength req"
  using assms by (auto simp: signOutbound_def Let_def split: sum.splits)

text \<open>The attempts of an idempotent request, counted from the first: each but the last failed or was answered 502, 503 or 504
  while the client was there.\<close>

definition worth_retry :: "transport_err + response \<Rightarrow> bool" where
  "worth_retry res \<longleftrightarrow> (case res of Inl _ \<Rightarrow> True | Inr resp \<Rightarrow> isRetryableStatus (StatusCode resp))"

lemma idempotent_attempts_run:
  assumes "idempotent_attempts E q k attempt prev W = (res, W1)" "0 < k" "attempt = 0 \<or> \<not> e_ctxErr E (sends W)"
  shows "\<exists>n. 0 < n \<and> n \<le> k \<and> W1 = W\<lparr>W_trace := W_trace W @ replicate n (Sent q)\<rparr>
    \<and> (\<forall>i < n - 1. worth_retry (e_roundTrip E (sends W + i) q) \<and> \<not> e_ctxErr E (sends W + i + 1))
    \<and> (n < k \<longrightarrow> \<not> worth_retry (e_roundTrip E (sends W + n - 1) q) \<or> e_ctxErr E (sends W + n))
    \<and> (res = e_roundTrip E (sends W + n - 1) q \<or> res = Inl ctx_error \<and> e_ctxErr E (sends W + n))"
  using assms
proof (induction k arbitrary: attempt prev W)
  case (Suc k)
  let ?W = "W\<lparr>W_trace := W_trace W @ replicate 1 (Sent q)\<rparr>"
  have s: "sends ?W = sends W + 1" by (simp only: sends_upd)
  have eq: "idempotent_attempts E q (Suc k) attempt prev W = (case e_roundTrip E (sends W) q of
      Inl err \<Rightarrow> if e_ctxErr E (sends W + 1) then (Inl err, ?W) else idempotent_attempts E q k (attempt + 1) (Inl err) ?W
    | Inr resp \<Rightarrow> if \<not> isRetryableStatus (StatusCode resp) then (Inr resp, ?W) else idempotent_attempts E q k (attempt + 1) (Inr resp) ?W)"
    using Suc.prems(3) sends_upd [of W 1 q] by (auto simp: RoundTrip_world ctxErr_def split: sum.splits)
  consider (last) "(res, W1) = (e_roundTrip E (sends W) q, ?W)" "\<not> worth_retry (e_roundTrip E (sends W) q) \<or> e_ctxErr E (sends W + 1) \<or> k = 0"
    | (gone) k' where "k = Suc k'" "res = Inl ctx_error" "W1 = ?W" "e_ctxErr E (sends W + 1)"
    | (again) "0 < k" "worth_retry (e_roundTrip E (sends W) q)" "\<not> e_ctxErr E (sends W + 1)"
        "idempotent_attempts E q k (attempt + 1) (e_roundTrip E (sends W) q) ?W = (res, W1)"
    using Suc.prems(1) s unfolding eq
    by (cases k; cases "e_roundTrip E (sends W) q"; cases "e_ctxErr E (sends W + 1)") (auto simp: worth_retry_def ctxErr_def split: if_splits)
  then show ?case
  proof cases
    case last
    then show ?thesis by (intro exI [of _ 1]) auto
  next
    case gone
    then show ?thesis by (intro exI [of _ 1]) auto
  next
    case again
    from Suc.IH [OF again(4,1)] s again(3) obtain n where n: "0 < n" "n \<le> k" "W1 = ?W\<lparr>W_trace := W_trace ?W @ replicate n (Sent q)\<rparr>"
      "\<forall>i < n - 1. worth_retry (e_roundTrip E (sends W + 1 + i) q) \<and> \<not> e_ctxErr E (sends W + 1 + i + 1)"
      "n < k \<longrightarrow> \<not> worth_retry (e_roundTrip E (sends W + 1 + n - 1) q) \<or> e_ctxErr E (sends W + 1 + n)"
      "res = e_roundTrip E (sends W + 1 + n - 1) q \<or> res = Inl ctx_error \<and> e_ctxErr E (sends W + 1 + n)"
      unfolding s by blast
    have "worth_retry (e_roundTrip E (sends W + i) q) \<and> \<not> e_ctxErr E (sends W + i + 1)" if "i < Suc n - 1" for i
      using n(4) again(2,3) that by (cases i) auto
    with n show ?thesis by (intro exI [of _ "Suc n"]) auto
  qed
qed simp

text \<open>C32: What the round trip to a backend does, for every behaviour of the transport. A GET, HEAD or DELETE without a body is tried up to three
  times: again exactly when an attempt failed or was answered 502, 503 or 504, the client is still there and tries are left. Any other
  request is tried at most twice: again exactly when the first attempt found the
  keep-alive connection dead, the client is still there, and the body can be replayed or there is none. All attempts put the same request on the wire, and
  the answer passed on is that of the last one, unless the client left while the next was awaited.\<close>

theorem upstream_attempts:
  assumes "doUpstream E q W = (res, W1)"
  shows "\<exists>n. 0 < n \<and> W1 = W\<lparr>W_trace := W_trace W @ replicate n (Sent q)\<rparr>
    \<and> (if isIdempotentMethod (o_Method q) \<and> o_Body q = None
       then n \<le> 3
         \<and> (\<forall>i < n - 1. worth_retry (e_roundTrip E (sends W + i) q) \<and> \<not> e_ctxErr E (sends W + i + 1))
         \<and> (n < 3 \<longrightarrow> \<not> worth_retry (e_roundTrip E (sends W + n - 1) q) \<or> e_ctxErr E (sends W + n))
         \<and> (res = e_roundTrip E (sends W + n - 1) q \<or> res = Inl ctx_error \<and> e_ctxErr E (sends W + n))
       else n \<le> 2 \<and> res = e_roundTrip E (sends W + n - 1) q
         \<and> (n = 2 \<longleftrightarrow> (\<exists>err. e_roundTrip E (sends W) q = Inl err \<and> isStaleConnErr err) \<and> \<not> e_ctxErr E (sends W + 1)
               \<and> (o_Body q = None \<or> o_GetBody q)))"
proof (cases "isIdempotentMethod (o_Method q) \<and> o_Body q = None")
  case True
  then have "idempotent_attempts E q 3 0 (Inl ctx_error) W = (res, W1)"
    using assms by (simp add: doUpstream_def doUpstreamIdempotent_def upstreamIdempotentAttempts_def)
  from idempotent_attempts_run [OF this] True show ?thesis by auto
next
  case False
  have W: "W\<lparr>W_trace := W_trace W @ [Sent q]\<rparr> = W\<lparr>W_trace := W_trace W @ replicate 1 (Sent q)\<rparr>" by simp
  let ?again = "(\<exists>err. e_roundTrip E (sends W) q = Inl err \<and> isStaleConnErr err) \<and> \<not> e_ctxErr E (sends W + 1) \<and> (o_Body q = None \<or> o_GetBody q)"
  from assms False consider "res = e_roundTrip E (sends W) q" "W1 = W\<lparr>W_trace := W_trace W @ replicate 1 (Sent q)\<rparr>" "\<not> ?again"
    | "?again" "res = e_roundTrip E (sends W + 1) q" "W1 = W\<lparr>W_trace := W_trace W @ replicate 2 (Sent q)\<rparr>"
    unfolding doUpstream_def RoundTrip_world ctxErr_def W
    by (auto simp del: replicate_Suc simp: numeral_2_eq_2 replicate_append_same split: sum.splits if_splits) simp_all
  then show ?thesis
  proof cases
    case 1 then show ?thesis using False by (intro exI [of _ 1]) auto
  next
    case 2 then show ?thesis using False by (intro exI [of _ 2]) auto
  qed
qed

definition ex_put :: request where
  "ex_put = ex_get\<lparr>Method := ''PUT'', ContentLength := 3, Body := (''cat'', None)\<rparr>"

text \<open>A backend that is busy twice is asked three times; a PUT whose connection was dead goes out twice.\<close>

definition ex_busy :: env where
  "ex_busy = ex_env\<lparr>e_roundTrip := (\<lambda>i q. if i < 2 then Inr \<lparr>StatusCode = 503, rHeader = [], rContentLength = 0, rBody = ([], None)\<rparr> else e_roundTrip ex_env i q)\<rparr>"

definition ex_stale :: env where
  "ex_stale = ex_env\<lparr>e_roundTrip := (\<lambda>i q. if i = 0 then Inl \<lparr>te_msg = ''EOF'', te_is = [IsEOF]\<rparr> else e_roundTrip ex_env i q)\<rparr>"

definition ex_out :: "string \<Rightarrow> out_body option \<Rightarrow> outbound" where
  "ex_out m body = \<lparr>o_Method = m, o_URL = ex_url, o_Host = ''minio:9000'', o_Header = [], o_Body = body, o_GetBody = True, o_ContentLength = 0\<rparr>"

theorem upstream_attempts_witness:
  "sends (snd (doUpstream ex_busy (ex_out ''GET'' None) ex_world)) = 3 \<and> fst (doUpstream ex_busy (ex_out ''GET'' None) ex_world) = e_roundTrip ex_env 2 (ex_out ''GET'' None)
   \<and> sends (snd (doUpstream ex_stale (ex_out ''PUT'' (Some (Buffered ''cat''))) ex_world)) = 2"
proof -
  obtain res W1 res' W1' where r: "doUpstream ex_busy (ex_out ''GET'' None) ex_world = (res, W1)"
    "doUpstream ex_stale (ex_out ''PUT'' (Some (Buffered ''cat''))) ex_world = (res', W1')" by force
  have w: "sends ex_world = 0" by (simp add: sends_def ex_world_def)
  have b: "\<not> e_ctxErr ex_busy n" "worth_retry (e_roundTrip ex_busy i q) \<longleftrightarrow> i < 2" "e_roundTrip ex_busy 2 q = e_roundTrip ex_env 2 q" for n i q
    by (auto simp: ex_busy_def ex_env_def worth_retry_def isRetryableStatus_def)
  obtain n where "0 < n" "n \<le> 3" "W1 = ex_world\<lparr>W_trace := W_trace ex_world @ replicate n (Sent (ex_out ''GET'' None))\<rparr>"
    "n < 3 \<longrightarrow> \<not> n - 1 < 2" "res = e_roundTrip ex_busy (n - 1) (ex_out ''GET'' None)"
    using upstream_attempts [OF r(1)] w b by (auto simp: ex_out_def isIdempotentMethod_def)
  then have 1: "sends W1 = 3 \<and> res = e_roundTrip ex_env 2 (ex_out ''GET'' None)" using w b(3) by (cases "n = 3") auto
  have c: "\<not> e_ctxErr ex_stale n" "\<exists>err. e_roundTrip ex_stale 0 q = Inl err \<and> isStaleConnErr err" for n q
    by (auto simp: ex_stale_def ex_env_def isStaleConnErr_def)
  obtain n where "W1' = ex_world\<lparr>W_trace := W_trace ex_world @ replicate n (Sent (ex_out ''PUT'' (Some (Buffered ''cat''))))\<rparr>" "n = 2"
    using upstream_attempts [OF r(2)] w c by (auto simp: ex_out_def isIdempotentMethod_def)
  with 1 r w show ?thesis by simp
qed

section \<open>Quota\<close>

lemma CheckUpload_deadline: "CheckUpload (scan_deadline n reg) now b k add svc \<noteq> None"
  by (rule CheckUpload_returns) (use scan_deadline_ends in blast)

lemma forward_quotas: "forward cfg E r body route bkt bn W = (f, W1) \<Longrightarrow> W_quotas W1 = W_quotas W"
  by (erule forward_cases) simp_all

lemma record_usage_quotas [simp]: "W_quotas (record_usage bn bkt n W) = map_option (Recorded bn bkt n) (W_quotas W)"
  by (simp add: record_usage_def split: option.splits)

text \<open>C26: An upload of declared length \<open>n > 0\<close> is put to the quota service before anything is sent: when the service
  refuses it, the client gets 507 and nothing leaves the proxy; otherwise the service counts \<open>n\<close> more
  bytes exactly when the backend stored the object (an answer below 400). The check always returns.\<close>

theorem upload_quota_gate:
  assumes "serve_in_slot cfg E r body vc out0 W = (out, W')" "W_quotas W = Some svc"
    and "route = ClassifyRoute r (HostSuffixes cfg)" "Bucket route \<noteq> []" "EnforceScope (vc_BucketScopes vc) (Bucket route)"
    and "isUploadOp (classifyOperation r route)" "0 < ContentLength r"
  shows "\<exists>verdict svc1. CheckUpload (scan_deadline (e_deadline E) (e_listing E)) (e_later E) (vc_BackendName vc) (Bucket route) (ContentLength r) svc
           = Some (verdict, svc1) \<and>
      (if verdict \<noteq> None then s_status out = 507 \<and> W_trace W' = W_trace W \<and> W_quotas W' = Some svc1
       else W_quotas W' = Some (if s_result out = ''ok'' \<and> s_status out < 400
                                then Recorded (vc_BackendName vc) (Bucket route) (ContentLength r) svc1 else svc1))"
proof -
  define op where "op = classifyOperation r route"
  have op: "isUploadOp op" using assms(6) by (simp add: op_def)
  have "op \<noteq> ''CompleteMultipartUpload''" using op by (auto simp: isUploadOp_def uploadOps_def)
  note defs = serve_in_slot_def Let_def assms(3) [symmetric] assms(2,4,5) op_def [symmetric] op assms(7) this
  obtain v q where v: "CheckUpload (scan_deadline (e_deadline E) (e_listing E)) (e_later E) (vc_BackendName vc) (Bucket route) (ContentLength r) svc = Some (v, q)"
    using CheckUpload_deadline by fastforce
  define W1 where "W1 = W\<lparr>W_quotas := Some q\<rparr>"
  have cq: "check_quota E True (vc_BackendName vc) (Bucket route) (ContentLength r) W = (map_option quota_text v, W1)"
    by (simp add: check_quota_def assms(2) v W1_def)
  show ?thesis
  proof (cases "v \<noteq> None")
    case True
    then have "s_status out = 507 \<and> W_trace W' = W_trace W1 \<and> W_quotas W' = W_quotas W1"
      using assms(1) cq by (auto simp: defs refuse_def)
    then show ?thesis using v True by (auto simp: W1_def)
  next
    case False
    obtain f W2 where f: "forward cfg E r body route (Bucket route) (vc_BackendName vc) W1 = (f, W2)" by force
    have q2: "W_quotas W2 = Some q" using forward_quotas [OF f] by (simp add: W1_def)
    have "W_quotas W' = (if s_result out = ''ok'' \<and> s_status out < 400
        then Some (Recorded (vc_BackendName vc) (Bucket route) (ContentLength r) q) else Some q)"
      using f
    proof (cases rule: forward_cases)
      case unsent
      then show ?thesis using assms(1) False cq f q2 by (auto simp: defs refuse_def)
    next
      case (sent sq n)
      then show ?thesis using assms(1) False cq f q2 by (auto simp: defs refuse_def split: if_splits)
    qed
    then show ?thesis using v False by auto
  qed
qed

definition ex_vc :: VirtualCredential where
  "ex_vc = \<lparr>vc_AccessKeyID = ''AKIA'', vc_SecretAccessKey = ''s3cr3t'', vc_BucketScopes = [\<lparr>bs_BucketName = ''k'', bs_BackendName = ''b''\<rparr>],
     vc_BackendName = ''b'', vc_ExpiresAt = None, vc_UserID = [], vc_ClaimNamespace = [], vc_ClaimName = [], vc_Source = ''sqlite''\<rparr>"

text \<open>With 40 of 100 bytes used, 70 more are refused.\<close>

theorem upload_quota_gate_witness:
  "let r = ex_put\<lparr>URL := ex_url\<lparr>Path := ''/k/x'', RawQuery := []\<rparr>, ContentLength := 70\<rparr>; W = ex_world\<lparr>W_quotas := Some ex_service\<rparr>;
       res = serve_in_slot ex_config ex_env r (RawBody (Body r)) ex_vc zeroServed W
   in s_status (fst res) = 507 \<and> W_trace (snd res) = W_trace W"
proof -
  define r where "r = ex_put\<lparr>URL := ex_url\<lparr>Path := ''/k/x'', RawQuery := []\<rparr>, ContentLength := 70\<rparr>"
  define W where "W = ex_world\<lparr>W_quotas := Some ex_service\<rparr>"
  have 1: "W_quotas W = Some ex_service" by (simp add: W_def)
  have 2: "Bucket (ClassifyRoute r (HostSuffixes ex_config)) = ''k''" "EnforceScope (vc_BucketScopes ex_vc) ''k''"
    "isUploadOp (classifyOperation r (ClassifyRoute r (HostSuffixes ex_config)))" "0 < ContentLength r"
    "map_option fst (CheckUpload (scan_deadline (e_deadline ex_env) (e_listing ex_env)) (e_later ex_env) (vc_BackendName ex_vc) ''k'' (ContentLength r) ex_service)
       = Some (Some (ErrQuotaExceeded 40 70 100))"
    unfolding r_def by code_simp+
  obtain out W' where res: "serve_in_slot ex_config ex_env r (RawBody (Body r)) ex_vc zeroServed W = (out, W')" by force
  have "s_status out = 507 \<and> W_trace W' = W_trace W"
    using upload_quota_gate [OF res 1 refl] 2 by (auto split: if_splits)
  then have "s_status (fst (serve_in_slot ex_config ex_env r (RawBody (Body r)) ex_vc zeroServed W)) = 507
      \<and> W_trace (snd (serve_in_slot ex_config ex_env r (RawBody (Body r)) ex_vc zeroServed W)) = W_trace W"
    by (simp add: res)
  then show ?thesis by (simp add: Let_def r_def W_def)
qed

lemma outbound_for_target:
  assumes "outbound_for cfg E r body route bkt bn = Some q"
  obtains u spec where "Backend (e_target E) bn = Inr (u, spec)" "o_Method q = Method r" "o_Host q = UHost u"
    "o_URL q = outbound_url u bkt (Key route) (StripPresignedQuery (RawQuery (URL r)))"
proof -
  obtain u spec req where 1: "Backend (e_target E) bn = Inr (u, spec)" "buildOutbound r body route bkt u = Inr req" "signOutbound cfg E req bn spec = Inr q"
    using assms by (auto simp: outbound_for_def split: sum.splits)
  have "o_Method req = Method r \<and> o_Host req = UHost u \<and> o_URL req = outbound_url u bkt (Key route) (StripPresignedQuery (RawQuery (URL r)))"
    using 1(2) by (auto simp: buildOutbound_def split: sum.splits if_splits)
  then show ?thesis using that [OF 1(1)] signOutbound_keeps [OF 1(3)] by auto
qed

end
