(* ===== verification/Post_Object.thy ===== *)
theory Post_Object
  imports Proxy_Server Post_Policy
begin

text \<open>
  Browser-form uploads (\<^verbatim>\<open>internal/s3proxy/postobject.go\<close>): reading the form, verifying the signed policy,
  enforcing it, and forwarding the file part under the policy's size limits. The form as
  \<^verbatim>\<open>mime/multipart\<close> splits it, \<^verbatim>\<open>url.Parse\<close> on the redirect target and the number of file bytes the
  transport reads before the backend answers are fields of \<open>env\<close>. Error messages that quote values or wrap
  the text of a library error are shortened, and a backend URL is taken to be parsable again once printed.
\<close>

section \<open>Limits of a form\<close>

definition maxFieldBytes :: nat where "maxFieldBytes = 65536"
definition maxNonFileBytes :: nat where "maxNonFileBytes = 1048576"
definition maxFormFields :: nat where "maxFormFields = 64"
definition defaultFileMax :: int where "defaultFileMax = 5368709120"

section \<open>The capped file reader\<close>

datatype read_err = REof | RFileTooLarge | ROther string

record countingLimitedReader =
  c_r :: stream
  c_max :: int
  c_total :: int
  c_closed :: bool

text \<open>One read from the file part: at most \<open>avail\<close> bytes are at hand, and the end may be reported together
  with the last bytes (\<open>eager\<close>) or by the next read.\<close>

definition part_read :: "nat \<Rightarrow> nat \<Rightarrow> bool \<Rightarrow> stream \<Rightarrow> string \<times> read_err option \<times> stream" where
  "part_read m avail eager s =
     (let n = min m (Suc avail); rest = drop n (fst s);
          fin = (case snd s of None \<Rightarrow> REof | Some e \<Rightarrow> ROther e)
      in (take n (fst s), if fst s = [] \<or> rest = [] \<and> eager then Some fin else None, (rest, snd s)))"

definition countingLimitedReader_Read ::
  "nat \<Rightarrow> nat \<Rightarrow> bool \<Rightarrow> countingLimitedReader \<Rightarrow> string \<times> read_err option \<times> countingLimitedReader" where
  "countingLimitedReader_Read m avail eager c =
     (if c_closed c then ([], Some REof, c)
      else if c_max c \<le> c_total c then ([], Some RFileTooLarge, c)
      else let remaining = c_max c - c_total c;
               p = (if remaining < int m then nat remaining else m)
           in case part_read p avail eager (c_r c) of
             (d, err, s) \<Rightarrow> (d, err, c\<lparr>c_r := s, c_total := c_total c + int (length d)\<rparr>))"

section \<open>Reading the form\<close>

type_synonym fields = "(string \<times> string) list"

text \<open>The loop of \<^verbatim>\<open>readPostForm\<close>: the fields before the file part, and that part if there is one.\<close>

fun read_parts :: "part list \<Rightarrow> string option \<Rightarrow> fields \<Rightarrow> nat \<Rightarrow> string + (fields \<times> part option)" where
  "read_parts [] e flds aggregate = (case e of None \<Rightarrow> Inr (flds, None) | Some err \<Rightarrow> Inl (''read part: '' @ err))"
| "read_parts (p # ps) e flds aggregate =
     (let name = ToLower (FormName p)
      in if name = [] then read_parts ps e flds aggregate
         else if name = ''file'' then Inr (flds, Some p)
         else if maxFormFields \<le> length flds then Inl ''form has too many fields''
         else case read_limited (RawBody (Content p)) (int maxFieldBytes + 1) of
           None \<Rightarrow> Inl (''read field '' @ name)
         | Some buf \<Rightarrow>
             if maxFieldBytes < length buf then Inl (''form field too long: '' @ name)
             else if maxNonFileBytes < aggregate + length buf then Inl ''non-file fields too long''
             else read_parts ps e (AList.update name buf flds) (aggregate + length buf))"

definition readPostForm :: "form \<Rightarrow> string + (fields \<times> part option)" where
  "readPostForm f = read_parts (fst f) (snd f) [] 0"

abbreviation field :: "fields \<Rightarrow> string \<Rightarrow> string" where "field flds k \<equiv> lookup_or [] flds k"

text \<open>\<^verbatim>\<open>parseRedirect\<close>: absent, refused, or an http(s) URL with a host.\<close>

definition parseRedirect :: "(string \<Rightarrow> string + url) \<Rightarrow> string \<Rightarrow> string + url option" where
  "parseRedirect parseURL raw =
     (if raw = [] then Inr None
      else case parseURL raw of
        Inl err \<Rightarrow> Inl (''success_action_redirect: '' @ err)
      | Inr u \<Rightarrow>
          if Scheme u \<noteq> ''http'' \<and> Scheme u \<noteq> ''https'' then Inl (''success_action_redirect scheme not allowed: '' @ Scheme u)
          else if UHost u = [] then Inl ''success_action_redirect missing host''
          else Inr (Some u))"

section \<open>Requests to the backend\<close>

definition postHeaderFields :: "string list" where
  "postHeaderFields = [''cache-control'', ''content-disposition'', ''content-encoding'', ''expires'',
     ''x-amz-acl'', ''x-amz-storage-class'', ''x-amz-server-side-encryption'', ''x-amz-website-redirect-location'', ''x-amz-tagging'']"

definition post_headers :: "url \<Rightarrow> fields \<Rightarrow> header" where
  "post_headers backendURL flds =
     (let h0 = header_Set ''Host'' (UHost backendURL) [];
          ct = field flds ''content-type'';
          h1 = header_Set ''Content-Type'' (if ct \<noteq> [] then ct else ''application/octet-stream'') h0;
          h2 = fold (\<lambda>k h. if field flds k \<noteq> [] then header_Set k (field flds k) h else h) postHeaderFields h1
      in fold (\<lambda>(k, v) h. if HasPrefix k ''x-amz-meta-'' then header_Set k v h else h) flds h2)"

definition buildPostUpstream :: "url \<Rightarrow> string \<Rightarrow> string \<Rightarrow> out_body \<Rightarrow> fields \<Rightarrow> outbound" where
  "buildPostUpstream backendURL bkt objkey body flds =
     \<lparr>o_Method = ''PUT'', o_URL = outbound_url backendURL bkt objkey [], o_Host = UHost backendURL,
      o_Header = post_headers backendURL flds, o_Body = Some body, o_GetBody = False, o_ContentLength = -1\<rparr>"

definition delete_request :: "url \<Rightarrow> string \<Rightarrow> string \<Rightarrow> outbound" where
  "delete_request backendURL bkt objkey =
     \<lparr>o_Method = ''DELETE'', o_URL = outbound_url backendURL bkt objkey [], o_Host = UHost backendURL,
      o_Header = header_Set ''Host'' (UHost backendURL) [], o_Body = None, o_GetBody = False, o_ContentLength = 0\<rparr>"

definition deleteUpstreamObject ::
  "('l, 'ip) Config \<Rightarrow> env \<Rightarrow> url \<Rightarrow> string \<Rightarrow> BackendSpec \<Rightarrow> string \<Rightarrow> string \<Rightarrow> 'l World \<Rightarrow> string option \<times> 'l World" where
  "deleteUpstreamObject cfg E backendURL backendName spec bkt objkey W =
     (case signOutbound cfg E (delete_request backendURL bkt objkey) backendName spec of
        Inl err \<Rightarrow> (Some (''sign delete: '' @ err), W)
      | Inr sreq \<Rightarrow> (case RoundTrip E sreq W of
          (Inl err, W1) \<Rightarrow> (Some (''send delete: '' @ te_msg err), W1)
        | (Inr resp, W1) \<Rightarrow>
            (if 400 \<le> StatusCode resp \<and> StatusCode resp \<noteq> 404 then Some (''delete returned '' @ FormatInt (StatusCode resp)) else None, W1)))"

section \<open>Success responses\<close>

definition PostResponse_xml :: "string \<Rightarrow> string \<Rightarrow> string \<Rightarrow> string \<Rightarrow> string" where
  "PostResponse_xml loc bkt objkey etag = xml_elem ''PostResponse'' (xml_elem ''Location'' (xml_text loc) @ xml_elem ''Bucket'' (xml_text bkt)
     @ xml_elem ''Key'' (xml_text objkey) @ xml_elem ''ETag'' (xml_text etag))"

text \<open>\<^verbatim>\<open>writePostSuccess\<close>: redirect before status before the default 204.\<close>

definition writePostSuccess ::
  "RouteInfo \<Rightarrow> string \<Rightarrow> string \<Rightarrow> string \<Rightarrow> fields \<Rightarrow> url option \<Rightarrow> request \<Rightarrow> string \<Rightarrow> writer \<Rightarrow> int \<times> writer" where
  "writePostSuccess route objkey etag versionID flds redirect r publicHostname w0 =
     (let h1 = (if etag \<noteq> [] then header_Set ''ETag'' etag (w_header w0) else w_header w0);
          h2 = (if versionID \<noteq> [] then header_Set ''x-amz-version-id'' versionID h1 else h1);
          w = w0\<lparr>w_header := h2\<rparr>
      in case redirect of
        Some u \<Rightarrow>
          (let q1 = values_Set ''key'' objkey (values_Set ''bucket'' (Bucket route) (Query u));
               q2 = (if etag \<noteq> [] then values_Set ''etag'' (Trim etag [CHR 0x22]) q1 else q1)
           in (303, WriteHeader 303 (w\<lparr>w_header := header_Set ''Location'' (url_String (u\<lparr>RawQuery := values_Encode q2\<rparr>)) (w_header w)\<rparr>)))
      | None \<Rightarrow>
          (let st = field flds ''success_action_status''
           in if st = ''200'' then (200, WriteHeader 200 w)
              else if st = ''201'' then
                (201, Write (PostResponse_xml (inboundObjectLocation r route objkey publicHostname) (Bucket route) objkey etag)
                   (WriteHeader 201 (w\<lparr>w_header := header_Set ''Content-Type'' ''application/xml'' (w_header w)\<rparr>)))
              else (204, WriteHeader 204 w)))"

section \<open>The handler\<close>

definition policy_auth :: "fields \<Rightarrow> PolicyAuth" where
  "policy_auth flds = \<lparr>p_Algorithm = field flds ''x-amz-algorithm'', p_Credential = field flds ''x-amz-credential'',
     p_Date = field flds ''x-amz-date'', p_Signature = field flds ''x-amz-signature'', p_Policy = field flds ''policy''\<rparr>"

definition policy_err_text :: "policy_err \<Rightarrow> string" where
  "policy_err_text e = (case e of ErrPolicyDecode \<Rightarrow> ''post policy: base64 decode failed'' | ErrPolicyJSON \<Rightarrow> ''post policy: malformed json''
     | ErrPolicyExpired \<Rightarrow> ''post policy: expired'' | ErrPolicyConditions i \<Rightarrow> ''post policy: malformed condition'')"

definition violation_text :: "PolicyViolation \<Rightarrow> string" where
  "violation_text v = ''policy violation on '' @ viol_Field v"

text \<open>The checks of an upload once its credential holds a slot, up to the quota: a refusal (with the key
  known by then) or what to upload.\<close>

record upload_plan =
  up_policy :: PostPolicy
  up_fields :: fields
  up_key :: string
  up_redirect :: "url option"
  up_max :: int

definition post_plan ::
  "env \<Rightarrow> RouteInfo \<Rightarrow> VirtualCredential \<Rightarrow> fields \<Rightarrow> part \<Rightarrow> (string \<times> int \<times> string \<times> string \<times> string) + upload_plan" where
  "post_plan E route vc flds0 file =
     (if \<not> EnforceScope (vc_BucketScopes vc) (Bucket route) then
        Inl ([], 403, ''AccessDenied'', ''credential is not scoped to this bucket'', ''scope-violation'')
      else case ParsePostPolicy (field flds0 ''policy'') (e_later E) of
        Inl ErrPolicyExpired \<Rightarrow> Inl ([], 403, ''AccessDenied'', ''post policy expired'', ''policy-expired'')
      | Inl e \<Rightarrow> Inl ([], 400, ''MalformedPOSTRequest'', policy_err_text e, ''bad-policy'')
      | Inr policy \<Rightarrow>
        if map_of flds0 ''bucket'' \<noteq> None \<and> map_of flds0 ''bucket'' \<noteq> Some (Bucket route) then
          Inl ([], 403, ''AccessDenied'', ''form bucket does not match URL bucket'', ''bucket-mismatch'')
        else let flds = AList.update ''bucket'' (Bucket route) flds0
          in case EnforcePolicy policy flds of
            Some v \<Rightarrow> Inl ([], 403, ''AccessDenied'', violation_text v, ''policy-violation'')
          | None \<Rightarrow>
            if field flds ''key'' = [] then Inl ([], 400, ''MalformedPOSTRequest'', ''form is missing key field'', ''no-key'')
            else let objkey = ReplaceAll (field flds ''key'') ''${filename}'' (FileName file)
              in case parseRedirect (e_parseURL E) (field flds ''success_action_redirect'') of
                Inl msg \<Rightarrow> Inl (objkey, 400, ''MalformedPOSTRequest'', msg, ''bad-redirect'')
              | Inr redirect \<Rightarrow>
                  Inr \<lparr>up_policy = policy, up_fields = flds, up_key = objkey, up_redirect = redirect,
                    up_max = (if HasContentLengthRange policy then ContentLengthMax policy else defaultFileMax)\<rparr>)"

text \<open>The bytes of the file the transport read, as the counter holds them.\<close>

definition file_total :: "env \<Rightarrow> stream \<Rightarrow> int \<Rightarrow> int" where
  "file_total E content mx = int (min (e_fileRead E) (min (length (fst content)) (nat mx)))"

definition post_upload ::
  "('l, 'ip) Config \<Rightarrow> env \<Rightarrow> request \<Rightarrow> RouteInfo \<Rightarrow> VirtualCredential \<Rightarrow> part \<Rightarrow> upload_plan \<Rightarrow> servedRequest \<Rightarrow> 'l World \<Rightarrow> servedRequest \<times> 'l World" where
  "post_upload cfg E r route vc file plan out W =
     (case Backend (e_target E) (vc_BackendName vc) of
        Inl err \<Rightarrow> refuse E r 502 ''InternalError'' err ''backend-unavailable'' out W
      | Inr (u, spec) \<Rightarrow>
        (let mx = wrap64 (up_max plan + 1);
             req = buildPostUpstream u (Bucket route) (up_key plan) (FilePart (Content file) mx) (up_fields plan)
         in case signOutbound cfg E req (vc_BackendName vc) spec of
           Inl err \<Rightarrow> refuse E r 502 ''InternalError'' (''sign outbound: '' @ err) ''sign-error'' out W
         | Inr sreq \<Rightarrow> (case doUpstream E sreq W of
             (Inl err, W1) \<Rightarrow>
               if ctxErr E W1 then (out\<lparr>s_status := statusClientClosedRequest, s_result := ''client-cancelled''\<rparr>, W1)
               else if IsFileTooLarge \<in> set (te_is err) then
                 refuse E r 413 ''EntityTooLarge'' (''file exceeds policy max of '' @ FormatInt (up_max plan) @ '' bytes'') ''file-too-large'' out W1
               else refuse E r 502 ''InternalError'' (te_msg err) ''upstream-error'' out W1
           | (Inr resp, W1) \<Rightarrow>
               (let total = file_total E (Content file) mx
                in if HasContentLengthRange (up_policy plan) \<and> total < ContentLengthMin (up_policy plan) then
                     (case refuse E r 400 ''EntityTooSmall'' (''file size '' @ FormatInt total @ '' below policy min '' @ FormatInt (ContentLengthMin (up_policy plan))) ''file-too-small'' out W1 of
                        (o1, W2) \<Rightarrow> (o1, snd (deleteUpstreamObject cfg E u (vc_BackendName vc) spec (Bucket route) (up_key plan) W2)))
                   else if 400 \<le> StatusCode resp then
                     (out\<lparr>s_status := StatusCode resp, s_result := ''upstream-error''\<rparr>, streamResponse resp sreq W1)
                   else case writePostSuccess route (up_key plan) (header_Get (rHeader resp) ''ETag'') (header_Get (rHeader resp) ''x-amz-version-id'')
                          (up_fields plan) (up_redirect plan) r (PublicHostname cfg) (W_writer W1) of
                     (st, w) \<Rightarrow>
                       (let W2 = W1\<lparr>W_writer := w\<rparr>
                        in (out\<lparr>s_status := st, s_result := ''ok''\<rparr>,
                            if 0 < total then record_usage (vc_BackendName vc) (Bucket route) total W2 else W2))))))"

definition post_in_slot ::
  "('l, 'ip) Config \<Rightarrow> env \<Rightarrow> request \<Rightarrow> RouteInfo \<Rightarrow> VirtualCredential \<Rightarrow> fields \<Rightarrow> part \<Rightarrow> servedRequest \<Rightarrow> 'l World \<Rightarrow> servedRequest \<times> 'l World" where
  "post_in_slot cfg E r route vc flds file out W =
     (case post_plan E route vc flds file of
        Inl (k, st, code, msg, res) \<Rightarrow> refuse E r st code msg res (out\<lparr>s_key := k\<rparr>) W
      | Inr plan \<Rightarrow>
          (let out1 = out\<lparr>s_key := up_key plan\<rparr>
           in case check_quota E True (vc_BackendName vc) (Bucket route) (up_max plan) W of
             (Some msg, W1) \<Rightarrow> refuse E r 507 ''EntityTooLarge'' msg ''quota-exceeded'' out1 W1
           | (None, W1) \<Rightarrow> post_upload cfg E r route vc file plan out1 W1))"

text \<open>The form of a request: a refusal, or its fields and its file part.\<close>

definition post_form :: "env \<Rightarrow> RouteInfo \<Rightarrow> (string \<times> string \<times> string) + (fields \<times> part)" where
  "post_form E route =
     (if Bucket route = [] then Inl (''InvalidRequest'', ''POST Object requires a bucket'', ''no-bucket'')
      else case e_form E of
        Inl err \<Rightarrow> Inl (''MalformedPOSTRequest'', err, ''bad-multipart'')
      | Inr f \<Rightarrow> (case readPostForm f of
          Inl err \<Rightarrow> Inl (''MalformedPOSTRequest'', err, ''bad-form'')
        | Inr (flds, None) \<Rightarrow> Inl (''MalformedPOSTRequest'', ''form has no file field'', ''no-file'')
        | Inr (flds, Some file) \<Rightarrow> Inr (flds, file)))"

definition servePostObject :: "('l, 'ip) Config \<Rightarrow> env \<Rightarrow> request \<Rightarrow> RouteInfo \<Rightarrow> 'l World \<Rightarrow> servedRequest \<times> 'l World" where
  "servePostObject cfg E r route W =
     (let out = zeroServed\<lparr>s_operation := ''PostObject'', s_authMode := ''post-policy'', s_bucket := Bucket route\<rparr>
      in case post_form E route of
        Inl (code, msg, res) \<Rightarrow> refuse E r 400 code msg res out W
      | Inr (flds, file) \<Rightarrow> (case VerifyPolicy (verifier_of E (W_source W)) (W_keys W) (policy_auth flds) of
          (Inl err, ks) \<Rightarrow> writeAuthFailure E err out (W\<lparr>W_keys := ks\<rparr>)
        | (Inr res, ks) \<Rightarrow>
            (let W1 = W\<lparr>W_keys := ks, W_source := e_reload E (W_source W)\<rparr>; out1 = out\<lparr>s_akid := pr_AccessKeyID res\<rparr>
             in case MergedSource_Lookup (e_later E) (pr_AccessKeyID res) (W_source W1) of
               (None, src) \<Rightarrow> refuse E r 403 ''InvalidAccessKeyId'' ''access key not recognized'' ''unknown-akid'' out1 (W1\<lparr>W_source := src\<rparr>)
             | (Some vc, src) \<Rightarrow>
                 (let out2 = out1\<lparr>s_backend := vc_BackendName vc, s_source := vc_Source vc, s_claimNS := vc_ClaimNamespace vc, s_claimName := vc_ClaimName vc\<rparr>
                  in case Limiter_Allow (RateOps cfg) (e_later E) (vc_AccessKeyID vc) (W_limiter W1) of
                    (ok, lm) \<Rightarrow>
                      (let W2 = W1\<lparr>W_source := src, W_limiter := lm\<rparr>
                       in if \<not> ok then refuse E r 503 ''SlowDown'' ''rate limit exceeded'' ''rate-limited'' out2 W2
                          else case acquireSlot E r (vc_AccessKeyID vc) W2 of
                            (False, W3) \<Rightarrow> (out2\<lparr>s_status := 503, s_result := ''concurrency-limited''\<rparr>, W3)
                          | (True, W3) \<Rightarrow> (case post_in_slot cfg E r route vc flds file out2 W3 of
                              (o1, W4) \<Rightarrow> (o1, emit (SlotReleased (vc_AccessKeyID vc)) W4)))))))"

section \<open>What the handler does\<close>

text \<open>The requests an upload may send: the object, and its deletion when it turns out too small.\<close>

definition upload_request :: "('l, 'ip) Config \<Rightarrow> env \<Rightarrow> RouteInfo \<Rightarrow> VirtualCredential \<Rightarrow> part \<Rightarrow> upload_plan \<Rightarrow> outbound \<Rightarrow> bool" where
  "upload_request cfg E route vc file plan q \<longleftrightarrow>
     (\<exists>u spec req. Backend (e_target E) (vc_BackendName vc) = Inr (u, spec) \<and> signOutbound cfg E req (vc_BackendName vc) spec = Inr q
        \<and> (req = buildPostUpstream u (Bucket route) (up_key plan) (FilePart (Content file) (wrap64 (up_max plan + 1))) (up_fields plan)
           \<or> HasContentLengthRange (up_policy plan) \<and> req = delete_request u (Bucket route) (up_key plan)))"

definition post_ok :: "('l, 'ip) Config \<Rightarrow> env \<Rightarrow> RouteInfo \<Rightarrow> 'l World \<Rightarrow> outbound \<Rightarrow> bool" where
  "post_ok cfg E route W q \<longleftrightarrow>
     (\<exists>flds file res vc plan. post_form E route = Inr (flds, file)
        \<and> fst (VerifyPolicy (verifier_of E (W_source W)) (W_keys W) (policy_auth flds)) = Inr res
        \<and> fst (MergedSource_Lookup (e_later E) (pr_AccessKeyID res) (e_reload E (W_source W))) = Some vc
        \<and> post_plan E route vc flds file = Inr plan \<and> upload_request cfg E route vc file plan q)"

lemma deleteUpstreamObject_world:
  "snd (deleteUpstreamObject cfg E u bn spec bkt k W) =
     (case signOutbound cfg E (delete_request u bkt k) bn spec of Inl _ \<Rightarrow> W | Inr q \<Rightarrow> W\<lparr>W_trace := W_trace W @ [Sent q]\<rparr>)"
  by (simp add: deleteUpstreamObject_def RoundTrip_world split: sum.splits)

lemma status_writePostSuccess:
  "writePostSuccess route k etag vid flds redirect r ph w = (st, w') \<Longrightarrow> w_status w = None \<Longrightarrow> w_status w' = Some st"
  by (auto simp: writePostSuccess_def Let_def split: option.splits if_splits)

lemma handled_delete:
  assumes "handled E P W (o1, W2)" "\<And>q. signOutbound cfg E (delete_request u bkt k) bn spec = Inr q \<Longrightarrow> P q" "s_result o1 \<noteq> ''client-cancelled''"
  shows "handled E P W (o1, snd (deleteUpstreamObject cfg E u bn spec bkt k W2))"
  using assms by (fastforce simp: deleteUpstreamObject_world handled_def reported_def split: sum.splits)

lemma handled_success:
  assumes "W_trace W1 = W_trace W @ es" "list_all (in_slot P) es" "W_writer W1 = W_writer W"
    and "writePostSuccess route k etag vid flds redirect r ph (W_writer W1) = (st, w)"
  shows "handled E P W (out\<lparr>s_status := st, s_result := ''ok''\<rparr>, W1\<lparr>W_writer := w\<rparr>)"
    "handled E P W (out\<lparr>s_status := st, s_result := ''ok''\<rparr>, record_usage bn bkt n (W1\<lparr>W_writer := w\<rparr>))"
  using assms status_writePostSuccess [OF assms(4)] by (auto simp: handled_def reported_def)

lemma post_upload_handled:
  "handled E (upload_request cfg E route vc file plan) W (post_upload cfg E r route vc file plan out W)"
proof (cases "Backend (e_target E) (vc_BackendName vc)")
  case (Inl err)
  then show ?thesis by (simp add: post_upload_def handled_refuse [of _ _ _ "[]"])
next
  case (Inr x)
  obtain u spec where x: "x = (u, spec)" by force
  define mx where "mx = wrap64 (up_max plan + 1)"
  define req where "req = buildPostUpstream u (Bucket route) (up_key plan) (FilePart (Content file) mx) (up_fields plan)"
  note defs = post_upload_def Let_def Inr x mx_def [symmetric] req_def [symmetric]
  show ?thesis
  proof (cases "signOutbound cfg E req (vc_BackendName vc) spec")
    case Inl
    then show ?thesis by (simp add: defs handled_refuse [of _ _ _ "[]"])
  next
    case sreq: (Inr q)
    obtain rs W1 where up: "doUpstream E q W = (rs, W1)" by force
    then obtain n where W1: "W1 = W\<lparr>W_trace := W_trace W @ replicate n (Sent q)\<rparr>" by (rule doUpstream_world)
    have es: "list_all (in_slot (upload_request cfg E route vc file plan)) (replicate n (Sent q))"
      using Inr x sreq by (auto simp: list_all_iff upload_request_def req_def mx_def)
    have tr: "W_trace W1 = W_trace W @ replicate n (Sent q)" "W_writer W1 = W_writer W" using W1 by simp_all
    show ?thesis
    proof (cases rs)
      case (Inl err)
      then show ?thesis by (simp add: defs sreq up handled_refuse [OF _ tr(1) es tr(2)] handled_gone [OF tr(1) es tr(2)])
    next
      case resp: (Inr resp)
      define total where "total = file_total E (Content file) mx"
      obtain st w where ok: "writePostSuccess route (up_key plan) (header_Get (rHeader resp) ''ETag'') (header_Get (rHeader resp) ''x-amz-version-id'')
          (up_fields plan) (up_redirect plan) r (PublicHostname cfg) (W_writer W1) = (st, w)" by force
      note step = defs sreq up resp total_def [symmetric] ok
      consider "HasContentLengthRange (up_policy plan) \<and> total < ContentLengthMin (up_policy plan)"
        | "\<not> (HasContentLengthRange (up_policy plan) \<and> total < ContentLengthMin (up_policy plan))" "400 \<le> StatusCode resp"
        | "\<not> (HasContentLengthRange (up_policy plan) \<and> total < ContentLengthMin (up_policy plan))" "\<not> 400 \<le> StatusCode resp" by blast
      then show ?thesis
      proof cases
        case 1
        obtain o1 W2 where rf: "refuse E r 400 ''EntityTooSmall'' (''file size '' @ FormatInt total @ '' below policy min '' @
            FormatInt (ContentLengthMin (up_policy plan))) ''file-too-small'' out W1 = (o1, W2)" by force
        have "handled E (upload_request cfg E route vc file plan) W (o1, W2)"
          unfolding rf [symmetric] by (rule handled_refuse [OF _ tr(1) es tr(2)]) simp
        then have "handled E (upload_request cfg E route vc file plan) W
            (o1, snd (deleteUpstreamObject cfg E u (vc_BackendName vc) spec (Bucket route) (up_key plan) W2))"
          by (rule handled_delete) (use 1 Inr x rf in \<open>auto simp: upload_request_def refuse_def\<close>)
        then show ?thesis using 1 by (simp add: step rf del: append_Cons append_Nil)
      next
        case 2
        then show ?thesis by (auto simp: step handled_answer(1) [OF tr(1) es tr(2)])
      next
        case 3
        then show ?thesis by (auto simp: step handled_success [OF tr(1) es tr(2) ok])
      qed
    qed
  qed
qed

lemma post_plan_refusal: "post_plan E route vc flds file = Inl (k, st, code, msg, res) \<Longrightarrow> res \<noteq> ''client-cancelled''"
  by (auto simp: post_plan_def Let_def split: if_splits sum.splits option.splits policy_err.splits)

lemma post_in_slot_handled:
  "handled E (\<lambda>q. \<exists>plan. post_plan E route vc flds file = Inr plan \<and> upload_request cfg E route vc file plan q) W
     (post_in_slot cfg E r route vc flds file out W)"
proof (cases "post_plan E route vc flds file")
  case (Inl x)
  then show ?thesis by (cases x) (simp add: post_in_slot_def handled_refuse [of _ _ _ "[]"] post_plan_refusal)
next
  case (Inr plan)
  obtain m W1 where q: "check_quota E True (vc_BackendName vc) (Bucket route) (up_max plan) W = (m, W1)" by force
  note W1 = check_quota_frame [OF q]
  have "handled E P W1 res \<longleftrightarrow> handled E P W res" for P res using W1 by (simp add: handled_def)
  then show ?thesis
    using Inr q W1 post_upload_handled [where W = W1 and E = E]
    by (cases m) (simp_all add: post_in_slot_def Let_def handled_refuse [of _ _ _ "[]"])
qed

lemma servePostObject_served: "served E (post_ok cfg E route W) W (servePostObject cfg E r route W)"
proof -
  define out where "out = zeroServed\<lparr>s_operation := ''PostObject'', s_authMode := ''post-policy'', s_bucket := Bucket route\<rparr>"
  note defs = servePostObject_def Let_def out_def [symmetric]
  show ?thesis
  proof (cases "post_form E route")
    case (Inl x)
    then obtain code msg res where x: "x = (code, msg, res)" by (cases x)
    have "res \<noteq> ''client-cancelled''"
      using Inl x by (auto simp: post_form_def split: if_splits sum.splits prod.splits option.splits)
    then show ?thesis by (simp add: defs Inl x served_refuse)
  next
    case form: (Inr x)
    obtain flds fp where x: "x = (flds, fp)" by force
    obtain v ks where v: "VerifyPolicy (verifier_of E (W_source W)) (W_keys W) (policy_auth flds) = (v, ks)" by force
    show ?thesis
    proof (cases v)
      case (Inl err)
      then show ?thesis by (simp add: defs form x v served_auth_failure)
    next
      case (Inr res)
      obtain l src where l: "MergedSource_Lookup (e_later E) (pr_AccessKeyID res) (e_reload E (W_source W)) = (l, src)" by force
      show ?thesis
      proof (cases l)
        case None
        then show ?thesis by (simp add: defs form x v Inr l served_refuse)
      next
        case vc: (Some vc)
        obtain ok lm where a: "Limiter_Allow (RateOps cfg) (e_later E) (vc_AccessKeyID vc) (W_limiter W) = (ok, lm)" by force
        define out1 where "out1 = out\<lparr>s_akid := pr_AccessKeyID res, s_backend := vc_BackendName vc, s_source := vc_Source vc,
            s_claimNS := vc_ClaimNamespace vc, s_claimName := vc_ClaimName vc\<rparr>"
        define W2 where "W2 = W\<lparr>W_keys := ks, W_source := src, W_limiter := lm\<rparr>"
        obtain ok' W3 where s: "acquireSlot E r (vc_AccessKeyID vc) W2 = (ok', W3)" by force
        note step = defs form x v Inr l vc a out1_def [symmetric] W2_def [symmetric] s
        have h: "handled E (post_ok cfg E route W) W3 (post_in_slot cfg E r route vc flds fp out1 W3)"
          by (rule handled_mono [OF post_in_slot_handled]) (use form x v Inr l vc in \<open>auto simp: post_ok_def\<close>)
        show ?thesis
        proof (cases ok)
          case False
          then show ?thesis by (simp add: step) (simp add: W2_def served_refuse)
        next
          case True
          show ?thesis
            by (rule served_in_slot [OF _ _ s h, where out = out1])
              (simp_all add: step True split: bool.split, simp_all add: W2_def)
        qed
      qed
    qed
  qed
qed

section \<open>Reading a capped file\<close>

text \<open>The reads of the transport until one of them returns an error: for each the size of the buffer, the
  bytes at hand and whether the end comes with the last bytes.\<close>

fun file_reads :: "(nat \<times> nat \<times> bool) list \<Rightarrow> countingLimitedReader \<Rightarrow> string \<times> read_err option \<times> countingLimitedReader" where
  "file_reads [] c = ([], None, c)"
| "file_reads ((m, avail, eager) # rs) c = (case countingLimitedReader_Read m avail eager c of
     (d, Some err, c1) \<Rightarrow> (d, Some err, c1)
   | (d, None, c1) \<Rightarrow> (case file_reads rs c1 of (d', err, c2) \<Rightarrow> (d @ d', err, c2)))"

text \<open>The reader of a file part under an upload limit: its cap is one more, in 64 bits.\<close>

definition capped_file :: "string \<Rightarrow> string option \<Rightarrow> int \<Rightarrow> countingLimitedReader" where
  "capped_file data e uploadMax = \<lparr>c_r = (data, e), c_max = wrap64 (uploadMax + 1), c_total = 0, c_closed = False\<rparr>"

lemma part_read_step:
  assumes "part_read m avail eager s = (d, err, s1)"
  shows "fst s = d @ fst s1 \<and> snd s1 = snd s \<and> length d \<le> m \<and> err \<noteq> Some RFileTooLarge \<and> (err = Some REof \<longrightarrow> fst s1 = [])
    \<and> (0 < m \<and> err = None \<longrightarrow> d \<noteq> [])"
  using assms by (auto simp: part_read_def Let_def split: option.splits if_splits)

lemma countingLimitedReader_Read_step:
  assumes "countingLimitedReader_Read m avail eager c = (d, err, c1)" "\<not> c_closed c" "c_total c \<le> c_max c"
  shows "fst (c_r c) = d @ fst (c_r c1) \<and> snd (c_r c1) = snd (c_r c) \<and> c_max c1 = c_max c \<and> \<not> c_closed c1
     \<and> c_total c1 = c_total c + int (length d) \<and> c_total c1 \<le> c_max c1
     \<and> (err = Some RFileTooLarge \<longrightarrow> c_total c1 = c_max c1)
     \<and> (err = Some REof \<longrightarrow> fst (c_r c1) = [])
     \<and> (0 < m \<and> err = None \<longrightarrow> length (fst (c_r c1)) < length (fst (c_r c)))"
proof (cases "c_max c \<le> c_total c")
  case True
  with assms show ?thesis by (auto simp: countingLimitedReader_Read_def)
next
  case False
  define p where "p = (if c_max c - c_total c < int m then nat (c_max c - c_total c) else m)"
  have p: "int p \<le> c_max c - c_total c" "0 < m \<Longrightarrow> 0 < p" using False by (auto simp: p_def)
  obtain d1 e1 s1 where pr: "part_read p avail eager (c_r c) = (d1, e1, s1)" by (metis prod_cases3)
  have eq: "d = d1" "err = e1" "c1 = c\<lparr>c_r := s1, c_total := c_total c + int (length d1)\<rparr>"
    using assms(1,2) False pr by (auto simp: countingLimitedReader_Read_def Let_def p_def [symmetric])
  from part_read_step [OF pr] p show ?thesis unfolding eq using assms(2) by auto
qed

lemma file_reads_run:
  assumes "file_reads rs c = (d, err, c1)" "\<not> c_closed c" "c_total c \<le> c_max c"
  shows "fst (c_r c) = d @ fst (c_r c1) \<and> c_max c1 = c_max c \<and> c_total c1 = c_total c + int (length d) \<and> c_total c1 \<le> c_max c
     \<and> (err = Some RFileTooLarge \<longrightarrow> c_total c1 = c_max c) \<and> (err = Some REof \<longrightarrow> fst (c_r c1) = [])
     \<and> (length (fst (c_r c)) < length rs \<and> (\<forall>x \<in> set rs. 0 < fst x) \<longrightarrow> err \<noteq> None)"
  using assms
proof (induction rs c arbitrary: d err c1 rule: file_reads.induct)
  case (2 m avail eager rs c)
  obtain d1 e1 c2 where r: "countingLimitedReader_Read m avail eager c = (d1, e1, c2)" by (metis prod_cases3)
  note step = countingLimitedReader_Read_step [OF r 2(3,4)]
  show ?case
  proof (cases e1)
    case None
    obtain d2 e2 c3 where rest: "file_reads rs c2 = (d2, e2, c3)" by (metis prod_cases3)
    have eq: "d = d1 @ d2" "err = e2" "c1 = c3" using 2(2) r None rest by auto
    note IH = 2(1) [OF r [symmetric] refl None rest]
    have "e2 \<noteq> None" if a: "length (fst (c_r c)) < Suc (length rs)" "0 < m" "\<forall>x \<in> set rs. 0 < fst x"
    proof -
      have "length (fst (c_r c2)) < length (fst (c_r c))" using step None a(2) by blast
      then have "length (fst (c_r c2)) < length rs" using a(1) by linarith
      then show ?thesis using IH step a(3) by blast
    qed
    with IH step show ?thesis unfolding eq by auto
  next
    case (Some x)
    with 2(2) r step show ?thesis by auto
  qed
qed simp

text \<open>The largest limit a policy can state wraps to a negative cap: every file is then too large, also an empty one.\<close>

lemma file_reader_wraps: "file_reads ((m, avail, eager) # rs) (capped_file data e (2 ^ 63 - 1)) = ([], Some RFileTooLarge, capped_file data e (2 ^ 63 - 1))"
  by (simp add: capped_file_def countingLimitedReader_Read_def wrap64_def)

text \<open>C34: The file reader of a form upload with limit \<open>uploadMax\<close>, below the largest 64-bit number (where the cap
  \<open>uploadMax + 1\<close> wraps), hands out a prefix of the
  file and counts exactly the bytes handed out, never more than the cap; it reports a file as too large
  only when the file has more than \<open>uploadMax\<close> bytes, reports the end only after the whole file, which
  then has at most \<open>uploadMax + 1\<close> bytes, and ends after at most one more read than the file has bytes.\<close>

theorem file_reader_capped:
  assumes "0 \<le> uploadMax" "uploadMax < 2 ^ 63 - 1" "file_reads rs (capped_file data e uploadMax) = (d, err, c)"
  shows "(\<exists>rest. data = d @ rest) \<and> c_total c = int (length d) \<and> int (length d) \<le> uploadMax + 1
    \<and> (err = Some RFileTooLarge \<longrightarrow> uploadMax < int (length data))
    \<and> (err = Some REof \<longrightarrow> d = data \<and> int (length data) \<le> uploadMax + 1)
    \<and> (length data < length rs \<and> (\<forall>x \<in> set rs. 0 < fst x) \<longrightarrow> err \<noteq> None)"
proof -
  have "wrap64 (uploadMax + 1) = uploadMax + 1" using assms(1,2) by (intro wrap64_id) (auto simp: int64_range_def)
  then show ?thesis using file_reads_run [OF assms(3)] assms(1) by (auto simp: capped_file_def)
qed

text \<open>With a limit of 2 bytes a file of 3 is accepted when its end comes with its last byte, and refused when
  it does not.\<close>

theorem file_reader_capped_witness:
  "fst (snd (file_reads [(8, 7, True)] (capped_file ''abc'' None 2))) = Some REof
   \<and> fst (file_reads [(8, 7, True)] (capped_file ''abc'' None 2)) = ''abc''
   \<and> fst (snd (file_reads [(8, 7, False), (8, 7, False)] (capped_file ''abc'' None 2))) = Some RFileTooLarge
   \<and> (2::int) < int (length ''abc'')"
proof -
  obtain d err c where 1: "file_reads [(8, 7, True)] (capped_file ''abc'' None 2) = (d, err, c)" by (metis prod_cases3)
  obtain d' err' c' where 2: "file_reads [(8, 7, False), (8, 7, False)] (capped_file ''abc'' None 2) = (d', err', c')"
    by (metis prod_cases3)
  have "err = Some REof" "err' = Some RFileTooLarge"
    using 1 2 by (auto simp: capped_file_def wrap64_def countingLimitedReader_Read_def part_read_def)
  with 1 2 file_reader_capped [OF _ _ 1] file_reader_capped [OF _ _ 2] show ?thesis by simp
qed

section \<open>Form uploads\<close>

lemma post_plan_ok:
  assumes "post_plan E route vc flds file = Inr plan"
  shows "EnforceScope (vc_BucketScopes vc) (Bucket route)" "ParsePostPolicy (field flds ''policy'') (e_later E) = Inr (up_policy plan)"
    "up_fields plan = AList.update ''bucket'' (Bucket route) flds" "EnforcePolicy (up_policy plan) (up_fields plan) = None"
    "map_of flds ''bucket'' \<in> {None, Some (Bucket route)}"
    "field (up_fields plan) ''key'' \<noteq> []" "up_key plan = ReplaceAll (field (up_fields plan) ''key'') ''${filename}'' (FileName file)"
    "up_max plan = (if HasContentLengthRange (up_policy plan) then ContentLengthMax (up_policy plan) else defaultFileMax)"
  using assms by (auto simp: post_plan_def Let_def split: if_splits sum.splits option.splits policy_err.splits)

lemma post_plan_key:
  assumes "post_plan E route vc flds file = Inr plan"
  shows "up_key plan = ReplaceAll (field flds ''key'') ''${filename}'' (FileName file)"
  using post_plan_ok(3,7) [OF assms] by (simp add: lookup_or_def update_conv)

lemma upload_request_target:
  assumes "upload_request cfg E route vc file plan q"
  obtains u spec where "Backend (e_target E) (vc_BackendName vc) = Inr (u, spec)"
    "o_Method q = ''PUT'' \<or> o_Method q = ''DELETE'' \<and> HasContentLengthRange (up_policy plan)"
    "o_URL q = outbound_url u (Bucket route) (up_key plan) []"
proof -
  obtain u spec req where r: "Backend (e_target E) (vc_BackendName vc) = Inr (u, spec)" "signOutbound cfg E req (vc_BackendName vc) spec = Inr q"
    "req = buildPostUpstream u (Bucket route) (up_key plan) (FilePart (Content file) (wrap64 (up_max plan + 1))) (up_fields plan)
     \<or> HasContentLengthRange (up_policy plan) \<and> req = delete_request u (Bucket route) (up_key plan)"
    using assms by (auto simp: upload_request_def)
  show ?thesis using that [OF r(1)] r(3) signOutbound_keeps [OF r(2)] by (auto simp: buildPostUpstream_def delete_request_def)
qed

end
