(* ===== verification/Proxy_Handler.thy ===== *)
theory Proxy_Handler
  imports Post_Object Cors
begin

text \<open>
  The entry point of the proxy (\<^verbatim>\<open>Server.ServeHTTP\<close> and \<^verbatim>\<open>serve\<close> in \<^verbatim>\<open>internal/s3proxy/server.go\<close>): the
  preflight short cut, the choice between form upload, anonymous and signed path, the log line of a
  failed request and the audit record. The theorems are about whole requests: what reaches a backend
  was authorised, a slot taken is given back, the status reported is the one written, failures and
  writes are audited.
\<close>

section \<open>Dispatch\<close>

definition serve :: "('l, 'ip) Config \<Rightarrow> env \<Rightarrow> request \<Rightarrow> 'l World \<Rightarrow> servedRequest \<times> 'l World" where
  "serve cfg E r W =
     (let route = ClassifyRoute r (HostSuffixes cfg)
      in if Method r = ''POST'' \<and> isPostObjectRequest r \<and> Bucket route \<noteq> [] \<and> Key route = [] then servePostObject cfg E r route W
         else if AnonymousEnabled cfg \<and> IsRequestUnauthenticated r then
           (case serveAnonymous cfg E r W of (anon, W1) \<Rightarrow> (anon\<lparr>s_authMode := ''anonymous''\<rparr>, W1))
         else serveSigned cfg E r W)"

section \<open>Audit\<close>

definition shouldRecordAudit :: "('l, 'ip) Config \<Rightarrow> env \<Rightarrow> request \<Rightarrow> servedRequest \<Rightarrow> bool" where
  "shouldRecordAudit cfg E r out =
     (if s_result out \<noteq> ''ok'' then True
      else if Method r \<noteq> ''GET'' \<and> Method r \<noteq> ''HEAD'' then True
      else let rate = SuccessReadAuditRate cfg
           in if rate \<le> 0 then False else if 1 \<le> rate then True else e_rand E < rate)"

definition audit_status :: "int \<Rightarrow> string" where
  "audit_status st = (if 500 \<le> st then ''error'' else if 400 \<le> st then ''denied'' else ''ok'')"

definition audit_event :: "('l, 'ip) Config \<Rightarrow> env \<Rightarrow> request \<Rightarrow> servedRequest \<Rightarrow> AuditEvent" where
  "audit_event cfg E r out =
     (let detail = [(''auth_mode'', s_authMode out), (''result'', s_result out)]
            @ (if s_akid out \<noteq> [] then [(''access_key'', s_akid out)] else [])
            @ (if s_source out \<noteq> [] then [(''source'', s_source out)] else [])
            @ (if s_claimNS out \<noteq> [] then [(''claim_ns'', s_claimNS out), (''claim_name'', s_claimName out)] else [])
      in \<lparr>a_Timestamp = e_later E, a_Action = ''s3.proxy.'' @ ToLower (s_operation out), a_Backend = s_backend out,
           a_Bucket = s_bucket out, a_Key = s_key out, a_RequestID = e_reqID E, a_IP = ClientIP (ParseIP cfg) r (TrustedProxies cfg),
           a_UserAgent = header_Get (Header r) ''User-Agent'', a_Status = audit_status (s_status out), a_Detail = detail\<rparr>)"

definition recordAudit :: "('l, 'ip) Config \<Rightarrow> env \<Rightarrow> request \<Rightarrow> servedRequest \<Rightarrow> 'l World \<Rightarrow> 'l World" where
  "recordAudit cfg E r out W = emit (Audited (audit_event cfg E r out)) W"

section \<open>A whole request\<close>

definition cors_rules :: "('l, 'ip) Config \<Rightarrow> request \<Rightarrow> 'l World \<Rightarrow> BucketCORSRule list" where
  "cors_rules cfg r W =
     (let bkt = Bucket (ClassifyRoute r (HostSuffixes cfg))
      in if HasCORSSource cfg \<and> bkt \<noteq> []
         then (case MergedSource_LookupCORS (W_source W) bkt of Some rules \<Rightarrow> rules | None \<Rightarrow> []) else [])"

definition log_request :: "request \<Rightarrow> servedRequest \<Rightarrow> 'l World \<Rightarrow> 'l World" where
  "log_request r out W =
     (if 400 \<le> s_status out then emit (LogRequest (Method r) (Host r) (RedactPath (URL r)) (s_status out)) W else W)"

text \<open>\<^verbatim>\<open>ServeHTTP\<close>: no report for a preflight, else what \<^verbatim>\<open>serve\<close> reported.\<close>

definition ServeHTTP :: "('l, 'ip) Config \<Rightarrow> env \<Rightarrow> request \<Rightarrow> 'l World \<Rightarrow> servedRequest option \<times> 'l World" where
  "ServeHTTP cfg E r W0 =
     (let W = on_writer (\<lambda>w. w\<lparr>w_header := header_Set ''x-amz-request-id'' (e_reqID E) (w_header w)\<rparr>) W0;
          rules = cors_rules cfg r W
      in case handlePreflight rules (w_header (W_writer W)) r of
           Some h \<Rightarrow> (None, on_writer (\<lambda>w. WriteHeader 204 (w\<lparr>w_header := h\<rparr>)) W)
         | None \<Rightarrow> (case serve cfg E r (on_writer (\<lambda>w. w\<lparr>w_header := decorateCORS rules (w_header w) r\<rparr>) W) of
             (out, W1) \<Rightarrow>
               (let W2 = log_request r out W1
                in (Some out, if HasAudit cfg \<and> shouldRecordAudit cfg E r out then recordAudit cfg E r out W2 else W2))))"

text \<open>\<^verbatim>\<open>InvalidateSigningKeys\<close> empties the cache of signing keys.\<close>

definition Server_InvalidateSigningKeys :: "'l World \<Rightarrow> 'l World" where
  "Server_InvalidateSigningKeys W = W\<lparr>W_keys := InvalidateSigningKeys (W_keys W)\<rparr>"

section \<open>Whole requests\<close>

text \<open>Why a request may be sent, by the path that sends it.\<close>

definition request_ok :: "('l, 'ip) Config \<Rightarrow> env \<Rightarrow> request \<Rightarrow> 'l World \<Rightarrow> outbound \<Rightarrow> bool" where
  "request_ok cfg E r W q \<longleftrightarrow>
     (Method r = ''POST'' \<and> isPostObjectRequest r \<and> Bucket (ClassifyRoute r (HostSuffixes cfg)) \<noteq> []
        \<and> post_ok cfg E (ClassifyRoute r (HostSuffixes cfg)) W q)
   \<or> (AnonymousEnabled cfg \<and> IsRequestUnauthenticated r \<and> anonymous_ok cfg E r W q)
   \<or> signed_ok cfg E r W q"

lemma served_mono:
  assumes "served E P W res" "\<And>q. P q \<Longrightarrow> Q q"
  shows "served E Q W res"
proof -
  have "list_all (in_slot P) es \<Longrightarrow> list_all (in_slot Q) es" for es
    using assms(2) by (induction es) (auto simp: in_slot_def split: effect.splits)
  then show ?thesis using assms(1) unfolding served_def by blast
qed

lemma serve_served: "served E (request_ok cfg E r W) W (serve cfg E r W)"
proof -
  define route where "route = ClassifyRoute r (HostSuffixes cfg)"
  consider (post) "Method r = ''POST'' \<and> isPostObjectRequest r \<and> Bucket route \<noteq> [] \<and> Key route = []"
    | (anon) "\<not> (Method r = ''POST'' \<and> isPostObjectRequest r \<and> Bucket route \<noteq> [] \<and> Key route = [])"
        "AnonymousEnabled cfg \<and> IsRequestUnauthenticated r"
    | (sig) "\<not> (Method r = ''POST'' \<and> isPostObjectRequest r \<and> Bucket route \<noteq> [] \<and> Key route = [])"
        "\<not> (AnonymousEnabled cfg \<and> IsRequestUnauthenticated r)" by blast
  then show ?thesis
  proof cases
    case post
    then have "serve cfg E r W = servePostObject cfg E r route W" by (simp add: serve_def route_def)
    moreover have "served E (request_ok cfg E r W) W (servePostObject cfg E r route W)"
      by (rule served_mono [OF servePostObject_served]) (use post in \<open>simp add: request_ok_def route_def\<close>)
    ultimately show ?thesis by simp
  next
    case anon
    obtain o1 W1 where a: "serveAnonymous cfg E r W = (o1, W1)" by force
    have "serve cfg E r W = (o1\<lparr>s_authMode := ''anonymous''\<rparr>, W1)"
      unfolding serve_def Let_def if_not_P [OF anon(1) [unfolded route_def]] if_P [OF anon(2)] by (simp add: a)
    moreover have "served E (request_ok cfg E r W) W (o1, W1)"
      unfolding a [symmetric] by (rule served_mono [OF serveAnonymous_served]) (use anon in \<open>simp add: request_ok_def\<close>)
    ultimately show ?thesis by (auto simp: served_def reported_def)
  next
    case sig
    have "serve cfg E r W = serveSigned cfg E r W"
      unfolding serve_def Let_def if_not_P [OF sig(1) [unfolded route_def]] if_not_P [OF sig(2)] ..
    moreover have "served E (request_ok cfg E r W) W (serveSigned cfg E r W)"
      by (rule served_mono [OF serveSigned_served]) (simp add: request_ok_def)
    ultimately show ?thesis by simp
  qed
qed

text \<open>What \<open>ServeHTTP\<close> adds around it: headers before, a log line and an audit record after.\<close>

definition closing :: "('l, 'ip) Config \<Rightarrow> env \<Rightarrow> request \<Rightarrow> servedRequest \<Rightarrow> effect list" where
  "closing cfg E r out =
     (if 400 \<le> s_status out then [LogRequest (Method r) (Host r) (RedactPath (URL r)) (s_status out)] else [])
     @ (if HasAudit cfg \<and> shouldRecordAudit cfg E r out then [Audited (audit_event cfg E r out)] else [])"

definition decorated :: "('l, 'ip) Config \<Rightarrow> env \<Rightarrow> request \<Rightarrow> 'l World \<Rightarrow> 'l World" where
  "decorated cfg E r W0 =
     (let W = on_writer (\<lambda>w. w\<lparr>w_header := header_Set ''x-amz-request-id'' (e_reqID E) (w_header w)\<rparr>) W0
      in on_writer (\<lambda>w. w\<lparr>w_header := decorateCORS (cors_rules cfg r W) (w_header w) r\<rparr>) W)"

lemma decorated_sel [simp]:
  "W_trace (decorated cfg E r W) = W_trace W" "W_source (decorated cfg E r W) = W_source W" "W_keys (decorated cfg E r W) = W_keys W"
  "W_quotas (decorated cfg E r W) = W_quotas W" "w_status (W_writer (decorated cfg E r W)) = w_status (W_writer W)"
  by (simp_all add: decorated_def Let_def)

lemma ServeHTTP_cases:
  assumes "ServeHTTP cfg E r W0 = (res, W')"
  obtains (preflight) "res = None" "W_trace W' = W_trace W0" "w_status (W_writer W0) = None \<Longrightarrow> w_status (W_writer W') = Some 204"
  | (request) out W1 where "res = Some out" "serve cfg E r (decorated cfg E r W0) = (out, W1)"
      "W_trace W' = W_trace W1 @ closing cfg E r out" "W_writer W' = W_writer W1"
proof -
  define W where "W = on_writer (\<lambda>w. w\<lparr>w_header := header_Set ''x-amz-request-id'' (e_reqID E) (w_header w)\<rparr>) W0"
  obtain out W1 where s: "serve cfg E r (decorated cfg E r W0) = (out, W1)" by force
  show ?thesis
  proof (cases "handlePreflight (cors_rules cfg r W) (w_header (W_writer W)) r")
    case (Some h)
    then show ?thesis using assms preflight by (simp add: ServeHTTP_def Let_def W_def [symmetric]) (auto simp: W_def)
  next
    case None
    then have eq: "res = Some out" "W' = (if HasAudit cfg \<and> shouldRecordAudit cfg E r out then recordAudit cfg E r out (log_request r out W1) else log_request r out W1)"
      using assms s by (simp_all add: ServeHTTP_def decorated_def Let_def W_def [symmetric])
    show ?thesis by (rule request [OF eq(1) s]) (simp_all add: eq(2) closing_def recordAudit_def log_request_def)
  qed
qed

lemma request_ok_decorated [simp]: "request_ok cfg E r (decorated cfg E r W) = request_ok cfg E r W"
  by (rule ext) (simp add: request_ok_def signed_ok_def anonymous_ok_def post_ok_def)

lemma closing_simps [simp]:
  "Sent q \<notin> set (closing cfg E r out)" "SlotTaken k \<notin> set (closing cfg E r out)" "SlotReleased k \<notin> set (closing cfg E r out)"
  by (auto simp: closing_def)

lemma ctxErr_closing:
  assumes "W_trace W' = W_trace W @ closing cfg E r out"
  shows "ctxErr E W' = ctxErr E W"
  using assms by (simp add: ctxErr_def sends_def closing_def)

lemma sent_ok:
  assumes "ServeHTTP cfg E r W0 = (res, W')" "Sent q \<in> set (W_trace W')" "Sent q \<notin> set (W_trace W0)"
  shows "request_ok cfg E r W0 q"
  using assms(1)
proof (cases rule: ServeHTTP_cases)
  case preflight
  then show ?thesis using assms by simp
next
  case (request out W1)
  have "Sent q \<in> set (W_trace W1)" using request(3) assms(2) by simp
  moreover have "served E (request_ok cfg E r (decorated cfg E r W0)) (decorated cfg E r W0) (out, W1)"
    using serve_served [of E cfg r "decorated cfg E r W0"] request(2) by simp
  ultimately show ?thesis using assms(3) in_slot_simps(1) [of "request_ok cfg E r W0" q]
    unfolding served_def by (auto simp: list_all_iff simp del: in_slot_simps(1))
qed

text \<open>C7: Every concurrency slot is balanced: serving a request adds to the trace either neither a slot nor a request to
  the backend, or one slot taken first and given back once, for the same key, after everything sent to
  the backend; this holds on every path, also when the request is refused or the client leaves.\<close>

theorem slots_balanced:
  assumes "ServeHTTP cfg E r W = (res, W')"
  shows "\<exists>es. W_trace W' = W_trace W @ es \<and>
    ((\<forall>k q. SlotTaken k \<notin> set es \<and> SlotReleased k \<notin> set es \<and> Sent q \<notin> set es) \<or>
     (\<exists>key0 mid post. es = SlotTaken key0 # mid @ SlotReleased key0 # post
        \<and> (\<forall>k. SlotTaken k \<notin> set (mid @ post) \<and> SlotReleased k \<notin> set (mid @ post)) \<and> (\<forall>q. Sent q \<notin> set post)))"
  using assms
proof (cases rule: ServeHTTP_cases)
  case preflight
  then show ?thesis by simp
next
  case (request out W1)
  have "served E (request_ok cfg E r W) (decorated cfg E r W) (out, W1)"
    using serve_served [of E cfg r "decorated cfg E r W"] request(2) by simp
  then consider "W_trace W1 = W_trace W"
    | k mid where "W_trace W1 = W_trace W @ SlotTaken k # mid @ [SlotReleased k]" "list_all (in_slot (request_ok cfg E r W)) mid"
    by (auto simp: served_def)
  then show ?thesis
  proof cases
    case 1
    then show ?thesis using request(3) by (intro exI [of _ "closing cfg E r out"]) simp
  next
    case (2 k mid)
    have "in_slot P (SlotTaken x) = False" "in_slot P (SlotReleased x) = False" for P x by simp_all
    then have "SlotTaken x \<notin> set mid \<and> SlotReleased x \<notin> set mid" for x using 2(2) unfolding list_all_iff by metis
    with 2 request(3) show ?thesis
      by (intro exI [of _ "SlotTaken k # mid @ SlotReleased k # closing cfg E r out"] conjI disjI2 exI [of _ k] exI [of _ mid]
          exI [of _ "closing cfg E r out"]) auto
  qed
qed

lemma ex_get_run:
  "(map effect_tag (W_trace (snd (ServeHTTP ex_config ex_env ex_get ex_world))), map_option s_status (fst (ServeHTTP ex_config ex_env ex_get ex_world)))
   = ([''taken anon:10.0.0.1'', ''sent GET http://minio:9000/photos/cat.png'', ''released anon:10.0.0.1'', ''audited ok''], Some 200)"
  by code_simp

theorem slots_balanced_witness:
  "let W' = snd (ServeHTTP ex_config ex_env ex_get ex_world)
   in map effect_tag (W_trace W') = [''taken anon:10.0.0.1'', ''sent GET http://minio:9000/photos/cat.png'', ''released anon:10.0.0.1'', ''audited ok'']
      \<and> (\<exists>es. W_trace W' = W_trace ex_world @ es)"
proof -
  obtain res W' where s: "ServeHTTP ex_config ex_env ex_get ex_world = (res, W')" by force
  have "map effect_tag (W_trace W')
      = [''taken anon:10.0.0.1'', ''sent GET http://minio:9000/photos/cat.png'', ''released anon:10.0.0.1'', ''audited ok'']"
    using ex_get_run by (simp add: s)
  with slots_balanced [OF s] show ?thesis by (auto simp: s)
qed


text \<open>C27: The status a request is reported with (in the metrics, the log and the audit record) is the status the
  client was sent: on every path exactly that status has been written, except that nothing is written when the context of the request has ended after a
  request to the backend, that is, the client has gone; this is reported as 499. A preflight is answered with 204.\<close>

theorem response_reported:
  assumes "ServeHTTP cfg E r W = (res, W')" "w_status (W_writer W) = None"
  shows "case res of None \<Rightarrow> w_status (W_writer W') = Some 204
     | Some out \<Rightarrow> w_status (W_writer W') = Some (s_status out)
         \<or> w_status (W_writer W') = None \<and> s_status out = statusClientClosedRequest \<and> ctxErr E W'"
  using assms(1)
proof (cases rule: ServeHTTP_cases)
  case preflight
  then show ?thesis using assms by simp
next
  case (request out W1)
  have "served E (request_ok cfg E r (decorated cfg E r W)) (decorated cfg E r W) (out, W1)"
    using serve_served [of E cfg r "decorated cfg E r W"] request(2) by simp
  then show ?thesis using assms(2) request ctxErr_closing [OF request(3)] by (auto simp: served_def reported_def split: if_split_asm)
qed

text \<open>A refused subresource is answered 403; a client that leaves while the backend fails gets nothing.\<close>

theorem response_reported_witness:
  "w_status (W_writer (snd (ServeHTTP ex_config ex_env (ex_get\<lparr>URL := ex_url\<rparr>) ex_world))) = Some 403
   \<and> (let W' = snd (ServeHTTP ex_config (ex_stale\<lparr>e_ctxErr := (\<lambda>_. True)\<rparr>) ex_get ex_world)
      in w_status (W_writer W') = None \<and> ctxErr (ex_stale\<lparr>e_ctxErr := (\<lambda>_. True)\<rparr>) W')"
proof -
  obtain res W' where s: "ServeHTTP ex_config ex_env (ex_get\<lparr>URL := ex_url\<rparr>) ex_world = (res, W')" by force
  have "map_option (\<lambda>o1. (s_status o1, s_result o1)) (fst (ServeHTTP ex_config ex_env (ex_get\<lparr>URL := ex_url\<rparr>) ex_world))
      = Some (403, ''subresource-not-allowed'')" by code_simp
  then obtain out where o: "res = Some out" "s_status out = 403" by (auto simp: s)
  have w: "w_status (W_writer ex_world) = None" by (simp add: ex_world_def)
  have 1: "w_status (W_writer W') = Some 403" using response_reported [OF s w] o by (simp add: statusClientClosedRequest_def)
  have 2: "w_status (W_writer (snd (ServeHTTP ex_config (ex_stale\<lparr>e_ctxErr := (\<lambda>_. True)\<rparr>) ex_get ex_world))) = None" by code_simp
  with response_reported [OF prod.collapse [symmetric] w, of ex_config "ex_stale\<lparr>e_ctxErr := (\<lambda>_. True)\<rparr>" ex_get]
  show ?thesis using 1 by (auto simp: s Let_def split: option.splits)
qed

definition is_audit :: "effect \<Rightarrow> bool" where
  "is_audit e \<longleftrightarrow> (case e of Audited _ \<Rightarrow> True | _ \<Rightarrow> False)"

text \<open>A read that the backend answers with an error counts as served: at rate 0 it leaves no event.\<close>

lemma backend_error_unaudited:
  "let W' = snd (ServeHTTP (ex_config\<lparr>SuccessReadAuditRate := 0\<rparr>)
        (ex_env\<lparr>e_roundTrip := (\<lambda>i q. Inr \<lparr>StatusCode = 404, rHeader = [], rContentLength = 0, rBody = ([], None)\<rparr>)\<rparr>) ex_get ex_world)
   in w_status (W_writer W') = Some 404 \<and> filter is_audit (W_trace W') = []"
  by code_simp

text \<open>C31: With auditing on, a request that the proxy refuses or fails and every request that is not a GET or HEAD is recorded, by exactly one
  event, which comes last and names the request, the backend, bucket and key served and whether it was
  denied or failed; so is every other request when the sampling roll lies below the rate. A read answered below 400 is otherwise not recorded.\<close>

theorem audited_requests:
  assumes "ServeHTTP cfg E r W = (Some out, W')" "HasAudit cfg"
  shows "(if s_result out \<noteq> ''ok'' \<or> Method r \<notin> {''GET'', ''HEAD''} \<or> 1 \<le> SuccessReadAuditRate cfg
            \<or> 0 < SuccessReadAuditRate cfg \<and> e_rand E < SuccessReadAuditRate cfg
          then \<exists>pre ev. W_trace W' = pre @ [Audited ev] \<and> filter is_audit pre
                   = filter is_audit (W_trace W)
             \<and> a_RequestID ev = e_reqID E \<and> a_Backend ev = s_backend out \<and> a_Bucket ev = s_bucket out \<and> a_Key ev = s_key out
             \<and> a_Status ev = (if 500 \<le> s_status out then ''error'' else if 400 \<le> s_status out then ''denied'' else ''ok'')
          else s_status out < 400 \<longrightarrow> filter is_audit (W_trace W') = filter is_audit (W_trace W))"
  using assms(1)
proof (cases rule: ServeHTTP_cases)
  case (request out' W1)
  let ?f = "filter is_audit"
  have o: "out' = out" using request(1) by simp
  have "served E (request_ok cfg E r (decorated cfg E r W)) (decorated cfg E r W) (out, W1)"
    using serve_served [of E cfg r "decorated cfg E r W"] request(2) o by simp
  moreover have "list_all (in_slot P) mid \<Longrightarrow> ?f mid = []" for P mid
    by (induction mid) (auto simp: in_slot_def is_audit_def split: effect.splits)
  ultimately have f: "?f (W_trace W1) = ?f (W_trace W)" by (auto simp: served_def is_audit_def)
  have "shouldRecordAudit cfg E r out \<longleftrightarrow> s_result out \<noteq> ''ok'' \<or> Method r \<notin> {''GET'', ''HEAD''} \<or> 1 \<le> SuccessReadAuditRate cfg
            \<or> 0 < SuccessReadAuditRate cfg \<and> e_rand E < SuccessReadAuditRate cfg"
    by (auto simp: shouldRecordAudit_def Let_def)
  then show ?thesis
    using request(3) f assms(2) by (auto simp: o closing_def is_audit_def audit_event_def audit_status_def Let_def)
qed simp

theorem audited_requests_witness:
  "\<exists>pre ev. W_trace (snd (ServeHTTP ex_config ex_env ex_get ex_world)) = pre @ [Audited ev] \<and> a_Status ev = ''ok''"
proof -
  obtain res W' where s: "ServeHTTP ex_config ex_env ex_get ex_world = (res, W')" by force
  have "map_option s_status res = Some 200" using ex_get_run by (simp add: s)
  then obtain out where o: "res = Some out" "s_status out = 200" by auto
  have c: "HasAudit ex_config" "SuccessReadAuditRate ex_config = 1" by (simp_all add: ex_config_def)
  show ?thesis using audited_requests [OF s [unfolded o(1)] c(1)] c(2) o by (auto simp: s)
qed


end
