(* ===== verification/Passwords.thy ===== *)
theory Passwords
  imports Go_Json
begin

text \<open>
  Password hashes (\<^verbatim>\<open>internal/auth/password.go\<close>): the textual argon2id format, its verification and the
  password policy. \<^verbatim>\<open>argon2.IDKey\<close> and the random salt are arguments; \<^verbatim>\<open>IDKey\<close> panics when the number of
  rounds or threads is zero, which is the value \<^term>\<open>None\<close> here.
\<close>

section \<open>Unpadded base64\<close>

text \<open>\<^verbatim>\<open>RawStdEncoding\<close> and \<^verbatim>\<open>RawURLEncoding\<close>: no padding, and left-over bits of the last group are ignored.\<close>

fun raw64_EncodeToString :: "string \<Rightarrow> string \<Rightarrow> string" where
  "raw64_EncodeToString al [] = []"
| "raw64_EncodeToString al [a] =
     (let x = (of_char a :: nat) in [al ! (x div 4), al ! (x mod 4 * 16)])"
| "raw64_EncodeToString al [a, b] =
     (let x = (of_char a :: nat); y = (of_char b :: nat)
      in [al ! (x div 4), al ! (x mod 4 * 16 + y div 16), al ! (y mod 16 * 4)])"
| "raw64_EncodeToString al (a # b # c # rest) =
     (let x = (of_char a :: nat); y = (of_char b :: nat); z = (of_char c :: nat)
      in [al ! (x div 4), al ! (x mod 4 * 16 + y div 16), al ! (y mod 16 * 4 + z div 64), al ! (z mod 64)]
         @ raw64_EncodeToString al rest)"

fun raw64_groups :: "string \<Rightarrow> string \<Rightarrow> string option" where
  "raw64_groups al [] = Some []"
| "raw64_groups al [a] = None"
| "raw64_groups al [a, b] =
     (case (b64_val al a, b64_val al b) of (Some x, Some y) \<Rightarrow> Some [char_of (x * 4 + y div 16)] | _ \<Rightarrow> None)"
| "raw64_groups al [a, b, c] =
     (case (b64_val al a, b64_val al b, b64_val al c) of
        (Some x, Some y, Some z) \<Rightarrow> Some [char_of (x * 4 + y div 16), char_of (y mod 16 * 16 + z div 4)] | _ \<Rightarrow> None)"
| "raw64_groups al (a # b # c # d # rest) =
     (case (b64_val al a, b64_val al b, b64_val al c, b64_val al d) of
        (Some x, Some y, Some z, Some w) \<Rightarrow>
          map_option (\<lambda>s. char_of (x * 4 + y div 16) # char_of (y mod 16 * 16 + z div 4) # char_of (z mod 4 * 64 + w) # s) (raw64_groups al rest)
      | _ \<Rightarrow> None)"

definition raw64_DecodeString :: "string \<Rightarrow> string \<Rightarrow> string option" where
  "raw64_DecodeString al s = raw64_groups al (filter (\<lambda>c. c \<noteq> CHR 0x0A \<and> c \<noteq> CHR 0x0D) s)"

section \<open>Scanning numbers\<close>

text \<open>\<^verbatim>\<open>fmt.Sscanf\<close> with literal text and \<^verbatim>\<open>%d\<close>: the literal must match, blanks before a number are skipped (a
  line break is an error), the number must fit its type, and input that is left over is ignored.\<close>

definition scan_literal :: "string \<Rightarrow> string \<Rightarrow> string option" where
  "scan_literal lit s = (if HasPrefix s lit then Some (drop (length lit) s) else None)"

definition scan_digits :: "string \<Rightarrow> (nat \<times> string) option" where
  "scan_digits s =
     (let ds = takeWhile is_digit s
      in if ds = [] then None else map_option (\<lambda>n. (n, dropWhile is_digit s)) (digits_val 10 0 ds))"

definition scan_uint :: "nat \<Rightarrow> string \<Rightarrow> (int \<times> string) option" where
  "scan_uint bits s =
     (case scan_digits (dropWhile (\<lambda>c. is_space c \<and> c \<noteq> CHR 0x0A) s) of
        Some (n, rest) \<Rightarrow> if int n < 2 ^ bits then Some (int n, rest) else None
      | None \<Rightarrow> None)"

definition scan_int :: "string \<Rightarrow> (int \<times> string) option" where
  "scan_int s =
     (let s1 = dropWhile (\<lambda>c. is_space c \<and> c \<noteq> CHR 0x0A) s;
          (neg, s2) = (case s1 of c # cs \<Rightarrow> if c = CHR ''+'' then (False, cs) else if c = CHR ''-'' then (True, cs) else (False, s1)
                       | [] \<Rightarrow> (False, s1))
      in case scan_digits s2 of
           Some (n, rest) \<Rightarrow> (let v = (if neg then - int n else int n) in if int64_range v then Some (v, rest) else None)
         | None \<Rightarrow> None)"

section \<open>Hashes\<close>

definition argonMemory :: int where "argonMemory = 65536"
definition argonTime :: int where "argonTime = 3"
definition argonThreads :: int where "argonThreads = 2"
definition argonKeyLen :: nat where "argonKeyLen = 32"
definition argonVersion :: int where "argonVersion = 19"

text \<open>\<^verbatim>\<open>IDKey(password, salt, time, memory, threads, keyLen)\<close>.\<close>

type_synonym argon = "string \<Rightarrow> string \<Rightarrow> int \<Rightarrow> int \<Rightarrow> int \<Rightarrow> nat \<Rightarrow> string option"

definition phc :: "string \<Rightarrow> string \<Rightarrow> string" where
  "phc salt dk = ''$argon2id$v='' @ FormatInt argonVersion @ ''$m='' @ FormatInt argonMemory @ '',t='' @ FormatInt argonTime
     @ '',p='' @ FormatInt argonThreads @ ''$'' @ raw64_EncodeToString std_alphabet salt @ ''$'' @ raw64_EncodeToString std_alphabet dk"

definition HashPassword :: "argon \<Rightarrow> string option \<Rightarrow> string \<Rightarrow> string option" where
  "HashPassword IDKey rnd password =
     (case rnd of None \<Rightarrow> None
      | Some salt \<Rightarrow> map_option (phc salt) (IDKey password salt argonTime argonMemory argonThreads argonKeyLen))"

datatype pw_result = PwMatch | ErrPasswordMismatch | BadHash | Panics

definition scan_params :: "string \<Rightarrow> (int \<times> int \<times> int) option" where
  "scan_params s =
     Option.bind (scan_literal ''m='' s) (\<lambda>s1. Option.bind (scan_uint 32 s1) (\<lambda>(mem, s2).
     Option.bind (scan_literal '',t='' s2) (\<lambda>s3. Option.bind (scan_uint 32 s3) (\<lambda>(t, s4).
     Option.bind (scan_literal '',p='' s4) (\<lambda>s5. Option.bind (scan_uint 8 s5) (\<lambda>(par, _). Some (mem, t, par)))))))"

definition VerifyPassword :: "argon \<Rightarrow> string \<Rightarrow> string \<Rightarrow> pw_result" where
  "VerifyPassword IDKey password encoded =
     (let parts = Split encoded (CHR ''$'')
      in if length parts \<noteq> 6 \<or> parts ! 1 \<noteq> ''argon2id'' then BadHash
         else case Option.bind (scan_literal ''v='' (parts ! 2)) scan_int of
           None \<Rightarrow> BadHash
         | Some (version, _) \<Rightarrow>
             if version \<noteq> argonVersion then BadHash
             else case scan_params (parts ! 3) of
               None \<Rightarrow> BadHash
             | Some (mem, t, par) \<Rightarrow> (case (raw64_DecodeString std_alphabet (parts ! 4), raw64_DecodeString std_alphabet (parts ! 5)) of
                 (Some salt, Some want) \<Rightarrow>
                   (case IDKey password salt t mem par (length want) of
                      None \<Rightarrow> Panics
                    | Some got \<Rightarrow> if want = got then PwMatch else ErrPasswordMismatch)
               | _ \<Rightarrow> BadHash))"

section \<open>Policy\<close>

record PasswordPolicy =
  MinLength :: int
  PreventReuse :: bool

definition PasswordPolicy_Check :: "PasswordPolicy \<Rightarrow> string \<Rightarrow> string option" where
  "PasswordPolicy_Check p password =
     (if 0 < MinLength p \<and> int (length password) < MinLength p
      then Some (''password must be at least '' @ FormatInt (MinLength p) @ '' characters'') else None)"

section \<open>Lemmas\<close>

lemma IndexByte_nth: "distinct s \<Longrightarrow> i < length s \<Longrightarrow> IndexByte s (s ! i) = Some i"
proof (induction s arbitrary: i)
  case (Cons c s)
  then show ?case by (cases i) auto
qed simp

lemma alphabets: "distinct std_alphabet" "length std_alphabet = 64" "distinct url_alphabet" "length url_alphabet = 64"
  by (simp_all add: std_alphabet_def url_alphabet_def)

lemma b64_bytes:
  fixes x y z :: nat
  assumes "x < 256" "y < 256" "z < 256"
  shows "x div 4 < 64" "x mod 4 * 16 + y div 16 < 64" "y mod 16 * 4 + z div 64 < 64" "z mod 64 < 64" "x mod 4 * 16 < 64" "y mod 16 * 4 < 64"
    "(x mod 4 * 16 + y div 16) div 16 = x mod 4" "(x mod 4 * 16 + y div 16) mod 16 = y div 16"
    "(y mod 16 * 4 + z div 64) div 4 = y mod 16" "(y mod 16 * 4 + z div 64) mod 4 = z div 64"
proof -
  have q: "y div 16 < 16" "z div 64 < 4" "x mod 4 < 4" "y mod 16 < 16" using assms by (simp_all add: less_mult_imp_div_less)
  show "x div 4 < 64" using assms by (simp add: less_mult_imp_div_less)
  show "x mod 4 * 16 + y div 16 < 64" "y mod 16 * 4 + z div 64 < 64" "x mod 4 * 16 < 64" "y mod 16 * 4 < 64" using q by linarith+
  show "z mod 64 < 64" by simp
  show "(x mod 4 * 16 + y div 16) div 16 = x mod 4" "(x mod 4 * 16 + y div 16) mod 16 = y div 16"
    "(y mod 16 * 4 + z div 64) div 4 = y mod 16" "(y mod 16 * 4 + z div 64) mod 4 = z div 64" using q by simp_all
qed

lemma b64_val_nth: "distinct al \<Longrightarrow> length al = 64 \<Longrightarrow> i < 64 \<Longrightarrow> b64_val al (al ! i) = Some i"
  by (simp add: b64_val_def IndexByte_nth)

lemma char_parts [simp]:
  "char_of ((of_char c :: nat) div 4 * 4 + of_char c mod 4) = c" "char_of ((of_char c :: nat) div 16 * 16 + of_char c mod 16) = c"
  "char_of ((of_char c :: nat) div 64 * 64 + of_char c mod 64) = c"
  by (simp_all only: div_mult_mod_eq char_of_char)

lemma raw64_groups_Encode: "distinct al \<Longrightarrow> length al = 64 \<Longrightarrow> raw64_groups al (raw64_EncodeToString al s) = Some s"
proof (induction al s rule: raw64_EncodeToString.induct)
  case (2 al a)
  have "(of_char a :: nat) < 256" by (rule nat_of_char_less_256)
  note b = b64_bytes [OF this this this]
  show ?case using 2 b(1,5) by (simp add: Let_def b64_val_nth)
next
  case (3 al a b)
  have "(of_char a :: nat) < 256" "(of_char b :: nat) < 256" by (rule nat_of_char_less_256)+
  note b = b64_bytes [OF this this(2)]
  show ?case using 3 b by (simp add: Let_def b64_val_nth)
next
  case (4 al a b c rest)
  have "(of_char a :: nat) < 256" "(of_char b :: nat) < 256" "(of_char c :: nat) < 256" by (rule nat_of_char_less_256)+
  note b = b64_bytes [OF this]
  show ?case using 4 b by (simp add: Let_def b64_val_nth)
qed simp

lemma set_raw64_Encode: "length al = 64 \<Longrightarrow> set (raw64_EncodeToString al s) \<subseteq> set al"
proof (induction al s rule: raw64_EncodeToString.induct)
  case (4 al a b c rest)
  have "(of_char x :: nat) < 256" for x :: char by (rule nat_of_char_less_256)
  with 4 b64_bytes [of "of_char a" "of_char b" "of_char c"] show ?case by (auto simp: Let_def)
next
  case (2 al a)
  have "(of_char x :: nat) < 256" for x :: char by (rule nat_of_char_less_256)
  with 2 b64_bytes [of "of_char a" 0 0] show ?case by (auto simp: Let_def)
next
  case (3 al a b)
  have "(of_char x :: nat) < 256" for x :: char by (rule nat_of_char_less_256)
  with 3 b64_bytes [of "of_char a" "of_char b" 0] show ?case by (auto simp: Let_def)
qed simp

lemma raw64_roundtrip:
  assumes "al = std_alphabet \<or> al = url_alphabet"
  shows "raw64_DecodeString al (raw64_EncodeToString al s) = Some s"
proof -
  have al: "distinct al" "length al = 64" using assms alphabets by auto
  have "CHR 0x0A \<notin> set al" "CHR 0x0D \<notin> set al" using assms by (auto simp: std_alphabet_def url_alphabet_def)
  then have "filter (\<lambda>c. c \<noteq> CHR 0x0A \<and> c \<noteq> CHR 0x0D) (raw64_EncodeToString al s) = raw64_EncodeToString al s"
    using set_raw64_Encode [OF al(2), of s] by (auto simp: filter_id_conv)
  then show ?thesis by (simp add: raw64_DecodeString_def raw64_groups_Encode [OF al])
qed

lemma Split_phc:
  "Split (phc salt dk) (CHR ''$'') = [[], ''argon2id'', ''v=19'', ''m=65536,t=3,p=2'', raw64_EncodeToString std_alphabet salt, raw64_EncodeToString std_alphabet dk]"
proof -
  have n: "FormatInt argonVersion = ''19''" "FormatInt argonMemory = ''65536''" "FormatInt argonTime = ''3''" "FormatInt argonThreads = ''2''"
    by (simp_all add: FormatInt_def show_nat.simps hexU_def argonVersion_def argonMemory_def argonTime_def argonThreads_def)
  have "CHR ''$'' \<notin> set std_alphabet" by (simp add: std_alphabet_def)
  then have d: "CHR ''$'' \<notin> set (raw64_EncodeToString std_alphabet x)" for x
    using set_raw64_Encode [OF alphabets(2), of x] by auto
  have "Split (raw64_EncodeToString std_alphabet salt @ CHR ''$'' # raw64_EncodeToString std_alphabet dk) (CHR ''$'')
      = [raw64_EncodeToString std_alphabet salt, raw64_EncodeToString std_alphabet dk]"
    using d by (simp add: Split_append_sep Split_no_sep)
  then show ?thesis by (simp add: phc_def n)
qed

lemma VerifyPassword_hash:
  assumes "HashPassword IDKey (Some salt) password = Some hash"
    and "\<And>p dk. IDKey p salt argonTime argonMemory argonThreads argonKeyLen = Some dk \<Longrightarrow> length dk = argonKeyLen"
  shows "VerifyPassword IDKey p hash =
    (case IDKey p salt argonTime argonMemory argonThreads argonKeyLen of
       None \<Rightarrow> Panics
     | Some dk \<Rightarrow> if IDKey password salt argonTime argonMemory argonThreads argonKeyLen = Some dk then PwMatch else ErrPasswordMismatch)"
proof -
  obtain want where w: "IDKey password salt argonTime argonMemory argonThreads argonKeyLen = Some want" "hash = phc salt want"
    using assms(1) by (auto simp: HashPassword_def)
  have n: "Option.bind (scan_literal ''v='' ''v=19'') scan_int = Some (argonVersion, [])"
    "scan_params ''m=65536,t=3,p=2'' = Some (argonMemory, argonTime, argonThreads)"
    by (simp_all add: scan_literal_def scan_int_def scan_params_def scan_uint_def scan_digits_def Let_def is_digit_def ishex_def unhex_def is_space_def
        argonVersion_def argonMemory_def argonTime_def argonThreads_def int64_range_def)
  show ?thesis using w assms(2) [OF w(1)]
    by (auto simp: VerifyPassword_def Split_phc n raw64_roundtrip Let_def split: option.splits)
qed

section \<open>Properties\<close>

text \<open>A stored hash accepts exactly the passwords with the same argon2 key: \<^verbatim>\<open>VerifyPassword\<close> applied to what
  \<^verbatim>\<open>HashPassword\<close> returned parses back version, parameters, salt and key, and its verdict is that of
  \<^verbatim>\<open>IDKey\<close> on the stored salt with the stored parameters. In particular the password itself is accepted.\<close>

theorem password_roundtrip:
  assumes "HashPassword IDKey (Some salt) password = Some hash"
    and "\<And>p dk. IDKey p salt argonTime argonMemory argonThreads argonKeyLen = Some dk \<Longrightarrow> length dk = argonKeyLen"
  shows "VerifyPassword IDKey p hash =
    (case IDKey p salt argonTime argonMemory argonThreads argonKeyLen of
       None \<Rightarrow> Panics
     | Some dk \<Rightarrow> if IDKey password salt argonTime argonMemory argonThreads argonKeyLen = Some dk then PwMatch else ErrPasswordMismatch)"
  using assms by (rule VerifyPassword_hash)

text \<open>A toy key function of the documented shape: 32 bytes, different for the two passwords.\<close>

definition ex_IDKey :: argon where
  "ex_IDKey p salt t m par len = (if t = 0 \<or> par = 0 then None else Some (take len (p @ replicate len (CHR ''x''))))"

theorem password_roundtrip_witness:
  "\<exists>hash. HashPassword ex_IDKey (Some ''0123456789abcdef'') ''secret'' = Some hash
     \<and> VerifyPassword ex_IDKey ''secret'' hash = PwMatch \<and> VerifyPassword ex_IDKey ''guess'' hash = ErrPasswordMismatch"
proof -
  obtain hash where h: "HashPassword ex_IDKey (Some ''0123456789abcdef'') ''secret'' = Some hash"
    by (simp add: HashPassword_def ex_IDKey_def argonTime_def argonThreads_def)
  have l: "length dk = argonKeyLen" if "ex_IDKey p salt argonTime argonMemory argonThreads argonKeyLen = Some dk" for p salt dk
    using that by (auto simp: ex_IDKey_def split: if_splits)
  note r = password_roundtrip [OF h l]
  have k: "ex_IDKey p s argonTime argonMemory argonThreads argonKeyLen = Some (take 32 (p @ replicate 32 (CHR ''x'')))" for p s
    by (simp add: ex_IDKey_def argonTime_def argonThreads_def argonKeyLen_def)
  have "take 32 (''secret'' @ replicate 32 (CHR ''x'')) \<noteq> take 32 (''guess'' @ replicate 32 (CHR ''x''))" by simp
  then show ?thesis using h r [where p = "''secret''"] r [where p = "''guess''"] by (simp add: k del: take_append append_Cons)
qed

end
