(* ===== verification/User_Store.thy ===== *)
theory User_Store
  imports Go_Time
begin

text \<open>
  The tables of accounts and login sessions (\<^verbatim>\<open>internal/store/sqlstore/users.go\<close>, \<^verbatim>\<open>sessions.go\<close>). A table is the
  list of its rows; a statement that the database refuses leaves it alone and returns the error.
  Whether and why the database itself fails is an argument of every query: \<open>flt q\<close> is the error of the
  statement labelled \<open>q\<close>, if it fails. The message with which a driver reports a violated unique index
  is an argument too, since \<^verbatim>\<open>translateUserErr\<close> reads it. User names and emails compare without case, as
  the column collation has it (ASCII letters). The generic lemmas about updates of rows are stated over
  the interface of a table with a primary key, a locale interpreted on both tables.
\<close>

section \<open>Tables\<close>

text \<open>\<^verbatim>\<open>UPDATE ... WHERE\<close> and the number of rows it affects.\<close>

definition set_rows :: "('r \<Rightarrow> bool) \<Rightarrow> ('r \<Rightarrow> 'r) \<Rightarrow> 'r list \<Rightarrow> 'r list" where
  "set_rows P f rows = map (\<lambda>r. if P r then f r else r) rows"

definition rows_affected :: "('r \<Rightarrow> bool) \<Rightarrow> 'r list \<Rightarrow> nat" where
  "rows_affected P rows = length (filter P rows)"

type_synonym faults = "string \<Rightarrow> string option"

locale keyed_table =
  fixes key_of :: "'r \<Rightarrow> string"
begin

definition row :: "string \<Rightarrow> 'r list \<Rightarrow> 'r option" where
  "row k rows = find (\<lambda>r. key_of r = k) rows"

definition keyed :: "'r list \<Rightarrow> bool" where
  "keyed rows = distinct (map key_of rows)"

lemma row_key: "row k rows = Some r \<Longrightarrow> key_of r = k \<and> r \<in> set rows"
  by (auto simp: row_def find_Some_iff)

lemma row_mem: "keyed rows \<Longrightarrow> r \<in> set rows \<Longrightarrow> row (key_of r) rows = Some r"
  by (induction rows) (auto simp: row_def keyed_def)

lemma row_None: "row k rows = None \<longleftrightarrow> k \<notin> key_of ` set rows"
  by (auto simp: row_def find_None_iff)

lemma set_rows_keyed:
  assumes "\<And>r. key_of (f r) = key_of r"
  shows "keyed (set_rows P f rows) = keyed rows"
proof -
  have "map key_of (set_rows P f rows) = map key_of rows" using assms by (simp add: set_rows_def)
  then show ?thesis by (simp add: keyed_def)
qed

lemma row_set_rows:
  assumes "\<And>r. key_of (f r) = key_of r"
  shows "row k (set_rows P f rows) = map_option (\<lambda>r. if P r then f r else r) (row k rows)"
  using assms by (induction rows) (auto simp: row_def set_rows_def)

lemma row_filter: "keyed rows \<Longrightarrow> row k (filter P rows) = Option.bind (row k rows) (\<lambda>r. if P r then Some r else None)"
proof (induction rows)
  case (Cons r rows)
  have "row k rows = None" if "key_of r = k" using Cons.prems that by (simp add: keyed_def row_None)
  with Cons show ?case by (auto simp: row_def keyed_def)
qed (simp add: row_def)

lemma filter_keyed: "keyed rows \<Longrightarrow> keyed (filter P rows)"
  by (simp add: keyed_def distinct_map_filter)

lemma snoc_keyed: "keyed (rows @ [r]) \<longleftrightarrow> keyed rows \<and> row (key_of r) rows = None"
  by (auto simp: keyed_def row_None)

lemma row_snoc: "row k (rows @ [r]) = (case row k rows of Some x \<Rightarrow> Some x | None \<Rightarrow> if key_of r = k then Some r else None)"
  by (induction rows) (auto simp: row_def)

lemma affected_key: "rows_affected (\<lambda>r. key_of r = k) rows = 0 \<longleftrightarrow> row k rows = None"
  by (auto simp: rows_affected_def row_None filter_empty_conv)

end

section \<open>Users\<close>

record User =
  u_ID :: string
  u_Username :: string
  u_Email :: "string option"
  u_PasswordHash :: string
  u_Role :: string
  u_IdentitySource :: string
  u_Enabled :: bool
  u_MustChangePW :: bool
  u_FailedAttempts :: int
  u_LockedUntil :: "time option"
  u_CreatedAt :: time
  u_CreatedBy :: "string option"
  u_LastLoginAt :: "time option"
  u_PWChangedAt :: time
  u_OIDCSubject :: "string option"

datatype user_err = ErrUserNotFound | ErrUsernameTaken | ErrEmailTaken | ErrOIDCSubjectTaken | UsersErr string | DBErr string

definition translateUserErr :: "string \<Rightarrow> user_err" where
  "translateUserErr msg =
     (if Contains msg ''users_username_unique'' then ErrUsernameTaken
      else if Contains msg ''users_email_unique'' then ErrEmailTaken
      else if Contains msg ''users_oidc_subject_unique'' then ErrOIDCSubjectTaken
      else UsersErr (''users: '' @ msg))"

text \<open>The constraints of the table that a new or changed row has to respect, by the name of the index; the check
  on \<^verbatim>\<open>role\<close> has no name of its own.\<close>

definition same_email :: "string option \<Rightarrow> string option \<Rightarrow> bool" where
  "same_email a b = (case (a, b) of (Some x, Some y) \<Rightarrow> NoCase x y | _ \<Rightarrow> False)"

definition same_subject :: "User \<Rightarrow> User \<Rightarrow> bool" where
  "same_subject u v \<longleftrightarrow> u_OIDCSubject u \<noteq> None \<and> u_OIDCSubject u = u_OIDCSubject v \<and> u_IdentitySource u = u_IdentitySource v"

definition violated :: "User \<Rightarrow> User list \<Rightarrow> string option" where
  "violated u others =
     (if u_Role u \<notin> {''admin'', ''user'', ''readonly''} then Some ''users_role_check''
      else if list_ex (\<lambda>v. u_ID v = u_ID u) others then Some ''users_pkey''
      else if list_ex (\<lambda>v. NoCase (u_Username v) (u_Username u)) others then Some ''users_username_unique''
      else if list_ex (\<lambda>v. same_email (u_Email v) (u_Email u)) others then Some ''users_email_unique''
      else if list_ex (\<lambda>v. same_subject v u) others then Some ''users_oidc_subject_unique''
      else None)"

definition CreateUser :: "faults \<Rightarrow> (string \<Rightarrow> string) \<Rightarrow> User \<Rightarrow> User list \<Rightarrow> user_err + User list" where
  "CreateUser flt msg u rows =
     (case flt ''CreateUser'' of
        Some e \<Rightarrow> Inl (translateUserErr e)
      | None \<Rightarrow> (let row = u\<lparr>u_FailedAttempts := 0, u_LockedUntil := None, u_LastLoginAt := None\<rparr>
          in case violated row rows of Some c \<Rightarrow> Inl (translateUserErr (msg c)) | None \<Rightarrow> Inr (rows @ [row])))"

definition select_user :: "faults \<Rightarrow> string \<Rightarrow> (User \<Rightarrow> bool) \<Rightarrow> User list \<Rightarrow> user_err + User" where
  "select_user flt q P rows =
     (case flt q of Some e \<Rightarrow> Inl (DBErr e) | None \<Rightarrow> (case find P rows of Some u \<Rightarrow> Inr u | None \<Rightarrow> Inl ErrUserNotFound))"

definition GetUserByID :: "faults \<Rightarrow> string \<Rightarrow> User list \<Rightarrow> user_err + User" where
  "GetUserByID flt i = select_user flt ''GetUserByID'' (\<lambda>u. u_ID u = i)"

definition GetUserByUsername :: "faults \<Rightarrow> string \<Rightarrow> User list \<Rightarrow> user_err + User" where
  "GetUserByUsername flt n = select_user flt ''GetUserByUsername'' (\<lambda>u. NoCase (u_Username u) n)"

definition GetUserByOIDCSubject :: "faults \<Rightarrow> string \<Rightarrow> string \<Rightarrow> User list \<Rightarrow> user_err + User" where
  "GetUserByOIDCSubject flt source sub =
     select_user flt ''GetUserByOIDCSubject'' (\<lambda>u. u_IdentitySource u = source \<and> u_OIDCSubject u = Some sub)"

text \<open>An update of the row with a given id that has to respect the constraints.\<close>

definition update_user :: "faults \<Rightarrow> (string \<Rightarrow> string) \<Rightarrow> string \<Rightarrow> string \<Rightarrow> (User \<Rightarrow> User) \<Rightarrow> User list \<Rightarrow> user_err + User list" where
  "update_user flt msg q i f rows =
     (case flt q of
        Some e \<Rightarrow> Inl (translateUserErr e)
      | None \<Rightarrow> (case find (\<lambda>u. u_ID u = i) rows of
          None \<Rightarrow> Inl ErrUserNotFound
        | Some u \<Rightarrow> (case violated (f u) (filter (\<lambda>v. u_ID v \<noteq> i) rows) of
            Some c \<Rightarrow> Inl (translateUserErr (msg c))
          | None \<Rightarrow> Inr (set_rows (\<lambda>v. u_ID v = i) f rows))))"

definition RenameUser :: "faults \<Rightarrow> (string \<Rightarrow> string) \<Rightarrow> string \<Rightarrow> string \<Rightarrow> User list \<Rightarrow> user_err + User list" where
  "RenameUser flt msg i n = update_user flt msg ''RenameUser'' i (\<lambda>u. u\<lparr>u_Username := n\<rparr>)"

definition SetOIDCSubject :: "faults \<Rightarrow> (string \<Rightarrow> string) \<Rightarrow> string \<Rightarrow> string \<Rightarrow> User list \<Rightarrow> user_err + User list" where
  "SetOIDCSubject flt msg i sub =
     update_user flt msg ''SetOIDCSubject'' i (\<lambda>u. u\<lparr>u_OIDCSubject := (if sub = [] then None else Some sub)\<rparr>)"

record UserPatch =
  pt_Role :: "string option"
  pt_Enabled :: "bool option"
  pt_Email :: "string option option"
  pt_Unlock :: bool
  pt_MustChangePW :: "bool option"

definition apply_patch :: "UserPatch \<Rightarrow> User \<Rightarrow> User" where
  "apply_patch p u =
     (let u1 = (case pt_Role p of Some r \<Rightarrow> u\<lparr>u_Role := r\<rparr> | None \<Rightarrow> u);
          u2 = (case pt_Enabled p of Some b \<Rightarrow> u1\<lparr>u_Enabled := b\<rparr> | None \<Rightarrow> u1);
          u3 = (case pt_Email p of Some e \<Rightarrow> u2\<lparr>u_Email := e\<rparr> | None \<Rightarrow> u2);
          u4 = (if pt_Unlock p then u3\<lparr>u_LockedUntil := None, u_FailedAttempts := 0\<rparr> else u3)
      in case pt_MustChangePW p of Some b \<Rightarrow> u4\<lparr>u_MustChangePW := b\<rparr> | None \<Rightarrow> u4)"

definition UpdateUser :: "faults \<Rightarrow> (string \<Rightarrow> string) \<Rightarrow> string \<Rightarrow> UserPatch \<Rightarrow> User list \<Rightarrow> user_err + User list" where
  "UpdateUser flt msg i p rows =
     (if pt_Role p = None \<and> pt_Enabled p = None \<and> pt_Email p = None \<and> \<not> pt_Unlock p \<and> pt_MustChangePW p = None then Inr rows
      else update_user flt msg ''UpdateUser'' i (apply_patch p) rows)"

definition SetPasswordHash :: "faults \<Rightarrow> time \<Rightarrow> string \<Rightarrow> string \<Rightarrow> bool \<Rightarrow> User list \<Rightarrow> user_err + User list" where
  "SetPasswordHash flt now i hash mustChange rows =
     (case flt ''SetPasswordHash'' of
        Some e \<Rightarrow> Inl (DBErr e)
      | None \<Rightarrow> if rows_affected (\<lambda>u. u_ID u = i) rows = 0 then Inl ErrUserNotFound
          else Inr (set_rows (\<lambda>u. u_ID u = i) (\<lambda>u. u\<lparr>u_PasswordHash := hash, u_MustChangePW := mustChange, u_PWChangedAt := now,
                 u_FailedAttempts := 0, u_LockedUntil := None\<rparr>) rows))"

definition RecordLoginSuccess :: "faults \<Rightarrow> time \<Rightarrow> string \<Rightarrow> User list \<Rightarrow> user_err + User list" where
  "RecordLoginSuccess flt now i rows =
     (case flt ''RecordLoginSuccess'' of
        Some e \<Rightarrow> Inl (DBErr e)
      | None \<Rightarrow> Inr (set_rows (\<lambda>u. u_ID u = i) (\<lambda>u. u\<lparr>u_LastLoginAt := Some now, u_FailedAttempts := 0, u_LockedUntil := None\<rparr>) rows))"

text \<open>The transaction reads the counter, adds one, and locks the account when the maximum is reached.\<close>

definition RecordLoginFailure :: "faults \<Rightarrow> time \<Rightarrow> string \<Rightarrow> int \<Rightarrow> duration \<Rightarrow> User list \<Rightarrow> (user_err + int \<times> bool) \<times> User list" where
  "RecordLoginFailure flt now i maxAttempts window rows =
     (case flt ''RecordLoginFailure'' of
        Some e \<Rightarrow> (Inl (DBErr e), rows)
      | None \<Rightarrow> (case find (\<lambda>u. u_ID u = i) rows of
          None \<Rightarrow> (Inl (DBErr ''sql: no rows in result set''), rows)
        | Some u \<Rightarrow>
            (let attempts = u_FailedAttempts u + 1;
                 locked = maxAttempts \<le> attempts;
                 lockedUntil = (if locked then Some (time_Add now window) else None)
             in (Inr (attempts, locked),
                 set_rows (\<lambda>v. u_ID v = i) (\<lambda>v. v\<lparr>u_FailedAttempts := attempts, u_LockedUntil := lockedUntil\<rparr>) rows))))"

definition DeleteUser :: "faults \<Rightarrow> string \<Rightarrow> User list \<Rightarrow> user_err + User list" where
  "DeleteUser flt i rows =
     (case flt ''DeleteUser'' of
        Some e \<Rightarrow> Inl (DBErr e)
      | None \<Rightarrow> if rows_affected (\<lambda>u. u_ID u = i) rows = 0 then Inl ErrUserNotFound else Inr (filter (\<lambda>u. u_ID u \<noteq> i) rows))"

definition enabled_admin :: "User \<Rightarrow> bool" where
  "enabled_admin u \<longleftrightarrow> u_Role u = ''admin'' \<and> u_Enabled u"

definition CountEnabledAdmins :: "faults \<Rightarrow> User list \<Rightarrow> user_err + nat" where
  "CountEnabledAdmins flt rows =
     (case flt ''CountEnabledAdmins'' of Some e \<Rightarrow> Inl (DBErr e) | None \<Rightarrow> Inr (rows_affected enabled_admin rows))"

section \<open>Sessions\<close>

record Session =
  ss_ID :: string
  ss_UserID :: string
  ss_IdentitySource :: string
  ss_CSRFToken :: string
  ss_IP :: string
  ss_UserAgent :: string
  ss_Flags :: int
  ss_CreatedAt :: time
  ss_LastSeenAt :: time
  ss_ExpiresAt :: time

definition FlagMustChangePW :: int where "FlagMustChangePW = 1"

definition CreateSession :: "faults \<Rightarrow> Session \<Rightarrow> Session list \<Rightarrow> string + Session list" where
  "CreateSession flt s rows =
     (case flt ''CreateSession'' of
        Some e \<Rightarrow> Inl e
      | None \<Rightarrow> if list_ex (\<lambda>x. ss_ID x = ss_ID s) rows then Inl ''UNIQUE constraint failed: sessions.id'' else Inr (rows @ [s]))"

definition GetSession :: "faults \<Rightarrow> string \<Rightarrow> Session list \<Rightarrow> Session option" where
  "GetSession flt i rows = (case flt ''GetSession'' of Some e \<Rightarrow> None | None \<Rightarrow> find (\<lambda>s. ss_ID s = i) rows)"

definition TouchSession :: "faults \<Rightarrow> string \<Rightarrow> time \<Rightarrow> time \<Rightarrow> Session list \<Rightarrow> Session list" where
  "TouchSession flt i now expiresAt rows =
     (case flt ''TouchSession'' of Some e \<Rightarrow> rows
      | None \<Rightarrow> set_rows (\<lambda>s. ss_ID s = i) (\<lambda>s. s\<lparr>ss_LastSeenAt := now, ss_ExpiresAt := expiresAt\<rparr>) rows)"

definition ClearSessionFlags :: "faults \<Rightarrow> string \<Rightarrow> int \<Rightarrow> Session list \<Rightarrow> Session list" where
  "ClearSessionFlags flt i fmask rows =
     (case flt ''ClearSessionFlags'' of Some e \<Rightarrow> rows
      | None \<Rightarrow> set_rows (\<lambda>s. ss_ID s = i) (\<lambda>s. s\<lparr>ss_Flags := and (ss_Flags s) (not fmask)\<rparr>) rows)"

definition DeleteSession :: "faults \<Rightarrow> string \<Rightarrow> Session list \<Rightarrow> Session list" where
  "DeleteSession flt i rows = (case flt ''DeleteSession'' of Some e \<Rightarrow> rows | None \<Rightarrow> filter (\<lambda>s. ss_ID s \<noteq> i) rows)"

definition DeleteUserSessions :: "faults \<Rightarrow> string \<Rightarrow> string \<Rightarrow> Session list \<Rightarrow> string + Session list" where
  "DeleteUserSessions flt userID keepID rows =
     (case flt ''DeleteUserSessions'' of
        Some e \<Rightarrow> Inl e
      | None \<Rightarrow> if keepID = [] then Inr (filter (\<lambda>s. ss_UserID s \<noteq> userID) rows)
          else Inr (filter (\<lambda>s. \<not> (ss_UserID s = userID \<and> ss_ID s \<noteq> keepID)) rows))"

definition PurgeExpiredSessions :: "time \<Rightarrow> Session list \<Rightarrow> Session list" where
  "PurgeExpiredSessions now rows = filter (\<lambda>s. \<not> ss_ExpiresAt s < now) rows"

section \<open>Both are tables with a primary key\<close>

interpretation users: keyed_table u_ID .

interpretation sessions: keyed_table ss_ID .

lemma apply_patch_ID [simp]: "u_ID (apply_patch p u) = u_ID u"
  by (simp add: apply_patch_def Let_def split: option.splits)

end
