(* ===== verification/Login_Limits.thy ===== *)
theory Login_Limits
  imports Rate_Limits Crypto_Hash
begin

text \<open>
  The request limiter and the trust in proxy headers of the dashboard (\<^verbatim>\<open>internal/auth/ratelimit.go\<close> and
  \<^verbatim>\<open>proxy.go\<close>). The limiter keeps, per key, the times of the admitted requests of the last window, in
  sixteen maps chosen by the FNV-1a hash of the key. What it promises is stated over an interface, a
  sliding window per key (a locale), in which the bound on admitted requests is proved; the sharded
  limiter is an instance. Clock readings are arguments; \<^verbatim>\<open>net.ParseIP\<close> and \<^verbatim>\<open>net.ParseCIDR\<close> are parameters,
  a network being its \<^verbatim>\<open>Contains\<close>.
\<close>

section \<open>The limiter\<close>

definition rateLimiterShards :: nat where "rateLimiterShards = 16"

type_synonym rateShard = "(string \<times> time list) list"

record RateLimiter =
  rl_shards :: "rateShard list"
  rl_Max :: int
  rl_Window :: duration

definition NewRateLimiter_auth :: "int \<Rightarrow> duration \<Rightarrow> RateLimiter" where
  "NewRateLimiter_auth mx window = \<lparr>rl_shards = replicate rateLimiterShards [], rl_Max = mx, rl_Window = window\<rparr>"

definition shardFor :: "string \<Rightarrow> nat" where
  "shardFor key = unat (fnv32a key mod 16)"

definition RateLimiter_Allow :: "time \<Rightarrow> string \<Rightarrow> RateLimiter \<Rightarrow> bool \<times> RateLimiter" where
  "RateLimiter_Allow now key r =
     (let cutoff = time_Add now (wrap64 (- rl_Window r));
          i = shardFor key;
          sh = rl_shards r ! i;
          events = dropWhile (\<lambda>e. \<not> time_After e cutoff) (lookup_or [] sh key)
      in if rl_Max r \<le> int (length events) then (False, r\<lparr>rl_shards := (rl_shards r)[i := AList.update key events sh]\<rparr>)
         else (True, r\<lparr>rl_shards := (rl_shards r)[i := AList.update key (events @ [now]) sh]\<rparr>))"

section \<open>Proxy headers\<close>

text \<open>\<^verbatim>\<open>clientIP\<close> of \<^verbatim>\<open>session.go\<close> and the default key of the middleware.\<close>

definition clientIP :: "string \<Rightarrow> string" where
  "clientIP addr = (case SplitHostPort addr of Some (h, _) \<Rightarrow> h | None \<Rightarrow> addr)"

definition limiter_key :: "string \<Rightarrow> string" where
  "limiter_key addr = (case SplitHostPort (clientIP addr) of Some (host, _) \<Rightarrow> host | None \<Rightarrow> clientIP addr)"

text \<open>A request is refused by the limiter or handed on; \<open>key\<close> is what the key function gives for it.\<close>

definition RateLimiter_Middleware :: "time \<Rightarrow> string \<Rightarrow> 'resp \<Rightarrow> ('w \<Rightarrow> 'resp \<times> 'w) \<Rightarrow> RateLimiter \<times> 'w \<Rightarrow> 'resp \<times> RateLimiter \<times> 'w" where
  "RateLimiter_Middleware now key onLimit nxt = (\<lambda>(r, W).
     case RateLimiter_Allow now key r of
       (False, r1) \<Rightarrow> (onLimit, r1, W)
     | (True, r1) \<Rightarrow> (case nxt W of (resp, W1) \<Rightarrow> (resp, r1, W1)))"

text \<open>The trusted networks; no trust configured at all is \<open>None\<close>.\<close>

type_synonym 'ip ProxyTrust = "('ip \<Rightarrow> bool) list"

fun NewProxyTrust :: "(string \<Rightarrow> 'ip option) \<Rightarrow> ('ip \<Rightarrow> bool) \<Rightarrow> (string \<Rightarrow> ('ip \<Rightarrow> bool) option) \<Rightarrow> string list \<Rightarrow> string + 'ip ProxyTrust" where
  "NewProxyTrust parse is4 parseCIDR [] = Inr []"
| "NewProxyTrust parse is4 parseCIDR (s0 # rest) =
     (let s = TrimSpace s0
      in if s = [] then NewProxyTrust parse is4 parseCIDR rest
         else let s1 = (if \<not> Contains s ''/'' then (case parse s of Some ip \<Rightarrow> s @ (if is4 ip then ''/32'' else ''/128'') | None \<Rightarrow> s) else s)
              in case parseCIDR s1 of
                   None \<Rightarrow> Inl s1
                 | Some n \<Rightarrow> (case NewProxyTrust parse is4 parseCIDR rest of Inl e \<Rightarrow> Inl e | Inr ns \<Rightarrow> Inr (n # ns)))"

definition IsTrusted :: "(string \<Rightarrow> 'ip option) \<Rightarrow> 'ip ProxyTrust option \<Rightarrow> string \<Rightarrow> bool" where
  "IsTrusted parse p remoteAddr =
     (case p of
        None \<Rightarrow> False
      | Some [] \<Rightarrow> True
      | Some cidrs \<Rightarrow> (case parse (clientIP remoteAddr) of None \<Rightarrow> False | Some ip \<Rightarrow> list_ex (\<lambda>n. n ip) cidrs))"

definition headerSourcedIP :: "request \<Rightarrow> string" where
  "headerSourcedIP r =
     (let v = header_Get (Header r) ''X-Forwarded-For''
      in if v \<noteq> [] then (case IndexByte v (CHR '','') of Some i \<Rightarrow> TrimSpace (take i v) | None \<Rightarrow> TrimSpace v)
         else TrimSpace (header_Get (Header r) ''X-Real-IP''))"

definition ProxyTrust_ClientIP :: "(string \<Rightarrow> 'ip option) \<Rightarrow> 'ip ProxyTrust option \<Rightarrow> request \<Rightarrow> string" where
  "ProxyTrust_ClientIP parse p r =
     (let v = header_Get (Header r) ''X-Forwarded-For''; w = header_Get (Header r) ''X-Real-IP''
      in if IsTrusted parse p (RemoteAddr r) \<and> v \<noteq> []
         then (case IndexByte v (CHR '','') of Some i \<Rightarrow> TrimSpace (take i v) | None \<Rightarrow> TrimSpace v)
         else if IsTrusted parse p (RemoteAddr r) \<and> w \<noteq> [] then TrimSpace w
         else clientIP (RemoteAddr r))"

definition IsHTTPS :: "(string \<Rightarrow> 'ip option) \<Rightarrow> 'ip ProxyTrust option \<Rightarrow> request \<Rightarrow> bool" where
  "IsHTTPS parse p r =
     (if TLS r then True
      else if \<not> IsTrusted parse p (RemoteAddr r) then False
      else EqualFold (header_Get (Header r) ''X-Forwarded-Proto'') ''https'')"

text \<open>\<^verbatim>\<open>net.JoinHostPort\<close>, and the middleware that rewrites \<^verbatim>\<open>RemoteAddr\<close>.\<close>

definition JoinHostPort :: "string \<Rightarrow> string \<Rightarrow> string" where
  "JoinHostPort host port = (if CHR '':'' \<in> set host then ''['' @ host @ '']:'' @ port else host @ '':'' @ port)"

definition ProxyTrust_Middleware :: "(string \<Rightarrow> 'ip option) \<Rightarrow> 'ip ProxyTrust option \<Rightarrow> request \<Rightarrow> request" where
  "ProxyTrust_Middleware parse p r =
     (if IsTrusted parse p (RemoteAddr r) \<and> headerSourcedIP r \<noteq> []
      then r\<lparr>RemoteAddr := (case SplitHostPort (RemoteAddr r) of Some (_, port) \<Rightarrow> JoinHostPort (headerSourcedIP r) port | None \<Rightarrow> headerSourcedIP r)\<rparr>
      else r)"

section \<open>A sliding window per key\<close>

text \<open>The verdicts of a sequence of calls, each a time and a key.\<close>

fun verdicts :: "(time \<Rightarrow> string \<Rightarrow> 'l \<Rightarrow> bool \<times> 'l) \<Rightarrow> (time \<times> string) list \<Rightarrow> 'l \<Rightarrow> (time \<times> string \<times> bool) list \<times> 'l" where
  "verdicts allow [] l = ([], l)"
| "verdicts allow ((now, k) # cs) l =
     (case allow now k l of (b, l1) \<Rightarrow> (case verdicts allow cs l1 of (vs, l2) \<Rightarrow> ((now, k, b) # vs, l2)))"

definition admitted :: "string \<Rightarrow> (time \<times> string \<times> bool) list \<Rightarrow> time list" where
  "admitted k vs = map fst (filter (\<lambda>(t, k', b). k' = k \<and> b) vs)"

definition in_window :: "duration \<Rightarrow> time \<Rightarrow> time list \<Rightarrow> time list" where
  "in_window w t ts = filter (\<lambda>e. t - w < e \<and> e \<le> t) ts"

lemma dropWhile_sorted: "sorted ts \<Longrightarrow> dropWhile (\<lambda>e. e \<le> c) ts = filter (\<lambda>e. c < e) ts" for c :: int
proof (induction ts)
  case (Cons a ts)
  show ?case
  proof (cases "a \<le> c")
    case False
    then have "\<forall>x \<in> set ts. c < x" using Cons.prems by auto
    then show ?thesis using False by (simp add: filter_id_conv)
  qed (use Cons in auto)
qed simp

lemma length_filter_mono: "(\<And>x. x \<in> set xs \<Longrightarrow> P x \<Longrightarrow> Q x) \<Longrightarrow> length (filter P xs) \<le> length (filter Q xs)"
  by (induction xs) (auto simp: le_SucI)

locale sliding_window =
  fixes events :: "'l \<Rightarrow> string \<Rightarrow> time list"
    and allow :: "time \<Rightarrow> string \<Rightarrow> 'l \<Rightarrow> bool \<times> 'l"
    and ok :: "'l \<Rightarrow> bool"
    and mx :: int
    and w :: duration
  assumes verdict: "ok l \<Longrightarrow> fst (allow now k l) = (int (length (dropWhile (\<lambda>e. e \<le> now - w) (events l k))) < mx)"
    and own_events: "ok l \<Longrightarrow> events (snd (allow now k l)) k =
          dropWhile (\<lambda>e. e \<le> now - w) (events l k) @ (if fst (allow now k l) then [now] else [])"
    and other_events: "ok l \<Longrightarrow> k' \<noteq> k \<Longrightarrow> events (snd (allow now k l)) k' = events l k'"
    and ok_kept: "ok l \<Longrightarrow> ok (snd (allow now k l))"
begin

text \<open>The kept events are the admitted times less a prefix that is outside every window still to come.\<close>

definition tracks :: "'l \<Rightarrow> string \<Rightarrow> time \<Rightarrow> time list \<Rightarrow> bool" where
  "tracks l k t past \<longleftrightarrow> sorted past \<and> (\<forall>e \<in> set past. e \<le> t) \<and> (\<exists>pre. past = pre @ events l k \<and> (\<forall>e \<in> set pre. e \<le> t - w))"

lemma pruned:
  assumes "tracks l k t past" "t \<le> now"
  shows "dropWhile (\<lambda>e. e \<le> now - w) (events l k) = filter (\<lambda>e. now - w < e) past"
proof -
  obtain pre where p: "sorted past" "past = pre @ events l k" "\<forall>e \<in> set pre. e \<le> t - w" using assms(1) by (auto simp: tracks_def)
  have "dropWhile (\<lambda>e. e \<le> now - w) past = dropWhile (\<lambda>e. e \<le> now - w) (events l k)"
    unfolding p(2) using p(3) assms(2) by (subst dropWhile_append2) auto
  then show ?thesis using dropWhile_sorted [OF p(1)] by simp
qed

lemma tracks_step:
  assumes "ok l" "tracks l k t past" "t \<le> now" "allow now k0 l = (b, l1)"
  shows "tracks l1 k now (past @ (if k0 = k \<and> b then [now] else []))"
proof -
  obtain pre where p: "sorted past" "\<forall>e \<in> set past. e \<le> t" "past = pre @ events l k" "\<forall>e \<in> set pre. e \<le> t - w"
    using assms(2) by (auto simp: tracks_def)
  have s: "sorted (past @ (if k0 = k \<and> b then [now] else []))" "\<forall>e \<in> set (past @ (if k0 = k \<and> b then [now] else [])). e \<le> now"
    using p(1,2) assms(3) by (auto simp: sorted_append)
  have "\<exists>pre. past @ (if k0 = k \<and> b then [now] else []) = pre @ events l1 k \<and> (\<forall>e \<in> set pre. e \<le> now - w)"
  proof (cases "k0 = k")
    case True
    have e: "events l1 k = dropWhile (\<lambda>e. e \<le> now - w) (events l k) @ (if b then [now] else [])"
      using own_events [OF assms(1), of now k] assms(4) True by simp
    define cut where "cut = takeWhile (\<lambda>e. e \<le> now - w) (events l k)"
    have "past @ (if b then [now] else []) = (pre @ cut) @ events l1 k"
      unfolding e cut_def p(3) by (metis append.assoc takeWhile_dropWhile_id)
    moreover have "\<forall>e \<in> set (pre @ cut). e \<le> now - w" using p(4) assms(3) by (auto simp: cut_def dest: set_takeWhileD)
    ultimately show ?thesis using True by auto
  next
    case False
    then show ?thesis using other_events [OF assms(1), of k k0 now] assms(3,4) p by force
  qed
  with s show ?thesis unfolding tracks_def by blast
qed

lemma window_step:
  assumes "ok l" "tracks l k t past" "t \<le> now" "allow now k0 l = (b, l1)" "length (in_window w u past) \<le> nat mx"
  shows "length (in_window w u (past @ (if k0 = k \<and> b then [now] else []))) \<le> nat mx"
proof (cases "k0 = k \<and> b \<and> now \<le> u")
  case True
  have "int (length (filter (\<lambda>e. now - w < e) past)) < mx"
    using verdict [OF assms(1), of now k0] assms(4) True pruned [OF assms(2,3)] by simp
  moreover have "length (filter (\<lambda>e. u - w < e \<and> e \<le> u) past) \<le> length (filter (\<lambda>e. now - w < e) past)"
    using True by (intro length_filter_mono) auto
  ultimately show ?thesis by (auto simp: in_window_def)
next
  case False
  then have "in_window w u (past @ (if k0 = k \<and> b then [now] else [])) = in_window w u past" by (auto simp: in_window_def)
  then show ?thesis using assms(5) by simp
qed

lemma window_run:
  assumes "ok l" "tracks l k t past" "sorted (map fst cs)" "\<forall>c \<in> set cs. t \<le> fst c" "\<And>u. length (in_window w u past) \<le> nat mx"
  shows "length (in_window w u (past @ admitted k (fst (verdicts allow cs l)))) \<le> nat mx"
  using assms
proof (induction cs arbitrary: l t past u)
  case Nil
  then show ?case by (simp add: admitted_def)
next
  case (Cons c cs)
  obtain now k0 b l1 where c: "c = (now, k0)" "allow now k0 l = (b, l1)" by (metis prod.exhaust_sel)
  define new where "new = (if k0 = k \<and> b then [now] else [])"
  have now: "t \<le> now" "ok l1" "sorted (map fst cs)" "\<forall>c \<in> set cs. now \<le> fst c"
    using Cons.prems(1,3,4) c ok_kept [OF Cons.prems(1), of now k0] by auto
  have "length (in_window w u ((past @ new) @ admitted k (fst (verdicts allow cs l1)))) \<le> nat mx"
    unfolding new_def using window_step [OF Cons.prems(1,2) now(1) c(2) Cons.prems(5)]
    by (intro Cons.IH [OF now(2) tracks_step [OF Cons.prems(1,2) now(1) c(2)] now(3,4)])
  moreover have "past @ admitted k (fst (verdicts allow (c # cs) l)) = (past @ new) @ admitted k (fst (verdicts allow cs l1))"
    using c by (auto simp: admitted_def new_def split: prod.splits)
  ultimately show ?case by simp
qed

text \<open>Requests of other keys do not influence the verdicts of a key.\<close>

lemma other_keys:
  assumes "ok l" "ok l'" "events l k = events l' k"
  shows "admitted k (fst (verdicts allow cs l)) = admitted k (fst (verdicts allow (filter (\<lambda>c. snd c = k) cs) l'))"
  using assms
proof (induction cs arbitrary: l l')
  case (Cons c cs)
  obtain now k0 b l1 where c: "c = (now, k0)" "allow now k0 l = (b, l1)" by (metis prod.exhaust_sel)
  have ok1: "ok l1" using ok_kept [OF Cons.prems(1), of now k0] c by simp
  show ?case
  proof (cases "k0 = k")
    case True
    obtain b' l1' where c': "allow now k l' = (b', l1')" by force
    have "b' = b" "events l1 k = events l1' k" "ok l1'"
      using verdict [OF Cons.prems(1), of now k] verdict [OF Cons.prems(2), of now k] own_events [OF Cons.prems(1), of now k]
        own_events [OF Cons.prems(2), of now k] ok_kept [OF Cons.prems(2), of now k] c c' True Cons.prems(3) by auto
    then show ?thesis using Cons.IH [OF ok1, of l1'] c c' True by (auto simp: admitted_def split: prod.splits)
  next
    case False
    have "events l1 k = events l' k" using other_events [OF Cons.prems(1), of k k0 now] c False Cons.prems(3) by simp
    then show ?thesis using Cons.IH [OF ok1 Cons.prems(2)] c False by (auto simp: admitted_def split: prod.splits)
  qed
qed (simp add: admitted_def)

text \<open>From a fresh limiter no window ever has more than \<open>mx\<close> admitted requests of a key.\<close>

lemma window_bound:
  assumes "ok l" "events l k = []" "sorted (map fst cs)"
  shows "length (in_window w u (admitted k (fst (verdicts allow cs l)))) \<le> nat mx"
proof (cases cs)
  case (Cons c cs')
  have "tracks l k (fst c) []" using assms(2) by (auto simp: tracks_def)
  from window_run [OF assms(1) this assms(3)] show ?thesis using Cons assms(3) by (simp add: in_window_def)
qed (simp add: admitted_def in_window_def)

end

section \<open>The sharded limiter is one\<close>

definition rl_events :: "RateLimiter \<Rightarrow> string \<Rightarrow> time list" where
  "rl_events r k = lookup_or [] (rl_shards r ! shardFor k) k"

definition rl_ok :: "int \<Rightarrow> duration \<Rightarrow> RateLimiter \<Rightarrow> bool" where
  "rl_ok mx w r \<longleftrightarrow> length (rl_shards r) = rateLimiterShards \<and> rl_Max r = mx \<and> rl_Window r = w \<and> int64_range (- w)"

lemma shardFor_less: "shardFor k < rateLimiterShards"
proof -
  have "fnv32a k mod 16 < (16 :: 32 word)" by (simp add: word_mod_less_divisor)
  then show ?thesis by (simp add: shardFor_def rateLimiterShards_def word_less_nat_alt)
qed

lemma rl_events_upd:
  assumes "length (rl_shards r) = rateLimiterShards"
  shows "rl_events (r\<lparr>rl_shards := (rl_shards r)[shardFor k := AList.update k es (rl_shards r ! shardFor k)]\<rparr>) k' = (if k' = k then es else rl_events r k')"
  using assms shardFor_less [of k] by (auto simp: rl_events_def lookup_or_def nth_list_update update_conv')

interpretation rl: sliding_window rl_events RateLimiter_Allow "rl_ok mx w" mx w for mx w
proof
  fix l now k k'
  assume ok: "rl_ok mx w l"
  have c: "(\<lambda>e. \<not> time_After e (time_Add now (wrap64 (- rl_Window l)))) = (\<lambda>e. e \<le> now - w)"
    using ok by (auto simp: rl_ok_def time_After_def time_Add_def wrap64_id)
  have len: "length (rl_shards l) = rateLimiterShards" and mx: "rl_Max l = mx" using ok by (simp_all add: rl_ok_def)
  define es where "es = dropWhile (\<lambda>e. e \<le> now - w) (rl_events l k)"
  have eq: "RateLimiter_Allow now k l = (int (length es) < mx,
      l\<lparr>rl_shards := (rl_shards l)[shardFor k := AList.update k (es @ (if int (length es) < mx then [now] else [])) (rl_shards l ! shardFor k)]\<rparr>)"
    by (simp add: RateLimiter_Allow_def Let_def c mx es_def rl_events_def not_le)
  show "fst (RateLimiter_Allow now k l) = (int (length (dropWhile (\<lambda>e. e \<le> now - w) (rl_events l k))) < mx)"
    by (simp add: eq es_def)
  show "rl_events (snd (RateLimiter_Allow now k l)) k = dropWhile (\<lambda>e. e \<le> now - w) (rl_events l k) @ (if fst (RateLimiter_Allow now k l) then [now] else [])"
    by (simp add: eq rl_events_upd [OF len] es_def)
  show "k' \<noteq> k \<Longrightarrow> rl_events (snd (RateLimiter_Allow now k l)) k' = rl_events l k'"
    by (simp add: eq rl_events_upd [OF len])
  show "rl_ok mx w (snd (RateLimiter_Allow now k l))" using ok by (simp add: eq rl_ok_def)
qed

lemma fresh_limiter:
  assumes "int64_range (- w)"
  shows "rl_ok mx w (NewRateLimiter_auth mx w)" "rl_events (NewRateLimiter_auth mx w) k = []"
  using assms shardFor_less [of k] by (auto simp: rl_ok_def NewRateLimiter_auth_def rl_events_def lookup_or_def)

section \<open>Properties\<close>

text \<open>C40: The limiter keeps its promise, whatever shard a key falls into: among any sequence of requests with
  non-decreasing clock readings, at most \<^verbatim>\<open>Max\<close> requests of a key are admitted in any window, and the verdicts
  for a key are those of a single list of that key's admitted requests, as if the other keys were not there.\<close>

theorem rate_window_bound:
  assumes "int64_range (- w)" "sorted (map fst cs)"
  shows "length (in_window w u (admitted k (fst (verdicts RateLimiter_Allow cs (NewRateLimiter_auth mx w))))) \<le> nat mx
    \<and> admitted k (fst (verdicts RateLimiter_Allow cs (NewRateLimiter_auth mx w)))
      = admitted k (fst (verdicts RateLimiter_Allow (filter (\<lambda>c. snd c = k) cs) (NewRateLimiter_auth mx w)))"
  using rl.window_bound [OF fresh_limiter [OF assms(1)] assms(2)] rl.other_keys [OF fresh_limiter(1) [OF assms(1)] fresh_limiter(1) [OF assms(1)] refl] by blast

theorem rate_window_bound_witness:
  "length (in_window 60 100 (admitted ''a'' (fst (verdicts RateLimiter_Allow [(50, ''a''), (60, ''b''), (70, ''a''), (80, ''a'')] (NewRateLimiter_auth 2 60))))) = 2
   \<and> length (in_window 60 100 (admitted ''a'' (fst (verdicts RateLimiter_Allow [(50, ''a''), (60, ''b''), (70, ''a''), (80, ''a'')] (NewRateLimiter_auth 2 60))))) \<le> nat 2"
proof -
  have "int64_range (- 60)" by (simp add: int64_range_def)
  then have "length (in_window 60 100 (admitted ''a'' (fst (verdicts RateLimiter_Allow [(50, ''a''), (60, ''b''), (70, ''a''), (80, ''a'')] (NewRateLimiter_auth 2 60))))) \<le> nat 2"
    by (rule rate_window_bound [THEN conjunct1]) simp
  moreover have "length (in_window 60 100 (admitted ''a'' (fst (verdicts RateLimiter_Allow [(50, ''a''), (60, ''b''), (70, ''a''), (80, ''a'')] (NewRateLimiter_auth 2 60))))) = 2"
    by code_simp
  ultimately show ?thesis by blast
qed

end
