(* ===== verification/Login_Sessions.thy ===== *)
theory Login_Sessions
  imports User_Store Login_Limits Passwords
begin

text \<open>
  Login sessions of the dashboard (\<^verbatim>\<open>internal/auth/session.go\<close>, \<^verbatim>\<open>cache.go\<close>, \<^verbatim>\<open>touch.go\<close>, \<^verbatim>\<open>middleware.go\<close>, \<^verbatim>\<open>csrf.go\<close>,
  \<^verbatim>\<open>tokens.go\<close>, and \<^verbatim>\<open>ResolveIdentity\<close> of \<^verbatim>\<open>service.go\<close>): issuing, resolving and revoking sessions, the cache of resolved
  identities, the batch of pending \<^verbatim>\<open>last_seen\<close> writes and the middlewares built on them. The state is the two
  tables, the cache and the batch; clock readings, random bytes and database faults are arguments.
  \<^verbatim>\<open>Attach\<close> does its work in three steps that other requests can interleave with; it is defined as their
  composition, and the transition system at the end runs the steps of many requests in any order.
\<close>

section \<open>Cookies\<close>

text \<open>\<^verbatim>\<open>http.Request.Cookie\<close>: the first cookie of that name with a valid name and value.\<close>

definition cookie_byte :: "char \<Rightarrow> bool" where
  "cookie_byte c \<longleftrightarrow> 32 \<le> (of_char c :: nat) \<and> (of_char c :: nat) < 127 \<and> c \<noteq> CHR 0x22 \<and> c \<noteq> CHR '';'' \<and> c \<noteq> CHR 0x5C"

definition parseCookieValue :: "string \<Rightarrow> string option" where
  "parseCookieValue raw =
     (let v = (if 1 < length raw \<and> hd raw = CHR 0x22 \<and> last raw = CHR 0x22 then butlast (tl raw) else raw)
      in if list_all cookie_byte v then Some v else None)"

definition cookie_pair :: "string \<Rightarrow> (string \<times> string) option" where
  "cookie_pair part =
     (let p = TrimSpace part
      in if p = [] then None
         else case Cut p (CHR ''='') of (n, v) \<Rightarrow>
           (let name = TrimSpace n
            in if name = [] \<or> \<not> list_all validHeaderFieldByte name then None else map_option (Pair name) (parseCookieValue v)))"

definition req_Cookie :: "request \<Rightarrow> string \<Rightarrow> string option" where
  "req_Cookie r name =
     map_of (List.map_filter cookie_pair (concat (map (\<lambda>line. Split line (CHR '';'')) (header_Values (Header r) ''Cookie'')))) name"

record cookie =
  ck_Name :: string
  ck_Value :: string
  ck_Path :: string
  ck_HttpOnly :: bool
  ck_Secure :: bool
  ck_Expires :: "time option"
  ck_MaxAge :: int

section \<open>Identities and their cache\<close>

record Identity =
  id_UserID :: string
  id_Username :: string
  id_Role :: string
  id_Source :: string
  id_SessionID :: string
  id_CSRFToken :: string
  id_MustChangePW :: bool
  id_SyntheticUser :: bool

definition IsAdmin :: "Identity option \<Rightarrow> bool" where
  "IsAdmin i = (case i of Some x \<Rightarrow> id_Role x = ''admin'' | None \<Rightarrow> False)"

record cacheEntry =
  en_id :: Identity
  en_cachedAt :: time
  en_cacheExpires :: time
  en_sessionExpiry :: time
  en_lastSeen :: time

record IdentityCache =
  ic_ttl :: duration
  ic_entries :: "(string \<times> cacheEntry) list"

definition identityCacheTTL :: duration where "identityCacheTTL = 30 * Second"

definition NewIdentityCache :: "duration \<Rightarrow> IdentityCache" where
  "NewIdentityCache ttl = \<lparr>ic_ttl = ttl, ic_entries = []\<rparr>"

definition entry_stale :: "time \<Rightarrow> cacheEntry \<Rightarrow> bool" where
  "entry_stale now e \<longleftrightarrow> time_After now (en_cacheExpires e) \<or> time_After now (en_sessionExpiry e)"

text \<open>A hit is the identity, the session's expiry and whether a touch is due; the cache may be absent.\<close>

definition Cache_Get :: "string \<Rightarrow> time \<Rightarrow> duration \<Rightarrow> IdentityCache option \<Rightarrow> (Identity \<times> time \<times> bool) option \<times> IdentityCache option" where
  "Cache_Get sessionID now idleHalf oc =
     (case oc of None \<Rightarrow> (None, oc)
      | Some c \<Rightarrow>
          if ic_ttl c \<le> 0 then (None, oc)
          else case map_of (ic_entries c) sessionID of
            None \<Rightarrow> (None, oc)
          | Some e \<Rightarrow>
              if entry_stale now e then (None, oc)
              else if 0 < idleHalf \<and> idleHalf < time_Sub now (en_lastSeen e)
              then (Some (en_id e, en_sessionExpiry e, True), Some (c\<lparr>ic_entries := AList.update sessionID (e\<lparr>en_lastSeen := now\<rparr>) (ic_entries c)\<rparr>))
              else (Some (en_id e, en_sessionExpiry e, False), oc))"

definition Cache_Put :: "string \<Rightarrow> Identity \<Rightarrow> time \<Rightarrow> time \<Rightarrow> time \<Rightarrow> IdentityCache option \<Rightarrow> IdentityCache option" where
  "Cache_Put sessionID i sessionExpiry lastSeen now oc =
     map_option (\<lambda>c. if ic_ttl c \<le> 0 then c
       else c\<lparr>ic_entries := AList.update sessionID
         \<lparr>en_id = i, en_cachedAt = now, en_cacheExpires = time_Add now (ic_ttl c), en_sessionExpiry = sessionExpiry, en_lastSeen = lastSeen\<rparr> (ic_entries c)\<rparr>) oc"

definition Cache_Invalidate :: "string \<Rightarrow> IdentityCache option \<Rightarrow> IdentityCache option" where
  "Cache_Invalidate sessionID = map_option (\<lambda>c. c\<lparr>ic_entries := AList.delete sessionID (ic_entries c)\<rparr>)"

definition InvalidateUser :: "string \<Rightarrow> IdentityCache option \<Rightarrow> IdentityCache option" where
  "InvalidateUser userID = map_option (\<lambda>c. c\<lparr>ic_entries := filter (\<lambda>(sid, e). id_UserID (en_id e) \<noteq> userID) (ic_entries c)\<rparr>)"

definition Cache_Reap :: "time \<Rightarrow> IdentityCache option \<Rightarrow> IdentityCache option" where
  "Cache_Reap now = map_option (\<lambda>c. c\<lparr>ic_entries := filter (\<lambda>(sid, e). \<not> entry_stale now e) (ic_entries c)\<rparr>)"

definition Cache_Len :: "IdentityCache option \<Rightarrow> nat" where
  "Cache_Len oc = (case oc of None \<Rightarrow> 0 | Some c \<Rightarrow> length (ic_entries c))"

section \<open>Pending touches\<close>

type_synonym touches = "(string \<times> (time \<times> time)) list"

definition Enqueue :: "string \<Rightarrow> time \<Rightarrow> time \<Rightarrow> touches option \<Rightarrow> touches option" where
  "Enqueue sessionID now expiresAt = map_option (AList.update sessionID (now, expiresAt))"

text \<open>The batch is swapped out and written entry by entry; the iteration order of the map does not matter, as its
  keys are distinct.\<close>

definition flush :: "faults \<Rightarrow> touches option \<Rightarrow> Session list \<Rightarrow> nat \<times> touches option \<times> Session list" where
  "flush flt pending rows =
     (case pending of
        None \<Rightarrow> (0, None, rows)
      | Some batch \<Rightarrow> (length batch, Some [], fold (\<lambda>(i, t, e). TouchSession flt i t e) batch rows))"

section \<open>The session manager\<close>

record 'ip SessionManager =
  sm_Lifetime :: duration
  sm_IdleTimeout :: duration
  sm_CookieSecure :: "bool option"
  sm_Proxies :: "'ip ProxyTrust option"
  sm_parseIP :: "string \<Rightarrow> 'ip option"

record auth_state =
  a_users :: "User list"
  a_sessions :: "Session list"
  a_cache :: "IdentityCache option"
  a_touch :: "touches option"

text \<open>Division of durations truncates towards zero.\<close>

definition half :: "duration \<Rightarrow> duration" where
  "half d = (if d < 0 then - (- d div 2) else d div 2)"

definition RandomToken :: "string option \<Rightarrow> string option" where
  "RandomToken rnd = map_option (raw64_EncodeToString url_alphabet) rnd"

definition secureFlag :: "'ip SessionManager \<Rightarrow> request \<Rightarrow> bool" where
  "secureFlag m r =
     (case sm_CookieSecure m of
        Some b \<Rightarrow> b
      | None \<Rightarrow> if TLS r then True else (case sm_Proxies m of Some p \<Rightarrow> IsHTTPS (sm_parseIP m) (Some p) r | None \<Rightarrow> False))"

definition SessionManager_clientIP :: "'ip SessionManager \<Rightarrow> request \<Rightarrow> string" where
  "SessionManager_clientIP m r =
     (case sm_Proxies m of Some p \<Rightarrow> ProxyTrust_ClientIP (sm_parseIP m) (Some p) r | None \<Rightarrow> clientIP (RemoteAddr r))"

definition writeCookies :: "'ip SessionManager \<Rightarrow> request \<Rightarrow> Session \<Rightarrow> cookie list" where
  "writeCookies m r s =
     [\<lparr>ck_Name = ''stowage_session'', ck_Value = ss_ID s, ck_Path = ''/'', ck_HttpOnly = True, ck_Secure = secureFlag m r,
       ck_Expires = Some (ss_ExpiresAt s), ck_MaxAge = 0\<rparr>,
      \<lparr>ck_Name = ''stowage_csrf'', ck_Value = ss_CSRFToken s, ck_Path = ''/'', ck_HttpOnly = False, ck_Secure = secureFlag m r,
       ck_Expires = Some (ss_ExpiresAt s), ck_MaxAge = 0\<rparr>]"

definition clearCookies :: "'ip SessionManager \<Rightarrow> request \<Rightarrow> cookie list" where
  "clearCookies m r =
     map (\<lambda>name. \<lparr>ck_Name = name, ck_Value = [], ck_Path = ''/'', ck_HttpOnly = (name = ''stowage_session''), ck_Secure = secureFlag m r,
       ck_Expires = None, ck_MaxAge = -1\<rparr>) [''stowage_session'', ''stowage_csrf'']"

definition Issue :: "'ip SessionManager \<Rightarrow> faults \<Rightarrow> time \<Rightarrow> string option \<Rightarrow> string option \<Rightarrow> request \<Rightarrow> string \<Rightarrow> string \<Rightarrow> int
    \<Rightarrow> auth_state \<Rightarrow> (string + Session) \<times> cookie list \<times> auth_state" where
  "Issue m flt now rnd1 rnd2 r userID source flags st =
     (case RandomToken rnd1 of None \<Rightarrow> (Inl ''rand'', [], st)
      | Some sid \<Rightarrow> (case RandomToken rnd2 of None \<Rightarrow> (Inl ''rand'', [], st)
        | Some csrf \<Rightarrow>
            (let s = \<lparr>ss_ID = sid, ss_UserID = userID, ss_IdentitySource = source, ss_CSRFToken = csrf, ss_IP = SessionManager_clientIP m r,
                      ss_UserAgent = header_Get (Header r) ''User-Agent'', ss_Flags = flags, ss_CreatedAt = now, ss_LastSeenAt = now,
                      ss_ExpiresAt = time_Add now (sm_Lifetime m)\<rparr>
             in case CreateSession flt s (a_sessions st) of
                  Inl e \<Rightarrow> (Inl e, [], st)
                | Inr rows \<Rightarrow> (Inr s, writeCookies m r s, st\<lparr>a_sessions := rows\<rparr>))))"

definition persistTouch :: "faults \<Rightarrow> string \<Rightarrow> time \<Rightarrow> time \<Rightarrow> auth_state \<Rightarrow> auth_state" where
  "persistTouch flt i now expiresAt st =
     (case a_touch st of
        Some _ \<Rightarrow> st\<lparr>a_touch := Enqueue i now expiresAt (a_touch st)\<rparr>
      | None \<Rightarrow> st\<lparr>a_sessions := TouchSession flt i now expiresAt (a_sessions st)\<rparr>)"

datatype session_err = ErrNoSession | ErrSessionExpired

definition Sessions_Resolve :: "'ip SessionManager \<Rightarrow> faults \<Rightarrow> time \<Rightarrow> request \<Rightarrow> auth_state \<Rightarrow> (session_err + Session) \<times> cookie list \<times> auth_state" where
  "Sessions_Resolve m flt now r st =
     (case req_Cookie r ''stowage_session'' of
        None \<Rightarrow> (Inl ErrNoSession, [], st)
      | Some v \<Rightarrow>
          if v = [] then (Inl ErrNoSession, [], st)
          else case GetSession flt v (a_sessions st) of
            None \<Rightarrow> (Inl ErrNoSession, [], st)
          | Some s \<Rightarrow>
              if time_After now (ss_ExpiresAt s)
              then (Inl ErrSessionExpired, clearCookies m r,
                    st\<lparr>a_sessions := DeleteSession flt (ss_ID s) (a_sessions st), a_cache := Cache_Invalidate (ss_ID s) (a_cache st)\<rparr>)
              else if half (sm_IdleTimeout m) < time_Sub now (ss_LastSeenAt s)
              then let newExp = time_Add now (sm_Lifetime m);
                       s1 = s\<lparr>ss_LastSeenAt := now, ss_ExpiresAt := newExp\<rparr>
                   in (Inr s1, writeCookies m r s1, persistTouch flt (ss_ID s) now newExp st)
              else (Inr s, [], st))"

definition Sessions_Revoke :: "'ip SessionManager \<Rightarrow> faults \<Rightarrow> request \<Rightarrow> string \<Rightarrow> auth_state \<Rightarrow> cookie list \<times> auth_state" where
  "Sessions_Revoke m flt r i st =
     (clearCookies m r,
      if i \<noteq> [] then st\<lparr>a_sessions := DeleteSession flt i (a_sessions st), a_cache := Cache_Invalidate i (a_cache st)\<rparr> else st)"

section \<open>Identities of requests\<close>

record StaticUser =
  su_Username :: string
  su_PasswordHash :: string

definition ResolveIdentity :: "faults \<Rightarrow> StaticUser option \<Rightarrow> Session \<Rightarrow> User list \<Rightarrow> Identity option" where
  "ResolveIdentity flt static s users =
     (let i = \<lparr>id_UserID = [], id_Username = [], id_Role = [], id_Source = ss_IdentitySource s, id_SessionID = ss_ID s, id_CSRFToken = ss_CSRFToken s,
               id_MustChangePW = (and (ss_Flags s) FlagMustChangePW \<noteq> 0), id_SyntheticUser = False\<rparr>
      in if ss_IdentitySource s = ''static''
         then (case static of None \<Rightarrow> None
               | Some su \<Rightarrow> Some (i\<lparr>id_UserID := ''static'', id_Username := su_Username su, id_Role := ''admin'', id_SyntheticUser := True\<rparr>))
         else (case GetUserByID flt (ss_UserID s) users of
                 Inl _ \<Rightarrow> None
               | Inr u \<Rightarrow> if \<not> u_Enabled u then None
                   else Some (i\<lparr>id_UserID := u_ID u, id_Username := u_Username u, id_Role := u_Role u\<rparr>)))"

text \<open>\<^verbatim>\<open>Attach\<close>, step by step. First the cookie and the cache, at clock reading \<open>now\<close>: the request is anonymous, has a cached
  identity, or has to load its session.\<close>

datatype attach_begin = Anonymous | Cached Identity | Loading

definition Attach_begin :: "'ip SessionManager \<Rightarrow> faults \<Rightarrow> time \<Rightarrow> request \<Rightarrow> auth_state \<Rightarrow> attach_begin \<times> auth_state" where
  "Attach_begin m flt now r st =
     (case req_Cookie r ''stowage_session'' of
        None \<Rightarrow> (Anonymous, st)
      | Some v \<Rightarrow>
          if v = [] then (Anonymous, st)
          else case Cache_Get v now (half (sm_IdleTimeout m)) (a_cache st) of
            (Some (i, sessExp, shouldTouch), c) \<Rightarrow>
              (Cached i, (if shouldTouch then persistTouch flt v now (time_Add now (sm_Lifetime m)) else (\<lambda>s. s)) (st\<lparr>a_cache := c\<rparr>))
          | (None, c) \<Rightarrow> (Loading, st\<lparr>a_cache := c\<rparr>))"

text \<open>Then the session row (\<^verbatim>\<open>Resolve\<close> reads the clock again), and last the user row and the cache entry, dated with the
  first clock reading.\<close>

definition Attach_finish :: "'ip SessionManager \<Rightarrow> faults \<Rightarrow> StaticUser option \<Rightarrow> time \<Rightarrow> request \<Rightarrow> Session \<Rightarrow> auth_state \<Rightarrow> Identity option \<times> cookie list \<times> auth_state" where
  "Attach_finish m flt static now r s st =
     (case ResolveIdentity flt static s (a_users st) of
        None \<Rightarrow> (case Sessions_Revoke m flt r (ss_ID s) st of (cks, st1) \<Rightarrow> (None, cks, st1))
      | Some i \<Rightarrow> (Some i, [], st\<lparr>a_cache := Cache_Put (ss_ID s) i (ss_ExpiresAt s) (ss_LastSeenAt s) now (a_cache st)\<rparr>))"

definition Attach :: "'ip SessionManager \<Rightarrow> faults \<Rightarrow> StaticUser option \<Rightarrow> time \<Rightarrow> time \<Rightarrow> request \<Rightarrow> auth_state \<Rightarrow> Identity option \<times> cookie list \<times> auth_state" where
  "Attach m flt static now now2 r st =
     (case Attach_begin m flt now r st of
        (Anonymous, st1) \<Rightarrow> (None, [], st1)
      | (Cached i, st1) \<Rightarrow> (Some i, [], st1)
      | (Loading, st1) \<Rightarrow> (case Sessions_Resolve m flt now2 r st1 of
          (Inl _, cks, st2) \<Rightarrow> (None, cks, st2)
        | (Inr s, cks, st2) \<Rightarrow> (case Attach_finish m flt static now r s st2 of (i, cks2, st3) \<Rightarrow> (i, cks @ cks2, st3))))"

section \<open>Gates\<close>

text \<open>The middlewares behind \<^verbatim>\<open>Attach\<close>: whether a request with this identity is let through.\<close>

definition CSRF_passes :: "request \<Rightarrow> Identity option \<Rightarrow> bool" where
  "CSRF_passes r i =
     (if Method r \<in> {''GET'', ''HEAD'', ''OPTIONS''} then True
      else case i of
        None \<Rightarrow> True
      | Some x \<Rightarrow> (let hdr = header_Get (Header r) ''X-CSRF-Token'' in \<not> (hdr = [] \<or> hdr \<noteq> id_CSRFToken x)))"

definition Require_passes :: "Identity option \<Rightarrow> bool" where
  "Require_passes i \<longleftrightarrow> i \<noteq> None"

definition RequireRole_passes :: "string list \<Rightarrow> Identity option \<Rightarrow> bool" where
  "RequireRole_passes roles i = (case i of None \<Rightarrow> False | Some x \<Rightarrow> list_ex (\<lambda>role. id_Role x = role) roles)"

definition isPasswordRotationAllowed :: "request \<Rightarrow> bool" where
  "isPasswordRotationAllowed r =
     (if Path (URL r) = ''/api/me'' then Method r = ''GET'' else if Path (URL r) = ''/api/me/password'' then Method r = ''POST'' else False)"

definition requirePasswordRotated_passes :: "request \<Rightarrow> Identity option \<Rightarrow> bool" where
  "requirePasswordRotated_passes r i =
     (case i of None \<Rightarrow> True | Some x \<Rightarrow> if \<not> id_MustChangePW x then True else isPasswordRotationAllowed r)"

end
