(* ===== verification/Session_Runs.thy ===== *)
theory Session_Runs
  imports Login_Sessions
begin

text \<open>
  Requests of the dashboard running concurrently. A state has the tables, the identity cache, the pending touches, a
  clock, the requests that are inside \<^verbatim>\<open>Attach\<close>, and a log of the requests that left it with an identity. The steps are
  those of \<open>Login_Sessions\<close>: each takes a lock or runs a statement of its own, so they interleave in any
  order. Everything else that happens to the tables appears as steps too: accounts change arbitrarily,
  sessions are issued, deleted (logout, password change, account deletion, purge) or lose flags, cache
  entries are dropped, touches are flushed. The clock does not run backwards.
\<close>

section \<open>The transition system\<close>

record flight =
  fl_req :: request
  fl_now :: time
  fl_sess :: "Session option"

record sys =
  sy_st :: auth_state
  sy_clock :: time
  sy_flights :: "flight list"
  sy_log :: "(string \<times> time \<times> Identity) list"

definition remove_nth :: "nat \<Rightarrow> 'a list \<Rightarrow> 'a list" where
  "remove_nth n xs = take n xs @ drop (Suc n) xs"

text \<open>\<open>sys_step m static issued S S'\<close>: the session ids that the step issues are \<open>issued\<close>.\<close>

inductive sys_step :: "'ip SessionManager \<Rightarrow> StaticUser option \<Rightarrow> string list \<Rightarrow> sys \<Rightarrow> sys \<Rightarrow> bool" for m static where
  tick: "sy_clock S \<le> t \<Longrightarrow> sys_step m static [] S (S\<lparr>sy_clock := t\<rparr>)"
| hit: "Attach_begin m flt now r (sy_st S) = (Cached i, st) \<Longrightarrow> now \<le> sy_clock S \<Longrightarrow> req_Cookie r ''stowage_session'' = Some v
    \<Longrightarrow> sys_step m static [] S (S\<lparr>sy_st := st, sy_log := (v, now, i) # sy_log S\<rparr>)"
| miss: "Attach_begin m flt now r (sy_st S) = (Loading, st) \<Longrightarrow> now \<le> sy_clock S
    \<Longrightarrow> sys_step m static [] S (S\<lparr>sy_st := st, sy_flights := sy_flights S @ [\<lparr>fl_req = r, fl_now = now, fl_sess = None\<rparr>]\<rparr>)"
| load: "n < length (sy_flights S) \<Longrightarrow> sy_flights S ! n = f \<Longrightarrow> fl_sess f = None
    \<Longrightarrow> Sessions_Resolve m flt now (fl_req f) (sy_st S) = (Inr s, cks, st) \<Longrightarrow> now \<le> sy_clock S
    \<Longrightarrow> sys_step m static [] S (S\<lparr>sy_st := st, sy_flights := (sy_flights S)[n := f\<lparr>fl_sess := Some s\<rparr>]\<rparr>)"
| load_fails: "n < length (sy_flights S) \<Longrightarrow> sy_flights S ! n = f \<Longrightarrow> fl_sess f = None
    \<Longrightarrow> Sessions_Resolve m flt now (fl_req f) (sy_st S) = (Inl e, cks, st) \<Longrightarrow> now \<le> sy_clock S
    \<Longrightarrow> sys_step m static [] S (S\<lparr>sy_st := st, sy_flights := remove_nth n (sy_flights S)\<rparr>)"
| finish: "n < length (sy_flights S) \<Longrightarrow> sy_flights S ! n = f \<Longrightarrow> fl_sess f = Some s
    \<Longrightarrow> Attach_finish m flt static (fl_now f) (fl_req f) s (sy_st S) = (Some i, cks, st)
    \<Longrightarrow> sys_step m static [] S (S\<lparr>sy_st := st, sy_flights := remove_nth n (sy_flights S), sy_log := (ss_ID s, fl_now f, i) # sy_log S\<rparr>)"
| finish_fails: "n < length (sy_flights S) \<Longrightarrow> sy_flights S ! n = f \<Longrightarrow> fl_sess f = Some s
    \<Longrightarrow> Attach_finish m flt static (fl_now f) (fl_req f) s (sy_st S) = (None, cks, st)
    \<Longrightarrow> sys_step m static [] S (S\<lparr>sy_st := st, sy_flights := remove_nth n (sy_flights S)\<rparr>)"
| issue: "Issue m flt now rnd1 rnd2 r userID source flags (sy_st S) = (Inr s, cks, st)
    \<Longrightarrow> sys_step m static [ss_ID s] S (S\<lparr>sy_st := st\<rparr>)"
| accounts: "sys_step m static [] S (S\<lparr>sy_st := (sy_st S)\<lparr>a_users := users\<rparr>\<rparr>)"
| delete: "sys_step m static [] S (S\<lparr>sy_st := (sy_st S)\<lparr>a_sessions := filter P (a_sessions (sy_st S))\<rparr>\<rparr>)"
| clear_flags: "sys_step m static [] S (S\<lparr>sy_st := (sy_st S)\<lparr>a_sessions := ClearSessionFlags flt i fmask (a_sessions (sy_st S))\<rparr>\<rparr>)"
| invalidate: "sys_step m static [] S (S\<lparr>sy_st := (sy_st S)\<lparr>a_cache := Cache_Invalidate i (a_cache (sy_st S))\<rparr>\<rparr>)"
| invalidate_user: "sys_step m static [] S (S\<lparr>sy_st := (sy_st S)\<lparr>a_cache := InvalidateUser u (a_cache (sy_st S))\<rparr>\<rparr>)"
| reap: "sys_step m static [] S (S\<lparr>sy_st := (sy_st S)\<lparr>a_cache := Cache_Reap now (a_cache (sy_st S))\<rparr>\<rparr>)"
| flushes: "flush flt (a_touch (sy_st S)) (a_sessions (sy_st S)) = (n, touches, rows)
    \<Longrightarrow> sys_step m static [] S (S\<lparr>sy_st := (sy_st S)\<lparr>a_touch := touches, a_sessions := rows\<rparr>\<rparr>)"

inductive sys_run :: "'ip SessionManager \<Rightarrow> StaticUser option \<Rightarrow> string list \<Rightarrow> sys \<Rightarrow> sys \<Rightarrow> bool" for m static where
  stay: "sys_run m static [] S S"
| more: "sys_run m static ids S S1 \<Longrightarrow> sys_step m static js S1 S2 \<Longrightarrow> sys_run m static (ids @ js) S S2"

definition sys_init :: "IdentityCache option \<Rightarrow> touches option \<Rightarrow> User list \<Rightarrow> sys" where
  "sys_init c t users = \<lparr>sy_st = \<lparr>a_users = users, a_sessions = [], a_cache = map_option (\<lambda>c. c\<lparr>ic_entries := []\<rparr>) c, a_touch = t\<rparr>,
     sy_clock = 0, sy_flights = [], sy_log = []\<rparr>"

section \<open>Frames of the operations\<close>

definition row_ids :: "auth_state \<Rightarrow> string set" where
  "row_ids st = ss_ID ` set (a_sessions st)"

definition entries :: "auth_state \<Rightarrow> (string \<times> cacheEntry) set" where
  "entries st = (case a_cache st of None \<Rightarrow> {} | Some c \<Rightarrow> set (ic_entries c))"

definition cache_ttl :: "auth_state \<Rightarrow> duration" where
  "cache_ttl st = (case a_cache st of None \<Rightarrow> 0 | Some c \<Rightarrow> ic_ttl c)"

definition expiries :: "auth_state \<Rightarrow> (string \<times> time) set" where
  "expiries st = (\<lambda>(k, e). (k, en_cacheExpires e)) ` entries st"

lemma expiries_mono: "entries st \<subseteq> entries st' \<Longrightarrow> expiries st \<subseteq> expiries st'"
  by (auto simp: expiries_def)

lemma alist_update_mem: "(k, v) \<in> set (AList.update k' v' m) \<Longrightarrow> (k, v) = (k', v') \<or> (k, v) \<in> set m"
  by (induction m) (auto split: if_splits)

lemma alist_delete_mem: "x \<in> set (AList.delete k m) \<Longrightarrow> x \<in> set m \<and> fst x \<noteq> k"
  by (auto simp: AList.delete_eq)

lemma set_rows_ids [simp]: "(\<And>r. ss_ID (f r) = ss_ID r) \<Longrightarrow> ss_ID ` set (set_rows P f rows) = ss_ID ` set rows"
  unfolding set_rows_def set_map image_image by (rule image_cong) auto

lemma TouchSession_ids [simp]: "ss_ID ` set (TouchSession flt i now ex rows) = ss_ID ` set rows"
  by (simp add: TouchSession_def split: option.split)

lemma ClearSessionFlags_ids [simp]: "ss_ID ` set (ClearSessionFlags flt i k rows) = ss_ID ` set rows"
  by (simp add: ClearSessionFlags_def split: option.split)

lemma flush_ids: "flush flt t rows = (n, t', rows') \<Longrightarrow> ss_ID ` set rows' = ss_ID ` set rows"
proof -
  have "ss_ID ` set (fold (\<lambda>(i, t, e). TouchSession flt i t e) batch rows) = ss_ID ` set rows" for batch rows
  proof (induction batch arbitrary: rows)
    case (Cons b batch)
    then show ?case by (cases b) simp
  qed simp
  moreover assume "flush flt t rows = (n, t', rows')"
  ultimately show ?thesis by (cases t) (simp_all add: flush_def, blast)
qed

lemma persistTouch_frame [simp]:
  "row_ids (persistTouch flt i now ex st) = row_ids st" "entries (persistTouch flt i now ex st) = entries st"
  "cache_ttl (persistTouch flt i now ex st) = cache_ttl st"
  by (simp_all add: persistTouch_def row_ids_def entries_def cache_ttl_def split: option.split)

lemma Cache_Get_entry:
  assumes "Cache_Get v now h (a_cache st) = (res, c')" "(k, e) \<in> entries (st\<lparr>a_cache := c'\<rparr>)"
  shows "\<exists>e0. (k, e0) \<in> entries st \<and> en_cacheExpires e = en_cacheExpires e0 \<and> en_id e = en_id e0"
proof (cases "c' = a_cache st")
  case False
  then obtain c e0 where e0: "a_cache st = Some c" "map_of (ic_entries c) v = Some e0"
      "c' = Some (c\<lparr>ic_entries := AList.update v (e0\<lparr>en_lastSeen := now\<rparr>) (ic_entries c)\<rparr>)"
    using assms(1) by (auto simp: Cache_Get_def split: option.splits if_splits)
  then show ?thesis using alist_update_mem [of k e] assms(2) map_of_SomeD [OF e0(2)] by (fastforce simp: entries_def)
qed (use assms(2) in \<open>auto simp: entries_def\<close>)

lemma row_ids_cache [simp]: "row_ids (st\<lparr>a_cache := c\<rparr>) = row_ids st"
  by (simp add: row_ids_def)

text \<open>What each step of \<^verbatim>\<open>Attach\<close> does to rows and cache.\<close>

lemma begin_frame:
  assumes "Attach_begin m flt now r st = (res, st')"
  shows "row_ids st' = row_ids st" "cache_ttl st' = cache_ttl st"
    and "(k, e) \<in> entries st' \<Longrightarrow> \<exists>e0. (k, e0) \<in> entries st \<and> en_cacheExpires e = en_cacheExpires e0 \<and> en_id e = en_id e0"
proof -
  show "row_ids st' = row_ids st" using assms
    by (auto simp: Attach_begin_def split: option.splits prod.splits if_splits)
  show "cache_ttl st' = cache_ttl st" using assms
    by (auto simp: Attach_begin_def Cache_Get_def split: option.splits prod.splits if_splits) (simp_all add: cache_ttl_def)
  show "\<exists>e0. (k, e0) \<in> entries st \<and> en_cacheExpires e = en_cacheExpires e0 \<and> en_id e = en_id e0" if "(k, e) \<in> entries st'"
    using assms that
    by (auto simp: Attach_begin_def split: option.splits prod.splits if_splits) (metis Cache_Get_entry)+
qed

lemma begin_expiries: "Attach_begin m flt now r st = (res, st') \<Longrightarrow> expiries st' \<subseteq> expiries st"
  using begin_frame(3) [of m flt now r st res st'] by (fastforce simp: expiries_def)

lemma begin_hit:
  assumes "Attach_begin m flt now r st = (Cached i, st')" "req_Cookie r ''stowage_session'' = Some v"
  shows "\<exists>e. (v, e) \<in> entries st \<and> en_id e = i \<and> now \<le> en_cacheExpires e \<and> now \<le> en_sessionExpiry e"
  using assms
  by (auto simp: Attach_begin_def Cache_Get_def entry_stale_def time_After_def not_less split: option.splits prod.splits if_splits)
     (force simp: entries_def dest: map_of_SomeD)+

lemma resolve_frame:
  assumes "Sessions_Resolve m flt now r st = (res, cks, st')"
  shows "row_ids st' \<subseteq> row_ids st" "cache_ttl st' = cache_ttl st" "entries st' \<subseteq> entries st"
  using assms
  by (auto simp: Sessions_Resolve_def Let_def split: option.splits if_splits)
     (auto simp: row_ids_def entries_def cache_ttl_def DeleteSession_def Cache_Invalidate_def dest: alist_delete_mem split: option.splits)

lemma resolve_row:
  assumes "Sessions_Resolve m flt now r st = (Inr s, cks, st')"
  shows "ss_ID s \<in> row_ids st" "req_Cookie r ''stowage_session'' = Some (ss_ID s)"
  using assms by (auto simp: Sessions_Resolve_def Let_def GetSession_def row_ids_def find_Some_iff split: option.splits if_splits)

lemma finish_frame:
  assumes "Attach_finish m flt static now r s st = (i, cks, st')"
  shows "row_ids st' \<subseteq> row_ids st" "cache_ttl st' = cache_ttl st"
    and "(k, e) \<in> entries st' \<Longrightarrow> (k, e) \<in> entries st \<or> k = ss_ID s \<and> en_cacheExpires e = now + cache_ttl st"
  using assms
  by (auto simp: Attach_finish_def Sessions_Revoke_def Cache_Put_def Cache_Invalidate_def DeleteSession_def row_ids_def cache_ttl_def time_Add_def
      split: option.splits if_splits)
     (auto simp: entries_def dest: alist_delete_mem dest!: alist_update_mem split: option.splits if_splits)

lemma finish_expiries:
  "Attach_finish m flt static now r s st = (i, cks, st') \<Longrightarrow> expiries st' \<subseteq> insert (ss_ID s, now + cache_ttl st) (expiries st)"
  using finish_frame(3) [of m flt static now r s st i cks st'] by (fastforce simp: expiries_def)

lemma Issue_frame:
  assumes "Issue m flt now rnd1 rnd2 r u src fl st = (Inr s, cks, st')"
  shows "row_ids st' = insert (ss_ID s) (row_ids st)" "cache_ttl st' = cache_ttl st" "entries st' = entries st"
  using assms by (auto simp: Issue_def Let_def CreateSession_def row_ids_def cache_ttl_def entries_def split: option.splits sum.splits if_splits)

lemma drop_frame:
  "entries (st\<lparr>a_cache := Cache_Invalidate i (a_cache st)\<rparr>) \<subseteq> entries st" "cache_ttl (st\<lparr>a_cache := Cache_Invalidate i (a_cache st)\<rparr>) = cache_ttl st"
  "entries (st\<lparr>a_cache := InvalidateUser u (a_cache st)\<rparr>) \<subseteq> entries st" "cache_ttl (st\<lparr>a_cache := InvalidateUser u (a_cache st)\<rparr>) = cache_ttl st"
  "entries (st\<lparr>a_cache := Cache_Reap now (a_cache st)\<rparr>) \<subseteq> entries st" "cache_ttl (st\<lparr>a_cache := Cache_Reap now (a_cache st)\<rparr>) = cache_ttl st"
  by (auto simp: entries_def cache_ttl_def Cache_Invalidate_def InvalidateUser_def Cache_Reap_def dest: alist_delete_mem split: option.splits)

section \<open>A session that is gone stays gone\<close>

definition loaded :: "string \<Rightarrow> flight \<Rightarrow> bool" where
  "loaded sid f \<longleftrightarrow> (\<exists>s. fl_sess f = Some s \<and> ss_ID s = sid)"

text \<open>Dates never run ahead of the clock.\<close>

definition dated :: "sys \<Rightarrow> bool" where
  "dated S \<longleftrightarrow> (\<forall>(k, x) \<in> expiries (sy_st S). x \<le> sy_clock S + cache_ttl (sy_st S)) \<and> (\<forall>f \<in> set (sy_flights S). fl_now f \<le> sy_clock S)"

text \<open>The session has no row; what may still authenticate it was begun by time \<open>d\<close>.\<close>

definition gone :: "string \<Rightarrow> time \<Rightarrow> duration \<Rightarrow> sys \<Rightarrow> bool" where
  "gone sid d ttl S \<longleftrightarrow> sid \<notin> row_ids (sy_st S) \<and> cache_ttl (sy_st S) = ttl
     \<and> (\<forall>x. (sid, x) \<in> expiries (sy_st S) \<longrightarrow> x \<le> d + ttl) \<and> (\<forall>f \<in> set (sy_flights S). loaded sid f \<longrightarrow> fl_now f \<le> d)"

lemma remove_nth_subset: "set (remove_nth n xs) \<subseteq> set xs"
  by (auto simp: remove_nth_def dest: in_set_takeD in_set_dropD)

lemma nth_flight: "n < length fs \<Longrightarrow> fs ! n = f \<Longrightarrow> f \<in> set fs"
  by auto

lemma flush_frame:
  assumes "flush flt (a_touch st) (a_sessions st) = (n, touches, rows)"
  shows "row_ids (st\<lparr>a_touch := touches, a_sessions := rows\<rparr>) = row_ids st"
    "entries (st\<lparr>a_touch := touches, a_sessions := rows\<rparr>) = entries st" "cache_ttl (st\<lparr>a_touch := touches, a_sessions := rows\<rparr>) = cache_ttl st"
  using flush_ids [OF assms] by (simp_all add: row_ids_def entries_def cache_ttl_def)

lemma account_frame:
  "row_ids (st\<lparr>a_users := us\<rparr>) = row_ids st" "expiries (st\<lparr>a_users := us\<rparr>) = expiries st" "cache_ttl (st\<lparr>a_users := us\<rparr>) = cache_ttl st"
  "expiries (st\<lparr>a_sessions := rows\<rparr>) = expiries st" "cache_ttl (st\<lparr>a_sessions := rows\<rparr>) = cache_ttl st"
  "row_ids (st\<lparr>a_sessions := filter P (a_sessions st)\<rparr>) \<subseteq> row_ids st"
  "row_ids (st\<lparr>a_sessions := ClearSessionFlags flt i k (a_sessions st)\<rparr>) = row_ids st"
  by (auto simp: row_ids_def expiries_def entries_def cache_ttl_def)

lemmas step_frames = account_frame drop_frame drop_frame(1,3,5) [THEN expiries_mono]

text \<open>Every step that is no clock tick and no end of an \<^verbatim>\<open>Attach\<close> only shrinks what is known of a session without a row.\<close>

lemma dated_sub:
  assumes "dated S" "sy_clock S \<le> sy_clock S'" "cache_ttl (sy_st S') = cache_ttl (sy_st S)"
    and "expiries (sy_st S') \<subseteq> expiries (sy_st S)" "\<And>f. f \<in> set (sy_flights S') \<Longrightarrow> fl_now f \<le> sy_clock S'"
  shows "dated S'"
  unfolding dated_def
proof safe
  fix k x assume "(k, x) \<in> expiries (sy_st S')"
  then have "x \<le> sy_clock S + cache_ttl (sy_st S)" using assms(1,4) by (auto simp: dated_def)
  then show "x \<le> sy_clock S' + cache_ttl (sy_st S')" using assms(2,3) by simp
qed (rule assms(5))

lemma gone_sub:
  assumes "gone sid d ttl S" "sid \<notin> row_ids (sy_st S')" "cache_ttl (sy_st S') = cache_ttl (sy_st S)" "expiries (sy_st S') \<subseteq> expiries (sy_st S)"
    and "\<And>f. f \<in> set (sy_flights S') \<Longrightarrow> loaded sid f \<Longrightarrow> f \<in> set (sy_flights S)"
  shows "gone sid d ttl S'"
  using assms unfolding gone_def by blast

lemma goneD:
  assumes "gone sid d ttl S"
  shows "sid \<notin> row_ids (sy_st S)" "cache_ttl (sy_st S) = ttl" "\<And>x. (sid, x) \<in> expiries (sy_st S) \<Longrightarrow> x \<le> d + ttl"
    "\<And>f. f \<in> set (sy_flights S) \<Longrightarrow> loaded sid f \<Longrightarrow> fl_now f \<le> d"
  using assms by (auto simp: gone_def)

lemma datedD: "dated S \<Longrightarrow> f \<in> set (sy_flights S) \<Longrightarrow> fl_now f \<le> sy_clock S"
  by (simp add: dated_def)

lemma update_flight_mem: "x \<in> set (fs[n := f]) \<Longrightarrow> x = f \<or> x \<in> set fs"
  using set_update_subset_insert [of fs n f] by auto

lemma finish_dated:
  assumes "dated S" "n < length (sy_flights S)" "sy_flights S ! n = f"
    and fin: "Attach_finish m flt static (fl_now f) (fl_req f) s (sy_st S) = (i, cks, st)"
    and S': "sy_st S' = st" "sy_flights S' = remove_nth n (sy_flights S)" "sy_clock S' = sy_clock S"
  shows "dated S'"
proof -
  have "fl_now f \<le> sy_clock S" using assms(1-3) by (auto intro: datedD)
  then have "\<forall>(k, x) \<in> expiries st. x \<le> sy_clock S + cache_ttl st"
    using finish_expiries [OF fin] finish_frame(2) [OF fin] assms(1) by (auto simp: dated_def)
  then show ?thesis using S' remove_nth_subset [of n "sy_flights S"] assms(1) by (auto simp: dated_def)
qed

lemma finish_gone:
  assumes "gone sid d ttl S" "n < length (sy_flights S)" "sy_flights S ! n = f" "fl_sess f = Some s"
    and fin: "Attach_finish m flt static (fl_now f) (fl_req f) s (sy_st S) = (i, cks, st)"
    and S': "sy_st S' = st" "sy_flights S' = remove_nth n (sy_flights S)"
  shows "gone sid d ttl S'"
proof -
  have "fl_now f \<le> d" if "ss_ID s = sid" using goneD(4) [OF assms(1), of f] assms(2-4) that by (auto simp: loaded_def)
  then have "\<forall>x. (sid, x) \<in> expiries st \<longrightarrow> x \<le> d + ttl"
    using finish_expiries [OF fin] goneD(2,3) [OF assms(1)] by auto
  then show ?thesis using S' remove_nth_subset [of n "sy_flights S"] finish_frame(1,2) [OF fin] goneD [OF assms(1)]
    unfolding gone_def by auto
qed

lemma step_dated: "sys_step m static ids S S' \<Longrightarrow> dated S \<Longrightarrow> dated S'"
proof (induction rule: sys_step.induct)
  case (hit flt now r S i st v)
  show ?case by (rule dated_sub [OF hit(4)]) (use begin_frame(2) [OF hit(1)] begin_expiries [OF hit(1)] datedD [OF hit(4)] in auto)
next
  case (miss flt now r S st)
  show ?case by (rule dated_sub [OF miss(3)]) (use begin_frame(2) [OF miss(1)] begin_expiries [OF miss(1)] datedD [OF miss(3)] miss(2) in auto)
next
  case (load n S f flt now s cks st)
  have "f \<in> set (sy_flights S)" using load(1,2) by auto
  then show ?case using resolve_frame [OF load(4)] datedD [OF load(6)]
    by (intro dated_sub [OF load(6)]) (auto dest!: update_flight_mem intro: expiries_mono [THEN subsetD])
next
  case (load_fails n S f flt now e cks st)
  show ?case using resolve_frame [OF load_fails(4)] datedD [OF load_fails(6)] remove_nth_subset [of n "sy_flights S"]
    by (intro dated_sub [OF load_fails(6)]) (auto intro: expiries_mono [THEN subsetD])
next
  case (finish n S f s flt i cks st)
  then show ?case by (elim finish_dated) simp_all
next
  case (finish_fails n S f s flt cks st)
  then show ?case by (elim finish_dated) simp_all
next
  case (issue flt now rnd1 rnd2 r userID source flags S s cks st)
  then show ?case using Issue_frame [OF issue(1)] by (simp add: dated_def expiries_def)
next
  case (flushes flt S n touches rows)
  then show ?case using flush_frame [OF flushes(1)] by (simp add: dated_def expiries_def)
next
  case (tick S t)
  show ?case by (rule dated_sub [OF tick(2)]) (use tick datedD [OF tick(2)] in force)+
qed ((rule dated_sub, assumption); simp add: step_frames datedD)+

lemma step_gone: "sys_step m static ids S S' \<Longrightarrow> gone sid d ttl S \<Longrightarrow> sid \<notin> set ids \<Longrightarrow> gone sid d ttl S'"
proof (induction rule: sys_step.induct)
  case (hit flt now r S i st v)
  show ?case by (rule gone_sub [OF hit(4)]) (use begin_frame(1,2) [OF hit(1)] begin_expiries [OF hit(1)] goneD [OF hit(4)] in auto)
next
  case (miss flt now r S st)
  show ?case by (rule gone_sub [OF miss(3)]) (use begin_frame(1,2) [OF miss(1)] begin_expiries [OF miss(1)] goneD [OF miss(3)] in \<open>auto simp: loaded_def\<close>)
next
  case (load n S f flt now s cks st)
  have "ss_ID s \<noteq> sid" using goneD(1) [OF load(6)] resolve_row(1) [OF load(4)] by auto
  then show ?case using resolve_frame [OF load(4)] goneD [OF load(6)]
    by (intro gone_sub [OF load(6)]) (auto simp: loaded_def dest!: update_flight_mem intro: expiries_mono [THEN subsetD])
next
  case (load_fails n S f flt now e cks st)
  show ?case using resolve_frame [OF load_fails(4)] goneD [OF load_fails(6)] remove_nth_subset [of n "sy_flights S"]
    by (intro gone_sub [OF load_fails(6)]) (auto intro: expiries_mono [THEN subsetD])
next
  case (finish n S f s flt i cks st)
  show ?case by (rule finish_gone [OF finish(5) finish(1-4)]) simp_all
next
  case (finish_fails n S f s flt cks st)
  show ?case by (rule finish_gone [OF finish_fails(5) finish_fails(1-4)]) simp_all
next
  case (issue flt now rnd1 rnd2 r userID source flags S s cks st)
  then show ?case using Issue_frame [OF issue(1)] by (auto simp: gone_def expiries_def)
next
  case (delete S P)
  show ?case by (rule gone_sub [OF delete(1)]) (use goneD(1) [OF delete(1)] step_frames(6) [of P "sy_st S"] in \<open>auto simp: step_frames(4,5)\<close>)
next
  case (flushes flt S n touches rows)
  then show ?case using flush_frame [OF flushes(1)] by (simp add: gone_def expiries_def)
qed ((rule gone_sub, assumption); simp add: step_frames gone_def)+

text \<open>Whoever is authenticated with a session that is gone was begun in time.\<close>

lemma step_log:
  assumes "sys_step m static ids S S'" "gone sid d ttl S" "0 \<le> ttl"
  shows "\<exists>new. sy_log S' = new @ sy_log S \<and> (\<forall>(v, now, i) \<in> set new. v = sid \<longrightarrow> now \<le> d + ttl)"
  using assms
proof (induction rule: sys_step.induct)
  case (hit flt now r S i st v)
  then show ?case using begin_hit [OF hit(1,3)] by (intro exI [of _ "[(v, now, i)]"]) (force simp: gone_def expiries_def)
next
  case (finish n S f s flt i cks st)
  then show ?case using nth_flight [OF finish(1,2)] by (intro exI [of _ "[(ss_ID s, fl_now f, i)]"]) (auto simp: gone_def loaded_def)
qed auto

lemma run_gone:
  assumes "sys_run m static ids S S'" "gone sid d ttl S" "sid \<notin> set ids" "0 \<le> ttl"
  shows "gone sid d ttl S' \<and> (\<exists>new. sy_log S' = new @ sy_log S \<and> (\<forall>(v, now, i) \<in> set new. v = sid \<longrightarrow> now \<le> d + ttl))"
  using assms
proof (induction rule: sys_run.induct)
  case (more ids S S1 js S2)
  then obtain new1 where n1: "gone sid d ttl S1" "sy_log S1 = new1 @ sy_log S" "\<forall>(v, now, i) \<in> set new1. v = sid \<longrightarrow> now \<le> d + ttl" by auto
  obtain new2 where n2: "sy_log S2 = new2 @ sy_log S1" "\<forall>(v, now, i) \<in> set new2. v = sid \<longrightarrow> now \<le> d + ttl"
    using step_log [OF more(2) n1(1) more(6)] by auto
  have "gone sid d ttl S2" using step_gone [OF more(2) n1(1)] more(5) by simp
  moreover have "\<exists>new. sy_log S2 = new @ sy_log S \<and> (\<forall>(v, now, i) \<in> set new. v = sid \<longrightarrow> now \<le> d + ttl)"
    using n1(2,3) n2 by (intro exI [of _ "new2 @ new1"]) auto
  ultimately show ?case by blast
qed auto

lemma run_dated: "sys_run m static ids S S' \<Longrightarrow> dated S \<Longrightarrow> dated S'"
  by (induction rule: sys_run.induct) (auto intro: step_dated)

lemma dated_init: "dated (sys_init c t users)"
  by (simp add: dated_def sys_init_def expiries_def entries_def split: option.split)

section \<open>One client, many requests\<close>

text \<open>The identities a client is given by a sequence of requests, at most one at a time, without cache and batch.\<close>

fun visits :: "'ip SessionManager \<Rightarrow> StaticUser option \<Rightarrow> request \<Rightarrow> time list \<Rightarrow> auth_state \<Rightarrow> Identity option list" where
  "visits m static r [] st = []"
| "visits m static r (t # ts) st = (case Attach m (\<lambda>_. None) static t t r st of (i, _, st1) \<Rightarrow> i # visits m static r ts st1)"

text \<open>Each request comes more than \<open>lo\<close> and at most \<open>hi\<close> after the one before.\<close>

fun gaps :: "time \<Rightarrow> duration \<Rightarrow> duration \<Rightarrow> time list \<Rightarrow> bool" where
  "gaps prev lo hi [] \<longleftrightarrow> True"
| "gaps prev lo hi (t # ts) \<longleftrightarrow> lo < t - prev \<and> t - prev \<le> hi \<and> gaps t lo hi ts"

lemma ResolveIdentity_dates [simp]:
  "ResolveIdentity flt static (s\<lparr>ss_LastSeenAt := t, ss_ExpiresAt := e\<rparr>) us = ResolveIdentity flt static s us"
  by (simp add: ResolveIdentity_def Let_def)

lemma visit:
  assumes "a_cache st = None" "a_touch st = None" "req_Cookie r ''stowage_session'' = Some sid" "sid \<noteq> []"
    and "find (\<lambda>s. ss_ID s = sid) (a_sessions st) = Some s" "ss_ExpiresAt s = ss_LastSeenAt s + sm_Lifetime m"
    and "ResolveIdentity (\<lambda>_. None) static s (a_users st) = Some i"
    and "half (sm_IdleTimeout m) < t - ss_LastSeenAt s" "t - ss_LastSeenAt s \<le> sm_Lifetime m" "int64_range (sm_Lifetime m)" "0 \<le> sm_IdleTimeout m"
  obtains cks where "Attach m (\<lambda>_. None) static t t r st =
    (Some i, cks, st\<lparr>a_sessions := set_rows (\<lambda>s. ss_ID s = sid) (\<lambda>s. s\<lparr>ss_LastSeenAt := t, ss_ExpiresAt := t + sm_Lifetime m\<rparr>) (a_sessions st)\<rparr>)"
proof -
  have sid: "ss_ID s = sid" using assms(5) by (auto simp: find_Some_iff)
  have "int64_range (t - ss_LastSeenAt s)" using assms(8-11) by (auto simp: int64_range_def half_def split: if_splits)
  then have sub: "time_Sub t (ss_LastSeenAt s) = t - ss_LastSeenAt s" by (simp add: time_Sub_def)
  show ?thesis using assms that sid sub
    by (simp add: Attach_def Attach_begin_def Cache_Get_def Sessions_Resolve_def GetSession_def Attach_finish_def persistTouch_def TouchSession_def
        Cache_Put_def time_After_def time_Add_def Let_def split: prod.splits)
qed

section \<open>An example\<close>

text \<open>A run in which a password change deletes a session's row and its cache entry while a request is between loading
  the row and storing its identity: that request stores the stale identity, and a later one is
  answered from it.\<close>

definition ex_m :: "unit SessionManager" where
  "ex_m = \<lparr>sm_Lifetime = 100, sm_IdleTimeout = 1000, sm_CookieSecure = Some True, sm_Proxies = None, sm_parseIP = (\<lambda>_. None)\<rparr>"

definition ex_req :: request where
  "ex_req = \<lparr>Method = ''GET'', URL = \<lparr>Scheme = [], UHost = [], Path = ''/api/me'', RawPath = [], RawQuery = []\<rparr>, Host = [],
     Header = [(''Cookie'', [''stowage_session=cw''])], ContentLength = 0, Body = ([], None), RemoteAddr = ''10.0.0.1:80'', TLS = True\<rparr>"

definition ex_user :: User where
  "ex_user = \<lparr>u_ID = ''u1'', u_Username = ''ann'', u_Email = None, u_PasswordHash = ''h'', u_Role = ''admin'', u_IdentitySource = ''local'', u_Enabled = True,
     u_MustChangePW = False, u_FailedAttempts = 0, u_LockedUntil = None, u_CreatedAt = 0, u_CreatedBy = None, u_LastLoginAt = None, u_PWChangedAt = 0, u_OIDCSubject = None\<rparr>"

definition no_faults :: faults where "no_faults = (\<lambda>_. None)"

definition ex_session :: Session where
  "ex_session = \<lparr>ss_ID = ''cw'', ss_UserID = ''u1'', ss_IdentitySource = ''local'', ss_CSRFToken = ''dA'', ss_IP = ''10.0.0.1'', ss_UserAgent = [], ss_Flags = 0,
     ss_CreatedAt = 10, ss_LastSeenAt = 10, ss_ExpiresAt = 110\<rparr>"

definition ex_identity :: Identity where
  "ex_identity = \<lparr>id_UserID = ''u1'', id_Username = ''ann'', id_Role = ''admin'', id_Source = ''local'', id_SessionID = ''cw'', id_CSRFToken = ''dA'',
     id_MustChangePW = False, id_SyntheticUser = False\<rparr>"

definition ex_st :: "Session list \<Rightarrow> (string \<times> cacheEntry) list \<Rightarrow> auth_state" where
  "ex_st rows es = \<lparr>a_users = [ex_user], a_sessions = rows, a_cache = Some \<lparr>ic_ttl = 30, ic_entries = es\<rparr>, a_touch = None\<rparr>"

definition ex_entry :: cacheEntry where
  "ex_entry = \<lparr>en_id = ex_identity, en_cachedAt = 10, en_cacheExpires = 40, en_sessionExpiry = 110, en_lastSeen = 10\<rparr>"

definition ex_sys :: "auth_state \<Rightarrow> time \<Rightarrow> flight list \<Rightarrow> (string \<times> time \<times> Identity) list \<Rightarrow> sys" where
  "ex_sys st t fs lg = \<lparr>sy_st = st, sy_clock = t, sy_flights = fs, sy_log = lg\<rparr>"

lemmas ex_defs = ex_m_def ex_req_def ex_user_def no_faults_def ex_session_def ex_identity_def ex_st_def ex_entry_def ex_sys_def

lemma ex_cookie: "req_Cookie ex_req ''stowage_session'' = Some ''cw''" by code_simp

section \<open>Properties\<close>

text \<open>Neither timeout of the configuration ends a session by itself: a client whose requests are more than half the
  idle timeout and at most the lifetime apart keeps its identity for as long as it likes. In particular
  a session in use has no ceiling on its age, and one idle for longer than the idle timeout but less
  than the lifetime is still accepted.\<close>

theorem sessions_slide:
  assumes "a_cache st = None" "a_touch st = None" "req_Cookie r ''stowage_session'' = Some sid" "sid \<noteq> []"
    and "find (\<lambda>s. ss_ID s = sid) (a_sessions st) = Some s" "ss_ExpiresAt s = ss_LastSeenAt s + sm_Lifetime m"
    and "ResolveIdentity (\<lambda>_. None) static s (a_users st) = Some i"
    and "gaps (ss_LastSeenAt s) (half (sm_IdleTimeout m)) (sm_Lifetime m) ts" "int64_range (sm_Lifetime m)" "0 \<le> sm_IdleTimeout m"
  shows "visits m static r ts st = replicate (length ts) (Some i)"
  using assms
proof (induction ts arbitrary: st s)
  case (Cons t ts)
  define f where "f = (\<lambda>s :: Session. s\<lparr>ss_LastSeenAt := t, ss_ExpiresAt := t + sm_Lifetime m\<rparr>)"
  obtain cks where a: "Attach m (\<lambda>_. None) static t t r st = (Some i, cks, st\<lparr>a_sessions := set_rows (\<lambda>s. ss_ID s = sid) f (a_sessions st)\<rparr>)"
    using visit [OF Cons.prems(1-7) _ _ Cons.prems(9,10), of t] Cons.prems(8) unfolding f_def by auto
  have row: "find (\<lambda>s. ss_ID s = sid) (set_rows (\<lambda>s. ss_ID s = sid) f (a_sessions st)) = Some (f s)"
    using sessions.row_set_rows [of f sid "\<lambda>s. ss_ID s = sid" "a_sessions st"] Cons.prems(5)
    by (auto simp: sessions.row_def f_def find_Some_iff)
  have "visits m static r ts (st\<lparr>a_sessions := set_rows (\<lambda>s. ss_ID s = sid) f (a_sessions st)\<rparr>) = replicate (length ts) (Some i)"
    by (rule Cons.IH [where s = "f s"]) (use Cons.prems row in \<open>auto simp: f_def\<close>)
  then show ?case using a by simp
qed simp

theorem sessions_slide_witness:
  "visits (ex_m\<lparr>sm_Lifetime := 8, sm_IdleTimeout := 1\<rparr>) None ex_req [7, 14, 21, 28]
     \<lparr>a_users = [ex_user], a_sessions = [ex_session\<lparr>ss_LastSeenAt := 0, ss_ExpiresAt := 8\<rparr>], a_cache = None, a_touch = None\<rparr> = replicate 4 (Some ex_identity)"
proof -
  have "visits (ex_m\<lparr>sm_Lifetime := 8, sm_IdleTimeout := 1\<rparr>) None ex_req [7, 14, 21, 28]
     \<lparr>a_users = [ex_user], a_sessions = [ex_session\<lparr>ss_LastSeenAt := 0, ss_ExpiresAt := 8\<rparr>], a_cache = None, a_touch = None\<rparr>
     = replicate (length [7, 14, 21, 28 :: time]) (Some ex_identity)"
    by (rule sessions_slide [where sid = "''cw''" and s = "ex_session\<lparr>ss_LastSeenAt := 0, ss_ExpiresAt := 8\<rparr>"])
       (simp_all add: ex_cookie ex_m_def ex_session_def ex_user_def ex_identity_def half_def int64_range_def ResolveIdentity_def GetUserByID_def select_user_def FlagMustChangePW_def)
  then show ?thesis by (simp add: numeral_eq_Suc)
qed

text \<open>C10: Revocation. Once a session has no row any more, whatever requests and account changes run concurrently
  afterwards, every request that is given the session's identity began within the lifetime of a cache
  entry of that moment; and if at that moment no cache entry and no request inside \<^verbatim>\<open>Attach\<close> knew the session, no
  request is given its identity ever again (unless the same random session id is issued anew).\<close>

theorem revoked_session_dies:
  assumes "sys_run m static ids0 (sys_init c t users) S" "sid \<notin> row_ids (sy_st S)"
    and "sys_run m static ids S S'" "sid \<notin> set ids" "0 \<le> cache_ttl (sy_st S)"
  shows "\<exists>new. sy_log S' = new @ sy_log S \<and> (\<forall>(v, now, i) \<in> set new. v = sid \<longrightarrow>
    now \<le> sy_clock S + cache_ttl (sy_st S) \<and> ((\<exists>e. (sid, e) \<in> entries (sy_st S)) \<or> (\<exists>f \<in> set (sy_flights S). loaded sid f)))"
proof -
  have "dated S" using run_dated [OF assms(1) dated_init] .
  then have g: "gone sid (sy_clock S) (cache_ttl (sy_st S)) S" using assms(2) by (auto simp: gone_def dated_def)
  then obtain new where new: "sy_log S' = new @ sy_log S" "\<forall>(v, now, i) \<in> set new. v = sid \<longrightarrow> now \<le> sy_clock S + cache_ttl (sy_st S)"
    using run_gone [OF assms(3) _ assms(4,5)] by blast
  have "False" if none: "\<nexists>e. (sid, e) \<in> entries (sy_st S)" "\<not> (\<exists>f \<in> set (sy_flights S). loaded sid f)" and mem: "(sid, now, i) \<in> set new" for now i
  proof -
    have "gone sid (now - cache_ttl (sy_st S) - 1) (cache_ttl (sy_st S)) S" using none assms(2) by (auto simp: gone_def expiries_def)
    then obtain new2 where n2: "sy_log S' = new2 @ sy_log S"
        "\<forall>(v, now', i) \<in> set new2. v = sid \<longrightarrow> now' \<le> now - cache_ttl (sy_st S) - 1 + cache_ttl (sy_st S)"
      using run_gone [OF assms(3) _ assms(4,5)] by blast
    then have "(sid, now, i) \<in> set new2" using new(1) mem by simp
    with n2(2) show False by fastforce
  qed
  with new show ?thesis by blast
qed

lemma ex_issue: "\<exists>cks. Issue ex_m no_faults 10 (Some ''s'') (Some ''t'') ex_req ''u1'' ''local'' 0 (ex_st [] []) = (Inr ex_session, cks, ex_st [ex_session] [])"
proof -
  have "RandomToken (Some ''s'') = Some ''cw''" "RandomToken (Some ''t'') = Some ''dA''" "SessionManager_clientIP ex_m ex_req = ''10.0.0.1''"
    "header_Get (Header ex_req) ''User-Agent'' = []" "sm_Lifetime ex_m = 100" by code_simp+
  then show ?thesis by (simp add: Issue_def CreateSession_def time_Add_def Let_def ex_st_def ex_session_def no_faults_def)
qed

lemma ex_begin: "Attach_begin ex_m no_faults 10 ex_req (ex_st [ex_session] []) = (Loading, ex_st [ex_session] [])"
  by (simp add: Attach_begin_def ex_cookie Cache_Get_def ex_st_def)

lemma ex_load: "Sessions_Resolve ex_m no_faults 10 ex_req (ex_st [ex_session] []) = (Inr ex_session, [], ex_st [ex_session] [])"
  by (simp add: Sessions_Resolve_def ex_cookie GetSession_def time_After_def time_Sub_def int64_range_def half_def ex_st_def ex_session_def ex_m_def no_faults_def)

lemma ex_finish: "Attach_finish ex_m no_faults None 10 ex_req ex_session (ex_st [] []) = (Some ex_identity, [], ex_st [] [(''cw'', ex_entry)])"
  by (simp add: Attach_finish_def ResolveIdentity_def GetUserByID_def select_user_def Cache_Put_def time_Add_def FlagMustChangePW_def ex_defs)

lemma ex_hit: "Attach_begin ex_m no_faults 20 ex_req (ex_st [] [(''cw'', ex_entry)]) = (Cached ex_identity, ex_st [] [(''cw'', ex_entry)])"
  by (simp add: Attach_begin_def ex_cookie Cache_Get_def ex_st_def entry_stale_def time_After_def time_Sub_def int64_range_def half_def ex_entry_def ex_m_def)

abbreviation ex_flight :: "Session option \<Rightarrow> flight" where
  "ex_flight s \<equiv> \<lparr>fl_req = ex_req, fl_now = 10, fl_sess = s\<rparr>"

lemma ex_run1: "sys_run ex_m None [''cw''] (sys_init (Some (NewIdentityCache 30)) None [ex_user]) (ex_sys (ex_st [] []) 10 [ex_flight (Some ex_session)] [])"
proof -
  have 1: "sys_run ex_m None ([] @ []) (sys_init (Some (NewIdentityCache 30)) None [ex_user]) (ex_sys (ex_st [] []) 10 [] [])"
    using sys_run.more [OF sys_run.stay sys_step.tick [of "sys_init (Some (NewIdentityCache 30)) None [ex_user]" 10]]
    by (simp add: sys_init_def NewIdentityCache_def ex_sys_def ex_st_def)
  have 2: "sys_step ex_m None [''cw''] (ex_sys (ex_st [] []) 10 [] []) (ex_sys (ex_st [ex_session] []) 10 [] [])"
    using ex_issue sys_step.issue [of ex_m no_faults 10 "Some ''s''" "Some ''t''" ex_req "''u1''" "''local''" 0 "ex_sys (ex_st [] []) 10 [] []" ex_session]
    by (auto simp: ex_sys_def ex_session_def)
  have 3: "sys_step ex_m None [] (ex_sys (ex_st [ex_session] []) 10 [] []) (ex_sys (ex_st [ex_session] []) 10 [ex_flight None] [])"
    using sys_step.miss [of ex_m no_faults 10 ex_req "ex_sys (ex_st [ex_session] []) 10 [] []"] ex_begin by (simp add: ex_sys_def)
  have 4: "sys_step ex_m None [] (ex_sys (ex_st [ex_session] []) 10 [ex_flight None] []) (ex_sys (ex_st [ex_session] []) 10 [ex_flight (Some ex_session)] [])"
    using sys_step.load [of 0 "ex_sys (ex_st [ex_session] []) 10 [ex_flight None] []" "ex_flight None" ex_m no_faults 10 ex_session "[]"] ex_load
    by (simp add: ex_sys_def)
  have 5: "sys_step ex_m None [] (ex_sys (ex_st [ex_session] []) 10 [ex_flight (Some ex_session)] []) (ex_sys (ex_st [] []) 10 [ex_flight (Some ex_session)] [])"
    using sys_step.delete [of ex_m None "ex_sys (ex_st [ex_session] []) 10 [ex_flight (Some ex_session)] []" "\<lambda>_. False"] by (simp add: ex_sys_def ex_st_def)
  show ?thesis using sys_run.more [OF sys_run.more [OF sys_run.more [OF sys_run.more [OF 1 2] 3] 4] 5] by simp
qed

lemma ex_run2: "sys_run ex_m None [] (ex_sys (ex_st [] []) 10 [ex_flight (Some ex_session)] [])
    (ex_sys (ex_st [] [(''cw'', ex_entry)]) 20 [] [(''cw'', 20, ex_identity), (''cw'', 10, ex_identity)])"
proof -
  have 1: "sys_step ex_m None [] (ex_sys (ex_st [] []) 10 [ex_flight (Some ex_session)] []) (ex_sys (ex_st [] [(''cw'', ex_entry)]) 10 [] [(''cw'', 10, ex_identity)])"
    using sys_step.finish [of 0 "ex_sys (ex_st [] []) 10 [ex_flight (Some ex_session)] []" "ex_flight (Some ex_session)" ex_session ex_m no_faults None] ex_finish
    by (simp add: ex_sys_def remove_nth_def ex_session_def)
  have 2: "sys_step ex_m None [] (ex_sys (ex_st [] [(''cw'', ex_entry)]) 10 [] [(''cw'', 10, ex_identity)]) (ex_sys (ex_st [] [(''cw'', ex_entry)]) 20 [] [(''cw'', 10, ex_identity)])"
    using sys_step.tick [of "ex_sys (ex_st [] [(''cw'', ex_entry)]) 10 [] [(''cw'', 10, ex_identity)]" 20] by (simp add: ex_sys_def)
  have 3: "sys_step ex_m None [] (ex_sys (ex_st [] [(''cw'', ex_entry)]) 20 [] [(''cw'', 10, ex_identity)])
      (ex_sys (ex_st [] [(''cw'', ex_entry)]) 20 [] [(''cw'', 20, ex_identity), (''cw'', 10, ex_identity)])"
    using sys_step.hit [of ex_m no_faults 20 ex_req "ex_sys (ex_st [] [(''cw'', ex_entry)]) 20 [] [(''cw'', 10, ex_identity)]"] ex_hit ex_cookie by (simp add: ex_sys_def)
  show ?thesis using sys_run.more [OF sys_run.more [OF sys_run.more [OF sys_run.stay 1] 2] 3] by simp
qed

theorem revoked_session_dies_witness:
  "\<exists>S S'. sys_run ex_m None [] S S' \<and> ''cw'' \<notin> row_ids (sy_st S) \<and> sy_clock S = 10 \<and> (''cw'', 20, ex_identity) \<in> set (sy_log S') \<and> (20 :: time) \<le> sy_clock S + 30"
proof -
  define S where "S = ex_sys (ex_st [] []) 10 [ex_flight (Some ex_session)] []"
  have s: "''cw'' \<notin> row_ids (sy_st S)" "cache_ttl (sy_st S) = 30" "sy_clock S = 10" "sy_log S = []"
    by (simp_all add: S_def ex_sys_def ex_st_def row_ids_def cache_ttl_def)
  have "\<exists>new. sy_log (ex_sys (ex_st [] [(''cw'', ex_entry)]) 20 [] [(''cw'', 20, ex_identity), (''cw'', 10, ex_identity)]) = new @ sy_log S
      \<and> (\<forall>(v, now, i) \<in> set new. v = ''cw'' \<longrightarrow> now \<le> sy_clock S + cache_ttl (sy_st S)
           \<and> ((\<exists>e. (''cw'', e) \<in> entries (sy_st S)) \<or> (\<exists>f \<in> set (sy_flights S). loaded ''cw'' f)))"
    by (rule revoked_session_dies [OF ex_run1 [folded S_def] s(1) ex_run2 [folded S_def]]) (simp_all add: s)
  then have "(20 :: time) \<le> sy_clock S + 30" using s by (simp add: ex_sys_def)
  then show ?thesis using ex_run2 [folded S_def] s by (intro exI [of _ S] exI conjI) (assumption | simp add: ex_sys_def)+
qed

end
