(* ===== verification/Accounts.thy ===== *)
theory Accounts
  imports Session_Runs
begin

text \<open>
  Accounts of the dashboard: \<^verbatim>\<open>internal/auth/service.go\<close> (logins with lockout, password changes, provisioning) and the
  handlers of \<^verbatim>\<open>internal/api/auth.go\<close>, \<^verbatim>\<open>admin_users.go\<close> and \<^verbatim>\<open>me.go\<close> that use it. A handler takes the decoded body of its
  request (\<open>None\<close> when the JSON does not decode) and the identity that \<^verbatim>\<open>Attach\<close> found, and returns the status and error
  code it writes; a panic is a response of its own. What the outside decides (clock readings, random
  bytes, the new id, database faults, the driver's messages) is the record \<open>acc_env\<close>.
\<close>

section \<open>The service\<close>

record auth_cfg =
  ac_Modes :: "string list"
  ac_MaxAttempts :: int
  ac_Window :: duration
  ac_Policy :: PasswordPolicy
  ac_Static :: "StaticUser option"
  ac_IDKey :: argon

record acc_env =
  ae_flt :: faults
  ae_msg :: "string \<Rightarrow> string"
  ae_now :: time
  ae_later :: time
  ae_id :: string
  ae_salt :: "string option"
  ae_rnd1 :: "string option"
  ae_rnd2 :: "string option"

datatype auth_err = ErrLoginFailed | ErrAccountLocked | ErrAccountDisabled | NotLocalAccount | PolicyError string | HashFailed
  | StoreErr user_err | SessionsErr string | InvalidRole | VerifyPanics

definition ModeEnabled :: "auth_cfg \<Rightarrow> string \<Rightarrow> bool" where
  "ModeEnabled cfg mode = list_ex (\<lambda>x. x = mode) (ac_Modes cfg)"

definition maxAttempts :: "auth_cfg \<Rightarrow> int" where
  "maxAttempts cfg = (if ac_MaxAttempts cfg \<le> 0 then 5 else ac_MaxAttempts cfg)"

definition lockWindow :: "auth_cfg \<Rightarrow> duration" where
  "lockWindow cfg = (if ac_Window cfg \<le> 0 then 15 * Minute else ac_Window cfg)"

text \<open>A login up to the check of the lock, and from the comparison of the password on; other requests may run between the two. The
  verification against a dummy hash on the first two branches has no result.\<close>

definition login_gate :: "faults \<Rightarrow> time \<Rightarrow> string \<Rightarrow> User list \<Rightarrow> auth_err + User" where
  "login_gate flt now username users =
     (case GetUserByUsername flt username users of
        Inl _ \<Rightarrow> Inl ErrLoginFailed
      | Inr u \<Rightarrow>
          if \<not> u_Enabled u then Inl ErrAccountDisabled
          else if (case u_LockedUntil u of Some t \<Rightarrow> time_After t now | None \<Rightarrow> False) then Inl ErrAccountLocked
          else if u_IdentitySource u \<noteq> ''local'' then Inl ErrLoginFailed
          else Inr u)"

definition login_compare :: "auth_cfg \<Rightarrow> faults \<Rightarrow> time \<Rightarrow> string \<Rightarrow> User \<Rightarrow> User list \<Rightarrow> (auth_err + string \<times> bool) \<times> User list" where
  "login_compare cfg flt now password u users =
     (case VerifyPassword (ac_IDKey cfg) password (u_PasswordHash u) of
        PwMatch \<Rightarrow> (case RecordLoginSuccess flt now (u_ID u) users of
            Inl e \<Rightarrow> (Inl (StoreErr e), users)
          | Inr users1 \<Rightarrow> (Inr (u_ID u, u_MustChangePW u), users1))
      | Panics \<Rightarrow> (Inl VerifyPanics, users)
      | _ \<Rightarrow> (case RecordLoginFailure flt now (u_ID u) (maxAttempts cfg) (lockWindow cfg) users of
            (Inl e, users1) \<Rightarrow> (Inl (StoreErr e), users1)
          | (Inr _, users1) \<Rightarrow> (Inl ErrLoginFailed, users1)))"

definition LoginLocal :: "auth_cfg \<Rightarrow> acc_env \<Rightarrow> string \<Rightarrow> string \<Rightarrow> User list \<Rightarrow> (auth_err + string \<times> bool) \<times> User list" where
  "LoginLocal cfg E username password users =
     (case login_gate (ae_flt E) (ae_now E) username users of
        Inl e \<Rightarrow> (Inl e, users)
      | Inr u \<Rightarrow> login_compare cfg (ae_flt E) (ae_later E) password u users)"

definition LoginStatic :: "auth_cfg \<Rightarrow> string \<Rightarrow> string \<Rightarrow> auth_err option" where
  "LoginStatic cfg username password =
     (case ac_Static cfg of
        None \<Rightarrow> Some ErrLoginFailed
      | Some su \<Rightarrow>
          if VerifyPassword (ac_IDKey cfg) password (su_PasswordHash su) = Panics then Some VerifyPanics
          else if username \<noteq> su_Username su then Some ErrLoginFailed
          else if VerifyPassword (ac_IDKey cfg) password (su_PasswordHash su) \<noteq> PwMatch then Some ErrLoginFailed
          else None)"

text \<open>Storing a new hash, deleting the other sessions, clearing the flag of the kept one, dropping the cached
  identities: the common end of both password changes. A failing statement leaves the earlier ones done.\<close>

definition store_password :: "acc_env \<Rightarrow> string \<Rightarrow> string \<Rightarrow> string \<Rightarrow> bool \<Rightarrow> auth_state \<Rightarrow> auth_err option \<times> auth_state" where
  "store_password E userID keepSessionID hash mustChange st =
     (case SetPasswordHash (ae_flt E) (ae_later E) userID hash mustChange (a_users st) of
        Inl e \<Rightarrow> (Some (StoreErr e), st)
      | Inr users \<Rightarrow>
          (let st1 = st\<lparr>a_users := users\<rparr>
           in case DeleteUserSessions (ae_flt E) userID keepSessionID (a_sessions st1) of
                Inl e \<Rightarrow> (Some (SessionsErr e), st1)
              | Inr rows \<Rightarrow>
                  (None, st1\<lparr>a_sessions := (if keepSessionID \<noteq> [] then ClearSessionFlags (ae_flt E) keepSessionID FlagMustChangePW rows else rows),
                             a_cache := InvalidateUser userID (a_cache st1)\<rparr>)))"

definition ChangeOwnPassword :: "auth_cfg \<Rightarrow> acc_env \<Rightarrow> string \<Rightarrow> string \<Rightarrow> string \<Rightarrow> string \<Rightarrow> auth_state \<Rightarrow> auth_err option \<times> auth_state" where
  "ChangeOwnPassword cfg E userID keepSessionID current newpw st =
     (case GetUserByID (ae_flt E) userID (a_users st) of
        Inl e \<Rightarrow> (Some (StoreErr e), st)
      | Inr u \<Rightarrow>
          if u_IdentitySource u \<noteq> ''local'' then (Some NotLocalAccount, st)
          else case VerifyPassword (ac_IDKey cfg) current (u_PasswordHash u) of
            Panics \<Rightarrow> (Some VerifyPanics, st)
          | PwMatch \<Rightarrow>
              (case PasswordPolicy_Check (ac_Policy cfg) newpw of
                 Some reason \<Rightarrow> (Some (PolicyError reason), st)
               | None \<Rightarrow>
                   if PreventReuse (ac_Policy cfg) \<and> VerifyPassword (ac_IDKey cfg) newpw (u_PasswordHash u) = Panics then (Some VerifyPanics, st)
                   else if PreventReuse (ac_Policy cfg) \<and> VerifyPassword (ac_IDKey cfg) newpw (u_PasswordHash u) = PwMatch
                   then (Some (PolicyError ''new password must differ from current password''), st)
                   else case HashPassword (ac_IDKey cfg) (ae_salt E) newpw of
                     None \<Rightarrow> (Some HashFailed, st)
                   | Some hash \<Rightarrow> store_password E userID keepSessionID hash False st)
          | _ \<Rightarrow> (Some ErrLoginFailed, st))"

definition validRole :: "string \<Rightarrow> bool" where
  "validRole r \<longleftrightarrow> r = ''admin'' \<or> r = ''user'' \<or> r = ''readonly''"

definition CreateLocalUser :: "auth_cfg \<Rightarrow> acc_env \<Rightarrow> string \<Rightarrow> string \<Rightarrow> string \<Rightarrow> string \<Rightarrow> string \<Rightarrow> bool \<Rightarrow> User list \<Rightarrow> (auth_err + User) \<times> User list" where
  "CreateLocalUser cfg E username email password role createdBy mustChangePW users =
     (if \<not> validRole role then (Inl InvalidRole, users)
      else case PasswordPolicy_Check (ac_Policy cfg) password of
        Some reason \<Rightarrow> (Inl (PolicyError reason), users)
      | None \<Rightarrow> (case HashPassword (ac_IDKey cfg) (ae_salt E) password of
          None \<Rightarrow> (Inl HashFailed, users)
        | Some hash \<Rightarrow>
            (let u = \<lparr>u_ID = ae_id E, u_Username = username, u_Email = (if email = [] then None else Some email), u_PasswordHash = hash, u_Role = role,
                      u_IdentitySource = ''local'', u_Enabled = True, u_MustChangePW = mustChangePW, u_FailedAttempts = 0, u_LockedUntil = None,
                      u_CreatedAt = ae_now E, u_CreatedBy = (if createdBy = [] then None else Some createdBy), u_LastLoginAt = None,
                      u_PWChangedAt = ae_now E, u_OIDCSubject = None\<rparr>
             in case CreateUser (ae_flt E) (ae_msg E) u users of Inl e \<Rightarrow> (Inl (StoreErr e), users) | Inr users1 \<Rightarrow> (Inr u, users1))))"

definition AdminResetPassword :: "auth_cfg \<Rightarrow> acc_env \<Rightarrow> string \<Rightarrow> string \<Rightarrow> string \<Rightarrow> bool \<Rightarrow> auth_state \<Rightarrow> auth_err option \<times> auth_state" where
  "AdminResetPassword cfg E userID keepSessionID newpw mustChange st =
     (case PasswordPolicy_Check (ac_Policy cfg) newpw of
        Some reason \<Rightarrow> (Some (PolicyError reason), st)
      | None \<Rightarrow> (case HashPassword (ac_IDKey cfg) (ae_salt E) newpw of
          None \<Rightarrow> (Some HashFailed, st)
        | Some hash \<Rightarrow> store_password E userID keepSessionID hash mustChange st))"

section \<open>Handlers\<close>

datatype api_resp = Resp int string | PanicResp

text \<open>\<^verbatim>\<open>POST /auth/login/local\<close>; the body is the user name and the password.\<close>

definition handleLoginLocal :: "auth_cfg \<Rightarrow> 'ip SessionManager \<Rightarrow> acc_env \<Rightarrow> request \<Rightarrow> (string \<times> string) option \<Rightarrow> auth_state \<Rightarrow> api_resp \<times> cookie list \<times> auth_state" where
  "handleLoginLocal cfg m E r body st =
     (if \<not> ModeEnabled cfg ''local'' \<and> \<not> ModeEnabled cfg ''static'' then (Resp 400 ''mode_disabled'', [], st)
      else case body of
        None \<Rightarrow> (Resp 400 ''bad_request'', [], st)
      | Some (username, password) \<Rightarrow>
          if username = [] \<or> password = [] then (Resp 401 ''invalid_credentials'', [], st)
          else if ModeEnabled cfg ''static'' \<and> (case ac_Static cfg of Some su \<Rightarrow> username = su_Username su | None \<Rightarrow> False)
          then (case LoginStatic cfg username password of
                  Some VerifyPanics \<Rightarrow> (PanicResp, [], st)
                | Some _ \<Rightarrow> (Resp 401 ''invalid_credentials'', [], st)
                | None \<Rightarrow> (case Issue m (ae_flt E) (ae_later E) (ae_rnd1 E) (ae_rnd2 E) r ''static'' ''static'' 0 st of
                    (Inl _, cks, st1) \<Rightarrow> (Resp 500 ''session_error'', cks, st1)
                  | (Inr _, cks, st1) \<Rightarrow> (Resp 200 [], cks, st1)))
          else if \<not> ModeEnabled cfg ''local'' then (Resp 401 ''invalid_credentials'', [], st)
          else case LoginLocal cfg E username password (a_users st) of
            (Inl e, users) \<Rightarrow> ((case e of ErrAccountLocked \<Rightarrow> Resp 429 ''account_locked'' | VerifyPanics \<Rightarrow> PanicResp | _ \<Rightarrow> Resp 401 ''invalid_credentials''),
                [], st\<lparr>a_users := users\<rparr>)
          | (Inr (userID, mustChange), users) \<Rightarrow>
              (case Issue m (ae_flt E) (ae_later E) (ae_rnd1 E) (ae_rnd2 E) r userID ''local'' (if mustChange then FlagMustChangePW else 0) (st\<lparr>a_users := users\<rparr>) of
                 (Inl _, cks, st1) \<Rightarrow> (Resp 500 ''session_error'', cks, st1)
               | (Inr _, cks, st1) \<Rightarrow> (Resp 200 [], cks, st1)))"

definition handleLogout :: "'ip SessionManager \<Rightarrow> acc_env \<Rightarrow> request \<Rightarrow> Identity option \<Rightarrow> auth_state \<Rightarrow> api_resp \<times> cookie list \<times> auth_state" where
  "handleLogout m E r i st =
     (case Sessions_Revoke m (ae_flt E) r (case i of Some x \<Rightarrow> id_SessionID x | None \<Rightarrow> []) st of (cks, st1) \<Rightarrow> (Resp 200 [], cks, st1))"

definition handleChangeOwnPassword :: "auth_cfg \<Rightarrow> acc_env \<Rightarrow> Identity \<Rightarrow> (string \<times> string) option \<Rightarrow> auth_state \<Rightarrow> api_resp \<times> auth_state" where
  "handleChangeOwnPassword cfg E i body st =
     (if id_SyntheticUser i then (Resp 400 ''static_user'', st)
      else if id_Source i \<noteq> ''local'' then (Resp 400 ''not_local'', st)
      else case body of
        None \<Rightarrow> (Resp 400 ''bad_request'', st)
      | Some (current, newpw) \<Rightarrow> (case ChangeOwnPassword cfg E (id_UserID i) (id_SessionID i) current newpw st of
          (None, st1) \<Rightarrow> (Resp 200 [], st1)
        | (Some e, st1) \<Rightarrow> ((case e of ErrLoginFailed \<Rightarrow> Resp 401 ''invalid_credentials'' | PolicyError _ \<Rightarrow> Resp 400 ''weak_password''
              | VerifyPanics \<Rightarrow> PanicResp | _ \<Rightarrow> Resp 500 ''internal''), st1)))"

record create_user_req =
  cu_Username :: string
  cu_Email :: string
  cu_Password :: string
  cu_Role :: string
  cu_MustChangePW :: "bool option"

definition handleCreateUser :: "auth_cfg \<Rightarrow> acc_env \<Rightarrow> Identity option \<Rightarrow> create_user_req option \<Rightarrow> auth_state \<Rightarrow> api_resp \<times> auth_state" where
  "handleCreateUser cfg E actor body st =
     (case body of
        None \<Rightarrow> (Resp 400 ''bad_request'', st)
      | Some q \<Rightarrow>
          if cu_Username q = [] \<or> cu_Password q = [] \<or> cu_Role q = [] then (Resp 400 ''bad_request'', st)
          else (case CreateLocalUser cfg E (cu_Username q) (cu_Email q) (cu_Password q) (cu_Role q)
                    (case actor of Some a \<Rightarrow> if id_SyntheticUser a then [] else id_UserID a | None \<Rightarrow> [])
                    (case cu_MustChangePW q of Some b \<Rightarrow> b | None \<Rightarrow> True) (a_users st) of
                  (Inr _, users) \<Rightarrow> (Resp 201 [], st\<lparr>a_users := users\<rparr>)
                | (Inl e, users) \<Rightarrow> ((case e of StoreErr ErrUsernameTaken \<Rightarrow> Resp 409 ''username_taken'' | StoreErr ErrEmailTaken \<Rightarrow> Resp 409 ''email_taken''
                      | PolicyError _ \<Rightarrow> Resp 400 ''weak_password'' | _ \<Rightarrow> Resp 400 ''bad_request''), st)))"

definition handleGetUser :: "acc_env \<Rightarrow> string \<Rightarrow> auth_state \<Rightarrow> api_resp" where
  "handleGetUser E i st = (case GetUserByID (ae_flt E) i (a_users st) of
     Inl ErrUserNotFound \<Rightarrow> Resp 404 ''not_found'' | Inl _ \<Rightarrow> Resp 500 ''internal'' | Inr _ \<Rightarrow> Resp 200 [])"

record patch_user_req =
  pq_Role :: "string option"
  pq_Enabled :: "bool option"
  pq_Email :: "string option"

text \<open>The guard of a patch: a response that refuses it, if any.\<close>

definition patch_guard :: "acc_env \<Rightarrow> Identity option \<Rightarrow> string \<Rightarrow> patch_user_req \<Rightarrow> User list \<Rightarrow> api_resp option" where
  "patch_guard E actor i q users =
     (if pq_Role q = None \<and> pq_Enabled q = None then None
      else case GetUserByID (ae_flt E) i users of
        Inl ErrUserNotFound \<Rightarrow> Some (Resp 404 ''not_found'')
      | Inl _ \<Rightarrow> Some (Resp 500 ''internal'')
      | Inr current \<Rightarrow>
          (let demoting = (case pq_Role q of Some r \<Rightarrow> r \<noteq> ''admin'' \<and> u_Role current = ''admin'' | None \<Rightarrow> False);
               disabling = (case pq_Enabled q of Some b \<Rightarrow> \<not> b \<and> u_Enabled current \<and> u_Role current = ''admin'' | None \<Rightarrow> False);
               self = (case actor of
                   Some a \<Rightarrow> if id_UserID a = i \<and> (case pq_Role q of Some r \<Rightarrow> r \<noteq> u_Role current | None \<Rightarrow> False)
                             then Some (Resp 403 ''self_role_change'') else None
                 | None \<Rightarrow> None)
           in if demoting \<or> disabling
              then (case CountEnabledAdmins (ae_flt E) users of
                      Inl _ \<Rightarrow> Some (Resp 500 ''internal'')
                    | Inr n \<Rightarrow> if n \<le> 1 then Some (Resp 409 ''last_admin'') else self)
              else self))"

text \<open>A second run of the same statement within one request has its own label.\<close>

definition again :: "faults \<Rightarrow> faults" where
  "again flt = (\<lambda>q. flt (q @ ''2''))"

definition handlePatchUser :: "acc_env \<Rightarrow> Identity option \<Rightarrow> string \<Rightarrow> patch_user_req option \<Rightarrow> auth_state \<Rightarrow> api_resp \<times> auth_state" where
  "handlePatchUser E actor i body st =
     (case body of
        None \<Rightarrow> (Resp 400 ''bad_request'', st)
      | Some q \<Rightarrow> (case patch_guard E actor i q (a_users st) of
          Some resp \<Rightarrow> (resp, st)
        | None \<Rightarrow>
            (case UpdateUser (ae_flt E) (ae_msg E) i
                \<lparr>pt_Role = pq_Role q, pt_Enabled = pq_Enabled q, pt_Email = map_option (\<lambda>e. if e = [] then None else Some e) (pq_Email q),
                 pt_Unlock = False, pt_MustChangePW = None\<rparr> (a_users st) of
               Inl ErrUserNotFound \<Rightarrow> (Resp 404 ''not_found'', st)
             | Inl ErrEmailTaken \<Rightarrow> (Resp 409 ''email_taken'', st)
             | Inl _ \<Rightarrow> (Resp 500 ''internal'', st)
             | Inr users \<Rightarrow>
                 (let st1 = st\<lparr>a_users := users, a_cache := InvalidateUser i (a_cache st)\<rparr>
                  in case GetUserByID (again (ae_flt E)) i users of Inl _ \<Rightarrow> (PanicResp, st1) | Inr _ \<Rightarrow> (Resp 200 [], st1)))))"

definition handleAdminResetPassword :: "auth_cfg \<Rightarrow> acc_env \<Rightarrow> Identity option \<Rightarrow> string \<Rightarrow> string option \<Rightarrow> auth_state \<Rightarrow> api_resp \<times> auth_state" where
  "handleAdminResetPassword cfg E actor i body st =
     (case body of
        None \<Rightarrow> (Resp 400 ''bad_request'', st)
      | Some newpw \<Rightarrow>
          (case (case actor of Some a \<Rightarrow> if \<not> id_SyntheticUser a \<and> id_UserID a = i then (id_SessionID a, False) else ([], True) | None \<Rightarrow> ([], True)) of
             (keep, mustChange) \<Rightarrow> (case AdminResetPassword cfg E i keep newpw mustChange st of
                 (None, st1) \<Rightarrow> (Resp 200 [], st1)
               | (Some e, st1) \<Rightarrow> ((case e of PolicyError _ \<Rightarrow> Resp 400 ''weak_password'' | StoreErr ErrUserNotFound \<Rightarrow> Resp 404 ''not_found''
                     | _ \<Rightarrow> Resp 500 ''internal''), st1))))"

definition handleAdminUnlock :: "acc_env \<Rightarrow> string \<Rightarrow> auth_state \<Rightarrow> api_resp \<times> auth_state" where
  "handleAdminUnlock E i st =
     (case UpdateUser (ae_flt E) (ae_msg E) i \<lparr>pt_Role = None, pt_Enabled = None, pt_Email = None, pt_Unlock = True, pt_MustChangePW = None\<rparr> (a_users st) of
        Inl ErrUserNotFound \<Rightarrow> (Resp 404 ''not_found'', st) | Inl _ \<Rightarrow> (Resp 500 ''internal'', st) | Inr users \<Rightarrow> (Resp 200 [], st\<lparr>a_users := users\<rparr>))"

definition handleDeleteUser :: "acc_env \<Rightarrow> Identity option \<Rightarrow> string \<Rightarrow> auth_state \<Rightarrow> api_resp \<times> auth_state" where
  "handleDeleteUser E actor i st =
     (if (case actor of Some a \<Rightarrow> id_UserID a = i | None \<Rightarrow> False) then (Resp 400 ''self_delete'', st)
      else case GetUserByID (ae_flt E) i (a_users st) of
        Inl ErrUserNotFound \<Rightarrow> (Resp 404 ''not_found'', st)
      | Inl _ \<Rightarrow> (Resp 500 ''internal'', st)
      | Inr target \<Rightarrow>
          (case (if enabled_admin target
                 then (case CountEnabledAdmins (ae_flt E) (a_users st) of
                         Inl _ \<Rightarrow> Some (Resp 500 ''internal'') | Inr n \<Rightarrow> if n \<le> 1 then Some (Resp 409 ''last_admin'') else None)
                 else None) of
             Some resp \<Rightarrow> (resp, st)
           | None \<Rightarrow> (case DeleteUser (ae_flt E) i (a_users st) of
               Inl ErrUserNotFound \<Rightarrow> (Resp 404 ''not_found'', st)
             | Inl _ \<Rightarrow> (Resp 500 ''internal'', st)
             | Inr users \<Rightarrow> (Resp 204 [], st\<lparr>a_users := users,
                 a_sessions := (case DeleteUserSessions (ae_flt E) i [] (a_sessions st) of Inl _ \<Rightarrow> a_sessions st | Inr rows \<Rightarrow> rows),
                 a_cache := InvalidateUser i (a_cache st)\<rparr>))))"

section \<open>The type of the table of accounts\<close>

text \<open>Ids are unique, roles are the three of the schema, counters are not negative, and no two accounts share a name, an
  email address or an OIDC identity.\<close>

definition clash :: "User \<Rightarrow> User \<Rightarrow> bool" where
  "clash u v \<longleftrightarrow> NoCase (u_Username u) (u_Username v) \<or> same_email (u_Email u) (u_Email v) \<or> same_subject u v"

definition users_wf :: "User list \<Rightarrow> bool" where
  "users_wf rows \<longleftrightarrow> users.keyed rows \<and> (\<forall>u \<in> set rows. validRole (u_Role u) \<and> 0 \<le> u_FailedAttempts u)
     \<and> (\<forall>u \<in> set rows. \<forall>v \<in> set rows. clash u v \<longrightarrow> u_ID u = u_ID v)"

lemma clash_sym: "clash u v \<longleftrightarrow> clash v u"
  by (auto simp: clash_def same_email_def same_subject_def intro: NoCase_sym split: option.splits)

lemma violated_None:
  "violated u others = None \<longleftrightarrow> validRole (u_Role u) \<and> (\<forall>v \<in> set others. u_ID v \<noteq> u_ID u \<and> \<not> clash v u)"
  by (auto simp: violated_def validRole_def clash_def list_ex_iff)

lemma wf_snoc: "users_wf rows \<Longrightarrow> violated u rows = None \<Longrightarrow> 0 \<le> u_FailedAttempts u \<Longrightarrow> users_wf (rows @ [u])"
  unfolding users_wf_def violated_None by (auto simp: users.snoc_keyed users.row_None) (simp add: clash_sym)

lemma wf_filter: "users_wf rows \<Longrightarrow> users_wf (filter P rows)"
  by (auto simp: users_wf_def users.filter_keyed)

text \<open>An update of one row that respects the constraints against the others keeps the table well formed.\<close>

lemma wf_update:
  assumes wf: "users_wf rows" and id: "\<And>u. u_ID (f u) = u_ID u"
    and ok: "\<And>u. u \<in> set rows \<Longrightarrow> u_ID u = i \<Longrightarrow> 0 \<le> u_FailedAttempts (f u) \<and> violated (f u) (filter (\<lambda>v. u_ID v \<noteq> i) rows) = None"
  shows "users_wf (set_rows (\<lambda>u. u_ID u = i) f rows)"
proof -
  have img: "\<exists>u \<in> set rows. x = (if u_ID u = i then f u else u)" if "x \<in> set (set_rows (\<lambda>u. u_ID u = i) f rows)" for x
    using that by (auto simp: set_rows_def)
  have role: "validRole (u_Role x) \<and> 0 \<le> u_FailedAttempts x" if "x \<in> set (set_rows (\<lambda>u. u_ID u = i) f rows)" for x
    using img [OF that] wf ok by (auto simp: users_wf_def violated_None split: if_splits)
  have "u_ID x = u_ID y" if xy: "x \<in> set (set_rows (\<lambda>u. u_ID u = i) f rows)" "y \<in> set (set_rows (\<lambda>u. u_ID u = i) f rows)" "clash x y" for x y
  proof -
    obtain u v where uv: "u \<in> set rows" "x = (if u_ID u = i then f u else u)" "v \<in> set rows" "y = (if u_ID v = i then f v else v)"
      using img [OF xy(1)] img [OF xy(2)] by blast
    have other: "\<not> clash v (f u)" if "u \<in> set rows" "u_ID u = i" "v \<in> set rows" "u_ID v \<noteq> i" for u v
      using ok [OF that(1,2)] that(3,4) by (auto simp: violated_None)
    show ?thesis
    proof (cases "u_ID u = i"; cases "u_ID v = i")
      assume "u_ID u = i" "u_ID v = i"
      then show ?thesis using uv by (simp add: id)
    next
      assume a: "u_ID u = i" "u_ID v \<noteq> i"
      then show ?thesis using uv xy(3) other [OF uv(1) a(1) uv(3) a(2)] by (simp add: clash_sym [of _ v])
    next
      assume a: "u_ID u \<noteq> i" "u_ID v = i"
      then show ?thesis using uv xy(3) other [OF uv(3) a(2) uv(1) a(1)] by simp
    next
      assume "u_ID u \<noteq> i" "u_ID v \<noteq> i"
      then show ?thesis using uv xy(3) wf by (auto simp: users_wf_def)
    qed
  qed
  moreover have "users.keyed (set_rows (\<lambda>u. u_ID u = i) f rows)" using wf by (simp add: users.set_rows_keyed [OF id] users_wf_def)
  ultimately show ?thesis using role by (simp add: users_wf_def)
qed

text \<open>In a well-formed table a row without constraint columns changed respects them.\<close>

lemma wf_row_ok:
  assumes "users_wf rows" "u \<in> set rows" "u_ID u = i" "u_ID u' = u_ID u" "u_Role u' = u_Role u" "\<And>v. clash v u' = clash v u"
  shows "violated u' (filter (\<lambda>v. u_ID v \<noteq> i) rows) = None"
  using assms unfolding violated_None users_wf_def by auto

lemma wf_touch:
  assumes "users_wf rows" and "\<And>u. u_ID (f u) = u_ID u \<and> u_Role (f u) = u_Role u \<and> (\<forall>v. clash v (f u) = clash v u)"
    and "\<And>u. u \<in> set rows \<Longrightarrow> 0 \<le> u_FailedAttempts (f u)"
  shows "users_wf (set_rows (\<lambda>u. u_ID u = i) f rows)"
proof (rule wf_update [OF assms(1)])
  show "u_ID (f u) = u_ID u" for u using assms(2) by simp
  show "0 \<le> u_FailedAttempts (f u) \<and> violated (f u) (filter (\<lambda>v. u_ID v \<noteq> i) rows) = None" if u: "u \<in> set rows" "u_ID u = i" for u
    using assms(3) [OF u(1)] wf_row_ok [OF assms(1) u, of "f u"] assms(2) by simp
qed

lemma apply_patch_attempts: "0 \<le> u_FailedAttempts u \<Longrightarrow> 0 \<le> u_FailedAttempts (apply_patch p u)"
  by (simp add: apply_patch_def Let_def split: option.splits)

lemma update_user_wf:
  assumes "users_wf rows" "update_user flt msg q i f rows = Inr rows'" "\<And>u. u_ID (f u) = u_ID u" "\<And>u. 0 \<le> u_FailedAttempts u \<Longrightarrow> 0 \<le> u_FailedAttempts (f u)"
  shows "users_wf rows'"
proof -
  obtain u where u: "find (\<lambda>u. u_ID u = i) rows = Some u" "violated (f u) (filter (\<lambda>v. u_ID v \<noteq> i) rows) = None"
      "rows' = set_rows (\<lambda>u. u_ID u = i) f rows"
    using assms(2) by (auto simp: update_user_def split: option.splits)
  have "v = u" if "v \<in> set rows" "u_ID v = i" for v
    using users.row_mem [of rows v] u(1) that assms(1) by (auto simp: users.row_def users_wf_def)
  then show ?thesis unfolding u(3)
    by (intro wf_update [OF assms(1,3)]) (use u(2) assms(1,4) in \<open>auto simp: users_wf_def\<close>)
qed

lemma store_ops_wf:
  assumes "users_wf rows"
  shows "CreateUser flt msg u rows = Inr rows' \<Longrightarrow> users_wf rows'"
    and "UpdateUser flt msg i p rows = Inr rows' \<Longrightarrow> users_wf rows'"
    and "RenameUser flt msg i n rows = Inr rows' \<Longrightarrow> users_wf rows'"
    and "SetOIDCSubject flt msg i sub rows = Inr rows' \<Longrightarrow> users_wf rows'"
    and "SetPasswordHash flt now i hash b rows = Inr rows' \<Longrightarrow> users_wf rows'"
    and "RecordLoginSuccess flt now i rows = Inr rows' \<Longrightarrow> users_wf rows'"
    and "RecordLoginFailure flt now i mx w rows = (res, rows') \<Longrightarrow> users_wf rows'"
    and "DeleteUser flt i rows = Inr rows' \<Longrightarrow> users_wf rows'"
proof -
  show "CreateUser flt msg u rows = Inr rows' \<Longrightarrow> users_wf rows'"
    using wf_snoc [OF assms] by (auto simp: CreateUser_def Let_def split: option.splits)
  show "UpdateUser flt msg i p rows = Inr rows' \<Longrightarrow> users_wf rows'"
    using assms update_user_wf [OF assms _ apply_patch_ID apply_patch_attempts] by (auto simp: UpdateUser_def split: if_splits)
  show "RenameUser flt msg i n rows = Inr rows' \<Longrightarrow> users_wf rows'"
    using update_user_wf [OF assms, of flt msg "''RenameUser''" i "\<lambda>u. u\<lparr>u_Username := n\<rparr>" rows'] by (simp add: RenameUser_def)
  show "SetOIDCSubject flt msg i sub rows = Inr rows' \<Longrightarrow> users_wf rows'"
    using update_user_wf [OF assms, of flt msg "''SetOIDCSubject''" i "\<lambda>u. u\<lparr>u_OIDCSubject := (if sub = [] then None else Some sub)\<rparr>" rows']
    by (simp add: SetOIDCSubject_def)
  show "SetPasswordHash flt now i hash b rows = Inr rows' \<Longrightarrow> users_wf rows'"
    by (auto simp: SetPasswordHash_def clash_def same_subject_def split: option.splits if_splits intro!: wf_touch [OF assms])
  show "RecordLoginSuccess flt now i rows = Inr rows' \<Longrightarrow> users_wf rows'"
    by (auto simp: RecordLoginSuccess_def clash_def same_subject_def split: option.splits intro!: wf_touch [OF assms])
  show "users_wf rows'" if r: "RecordLoginFailure flt now i mx w rows = (res, rows')"
  proof (cases "rows' = rows")
    case False
    obtain u where u: "find (\<lambda>u. u_ID u = i) rows = Some u" "\<exists>lk. rows' = set_rows (\<lambda>v. u_ID v = i) (\<lambda>v. v\<lparr>u_FailedAttempts := u_FailedAttempts u + 1, u_LockedUntil := lk\<rparr>) rows"
      using r False by (auto simp: RecordLoginFailure_def Let_def split: option.splits)
    have "u \<in> set rows" using u(1) by (auto simp: find_Some_iff)
    then have "0 \<le> u_FailedAttempts u" using assms by (simp add: users_wf_def)
    then show ?thesis using u(2) by (auto simp: clash_def same_subject_def intro!: wf_touch [OF assms])
  qed (simp add: assms)
  show "DeleteUser flt i rows = Inr rows' \<Longrightarrow> users_wf rows'"
    using wf_filter [OF assms] by (auto simp: DeleteUser_def split: option.splits if_splits)
qed

section \<open>Administrators\<close>

abbreviation admins :: "User list \<Rightarrow> nat" where
  "admins rows \<equiv> rows_affected enabled_admin rows"

text \<open>What every account operation keeps: the type of the table, and that there is an enabled administrator.\<close>

definition keeps :: "User list \<Rightarrow> User list \<Rightarrow> bool" where
  "keeps rows rows' \<longleftrightarrow> (users_wf rows \<longrightarrow> users_wf rows' \<and> (0 < admins rows \<longrightarrow> 0 < admins rows'))"

lemma keeps_refl [simp]: "keeps rows rows"
  by (simp add: keeps_def)

lemma admins_set_rows: "(\<And>u. enabled_admin (f u) = enabled_admin u) \<Longrightarrow> admins (set_rows P f rows) = admins rows"
  by (induction rows) (auto simp: rows_affected_def set_rows_def)

lemma admins_pos: "0 < admins rows \<longleftrightarrow> (\<exists>u \<in> set rows. enabled_admin u)"
  by (auto simp: rows_affected_def filter_empty_conv)

text \<open>With two enabled administrators one is left besides the row with a given id.\<close>

lemma admins_two: "users.keyed rows \<Longrightarrow> 1 < admins rows \<Longrightarrow> \<exists>u \<in> set rows. enabled_admin u \<and> u_ID u \<noteq> i"
proof (rule ccontr)
  assume k: "users.keyed rows" "1 < admins rows" "\<not> (\<exists>u \<in> set rows. enabled_admin u \<and> u_ID u \<noteq> i)"
  have "distinct (map u_ID (filter enabled_admin rows))" using k(1) by (simp add: users.keyed_def distinct_map_filter)
  moreover have "set (map u_ID (filter enabled_admin rows)) \<subseteq> {i}" using k(3) by auto
  ultimately have "length (map u_ID (filter enabled_admin rows)) \<le> 1"
    by (metis card_mono distinct_card finite.emptyI finite.insertI card.empty card_insert_disjoint empty_iff One_nat_def)
  with k(2) show False by (simp add: rows_affected_def)
qed

lemma keeps_store:
  "CreateUser flt msg u rows = Inr rows' \<Longrightarrow> keeps rows rows'"
  "SetPasswordHash flt now i hash b rows = Inr rows' \<Longrightarrow> keeps rows rows'"
  "RecordLoginSuccess flt now i rows = Inr rows' \<Longrightarrow> keeps rows rows'"
  "RecordLoginFailure flt now i mx w rows = (res, rows') \<Longrightarrow> keeps rows rows'"
proof -
  show "keeps rows rows'" if c: "CreateUser flt msg u rows = Inr rows'"
    using store_ops_wf(1) [OF _ c] c by (auto simp: keeps_def CreateUser_def Let_def admins_pos split: option.splits)
  show "keeps rows rows'" if c: "SetPasswordHash flt now i hash b rows = Inr rows'"
    using store_ops_wf(5) [OF _ c] c by (auto simp: keeps_def SetPasswordHash_def enabled_admin_def split: option.splits if_splits simp: admins_set_rows)
  show "keeps rows rows'" if c: "RecordLoginSuccess flt now i rows = Inr rows'"
    using store_ops_wf(6) [OF _ c] c by (auto simp: keeps_def RecordLoginSuccess_def enabled_admin_def split: option.splits simp: admins_set_rows)
  show "keeps rows rows'" if c: "RecordLoginFailure flt now i mx w rows = (res, rows')"
    using store_ops_wf(7) [OF _ c] c
    by (auto simp: keeps_def RecordLoginFailure_def enabled_admin_def Let_def split: option.splits simp: admins_set_rows)
qed

lemma keeps_LoginLocal: "LoginLocal cfg E n pw rows = (res, rows') \<Longrightarrow> keeps rows rows'"
  by (auto simp: LoginLocal_def login_gate_def login_compare_def dest: keeps_store split: sum.splits if_splits pw_result.splits prod.splits option.splits)

lemma keeps_CreateLocalUser: "CreateLocalUser cfg E n em pw role cb mc rows = (res, rows') \<Longrightarrow> keeps rows rows'"
  by (auto simp: CreateLocalUser_def Let_def dest: keeps_store split: sum.splits if_splits option.splits)

lemma keeps_store_password: "store_password E i k hash mc st = (res, st') \<Longrightarrow> keeps (a_users st) (a_users st')"
  by (auto simp: store_password_def Let_def dest: keeps_store split: sum.splits if_splits)

lemma keeps_ChangeOwnPassword: "ChangeOwnPassword cfg E i k cur new st = (res, st') \<Longrightarrow> keeps (a_users st) (a_users st')"
  by (auto simp: ChangeOwnPassword_def dest: keeps_store_password split: sum.splits if_splits pw_result.splits option.splits)

lemma keeps_AdminResetPassword: "AdminResetPassword cfg E i k new mc st = (res, st') \<Longrightarrow> keeps (a_users st) (a_users st')"
  by (auto simp: AdminResetPassword_def dest: keeps_store_password split: option.splits)

lemma Issue_users [simp]: "Issue m flt now r1 r2 r u src fl st = (res, cks, st') \<Longrightarrow> a_users st' = a_users st"
  by (auto simp: Issue_def Let_def split: option.splits sum.splits)

lemma patch_admin: "enabled_admin (apply_patch p u) \<longleftrightarrow>
    (case pt_Role p of Some r \<Rightarrow> r = ''admin'' | None \<Rightarrow> u_Role u = ''admin'') \<and> (case pt_Enabled p of Some b \<Rightarrow> b | None \<Rightarrow> u_Enabled u)"
  by (simp add: enabled_admin_def apply_patch_def Let_def split: option.splits)

text \<open>A patch that passes its guard leaves an enabled administrator.\<close>

lemma keeps_patch:
  assumes "patch_guard E actor i q rows = None" "UpdateUser (ae_flt E) msg i p rows = Inr rows'" "pt_Role p = pq_Role q" "pt_Enabled p = pq_Enabled q"
  shows "keeps rows rows'"
  unfolding keeps_def
proof safe
  assume wf: "users_wf rows"
  show "users_wf rows'" by (rule store_ops_wf(2) [OF wf assms(2)])
  assume pos: "0 < admins rows"
  show "0 < admins rows'"
  proof (cases "rows' = rows")
    case False
    then obtain u where u: "find (\<lambda>u. u_ID u = i) rows = Some u" "rows' = set_rows (\<lambda>u. u_ID u = i) (apply_patch p) rows"
      using assms(2) by (auto simp: UpdateUser_def update_user_def split: option.splits if_splits)
    have uu: "u \<in> set rows" "u_ID u = i" using u(1) by (auto simp: find_Some_iff)
    have mem: "(if u_ID v = i then apply_patch p v else v) \<in> set rows'" if "v \<in> set rows" for v
      unfolding u(2) set_rows_def set_map using that by (rule imageI)
    show ?thesis
    proof (cases "enabled_admin u \<and> \<not> enabled_admin (apply_patch p u)")
      case True
      then have a: "u_Role u = ''admin''" "u_Enabled u" by (simp_all add: enabled_admin_def)
      have "pq_Role q \<noteq> None \<and> the (pq_Role q) \<noteq> ''admin'' \<or> pq_Enabled q = Some False"
        using True assms(3,4) a by (auto simp: patch_admin split: option.splits)
      then have "1 < admins rows" using assms(1) u(1) a
        by (auto simp: patch_guard_def GetUserByID_def select_user_def CountEnabledAdmins_def Let_def not_le split: option.splits if_splits)
      then obtain v where "v \<in> set rows" "enabled_admin v" "u_ID v \<noteq> i" using admins_two [of rows i] wf by (auto simp: users_wf_def)
      then show ?thesis using mem [of v] by (auto simp: admins_pos)
    next
      case False
      obtain v where v: "v \<in> set rows" "enabled_admin v" using pos by (auto simp: admins_pos)
      have "v = u" if "u_ID v = i" using users.row_mem [of rows v] v(1) that u(1) wf by (auto simp: users.row_def users_wf_def)
      then have "enabled_admin (if u_ID v = i then apply_patch p v else v)" using v(2) False by auto
      then show ?thesis using mem [OF v(1)] by (auto simp: admins_pos)
    qed
  qed (simp add: pos)
qed

lemma keeps_delete:
  assumes "handleDeleteUser E actor i st = (resp, st')"
  shows "keeps (a_users st) (a_users st')"
proof (cases "a_users st' = a_users st")
  case False
  then obtain u where u: "find (\<lambda>u. u_ID u = i) (a_users st) = Some u" "enabled_admin u \<Longrightarrow> 1 < admins (a_users st)"
      "DeleteUser (ae_flt E) i (a_users st) = Inr (a_users st')"
    using assms by (auto simp: handleDeleteUser_def GetUserByID_def select_user_def CountEnabledAdmins_def not_le split: option.splits sum.splits user_err.splits if_splits)
  have d: "a_users st' = filter (\<lambda>v. u_ID v \<noteq> i) (a_users st)" using u(3) by (auto simp: DeleteUser_def split: option.splits if_splits)
  show ?thesis unfolding keeps_def
  proof safe
    assume wf: "users_wf (a_users st)"
    show "users_wf (a_users st')" by (rule store_ops_wf(8) [OF wf u(3)])
    assume "0 < admins (a_users st)"
    then obtain v where v: "v \<in> set (a_users st)" "enabled_admin v" by (auto simp: admins_pos)
    have "v = u" if "u_ID v = i" using users.row_mem [of "a_users st" v] v(1) that u(1) wf by (auto simp: users.row_def users_wf_def)
    then have "\<exists>x \<in> set (a_users st). enabled_admin x \<and> u_ID x \<noteq> i"
      using v u(2) admins_two [of "a_users st" i] wf by (cases "u_ID v = i") (auto simp: users_wf_def)
    then show "0 < admins (a_users st')" by (auto simp: d admins_pos)
  qed
qed simp

section \<open>Runs of the handlers\<close>

inductive handler_step :: "auth_cfg \<Rightarrow> 'ip SessionManager \<Rightarrow> auth_state \<Rightarrow> auth_state \<Rightarrow> bool" for cfg m where
  attach: "Attach m flt (ac_Static cfg) now now2 r st = (i, cks, st') \<Longrightarrow> handler_step cfg m st st'"
| login: "handleLoginLocal cfg m E r body st = (resp, cks, st') \<Longrightarrow> handler_step cfg m st st'"
| logout: "handleLogout m E r i st = (resp, cks, st') \<Longrightarrow> handler_step cfg m st st'"
| change_password: "handleChangeOwnPassword cfg E x body st = (resp, st') \<Longrightarrow> handler_step cfg m st st'"
| create_user: "handleCreateUser cfg E actor cbody st = (resp, st') \<Longrightarrow> handler_step cfg m st st'"
| patch_user: "handlePatchUser E actor uid pbody st = (resp, st') \<Longrightarrow> handler_step cfg m st st'"
| reset_password: "handleAdminResetPassword cfg E actor uid rbody st = (resp, st') \<Longrightarrow> handler_step cfg m st st'"
| unlock: "handleAdminUnlock E uid st = (resp, st') \<Longrightarrow> handler_step cfg m st st'"
| delete_user: "handleDeleteUser E actor uid st = (resp, st') \<Longrightarrow> handler_step cfg m st st'"

lemma persistTouch_users [simp]: "a_users (persistTouch flt i now ex st) = a_users st"
  by (simp add: persistTouch_def split: option.split)

lemma Attach_users: "Attach m flt static now now2 r st = (i, cks, st') \<Longrightarrow> a_users st' = a_users st"
  by (auto simp: Attach_def Attach_begin_def Sessions_Resolve_def Attach_finish_def Sessions_Revoke_def Let_def
      split: option.splits prod.splits attach_begin.splits sum.splits if_splits)

lemma keeps_unlock:
  "UpdateUser (ae_flt (E :: acc_env)) msg i \<lparr>pt_Role = None, pt_Enabled = None, pt_Email = None, pt_Unlock = True, pt_MustChangePW = None\<rparr> rows = Inr rows' \<Longrightarrow> keeps rows rows'"
  using keeps_patch [of E None i "\<lparr>pq_Role = None, pq_Enabled = None, pq_Email = None\<rparr>" rows msg
      "\<lparr>pt_Role = None, pt_Enabled = None, pt_Email = None, pt_Unlock = True, pt_MustChangePW = None\<rparr>" rows']
  by (simp add: patch_guard_def)

lemma keeps_handlePatchUser: "handlePatchUser E actor i body st = (resp, st') \<Longrightarrow> keeps (a_users st) (a_users st')"
proof (cases body)
  case (Some q)
  assume h: "handlePatchUser E actor i body st = (resp, st')"
  show ?thesis
  proof (cases "a_users st' = a_users st")
    case False
    obtain p where "patch_guard E actor i q (a_users st) = None" "UpdateUser (ae_flt E) (ae_msg E) i p (a_users st) = Inr (a_users st')"
        "pt_Role p = pq_Role q" "pt_Enabled p = pq_Enabled q"
    proof (rule that)
      let ?p = "\<lparr>pt_Role = pq_Role q, pt_Enabled = pq_Enabled q, pt_Email = map_option (\<lambda>e. if e = [] then None else Some e) (pq_Email q),
                 pt_Unlock = False, pt_MustChangePW = None\<rparr>"
      show g: "patch_guard E actor i q (a_users st) = None" using h False Some by (auto simp: handlePatchUser_def split: option.splits)
      show "UpdateUser (ae_flt E) (ae_msg E) i ?p (a_users st) = Inr (a_users st')"
      proof (cases "UpdateUser (ae_flt E) (ae_msg E) i ?p (a_users st)")
        case (Inl e)
        then show ?thesis using h False Some g by (cases e) (simp_all add: handlePatchUser_def)
      next
        case (Inr us)
        then show ?thesis using h Some g by (cases "GetUserByID (again (ae_flt E)) i us") (auto simp: handlePatchUser_def Let_def)
      qed
    qed simp_all
    then show ?thesis by (rule keeps_patch)
  qed simp
qed (simp add: handlePatchUser_def)

lemma step_keeps: "handler_step cfg m st st' \<Longrightarrow> keeps (a_users st) (a_users st')"
proof (induction rule: handler_step.induct)
  case (attach flt now now2 r st i cks st')
  then show ?case by (simp add: Attach_users)
next
  case (login E r body st resp cks st')
  then show ?case
    by (auto simp: handleLoginLocal_def dest: keeps_LoginLocal split: option.splits prod.splits sum.splits if_splits auth_err.splits)
next
  case (logout E r i st resp cks st')
  then show ?case by (auto simp: handleLogout_def Sessions_Revoke_def split: if_splits)
next
  case (change_password E x body st resp st')
  then show ?case by (auto simp: handleChangeOwnPassword_def dest: keeps_ChangeOwnPassword split: option.splits prod.splits if_splits)
next
  case (create_user E actor cbody st resp st')
  then show ?case by (auto simp: handleCreateUser_def dest: keeps_CreateLocalUser split: option.splits prod.splits if_splits sum.splits)
next
  case (patch_user E actor uid pbody st resp st')
  then show ?case by (rule keeps_handlePatchUser)
next
  case (reset_password E actor uid rbody st resp st')
  then show ?case by (auto simp: handleAdminResetPassword_def dest: keeps_AdminResetPassword split: option.splits prod.splits if_splits)
next
  case (unlock E uid st resp st')
  then show ?case by (auto simp: handleAdminUnlock_def dest: keeps_unlock split: sum.splits user_err.splits)
next
  case (delete_user E actor uid st resp st')
  then show ?case by (rule keeps_delete)
qed

lemma run_keeps: "(handler_step cfg m)\<^sup>*\<^sup>* st st' \<Longrightarrow> users_wf (a_users st) \<Longrightarrow> users_wf (a_users st') \<and> (0 < admins (a_users st) \<longrightarrow> 0 < admins (a_users st'))"
proof (induction rule: rtranclp_induct)
  case (step st1 st2)
  then show ?case using step_keeps [OF step(2)] by (simp add: keeps_def)
qed simp

section \<open>Guessing passwords\<close>



lemma find_set_rows:
  assumes "\<And>u. Q (f u) = Q u"
  shows "find Q (set_rows P f rows) = map_option (\<lambda>u. if P u then f u else u) (find Q rows)"
  using assms by (induction rows) (auto simp: set_rows_def)















section \<open>After a password change\<close>

lemma ClearSessionFlags_row:
  "s \<in> set (ClearSessionFlags flt i k rows) \<Longrightarrow> \<exists>s0 \<in> set rows. ss_ID s = ss_ID s0 \<and> ss_UserID s = ss_UserID s0"
  by (auto simp: ClearSessionFlags_def set_rows_def split: option.splits)

lemma store_password_done:
  assumes "store_password E userID keep hash mustChange st = (None, st')"
  shows "(k, e) \<in> entries st' \<Longrightarrow> id_UserID (en_id e) \<noteq> userID"
    and "s \<in> set (a_sessions st') \<Longrightarrow> ss_UserID s = userID \<Longrightarrow> keep \<noteq> [] \<and> ss_ID s = keep"
    and "\<exists>u. find (\<lambda>u. u_ID u = userID) (a_users st') = Some u \<and> u_PasswordHash u = hash \<and> u_FailedAttempts u = 0 \<and> u_LockedUntil u = None"
proof -
  obtain us rows where us: "SetPasswordHash (ae_flt E) (ae_later E) userID hash mustChange (a_users st) = Inr us"
      "DeleteUserSessions (ae_flt E) userID keep (a_sessions st) = Inr rows"
      "st' = st\<lparr>a_users := us, a_sessions := (if keep \<noteq> [] then ClearSessionFlags (ae_flt E) keep FlagMustChangePW rows else rows), a_cache := InvalidateUser userID (a_cache st)\<rparr>"
    using assms by (auto simp: store_password_def Let_def split: sum.splits)
  show "id_UserID (en_id e) \<noteq> userID" if "(k, e) \<in> entries st'"
    using that unfolding us(3) entries_def by (auto simp: InvalidateUser_def split: option.splits)
  have r: "keep \<noteq> [] \<and> ss_ID s = keep" if "s \<in> set rows" "ss_UserID s = userID" for s
    using us(2) that by (auto simp: DeleteUserSessions_def split: option.splits if_splits)
  show "keep \<noteq> [] \<and> ss_ID s = keep" if "s \<in> set (a_sessions st')" "ss_UserID s = userID"
    using that r unfolding us(3) by (cases "keep = []") (auto dest!: ClearSessionFlags_row)
  have aff: "rows_affected (\<lambda>u. u_ID u = userID) (a_users st) \<noteq> 0"
    and eq: "us = set_rows (\<lambda>u. u_ID u = userID) (\<lambda>u. u\<lparr>u_PasswordHash := hash, u_MustChangePW := mustChange, u_PWChangedAt := ae_later E,
                 u_FailedAttempts := 0, u_LockedUntil := None\<rparr>) (a_users st)"
    using us(1) by (auto simp: SetPasswordHash_def split: option.splits if_splits)
  obtain u where "find (\<lambda>u. u_ID u = userID) (a_users st) = Some u" using aff users.affected_key [of userID "a_users st"] by (auto simp: users.row_def)
  moreover from this have "u_ID u = userID" by (auto simp: find_Some_iff)
  ultimately show "\<exists>u. find (\<lambda>u. u_ID u = userID) (a_users st') = Some u \<and> u_PasswordHash u = hash \<and> u_FailedAttempts u = 0 \<and> u_LockedUntil u = None"
    unfolding us(3) eq by (simp add: find_set_rows)
qed

text \<open>Where the identity of a request comes from: a cache entry, or a session row and its user.\<close>

lemma ResolveIdentity_user:
  "ResolveIdentity flt static s users = Some i \<Longrightarrow> id_SessionID i = ss_ID s \<and> (id_UserID i = ''static'' \<or> id_UserID i = ss_UserID s)"
  by (auto simp: ResolveIdentity_def GetUserByID_def select_user_def Let_def find_Some_iff split: if_splits option.splits sum.splits)

lemma Resolve_row:
  assumes "Sessions_Resolve m flt now r st = (Inr s, cks, st')"
  shows "\<exists>s0 \<in> set (a_sessions st). ss_ID s = ss_ID s0 \<and> ss_UserID s = ss_UserID s0"
  using assms by (auto simp: Sessions_Resolve_def GetSession_def Let_def find_Some_iff split: option.splits if_splits)

lemma Attach_begin_Loading_rows: "Attach_begin m flt now r st = (Loading, st1) \<Longrightarrow> a_sessions st1 = a_sessions st"
  by (auto simp: Attach_begin_def split: option.splits prod.splits if_splits)

lemma Attach_identity:
  assumes "Attach m flt static now now2 r st = (Some i, cks, st')"
  obtains k e where "(k, e) \<in> entries st" "en_id e = i"
  | s where "s \<in> set (a_sessions st)" "id_SessionID i = ss_ID s" "id_UserID i = ''static'' \<or> id_UserID i = ss_UserID s"
proof -
  obtain b st1 where b: "Attach_begin m flt now r st = (b, st1)" by force
  show ?thesis
  proof (cases b)
    case Anonymous
    then show ?thesis using assms b by (simp add: Attach_def)
  next
    case (Cached j)
    then have "j = i" using assms b by (simp add: Attach_def)
    moreover obtain v where "req_Cookie r ''stowage_session'' = Some v" using b Cached by (auto simp: Attach_begin_def split: option.splits)
    ultimately show ?thesis using begin_hit [of m flt now r st i st1] b Cached that(1) by blast
  next
    case Loading
    obtain res cks1 st2 where l: "Sessions_Resolve m flt now2 r st1 = (res, cks1, st2)" using prod_cases3 by blast
    then obtain s where s: "res = Inr s" using assms b Loading by (cases res) (simp_all add: Attach_def)
    have "ResolveIdentity flt static s (a_users st2) = Some i"
      using assms b Loading l s by (auto simp: Attach_def Attach_finish_def split: option.splits prod.splits)
    then show ?thesis
      using ResolveIdentity_user Resolve_row [OF l [unfolded s]] Attach_begin_Loading_rows [OF b [unfolded Loading]] that(2) by metis
  qed
qed

lemma password_stored:
  assumes "ChangeOwnPassword cfg E userID keep current newpw st = (None, st') \<or> AdminResetPassword cfg E userID keep newpw mustChange st = (None, st')"
  shows "\<exists>hash mc. HashPassword (ac_IDKey cfg) (ae_salt E) newpw = Some hash \<and> store_password E userID keep hash mc st = (None, st')"
  using assms
  by (auto simp: ChangeOwnPassword_def AdminResetPassword_def split: sum.splits option.splits if_splits pw_result.splits)

section \<open>Properties\<close>

text \<open>C9: A password change locks everybody else out. After \<^verbatim>\<open>ChangeOwnPassword\<close> or \<^verbatim>\<open>AdminResetPassword\<close> succeeds, the next request
  that is given an identity of that user, by whatever cookie and from the cache or the tables, is one
  of the kept session, and there is one only if the caller asked to keep it; the account has the hash of
  the new password, an empty failure counter and no lock.\<close>

theorem password_change_revokes:
  assumes "ChangeOwnPassword cfg E userID keep current newpw st = (None, st') \<or> AdminResetPassword cfg E userID keep newpw mustChange st = (None, st')"
    and "userID \<noteq> ''static''" "Attach m flt (ac_Static cfg) now now2 r st' = (Some i, cks, st'')" "id_UserID i = userID"
  shows "keep \<noteq> [] \<and> id_SessionID i = keep
    \<and> (\<exists>hash u. HashPassword (ac_IDKey cfg) (ae_salt E) newpw = Some hash \<and> find (\<lambda>u. u_ID u = userID) (a_users st') = Some u
         \<and> u_PasswordHash u = hash \<and> u_FailedAttempts u = 0 \<and> u_LockedUntil u = None)"
proof -
  obtain hash mc where h: "HashPassword (ac_IDKey cfg) (ae_salt E) newpw = Some hash" "store_password E userID keep hash mc st = (None, st')"
    using password_stored [OF assms(1)] by blast
  note d = store_password_done [OF h(2)]
  have "keep \<noteq> [] \<and> id_SessionID i = keep" using assms(3)
  proof (cases rule: Attach_identity)
    case (1 k e)
    then show ?thesis using d(1) assms(4) by blast
  next
    case (2 s)
    then show ?thesis using d(2) [of s] assms(2,4) by auto
  qed
  then show ?thesis using d(3) h(1) by blast
qed

text \<open>The session of the witness's user that asks for the change.\<close>

definition ex_cfg :: auth_cfg where
  "ex_cfg = \<lparr>ac_Modes = [''local''], ac_MaxAttempts = 2, ac_Window = 100, ac_Policy = \<lparr>MinLength = 4, PreventReuse = True\<rparr>, ac_Static = None, ac_IDKey = ex_IDKey\<rparr>"

definition ex_acc :: "time \<Rightarrow> acc_env" where
  "ex_acc t = \<lparr>ae_flt = (\<lambda>_. None), ae_msg = (\<lambda>c. c), ae_now = t, ae_later = t, ae_id = ''u9'', ae_salt = Some ''0123456789abcdef'', ae_rnd1 = Some ''s'', ae_rnd2 = Some ''t''\<rparr>"

definition ex_hash :: string where
  "ex_hash = ''$argon2id$v=19$m=1,t=1,p=1$AAAA$b2xkcA''"

definition ex_accounts :: auth_state where
  "ex_accounts = \<lparr>a_users = [ex_user\<lparr>u_PasswordHash := ex_hash\<rparr>], a_sessions = [ex_session, ex_session\<lparr>ss_ID := ''other''\<rparr>],
     a_cache = Some \<lparr>ic_ttl = 30, ic_entries = [(''other'', ex_entry)]\<rparr>, a_touch = None\<rparr>"

lemma ex_verify: "VerifyPassword ex_IDKey ''oldp'' ex_hash = PwMatch" "VerifyPassword ex_IDKey ''newpw'' ex_hash = ErrPasswordMismatch" by code_simp+

theorem password_change_revokes_witness:
  "\<exists>st' st''. ChangeOwnPassword ex_cfg (ex_acc 20) ''u1'' ''cw'' ''oldp'' ''newpw'' ex_accounts = (None, st')
     \<and> Attach ex_m (\<lambda>_. None) None 20 20 ex_req st' = (Some ex_identity, [], st'') \<and> id_SessionID ex_identity = ''cw''"
proof -
  obtain hash where h: "HashPassword ex_IDKey (Some ''0123456789abcdef'') ''newpw'' = Some hash"
    by (simp add: HashPassword_def ex_IDKey_def argonTime_def argonThreads_def)
  define st' where "st' = \<lparr>a_users = [ex_user\<lparr>u_PasswordHash := hash, u_MustChangePW := False, u_PWChangedAt := 20, u_FailedAttempts := 0, u_LockedUntil := None\<rparr>],
    a_sessions = [ex_session], a_cache = Some \<lparr>ic_ttl = 30, ic_entries = []\<rparr>, a_touch = None\<rparr>"
  have c: "ChangeOwnPassword ex_cfg (ex_acc 20) ''u1'' ''cw'' ''oldp'' ''newpw'' ex_accounts = (None, st')"
    using ex_verify h
    by (simp add: ChangeOwnPassword_def ex_cfg_def ex_acc_def ex_accounts_def ex_user_def GetUserByID_def select_user_def PasswordPolicy_Check_def store_password_def
        SetPasswordHash_def rows_affected_def set_rows_def DeleteUserSessions_def ClearSessionFlags_def InvalidateUser_def ex_session_def ex_entry_def ex_identity_def
        st'_def FlagMustChangePW_def Let_def)
  obtain st'' where a: "Attach ex_m (\<lambda>_. None) None 20 20 ex_req st' = (Some ex_identity, [], st'')"
    by (simp add: Attach_def Attach_begin_def ex_cookie Cache_Get_def st'_def Sessions_Resolve_def GetSession_def time_After_def time_Sub_def int64_range_def half_def
        Attach_finish_def ResolveIdentity_def GetUserByID_def select_user_def FlagMustChangePW_def ex_session_def ex_m_def ex_user_def ex_identity_def)
  have s: "ac_Static ex_cfg = None" by (simp add: ex_cfg_def)
  have "id_SessionID ex_identity = ''cw''"
    using password_change_revokes [OF disjI1 [OF c] _ a [folded s]] by (simp add: ex_identity_def)
  then show ?thesis using c a by blast
qed



text \<open>The table of accounts keeps its type under every sequence of requests to the account handlers: ids stay unique,
  every role is one of the three, no failure counter is negative, and no two accounts share a user name
  (compared without case), an email address or an OIDC identity.\<close>

theorem accounts_typed:
  assumes "(handler_step cfg m)\<^sup>*\<^sup>* st st'" "users_wf (a_users st)"
  shows "users_wf (a_users st')"
  using run_keeps [OF assms] by simp

text \<open>C13: The dashboard never loses its last administrator: if some administrator account is enabled, one is after
  every sequence of requests to the account handlers, each run to its end, whoever makes them.\<close>

theorem last_admin_kept:
  assumes "(handler_step cfg m)\<^sup>*\<^sup>* st st'" "users_wf (a_users st)" "0 < admins (a_users st)"
  shows "0 < admins (a_users st')"
  using run_keeps [OF assms(1,2)] assms(3) by simp

definition ex_two :: auth_state where
  "ex_two = ex_accounts\<lparr>a_users := [ex_user, ex_user\<lparr>u_ID := ''u2'', u_Username := ''bob''\<rparr>]\<rparr>"

definition ex_one :: auth_state where
  "ex_one = ex_two\<lparr>a_users := [ex_user\<lparr>u_ID := ''u2'', u_Username := ''bob''\<rparr>], a_sessions := [], a_cache := Some \<lparr>ic_ttl = 30, ic_entries = []\<rparr>\<rparr>"

lemma ex_admin_run: "(handler_step ex_cfg ex_m)\<^sup>*\<^sup>* ex_two ex_one" "users_wf (a_users ex_two)" "0 < admins (a_users ex_two)"
proof -
  have "handleDeleteUser (ex_acc 5) None ''u1'' ex_two = (Resp 204 [], ex_one)"
    by (simp add: handleDeleteUser_def ex_two_def ex_one_def ex_accounts_def ex_user_def ex_acc_def GetUserByID_def select_user_def enabled_admin_def CountEnabledAdmins_def
        rows_affected_def DeleteUser_def DeleteUserSessions_def InvalidateUser_def ex_session_def ex_entry_def ex_identity_def)
  then show "(handler_step ex_cfg ex_m)\<^sup>*\<^sup>* ex_two ex_one" by (intro r_into_rtranclp handler_step.delete_user)
  have "\<not> NoCase ''ann'' ''bob''" "\<not> NoCase ''bob'' ''ann''" by code_simp+
  then show "users_wf (a_users ex_two)"
    by (simp add: users_wf_def users.keyed_def ex_two_def ex_accounts_def ex_user_def validRole_def clash_def same_email_def same_subject_def)
  show "0 < admins (a_users ex_two)" by (simp add: ex_two_def ex_user_def rows_affected_def enabled_admin_def)
qed

theorem accounts_typed_witness: "users_wf (a_users ex_one) \<and> length (a_users ex_one) = 1"
  using accounts_typed [OF ex_admin_run(1,2)] by (simp add: ex_one_def)

theorem last_admin_kept_witness:
  "0 < admins (a_users ex_one) \<and> handleDeleteUser (ex_acc 6) None ''u2'' ex_one = (Resp 409 ''last_admin'', ex_one)"
proof -
  have "handleDeleteUser (ex_acc 6) None ''u2'' ex_one = (Resp 409 ''last_admin'', ex_one)"
    by (simp add: handleDeleteUser_def ex_one_def ex_user_def ex_acc_def GetUserByID_def select_user_def enabled_admin_def CountEnabledAdmins_def rows_affected_def)
  then show ?thesis using last_admin_kept [OF ex_admin_run] by blast
qed

end
