(* ===== verification/Oidc.thy ===== *)
theory Oidc
  imports Accounts Go_Json
begin

text \<open>
  Sign-in through an identity provider: \<^verbatim>\<open>internal/auth/oidc/oidc.go\<close> and the two handlers of \<^verbatim>\<open>internal/api/auth.go\<close> that use it.
  The provider (the \<^verbatim>\<open>go-oidc\<close> and \<^verbatim>\<open>oauth2\<close> packages) is the record \<open>idp\<close> of functions: the authorisation URL, the exchange of
  a code and a PKCE verifier for the raw ID token (empty when the response has none), and the verification of a
  raw token, which gives the claims as \<^verbatim>\<open>IDToken.Claims\<close> decodes them into the structure (or not) and into a map.
  The role mapping is a Go map: the list is the order in which one iteration visits it. The theorem: whoever signs
  in through the provider gets a session for the row of that provider and subject, and no other account is touched.
\<close>

section \<open>The provider\<close>

record oidc_claims =
  cl_Sub :: string
  cl_Email :: string
  cl_PreferredUsername :: string
  cl_Groups :: "string list"

record IDToken =
  tk_claims :: "oidc_claims option"
  tk_raw :: "json option"

record oauth2_config =
  oa_ClientID :: string
  oa_ClientSecret :: string
  oa_RedirectURL :: string
  oa_Scopes :: "string list"

record idp =
  idp_AuthCodeURL :: "oauth2_config \<Rightarrow> string \<Rightarrow> string \<Rightarrow> string"
  idp_Exchange :: "oauth2_config \<Rightarrow> string \<Rightarrow> string \<Rightarrow> string option"
  idp_Verify :: "string \<Rightarrow> string \<Rightarrow> IDToken option"

record 'ip Provider =
  op_Issuer :: string
  op_ClientID :: string
  op_provider :: idp
  op_oauth2 :: oauth2_config
  op_roleClaim :: string
  op_roleMapping :: "(string \<times> string list) list"
  op_Proxies :: "'ip ProxyTrust option"
  op_parseIP :: "string \<Rightarrow> 'ip option"
  op_urlHost :: "string \<Rightarrow> string option"

record OIDCConfig =
  oc_Issuer :: string
  oc_ClientID :: string
  oc_Scopes :: "string list"
  oc_RoleClaim :: string
  oc_RoleMapping :: "(string \<times> string list) list"

datatype oidc_err = MissingConfig | DiscoveryFailed | ProviderError string string | StateMismatch | VerifierMissing | NoCode | ExchangeFailed
  | NoIDToken | TokenInvalid | ClaimsInvalid | MissingSub | NoUsername | OidcStore user_err

definition Provider_New :: "(string \<Rightarrow> idp option) \<Rightarrow> (string \<Rightarrow> string option) \<Rightarrow> (string \<Rightarrow> 'ip option) \<Rightarrow> OIDCConfig \<Rightarrow> string \<Rightarrow> string \<Rightarrow> 'ip ProxyTrust option
    \<Rightarrow> oidc_err + 'ip Provider" where
  "Provider_New discover urlHost parseIP cfg clientSecret redirectURL proxies =
     (if oc_Issuer cfg = [] \<or> oc_ClientID cfg = [] then Inl MissingConfig
      else case discover (oc_Issuer cfg) of
        None \<Rightarrow> Inl DiscoveryFailed
      | Some prov \<Rightarrow> Inr \<lparr>op_Issuer = oc_Issuer cfg, op_ClientID = oc_ClientID cfg, op_provider = prov,
          op_oauth2 = \<lparr>oa_ClientID = oc_ClientID cfg, oa_ClientSecret = clientSecret, oa_RedirectURL = redirectURL,
            oa_Scopes = (if oc_Scopes cfg = [] then [''openid'', ''profile'', ''email''] else oc_Scopes cfg)\<rparr>,
          op_roleClaim = oc_RoleClaim cfg, op_roleMapping = oc_RoleMapping cfg, op_Proxies = proxies, op_parseIP = parseIP, op_urlHost = urlHost\<rparr>)"

definition Provider_isHTTPS :: "'ip Provider \<Rightarrow> request \<Rightarrow> bool" where
  "Provider_isHTTPS p r =
     (if TLS r then True else case op_Proxies p of Some t \<Rightarrow> IsHTTPS (op_parseIP p) (Some t) r | None \<Rightarrow> False)"

section \<open>Claims and roles\<close>






section \<open>Flow cookies and PKCE\<close>

definition flowCookieTTL :: duration where "flowCookieTTL = 10 * Minute"

definition pkceVerifier :: "string option \<Rightarrow> string option" where
  "pkceVerifier rnd = map_option (raw64_EncodeToString url_alphabet) rnd"

definition pkceChallenge :: "string \<Rightarrow> string" where
  "pkceChallenge verifier = raw64_EncodeToString url_alphabet (sha256 verifier)"

definition setFlowCookie :: "time \<Rightarrow> bool \<Rightarrow> string \<Rightarrow> string \<Rightarrow> cookie" where
  "setFlowCookie now secure name v =
     \<lparr>ck_Name = name, ck_Value = v, ck_Path = ''/'', ck_HttpOnly = True, ck_Secure = secure, ck_Expires = Some (time_Add now flowCookieTTL), ck_MaxAge = 0\<rparr>"


text \<open>The answer, the target of the redirect, and the cookies.\<close>

definition StartLogin :: "'ip Provider \<Rightarrow> time \<Rightarrow> string option \<Rightarrow> string option \<Rightarrow> request \<Rightarrow> api_resp \<times> string \<times> cookie list" where
  "StartLogin p now rnd1 rnd2 r =
     (case RandomToken rnd1 of
        None \<Rightarrow> (Resp 500 ''oidc: state error'', [], [])
      | Some state \<Rightarrow> (case pkceVerifier rnd2 of
          None \<Rightarrow> (Resp 500 ''oidc: pkce error'', [], [])
        | Some verifier \<Rightarrow>
            (let secure = Provider_isHTTPS p r
             in (Resp 302 [], idp_AuthCodeURL (op_provider p) (op_oauth2 p) state (pkceChallenge verifier),
                 [setFlowCookie now secure ''stowage_oidc_state'' state, setFlowCookie now secure ''stowage_oidc_verifier'' verifier]))))"

section \<open>Linking a subject to an account\<close>




section \<open>The callback\<close>



definition handleLoginOIDCStart :: "'ip Provider option \<Rightarrow> time \<Rightarrow> string option \<Rightarrow> string option \<Rightarrow> request \<Rightarrow> api_resp \<times> string \<times> cookie list" where
  "handleLoginOIDCStart p now rnd1 rnd2 r =
     (case p of None \<Rightarrow> (Resp 400 ''mode_disabled'', [], []) | Some p \<Rightarrow> StartLogin p now rnd1 rnd2 r)"


section \<open>What an upsert changes\<close>














section \<open>Properties\<close>












end
