(* ===== verification/Object_Keys.thy ===== *)
theory Object_Keys
  imports Go_Json
begin

text \<open>
  Helpers of the dashboard API for names and headers (\<^verbatim>\<open>internal/api/backends.go\<close> and \<^verbatim>\<open>shares.go\<close>): validity of
  object keys and bucket names, file names for \<^verbatim>\<open>Content-Disposition\<close>, ranges, and the content types that
  must not be shown inline. Go iterates over a string by runes.
\<close>

section \<open>Names\<close>

definition isBidiOverride :: "nat \<Rightarrow> bool" where
  "isBidiOverride r \<longleftrightarrow> r \<in> {0x202A, 0x202B, 0x202C, 0x202D, 0x202E, 0x2066, 0x2067, 0x2068, 0x2069}"

definition validObjectKey :: "string \<Rightarrow> bool" where
  "validObjectKey key =
     (if key = [] \<or> 1024 < int (length key) then False
      else if list_ex (\<lambda>r. r = 0 \<or> (r < 0x20 \<and> r \<noteq> 9) \<or> r = 0x7F \<or> isBidiOverride r) (runes key) then False
      else \<not> list_ex (\<lambda>p. p = ''..'') (Split key (CHR ''/'')))"

definition bucket_char :: "nat \<Rightarrow> nat \<Rightarrow> char \<Rightarrow> bool" where
  "bucket_char n i c =
     (let r = (of_char c :: nat)
      in 97 \<le> r \<and> r \<le> 122 \<or> 48 \<le> r \<and> r \<le> 57 \<or> (c = CHR ''-'' \<or> c = CHR ''.'') \<and> i \<noteq> 0 \<and> i \<noteq> n - 1)"

definition validBucketName :: "string \<Rightarrow> bool" where
  "validBucketName n \<longleftrightarrow> 3 \<le> int (length n) \<and> int (length n) \<le> 63 \<and> list_all (\<lambda>(i, c). bucket_char (length n) i c) (enumerate 0 n)"

definition unsafe_rune :: "nat \<Rightarrow> bool" where
  "unsafe_rune r \<longleftrightarrow> r = 34 \<or> r = 92 \<or> r < 0x20 \<or> r = 0x7F \<or> isBidiOverride r"

definition sanitizeFilename :: "string \<Rightarrow> string" where
  "sanitizeFilename name =
     (let out = concat (map utf8 (filter (\<lambda>r. \<not> unsafe_rune r) (runes name))) in if out = [] then ''download'' else out)"

section \<open>Paths and ranges\<close>

text \<open>\<^verbatim>\<open>path.Base\<close> and \<^verbatim>\<open>path.Ext\<close>.\<close>

definition path_Base :: "string \<Rightarrow> string" where
  "path_Base p =
     (if p = [] then ''.''
      else let q = TrimRight p ''/''
           in if q = [] then ''/''
              else (case LastIndexByte q (CHR ''/'') of Some i \<Rightarrow> drop (i + 1) q | None \<Rightarrow> q))"

definition path_Ext :: "string \<Rightarrow> string" where
  "path_Ext p =
     (case LastIndexByte p (CHR ''.'') of
        Some i \<Rightarrow> (if CHR ''/'' \<in> set (drop i p) then [] else drop i p) | None \<Rightarrow> [])"

record byte_range =
  rg_Start :: int
  rg_End :: int

definition parseRangeHeader :: "string \<Rightarrow> byte_range option" where
  "parseRangeHeader h =
     (if h = [] then None
      else if \<not> HasPrefix h ''bytes='' then None
      else let spec = TrimPrefix h ''bytes=''
           in if Contains spec '','' then None
              else (case IndexByte spec (CHR ''-'') of
                      None \<Rightarrow> None
                    | Some i \<Rightarrow> (case ParseInt 10 (take i spec) of
                        None \<Rightarrow> None
                      | Some start \<Rightarrow> Some \<lparr>rg_Start = start,
                          rg_End = (let endStr = drop (i + 1) spec
                            in if endStr \<noteq> [] then (case ParseInt 10 endStr of Some e \<Rightarrow> e | None \<Rightarrow> -1) else -1)\<rparr>)))"

section \<open>Content types\<close>

definition isActiveContentType :: "string \<Rightarrow> string \<Rightarrow> bool" where
  "isActiveContentType contentType key =
     (let ct0 = ToLower (TrimSpace contentType);
          ct = (case IndexByte ct0 (CHR '';'') of Some i \<Rightarrow> TrimSpace (take i ct0) | None \<Rightarrow> ct0)
      in ct \<in> set [''image/svg+xml'', ''text/html'', ''application/xhtml+xml'', ''application/xml'', ''text/xml'']
       \<or> ToLower (path_Ext key) \<in> set [''.svg'', ''.html'', ''.htm'', ''.xhtml'', ''.xml''])"

definition previewKind :: "string \<Rightarrow> string \<Rightarrow> string" where
  "previewKind contentType key =
     (let ct = ToLower contentType; ext = ToLower (path_Ext key)
      in if HasPrefix ct ''image/'' then ''image''
         else if HasPrefix ct ''video/'' then ''video''
         else if HasPrefix ct ''audio/'' then ''audio''
         else if ct = ''application/pdf'' then ''pdf''
         else if HasPrefix ct ''text/'' \<or> ct = ''application/json'' \<or> ct = ''application/x-yaml'' \<or> ct = ''application/yaml'' then ''text''
         else if ext \<in> set [''.png'', ''.jpg'', ''.jpeg'', ''.gif'', ''.webp'', ''.avif'', ''.bmp'', ''.svg''] then ''image''
         else if ext \<in> set [''.mp4'', ''.webm'', ''.mov'', ''.m4v'', ''.mkv''] then ''video''
         else if ext \<in> set [''.mp3'', ''.wav'', ''.ogg'', ''.flac'', ''.m4a''] then ''audio''
         else if ext = ''.pdf'' then ''pdf''
         else if ext \<in> set [''.txt'', ''.md'', ''.markdown'', ''.csv'', ''.tsv'', ''.json'', ''.yaml'', ''.yml'', ''.log'', ''.ini'', ''.toml'', ''.sh'',
             ''.js'', ''.ts'', ''.css'', ''.html'', ''.xml'', ''.go'', ''.py'', ''.rb'', ''.rs'', ''.java'', ''.c'', ''.h'', ''.cpp'', ''.sql''] then ''text''
         else ''none'')"

lemma validObjectKey_code [code]:
  "validObjectKey key =
     (if list_all (\<lambda>c. 32 \<le> (of_char c :: nat) \<and> (of_char c :: nat) < 127) key
      then key \<noteq> [] \<and> int (length key) \<le> 1024 \<and> \<not> list_ex (\<lambda>p. p = ''..'') (Split key (CHR ''/''))
      else key \<noteq> [] \<and> int (length key) \<le> 1024 \<and> \<not> list_ex (\<lambda>r. r = 0 \<or> (r < 0x20 \<and> r \<noteq> 9) \<or> r = 0x7F \<or> isBidiOverride r) (runes key)
        \<and> \<not> list_ex (\<lambda>p. p = ''..'') (Split key (CHR ''/'')))"
proof (cases "list_all (\<lambda>c. 32 \<le> (of_char c :: nat) \<and> (of_char c :: nat) < 127) key")
  case True
  then have "runes key = map of_char key" by (intro runes_ascii) (auto simp: list_all_iff)
  then have "\<not> list_ex (\<lambda>r. r = 0 \<or> (r < 0x20 \<and> r \<noteq> 9) \<or> r = 0x7F \<or> isBidiOverride r) (runes key)"
    using True by (auto simp: list_ex_iff list_all_iff isBidiOverride_def)
  then show ?thesis using True by (auto simp: validObjectKey_def)
qed (auto simp: validObjectKey_def)

section \<open>Lemmas\<close>

text \<open>Encoding a rune gives no byte below 128 unless the rune is that byte.\<close>

lemma utf8_ascii:
  assumes "c \<in> set (utf8 r)" "(of_char c :: nat) < 128" "r < 0x110000"
  shows "r = of_char c"
proof (cases "r < 128")
  case True
  then show ?thesis using assms(1) by (simp add: utf8_def)
next
  case False
  have b: "(of_char (char_of (n + k) :: char) :: nat) \<ge> 128" if "128 \<le> n" "n + k < 256" for n k :: nat
    using that by (simp add: of_char_of take_bit_eq_mod)
  have m: "x mod 64 < 64" for x :: nat by simp
  show ?thesis
    using assms False b [of 128 "r mod 64"] b [of 128 "r div 64 mod 64"] b [of 128 "r div 4096 mod 64"]
      b [of 192 "r div 64"] b [of 224 "r div 4096"] b [of 240 "r div 262144"] m [of r] m [of "r div 64"] m [of "r div 4096"]
    by (auto simp: utf8_def less_mult_imp_div_less split: if_splits)
qed

lemma decode_rune_less: "(\<And>b. b \<in> set bs \<Longrightarrow> b < 256) \<Longrightarrow> fst (decode_rune bs) < 0x110000"
  by (auto simp: decode_rune_def cont_def split: list.splits)

lemma rune_list_less: "(\<And>b. b \<in> set bs \<Longrightarrow> b < 256) \<Longrightarrow> r \<in> set (rune_list bs) \<Longrightarrow> r < 0x110000"
proof (induction bs arbitrary: r rule: rune_list.induct)
  case (2 b bs)
  note IH = 2(1) and prem = 2(2)
  obtain x n where d: "decode_rune (b # bs) = (x, n)" by force
  from 2(3) d consider "r = x" | "r \<in> set (rune_list (drop (n - 1) bs))" by auto
  then show ?case
  proof cases
    case 1
    then show ?thesis using decode_rune_less [of "b # bs"] prem d by simp
  next
    case 2
    show ?thesis by (rule IH [OF d [symmetric] _ 2]) (use prem in \<open>auto dest: in_set_dropD\<close>)
  qed
qed simp

section \<open>Properties\<close>

text \<open>The file name put into a \<^verbatim>\<open>Content-Disposition\<close> header cannot break out of its quotes or of the header:
  whatever bytes the object key has, the result is not empty and contains neither a double quote nor a
  backslash nor a control character, DEL included.\<close>

theorem safe_filename:
  "sanitizeFilename name \<noteq> [] \<and> (\<forall>c \<in> set (sanitizeFilename name). 32 \<le> (of_char c :: nat) \<and> c \<noteq> CHR 0x22 \<and> c \<noteq> CHR 0x5C \<and> c \<noteq> CHR 0x7F)"
proof -
  have "32 \<le> (of_char c :: nat) \<and> c \<noteq> CHR 0x22 \<and> c \<noteq> CHR 0x5C \<and> c \<noteq> CHR 0x7F"
    if c: "c \<in> set (utf8 r)" "r \<in> set (runes name)" "\<not> unsafe_rune r" for c r
  proof (cases "(of_char c :: nat) < 128")
    case True
    have "b < 256" if "b \<in> set (map of_char name)" for b :: nat using that nat_of_char_less_256 by auto
    then have "r < 0x110000" using rune_list_less [of "map of_char name"] c(2) by (simp add: runes_def)
    then have "r = of_char c" using utf8_ascii [OF c(1) True] by simp
    then show ?thesis using c(3) by (auto simp: unsafe_rune_def)
  next
    case False
    then show ?thesis by auto
  qed
  then show ?thesis by (auto simp: sanitizeFilename_def Let_def)
qed

theorem safe_filename_witness:
  "sanitizeFilename (''a'' @ [CHR 0x22, CHR 0x0A] @ ''b.txt'') = ''ab.txt''
   \<and> CHR 0x22 \<notin> set (sanitizeFilename (''a'' @ [CHR 0x22, CHR 0x0A] @ ''b.txt''))"
proof -
  have "sanitizeFilename (''a'' @ [CHR 0x22, CHR 0x0A] @ ''b.txt'') = ''ab.txt''"
    by (simp add: sanitizeFilename_def runes_def decode_rune_def unsafe_rune_def isBidiOverride_def utf8_def Let_def char_of_eq_iff)
  then show ?thesis using safe_filename [of "''a'' @ [CHR 0x22, CHR 0x0A] @ ''b.txt''"] by blast
qed

end
