(* ===== verification/Object_Store.thy ===== *)
theory Object_Store
  imports Object_Keys Go_Time
begin

text \<open>
  The interface of \<^verbatim>\<open>internal/backend/backend.go\<close> and its types (\<^verbatim>\<open>types.go\<close>): a backend is a record of operations on a state,
  each of which returns an error (its text) or a result, with the new state; the state is the whole world a
  backend lives in, so that two backends and their failures can share it. Go's \<^verbatim>\<open>nil\<close> map is \<^term>\<open>None\<close> and the zero
  time is \<^term>\<open>None\<close>. The locale \<open>object_store\<close> states what the handlers rely on, in terms of the contents of the buckets.
\<close>

section \<open>Types\<close>

type_synonym metadata = "(string \<times> string) list"

record CORSRule =
  cr_AllowedOrigins :: "string list"
  cr_AllowedMethods :: "string list"
  cr_AllowedHeaders :: "string list"
  cr_ExposeHeaders :: "string list"
  cr_MaxAgeSeconds :: int

record LifecycleRule =
  lc_ID :: string
  lc_Prefix :: string
  lc_Enabled :: bool
  lc_ExpirationDays :: int
  lc_NoncurrentExpireDays :: int
  lc_AbortIncompleteDays :: int
  lc_TransitionDays :: int
  lc_TransitionStorageClass :: string

record ListObjectsRequest =
  lq_Bucket :: string
  lq_Prefix :: string
  lq_Delimiter :: string
  lq_Token :: string
  lq_MaxKeys :: int

record ObjectInfo =
  oi_Key :: string
  oi_Size :: int
  oi_ETag :: string
  oi_ContentType :: string
  oi_StorageClass :: string
  oi_VersionID :: string
  oi_LastModified :: "time option"
  oi_Metadata :: "metadata option"

record ListObjectsResult =
  lr_Objects :: "ObjectInfo list"
  lr_CommonPrefixes :: "string list"
  lr_Next :: string
  lr_IsTruncated :: bool

record PutObjectRequest =
  po_Bucket :: string
  po_Key :: string
  po_Body :: stream
  po_Size :: int
  po_ContentType :: string
  po_Metadata :: "metadata option"

record ObjectIdentifier =
  id_Key :: string
  id_VersionID :: string

record DeleteError =
  de_Key :: string
  de_Code :: string
  de_Message :: string

record DeleteObjectsResult =
  dr_Deleted :: "ObjectIdentifier list"
  dr_Errors :: "DeleteError list"

record ObjectRef =
  ref_Bucket :: string
  ref_Key :: string
  ref_VersionID :: string

record CompletedPart =
  cp_PartNumber :: int
  cp_ETag :: string

record MultipartUpload =
  mu_Key :: string
  mu_UploadID :: string
  mu_Initiated :: "time option"

record ObjectVersion =
  ov_Key :: string
  ov_VersionID :: string
  ov_IsLatest :: bool
  ov_IsDeleteMarker :: bool
  ov_Size :: int
  ov_ETag :: string
  ov_StorageClass :: string
  ov_LastModified :: "time option"

record Capabilities =
  cap_Versioning :: bool
  cap_Lifecycle :: bool
  cap_BucketPolicy :: bool
  cap_CORS :: bool
  cap_Tagging :: bool
  cap_MaxMultipartParts :: int
  cap_MaxPartSizeBytes :: int

section \<open>The interface\<close>

type_synonym ('s, 'a) op = "'s \<Rightarrow> (string + 'a) \<times> 's"

record 's ObjectBackend =
  b_ID :: string
  b_Capabilities :: Capabilities
  b_ListBuckets :: "('s, (string \<times> time) list) op"
  b_CreateBucket :: "string \<Rightarrow> string \<Rightarrow> ('s, unit) op"
  b_DeleteBucket :: "string \<Rightarrow> ('s, unit) op"
  b_HeadBucket :: "string \<Rightarrow> ('s, unit) op"
  b_GetBucketVersioning :: "string \<Rightarrow> ('s, bool) op"
  b_SetBucketVersioning :: "string \<Rightarrow> bool \<Rightarrow> ('s, unit) op"
  b_GetBucketCORS :: "string \<Rightarrow> ('s, CORSRule list) op"
  b_SetBucketCORS :: "string \<Rightarrow> CORSRule list \<Rightarrow> ('s, unit) op"
  b_GetBucketPolicy :: "string \<Rightarrow> ('s, string) op"
  b_SetBucketPolicy :: "string \<Rightarrow> string \<Rightarrow> ('s, unit) op"
  b_DeleteBucketPolicy :: "string \<Rightarrow> ('s, unit) op"
  b_GetBucketLifecycle :: "string \<Rightarrow> ('s, LifecycleRule list) op"
  b_SetBucketLifecycle :: "string \<Rightarrow> LifecycleRule list \<Rightarrow> ('s, unit) op"
  b_ListObjects :: "ListObjectsRequest \<Rightarrow> ('s, ListObjectsResult) op"
  b_GetObject :: "string \<Rightarrow> string \<Rightarrow> string \<Rightarrow> byte_range option \<Rightarrow> ('s, ObjectInfo \<times> stream) op"
  b_HeadObject :: "string \<Rightarrow> string \<Rightarrow> string \<Rightarrow> ('s, ObjectInfo) op"
  b_ListObjectVersions :: "string \<Rightarrow> string \<Rightarrow> ('s, ObjectVersion list) op"
  b_PutObject :: "PutObjectRequest \<Rightarrow> ('s, ObjectInfo) op"
  b_DeleteObject :: "string \<Rightarrow> string \<Rightarrow> string \<Rightarrow> ('s, unit) op"
  b_DeleteObjects :: "string \<Rightarrow> ObjectIdentifier list \<Rightarrow> ('s, DeleteObjectsResult) op"
  b_CopyObject :: "ObjectRef \<Rightarrow> ObjectRef \<Rightarrow> metadata option \<Rightarrow> ('s, unit) op"
  b_GetObjectTagging :: "string \<Rightarrow> string \<Rightarrow> string \<Rightarrow> ('s, metadata) op"
  b_SetObjectTagging :: "string \<Rightarrow> string \<Rightarrow> string \<Rightarrow> metadata \<Rightarrow> ('s, unit) op"
  b_UpdateObjectMetadata :: "string \<Rightarrow> string \<Rightarrow> metadata option \<Rightarrow> ('s, unit) op"
  b_CreateMultipart :: "string \<Rightarrow> string \<Rightarrow> string \<Rightarrow> metadata option \<Rightarrow> ('s, string) op"
  b_UploadPart :: "string \<Rightarrow> string \<Rightarrow> string \<Rightarrow> int \<Rightarrow> stream \<Rightarrow> int \<Rightarrow> ('s, string) op"
  b_CompleteMultipart :: "string \<Rightarrow> string \<Rightarrow> string \<Rightarrow> CompletedPart list \<Rightarrow> ('s, ObjectInfo) op"
  b_AbortMultipart :: "string \<Rightarrow> string \<Rightarrow> string \<Rightarrow> ('s, unit) op"
  b_ListMultipartUploads :: "string \<Rightarrow> string \<Rightarrow> ('s, MultipartUpload list) op"

section \<open>What the handlers rely on\<close>

text \<open>The contents of a world: what every bucket holds under every key (data, content type, user metadata). \<open>after\<close> says
  which keys a continuation token leaves to be listed. Reads change nothing; a complete page has every key after its token
  except those after the next token, and a page with a next token makes progress; deletions and copies touch only
  what they name, also when they fail, and do what they report. The laws speak about current objects (no version id).\<close>

type_synonym object_content = "string \<times> string \<times> metadata option"

definition lr_more :: "ListObjectsResult \<Rightarrow> bool" where
  "lr_more res \<longleftrightarrow> lr_IsTruncated res \<and> lr_Next res \<noteq> []"

locale object_store =
  fixes B :: "'s ObjectBackend"
    and contents :: "'s \<Rightarrow> string \<Rightarrow> string \<Rightarrow> object_content option"
    and after :: "string \<Rightarrow> string \<Rightarrow> bool"
  assumes after_start: "after [] k"
    and finite_keys: "finite {k. contents s bkt k \<noteq> None}"
    and list_reads: "b_ListObjects B rq s = (lr, s') \<Longrightarrow> contents s' = contents s"
    and list_sound: "b_ListObjects B rq s = (Inr res, s') \<Longrightarrow> lq_Delimiter rq = [] \<Longrightarrow> i \<in> set (lr_Objects res) \<Longrightarrow>
      HasPrefix (oi_Key i) (lq_Prefix rq) \<and> (\<exists>d ct md. contents s (lq_Bucket rq) (oi_Key i) = Some (d, ct, md) \<and> oi_Size i = int (length d))"
    and list_complete: "b_ListObjects B rq s = (Inr res, s') \<Longrightarrow> lq_Delimiter rq = [] \<Longrightarrow> HasPrefix k (lq_Prefix rq) \<Longrightarrow>
      contents s (lq_Bucket rq) k \<noteq> None \<Longrightarrow> after (lq_Token rq) k \<Longrightarrow> k \<in> oi_Key ` set (lr_Objects res) \<or> lr_more res \<and> after (lr_Next res) k"
    and list_progress: "b_ListObjects B rq s = (Inr res, s') \<Longrightarrow> lq_Delimiter rq = [] \<Longrightarrow> lr_more res \<Longrightarrow>
      (\<forall>k. after (lr_Next res) k \<longrightarrow> after (lq_Token rq) k) \<and> (\<exists>i \<in> set (lr_Objects res). after (lq_Token rq) (oi_Key i) \<and> \<not> after (lr_Next res) (oi_Key i))"
    and delete_frame: "b_DeleteObjects B bkt ids s = (dr, s') \<Longrightarrow> b \<noteq> bkt \<or> k \<notin> id_Key ` set ids \<Longrightarrow> contents s' b k = contents s b k"
    and delete_only: "b_DeleteObjects B bkt ids s = (dr, s') \<Longrightarrow> contents s' b k = contents s b k \<or> contents s' b k = None"
    and delete_done: "b_DeleteObjects B bkt ids s = (Inr dres, s') \<Longrightarrow> (\<And>i. i \<in> set ids \<Longrightarrow> id_VersionID i = []) \<Longrightarrow>
      set (dr_Deleted dres) \<subseteq> set ids \<and> (\<forall>i \<in> set (dr_Deleted dres). contents s' bkt (id_Key i) = None)
      \<and> (\<forall>i \<in> set ids. i \<in> set (dr_Deleted dres) \<or> id_Key i \<in> de_Key ` set (dr_Errors dres))"
    and copy_frame: "b_CopyObject B src dst md s = (cr, s') \<Longrightarrow> (b, k) \<noteq> (ref_Bucket dst, ref_Key dst) \<Longrightarrow> contents s' b k = contents s b k"
    and copy_only: "b_CopyObject B src dst md s = (cr, s') \<Longrightarrow> ref_VersionID src = [] \<Longrightarrow> contents s' (ref_Bucket dst) (ref_Key dst) = contents s (ref_Bucket dst) (ref_Key dst)
      \<or> (\<exists>d ct m. contents s (ref_Bucket src) (ref_Key src) = Some (d, ct, m) \<and> contents s' (ref_Bucket dst) (ref_Key dst) = Some (d, ct, if md = None then m else md))"
    and copy_done: "b_CopyObject B src dst md s = (Inr (), s') \<Longrightarrow> ref_VersionID src = [] \<Longrightarrow>
      \<exists>d ct m. contents s (ref_Bucket src) (ref_Key src) = Some (d, ct, m)
        \<and> contents s' (ref_Bucket dst) (ref_Key dst) = Some (d, ct, if md = None then m else md)"
begin

definition matching :: "'s \<Rightarrow> string \<Rightarrow> string \<Rightarrow> string \<Rightarrow> string set" where
  "matching s bkt prefix token = {k. contents s bkt k \<noteq> None \<and> HasPrefix k prefix \<and> after token k}"

lemma finite_matching [simp]: "finite (matching s bkt prefix token)"
  by (rule finite_subset [OF _ finite_keys [of s bkt]]) (auto simp: matching_def)

end

text \<open>A store whose pages do not repeat a key can be measured by walking over its pages.\<close>

locale object_listing = object_store B contents after
  for B :: "'s ObjectBackend" and contents and after +
  assumes list_once: "b_ListObjects B rq s = (Inr res, s') \<Longrightarrow> lq_Delimiter rq = [] \<Longrightarrow> distinct (map oi_Key (lr_Objects res))
      \<and> (\<forall>i \<in> set (lr_Objects res). after (lq_Token rq) (oi_Key i) \<and> (lr_more res \<longrightarrow> \<not> after (lr_Next res) (oi_Key i)))"
begin

text \<open>The keys that a page leaves to the next one.\<close>

lemma page_keys:
  assumes "b_ListObjects B rq s = (Inr res, s')" "lq_Delimiter rq = []"
  shows "matching s (lq_Bucket rq) (lq_Prefix rq) (lq_Token rq) =
      oi_Key ` set (lr_Objects res) \<union> (if lr_more res then matching s (lq_Bucket rq) (lq_Prefix rq) (lr_Next res) else {})"
    and "lr_more res \<Longrightarrow> oi_Key ` set (lr_Objects res) \<inter> matching s (lq_Bucket rq) (lq_Prefix rq) (lr_Next res) = {}"
proof -
  let ?K = "oi_Key ` set (lr_Objects res)" and ?m = "matching s (lq_Bucket rq) (lq_Prefix rq)"
  note once = list_once [OF assms]
  have "?K \<subseteq> ?m (lq_Token rq)" using list_sound [OF assms] once unfolding matching_def by fastforce
  moreover have "?m (lr_Next res) \<subseteq> ?m (lq_Token rq)" if "lr_more res" using list_progress [OF assms that] unfolding matching_def by blast
  moreover have "k \<in> ?K \<or> lr_more res \<and> k \<in> ?m (lr_Next res)" if "k \<in> ?m (lq_Token rq)" for k
    using list_complete [OF assms, of k] that unfolding matching_def by blast
  ultimately show "?m (lq_Token rq) = ?K \<union> (if lr_more res then ?m (lr_Next res) else {})" by (cases "lr_more res") (simp_all, blast+)
  show "?K \<inter> ?m (lr_Next res) = {}" if "lr_more res" using once that unfolding matching_def by blast
qed

end

text \<open>A store whose objects can be read: reading changes nothing and delivers the contents, possibly cut off by an error.\<close>

locale object_reading = object_listing B contents after
  for B :: "'s ObjectBackend" and contents and after +
  assumes get_reads: "b_GetObject B bkt k v rng s = (gr, s') \<Longrightarrow> contents s' = contents s"
    and get_done: "b_GetObject B bkt k [] None s = (Inr (info, body), s') \<Longrightarrow>
      \<exists>d ct md. contents s bkt k = Some (d, ct, md) \<and> (\<exists>rest. d = fst body @ rest) \<and> (snd body = None \<longrightarrow> fst body = d)"

end
