(* ===== verification/Shares.thy ===== *)
theory Shares
  imports Login_Sessions Object_Store Chunked
begin

text \<open>
  Share links (\<^verbatim>\<open>internal/shares/shares.go\<close>, the table \<^verbatim>\<open>internal/store/sqlstore/shares.go\<close> and the handlers of
  \<^verbatim>\<open>internal/api/shares.go\<close>): creation, the gates of a download (revoked, expired, exhausted, password), the atomic
  counter, and the signed cookie that remembers an entered password. The table is a list of rows; a
  query may fail with a database error, which the definitions take as an argument. The backends,
  argon2, the random source and the clocks are arguments as well. Downloads resolve a share first and count
  later; the transition system at the end lets downloads, creations and revocations interleave.
\<close>

section \<open>The table\<close>

record Share =
  sh_ID :: string
  sh_Code :: string
  sh_BackendID :: string
  sh_Bucket :: string
  sh_Key :: string
  sh_CreatedBy :: string
  sh_CreatedAt :: time
  sh_ExpiresAt :: "time option"
  sh_PasswordHash :: string
  sh_MaxDownloads :: "int option"
  sh_DownloadCount :: int
  sh_Revoked :: bool
  sh_RevokedAt :: "time option"
  sh_LastAccessedAt :: "time option"
  sh_Disposition :: string

type_synonym shares = "Share list"

datatype store_err = ErrShareNotFound | ErrShareCodeTaken | StoreFailed string

text \<open>\<^verbatim>\<open>id\<close> is the primary key and \<^verbatim>\<open>code\<close> has a unique index; the counter and the flags of a new row are set
  by the statement.\<close>

definition InsertShare :: "string option \<Rightarrow> Share \<Rightarrow> shares \<Rightarrow> store_err + shares" where
  "InsertShare dberr sh rows =
     (if list_ex (\<lambda>s. sh_ID s = sh_ID sh \<or> sh_Code s = sh_Code sh) rows then Inl ErrShareCodeTaken
      else case dberr of Some e \<Rightarrow> Inl (StoreFailed e)
      | None \<Rightarrow> Inr (rows @ [sh\<lparr>sh_DownloadCount := 0, sh_Revoked := False, sh_RevokedAt := None, sh_LastAccessedAt := None\<rparr>]))"

definition GetShareByCode :: "string option \<Rightarrow> string \<Rightarrow> shares \<Rightarrow> store_err + Share" where
  "GetShareByCode dberr code rows =
     (case dberr of Some e \<Rightarrow> Inl (StoreFailed e)
      | None \<Rightarrow> (case find (\<lambda>s. sh_Code s = code) rows of Some s \<Rightarrow> Inr s | None \<Rightarrow> Inl ErrShareNotFound))"

definition GetShareByID :: "string option \<Rightarrow> string \<Rightarrow> shares \<Rightarrow> store_err + Share" where
  "GetShareByID dberr i rows =
     (case dberr of Some e \<Rightarrow> Inl (StoreFailed e)
      | None \<Rightarrow> (case find (\<lambda>s. sh_ID s = i) rows of Some s \<Rightarrow> Inr s | None \<Rightarrow> Inl ErrShareNotFound))"

definition ListAllShares :: "shares \<Rightarrow> shares" where
  "ListAllShares rows = sort_key (\<lambda>s. - sh_CreatedAt s) rows"

definition ListSharesByUser :: "string \<Rightarrow> shares \<Rightarrow> shares" where
  "ListSharesByUser user rows = sort_key (\<lambda>s. - sh_CreatedAt s) (filter (\<lambda>s. sh_CreatedBy s = user) rows)"

text \<open>An \<^verbatim>\<open>UPDATE\<close> of the rows with a given id that satisfy a condition: \<^term>\<open>ErrShareNotFound\<close> when there is none.\<close>

definition update_where :: "string option \<Rightarrow> (Share \<Rightarrow> bool) \<Rightarrow> (Share \<Rightarrow> Share) \<Rightarrow> shares \<Rightarrow> store_err + shares" where
  "update_where dberr P f rows =
     (case dberr of Some e \<Rightarrow> Inl (StoreFailed e)
      | None \<Rightarrow> if list_ex P rows then Inr (set_rows P f rows) else Inl ErrShareNotFound)"

definition RevokeShare :: "string option \<Rightarrow> string \<Rightarrow> time \<Rightarrow> shares \<Rightarrow> store_err + shares" where
  "RevokeShare dberr i t = update_where dberr (\<lambda>s. sh_ID s = i) (\<lambda>s. s\<lparr>sh_Revoked := True, sh_RevokedAt := Some t\<rparr>)"

definition countable_share :: "string \<Rightarrow> time \<Rightarrow> Share \<Rightarrow> bool" where
  "countable_share i now s \<longleftrightarrow> sh_ID s = i \<and> \<not> sh_Revoked s
     \<and> (case sh_MaxDownloads s of None \<Rightarrow> True | Some m \<Rightarrow> sh_DownloadCount s < m)
     \<and> (case sh_ExpiresAt s of None \<Rightarrow> True | Some t \<Rightarrow> now < t)"

definition IncrementShareAccess :: "string option \<Rightarrow> string \<Rightarrow> time \<Rightarrow> shares \<Rightarrow> store_err + shares" where
  "IncrementShareAccess dberr i now =
     update_where dberr (countable_share i now) (\<lambda>s. s\<lparr>sh_DownloadCount := sh_DownloadCount s + 1, sh_LastAccessedAt := Some now\<rparr>)"

section \<open>The service\<close>

datatype share_err = ErrNotFound | ErrRevoked | ErrExpired | ErrExhausted | ErrSharePasswordRequired | ErrSharePasswordMismatch
  | ErrBackendGone | ErrInvalidParams string | ShareFailed string

record CreateParams =
  p_BackendID :: string
  p_Bucket :: string
  p_Key :: string
  p_ExpiresAt :: "time option"
  p_Password :: string
  p_MaxDownloads :: int
  p_Disposition :: string

definition CreateParams_validate :: "CreateParams \<Rightarrow> time \<Rightarrow> share_err option" where
  "CreateParams_validate p now =
     (if p_BackendID p = [] \<or> p_Bucket p = [] \<or> p_Key p = [] then Some (ErrInvalidParams ''backend_id, bucket and key are required'')
      else if (case p_ExpiresAt p of Some t \<Rightarrow> \<not> time_After t now | None \<Rightarrow> False) then Some (ErrInvalidParams ''expires_at must be in the future'')
      else if p_MaxDownloads p < 0 then Some (ErrInvalidParams ''max_downloads must be >= 0'')
      else if p_Disposition p \<noteq> [] \<and> p_Disposition p \<noteq> ''attachment'' \<and> p_Disposition p \<noteq> ''inline''
      then Some (ErrInvalidParams ''disposition must be attachment or inline'')
      else None)"

definition new_share :: "string \<Rightarrow> string \<Rightarrow> CreateParams \<Rightarrow> time \<Rightarrow> string \<Rightarrow> Share" where
  "new_share i createdBy p now hash =
     \<lparr>sh_ID = i, sh_Code = [], sh_BackendID = p_BackendID p, sh_Bucket = p_Bucket p, sh_Key = p_Key p, sh_CreatedBy = createdBy, sh_CreatedAt = now,
      sh_ExpiresAt = p_ExpiresAt p, sh_PasswordHash = hash, sh_MaxDownloads = (if 0 < p_MaxDownloads p then Some (p_MaxDownloads p) else None),
      sh_DownloadCount = 0, sh_Revoked = False, sh_RevokedAt = None, sh_LastAccessedAt = None,
      sh_Disposition = (if p_Disposition p = [] then ''attachment'' else p_Disposition p)\<rparr>"

text \<open>The retry loop: up to five codes, each a draw of ten random bytes or a failure of the source.\<close>

fun insert_attempts :: "nat \<Rightarrow> (nat \<Rightarrow> string option) \<Rightarrow> (nat \<Rightarrow> string option) \<Rightarrow> Share \<Rightarrow> nat \<Rightarrow> shares \<Rightarrow> share_err + (Share \<times> shares)" where
  "insert_attempts 0 rnd dberr sh i rows = Inl (ShareFailed ''shares: could not mint a unique code after retries'')"
| "insert_attempts (Suc n) rnd dberr sh i rows =
     (case rnd i of
        None \<Rightarrow> Inl (ShareFailed ''generate code'')
      | Some bytes \<Rightarrow>
          (let sh1 = sh\<lparr>sh_Code := raw64_EncodeToString url_alphabet bytes\<rparr>
           in case InsertShare (dberr i) sh1 rows of
                Inr rows1 \<Rightarrow> Inr (sh1, rows1)
              | Inl ErrShareCodeTaken \<Rightarrow> insert_attempts n rnd dberr sh (i + 1) rows
              | Inl ErrShareNotFound \<Rightarrow> Inl (ShareFailed ''share not found'')
              | Inl (StoreFailed e) \<Rightarrow> Inl (ShareFailed e)))"

record create_env =
  ce_now :: time
  ce_id :: string
  ce_head :: "string \<Rightarrow> (string \<Rightarrow> string \<Rightarrow> bool) option"
  ce_IDKey :: argon
  ce_salt :: "string option"
  ce_rnd :: "nat \<Rightarrow> string option"
  ce_db :: "nat \<Rightarrow> string option"

definition Create :: "create_env \<Rightarrow> string \<Rightarrow> CreateParams \<Rightarrow> shares \<Rightarrow> share_err + (Share \<times> shares)" where
  "Create E createdBy p rows =
     (case CreateParams_validate p (ce_now E) of
        Some e \<Rightarrow> Inl e
      | None \<Rightarrow> (case ce_head E (p_BackendID p) of
          None \<Rightarrow> Inl ErrBackendGone
        | Some head \<Rightarrow>
            if \<not> head (p_Bucket p) (p_Key p) then Inl (ErrInvalidParams ''target object not reachable'')
            else case (if p_Password p = [] then Some [] else HashPassword (ce_IDKey E) (ce_salt E) (p_Password p)) of
              None \<Rightarrow> Inl (ShareFailed ''hash password'')
            | Some hash \<Rightarrow> insert_attempts 5 (ce_rnd E) (ce_db E) (new_share (ce_id E) createdBy p (ce_now E) hash) 0 rows))"

definition Lookup :: "string option \<Rightarrow> time \<Rightarrow> string \<Rightarrow> shares \<Rightarrow> share_err + Share" where
  "Lookup dberr now code rows =
     (case GetShareByCode dberr code rows of
        Inl ErrShareNotFound \<Rightarrow> Inl ErrNotFound
      | Inl (StoreFailed e) \<Rightarrow> Inl (ShareFailed e)
      | Inl ErrShareCodeTaken \<Rightarrow> Inl (ShareFailed ''share code already exists'')
      | Inr sh \<Rightarrow>
          if sh_Revoked sh then Inl ErrRevoked
          else if (case sh_ExpiresAt sh of Some t \<Rightarrow> \<not> time_After t now | None \<Rightarrow> False) then Inl ErrExpired
          else if (case sh_MaxDownloads sh of Some m \<Rightarrow> m \<le> sh_DownloadCount sh | None \<Rightarrow> False) then Inl ErrExhausted
          else Inr sh)"

definition Resolve :: "argon \<Rightarrow> string option \<Rightarrow> time \<Rightarrow> string \<Rightarrow> string \<Rightarrow> shares \<Rightarrow> share_err + Share" where
  "Resolve IDKey dberr now code password rows =
     (case Lookup dberr now code rows of
        Inl e \<Rightarrow> Inl e
      | Inr sh \<Rightarrow>
          if sh_PasswordHash sh \<noteq> [] then
            (if password = [] then Inl ErrSharePasswordRequired
             else if VerifyPassword IDKey password (sh_PasswordHash sh) \<noteq> PwMatch then Inl ErrSharePasswordMismatch
             else Inr sh)
          else Inr sh)"

definition RecordAccess :: "string option \<Rightarrow> time \<Rightarrow> string \<Rightarrow> shares \<Rightarrow> store_err + shares" where
  "RecordAccess dberr now i = IncrementShareAccess dberr i now"

definition Revoke :: "string option \<Rightarrow> string option \<Rightarrow> time \<Rightarrow> string \<Rightarrow> string \<Rightarrow> string \<Rightarrow> shares \<Rightarrow> share_err option \<times> shares" where
  "Revoke dberr dberr2 now actingUserID actingRole shareID rows =
     (case GetShareByID dberr shareID rows of
        Inl ErrShareNotFound \<Rightarrow> (Some ErrNotFound, rows)
      | Inl _ \<Rightarrow> (Some (ShareFailed ''store''), rows)
      | Inr sh \<Rightarrow>
          if actingRole \<noteq> ''admin'' \<and> sh_CreatedBy sh \<noteq> actingUserID then (Some ErrNotFound, rows)
          else if sh_Revoked sh then (None, rows)
          else case RevokeShare dberr2 shareID now rows of
            Inr rows1 \<Rightarrow> (None, rows1) | Inl _ \<Rightarrow> (Some (ShareFailed ''store''), rows))"

section \<open>The unlock cookie\<close>

definition unlockTTL :: duration where "unlockTTL = 30 * Minute"

definition unlock_mac :: "string \<Rightarrow> string \<Rightarrow> string \<Rightarrow> string" where
  "unlock_mac secret code msg = hmacSHA256 secret (code @ [CHR 0x00] @ msg)"

definition unlock_issue :: "string \<Rightarrow> time \<Rightarrow> string \<Rightarrow> string" where
  "unlock_issue secret now code =
     (let msg = FormatInt (time_Add now unlockTTL div Second)
      in msg @ ''.'' @ raw64_EncodeToString url_alphabet (unlock_mac secret code msg))"

definition unlock_verify :: "string \<Rightarrow> string \<Rightarrow> time \<Rightarrow> string \<Rightarrow> bool" where
  "unlock_verify secret cookie now code =
     (case LastIndexByte cookie (CHR ''.'') of
        None \<Rightarrow> False
      | Some i \<Rightarrow>
          if i = 0 then False
          else let msg = take i cookie; sigB64 = drop (i + 1) cookie
               in case ParseInt 10 msg of
                    None \<Rightarrow> False
                  | Some expiry \<Rightarrow>
                      if expiry < now div Second then False
                      else (case raw64_DecodeString url_alphabet sigB64 of
                              None \<Rightarrow> False | Some got \<Rightarrow> got = unlock_mac secret code msg))"

definition unlockCookieName :: "string \<Rightarrow> string" where
  "unlockCookieName code = ''stowage_unlock_'' @ code"

section \<open>Responses\<close>

record shareDTO =
  d_ID :: string
  d_Code :: string
  d_URL :: string
  d_BackendID :: string
  d_Bucket :: string
  d_Key :: string
  d_CreatedBy :: string
  d_CreatedAt :: time
  d_ExpiresAt :: "time option"
  d_HasPassword :: bool
  d_MaxDownloads :: int
  d_DownloadCount :: int
  d_Revoked :: bool
  d_RevokedAt :: "time option"
  d_LastAccessedAt :: "time option"
  d_Disposition :: string

text \<open>Times are printed as RFC 3339; the records keep the instants.\<close>

definition toShareDTO :: "Share \<Rightarrow> shareDTO" where
  "toShareDTO s = \<lparr>d_ID = sh_ID s, d_Code = sh_Code s, d_URL = ''/s/'' @ sh_Code s, d_BackendID = sh_BackendID s, d_Bucket = sh_Bucket s, d_Key = sh_Key s,
     d_CreatedBy = sh_CreatedBy s, d_CreatedAt = sh_CreatedAt s, d_ExpiresAt = sh_ExpiresAt s, d_HasPassword = (sh_PasswordHash s \<noteq> []),
     d_MaxDownloads = (case sh_MaxDownloads s of Some m \<Rightarrow> m | None \<Rightarrow> 0), d_DownloadCount = sh_DownloadCount s, d_Revoked = sh_Revoked s,
     d_RevokedAt = sh_RevokedAt s, d_LastAccessedAt = sh_LastAccessedAt s, d_Disposition = sh_Disposition s\<rparr>"

record shareInfoDTO =
  f_Code :: string
  f_Name :: string
  f_Size :: int
  f_ContentType :: string
  f_ETag :: string
  f_LastModified :: "time option"
  f_ExpiresAt :: "time option"
  f_HasPassword :: bool
  f_MaxDownloads :: int
  f_DownloadCount :: int
  f_DownloadsLeft :: int
  f_Disposition :: string
  f_PreviewKind :: string
  f_RawURL :: string

definition shareInfoFor :: "Share \<Rightarrow> ObjectInfo \<Rightarrow> shareInfoDTO" where
  "shareInfoFor sh info =
     \<lparr>f_Code = sh_Code sh, f_Name = path_Base (sh_Key sh), f_Size = oi_Size info, f_ContentType = oi_ContentType info, f_ETag = oi_ETag info,
      f_LastModified = oi_LastModified info, f_ExpiresAt = sh_ExpiresAt sh, f_HasPassword = (sh_PasswordHash sh \<noteq> []),
      f_MaxDownloads = (case sh_MaxDownloads sh of Some m \<Rightarrow> m | None \<Rightarrow> 0), f_DownloadCount = sh_DownloadCount sh,
      f_DownloadsLeft = (case sh_MaxDownloads sh of Some m \<Rightarrow> (let left = wrap64 (m - sh_DownloadCount sh) in if left < 0 then 0 else left) | None \<Rightarrow> 0),
      f_Disposition = sh_Disposition sh, f_PreviewKind = previewKind (oi_ContentType info) (sh_Key sh), f_RawURL = ''/s/'' @ sh_Code sh @ ''/raw''\<rparr>"

text \<open>A response: its status, the headers the handler set, and its body. \<open>ErrorJSON\<close> is the JSON of \<^verbatim>\<open>writeError\<close>, which sets
  the content type and the length of its own.\<close>

datatype share_body = ErrorJSON string | NotFoundText | NoContent | ShareJSON shareDTO | SharesJSON "shareDTO list" | InfoJSON shareInfoDTO | Content string

record share_resp =
  sr_Status :: int
  sr_Header :: "(string \<times> string) list"
  sr_Cookies :: "cookie list"
  sr_Body :: share_body

definition respond :: "int \<Rightarrow> (string \<times> string) list \<Rightarrow> share_body \<Rightarrow> share_resp" where
  "respond st hdr body = \<lparr>sr_Status = st, sr_Header = hdr, sr_Cookies = [], sr_Body = body\<rparr>"

abbreviation share_error :: "int \<Rightarrow> string \<Rightarrow> share_resp" where
  "share_error st code \<equiv> respond st [] (ErrorJSON code)"

definition writeResolverError :: "share_err \<Rightarrow> share_resp" where
  "writeResolverError e = (case e of
     ErrNotFound \<Rightarrow> share_error 404 ''not_found'' | ErrRevoked \<Rightarrow> share_error 410 ''revoked'' | ErrExpired \<Rightarrow> share_error 410 ''expired''
   | ErrExhausted \<Rightarrow> share_error 410 ''exhausted'' | ErrSharePasswordRequired \<Rightarrow> share_error 401 ''password_required''
   | ErrSharePasswordMismatch \<Rightarrow> share_error 401 ''password_mismatch'' | _ \<Rightarrow> share_error 502 ''backend_error'')"

definition writeServiceError :: "share_err \<Rightarrow> share_resp" where
  "writeServiceError e = (case e of
     ErrNotFound \<Rightarrow> share_error 404 ''not_found'' | ErrInvalidParams _ \<Rightarrow> share_error 400 ''bad_request''
   | ErrBackendGone \<Rightarrow> share_error 502 ''backend_error'' | _ \<Rightarrow> share_error 500 ''internal'')"

text \<open>An audit event: the action, the target and the share.\<close>

record share_event =
  ev_Action :: string
  ev_Backend :: string
  ev_Bucket :: string
  ev_Key :: string
  ev_ShareID :: string

section \<open>Handlers for signed-in users\<close>

record createShareRequest =
  cs_BackendID :: string
  cs_Bucket :: string
  cs_Key :: string
  cs_ExpiresAt :: "string option"
  cs_Password :: string
  cs_MaxDownloads :: int
  cs_Disposition :: string

text \<open>\<open>parse\<close> is \<^verbatim>\<open>time.Parse(time.RFC3339, _)\<close>.\<close>

definition handleCreateShare :: "(string \<Rightarrow> time option) \<Rightarrow> create_env \<Rightarrow> Identity option \<Rightarrow> createShareRequest option \<Rightarrow> shares \<Rightarrow> share_resp \<times> share_event list \<times> shares" where
  "handleCreateShare parse E actor body rows =
     (case actor of None \<Rightarrow> (share_error 401 ''unauthorized'', [], rows)
      | Some a \<Rightarrow> (case body of None \<Rightarrow> (share_error 400 ''bad_request'', [], rows)
        | Some q \<Rightarrow>
            if \<not> validObjectKey (cs_Key q) then (share_error 400 ''invalid_key'', [], rows)
            else (let p = (\<lambda>ex. \<lparr>p_BackendID = cs_BackendID q, p_Bucket = cs_Bucket q, p_Key = cs_Key q, p_ExpiresAt = ex, p_Password = cs_Password q,
                              p_MaxDownloads = cs_MaxDownloads q, p_Disposition = cs_Disposition q\<rparr>);
                      create = (\<lambda>ex. case Create E (id_UserID a) (p ex) rows of
                          Inl e \<Rightarrow> (writeServiceError e, [], rows)
                        | Inr (sh, rows1) \<Rightarrow> (respond 201 [] (ShareJSON (toShareDTO sh)),
                            [\<lparr>ev_Action = ''share.create'', ev_Backend = sh_BackendID sh, ev_Bucket = sh_Bucket sh, ev_Key = sh_Key sh, ev_ShareID = sh_ID sh\<rparr>], rows1))
                  in case cs_ExpiresAt q of
                       None \<Rightarrow> create None
                     | Some s \<Rightarrow> if s = [] then create None
                         else (case parse s of None \<Rightarrow> (share_error 400 ''bad_request'', [], rows) | Some t \<Rightarrow> create (Some t)))))"

definition handleListShares :: "string option \<Rightarrow> Identity option \<Rightarrow> string \<Rightarrow> shares \<Rightarrow> share_resp" where
  "handleListShares dberr actor scope rows =
     (case actor of None \<Rightarrow> share_error 401 ''unauthorized''
      | Some a \<Rightarrow>
          if scope = ''all'' \<and> \<not> IsAdmin actor then share_error 403 ''forbidden''
          else case dberr of
            Some _ \<Rightarrow> share_error 500 ''internal''
          | None \<Rightarrow> respond 200 [] (SharesJSON (map toShareDTO (if scope = ''all'' then ListAllShares rows else ListSharesByUser (id_UserID a) rows))))"

definition handleRevokeShare :: "string option \<Rightarrow> string option \<Rightarrow> time \<Rightarrow> Identity option \<Rightarrow> string \<Rightarrow> shares \<Rightarrow> share_resp \<times> share_event list \<times> shares" where
  "handleRevokeShare dberr dberr2 now actor shareID rows =
     (case actor of None \<Rightarrow> (share_error 401 ''unauthorized'', [], rows)
      | Some a \<Rightarrow>
          if shareID = [] then (share_error 400 ''bad_request'', [], rows)
          else case Revoke dberr dberr2 now (id_UserID a) (id_Role a) shareID rows of
            (Some e, rows1) \<Rightarrow> (writeServiceError e, [], rows1)
          | (None, rows1) \<Rightarrow> (respond 204 [] NoContent,
              [\<lparr>ev_Action = ''share.revoke'', ev_Backend = [], ev_Bucket = [], ev_Key = [], ev_ShareID = shareID\<rparr>], rows1))"

section \<open>The public resolver\<close>

text \<open>A public request: its code, the clock of the cookie check and that of the service at the gates, and what the
  backend of the share answers.\<close>

record share_req =
  q_req :: request
  q_code :: string
  q_wall :: time
  q_now :: time
  q_head :: "Share \<Rightarrow> ObjectInfo option"
  q_open :: "Share \<Rightarrow> byte_range option \<Rightarrow> (ObjectInfo \<times> string) option"
  q_db :: "string option"

definition resolveWithCookie :: "argon \<Rightarrow> string \<Rightarrow> share_req \<Rightarrow> shares \<Rightarrow> share_err + Share" where
  "resolveWithCookie IDKey secret q rows =
     (if (case req_Cookie (q_req q) (unlockCookieName (q_code q)) of Some c \<Rightarrow> unlock_verify secret c (q_wall q) (q_code q) | None \<Rightarrow> False)
      then Lookup (q_db q) (q_now q) (q_code q) rows
      else Resolve IDKey (q_db q) (q_now q) (q_code q) [] rows)"

definition handleShareInfo :: "argon \<Rightarrow> string \<Rightarrow> share_req \<Rightarrow> shares \<Rightarrow> share_resp" where
  "handleShareInfo IDKey secret q rows =
     (if q_code q = [] then share_error 404 ''not_found''
      else case resolveWithCookie IDKey secret q rows of
        Inl e \<Rightarrow> writeResolverError e
      | Inr sh \<Rightarrow> (case q_head q sh of
          None \<Rightarrow> share_error 502 ''backend_error''
        | Some info \<Rightarrow> respond 200 [(''Cache-Control'', ''no-store'')] (InfoJSON (shareInfoFor sh info))))"

definition handleShareUnlock :: "argon \<Rightarrow> string \<Rightarrow> bool \<Rightarrow> share_req \<Rightarrow> string option \<Rightarrow> shares \<Rightarrow> share_resp" where
  "handleShareUnlock IDKey secret https q body rows =
     (if q_code q = [] then share_error 404 ''not_found''
      else case body of None \<Rightarrow> share_error 400 ''bad_request''
      | Some password \<Rightarrow> (case Resolve IDKey (q_db q) (q_now q) (q_code q) password rows of
          Inl e \<Rightarrow> if e = ErrSharePasswordRequired \<or> e = ErrSharePasswordMismatch then share_error 401 ''password_mismatch'' else writeResolverError e
        | Inr sh \<Rightarrow>
            (case q_head q sh of
               None \<Rightarrow> share_error 502 ''backend_error''
             | Some info \<Rightarrow> respond 200 [(''Cache-Control'', ''no-store'')] (InfoJSON (shareInfoFor sh info)))
            \<lparr>sr_Cookies := [\<lparr>ck_Name = unlockCookieName (q_code q), ck_Value = unlock_issue secret (q_wall q) (q_code q), ck_Path = ''/s/'' @ q_code q,
               ck_HttpOnly = True, ck_Secure = https, ck_Expires = None, ck_MaxAge = unlockTTL div Second\<rparr>]\<rparr>))"

text \<open>The range to open: none asked for, refused, or one clamped to the size of the object.\<close>

definition clamp_range :: "byte_range \<Rightarrow> int \<Rightarrow> byte_range" where
  "clamp_range g sz = (if rg_End g < 0 \<or> sz \<le> rg_End g then g\<lparr>rg_End := sz - 1\<rparr> else g)"

definition raw_range :: "share_req \<Rightarrow> Share \<Rightarrow> share_resp + (byte_range \<times> int) option" where
  "raw_range q sh =
     (case parseRangeHeader (header_Get (Header (q_req q)) ''Range'') of
        None \<Rightarrow> Inr None
      | Some g0 \<Rightarrow> (case q_head q sh of
          None \<Rightarrow> Inl (share_error 502 ''backend_error'')
        | Some info \<Rightarrow>
            (let g = clamp_range g0 (oi_Size info)
             in if rg_Start g < 0 \<or> rg_End g < rg_Start g
                then Inl (respond 416 [(''Content-Range'', ''bytes */'' @ FormatInt (oi_Size info))] (ErrorJSON ''bad_range''))
                else Inr (Some (g, oi_Size info)))))"

definition raw_disposition :: "share_req \<Rightarrow> Share \<Rightarrow> ObjectInfo \<Rightarrow> string" where
  "raw_disposition q sh info =
     (if isActiveContentType (oi_ContentType info) (sh_Key sh) then ''attachment''
      else if values_Get (Query (URL (q_req q))) ''inline'' = ''1'' then ''inline'' else sh_Disposition sh)"

definition raw_headers :: "share_req \<Rightarrow> Share \<Rightarrow> ObjectInfo \<Rightarrow> (string \<times> string) list" where
  "raw_headers q sh info =
     [(''Content-Type'', if oi_ContentType info \<noteq> [] then oi_ContentType info else ''application/octet-stream'')]
     @ (if 0 < oi_Size info then [(''Content-Length'', FormatInt (oi_Size info))] else [])
     @ [(''Accept-Ranges'', ''bytes''),
        (''Content-Disposition'', raw_disposition q sh info @ ''; filename='' @ [CHR 0x22] @ sanitizeFilename (path_Base (sh_Key sh)) @ [CHR 0x22]),
        (''Cache-Control'', ''no-store''), (''X-Content-Type-Options'', ''nosniff''),
        (''Content-Security-Policy'', ''sandbox; default-src '' @ [CHR 0x27] @ ''none'' @ [CHR 0x27] @ ''; style-src '' @ [CHR 0x27] @ ''unsafe-inline'' @ [CHR 0x27] @ ''; img-src data:'')]"

text \<open>A download up to the point where the object is open, and from the counter on.\<close>

definition raw_open :: "argon \<Rightarrow> string \<Rightarrow> share_req \<Rightarrow> shares \<Rightarrow> share_resp + Share \<times> (byte_range \<times> int) option \<times> ObjectInfo \<times> string" where
  "raw_open IDKey secret q rows =
     (if q_code q = [] then Inl (respond 404 [] NotFoundText)
      else case resolveWithCookie IDKey secret q rows of
        Inl e \<Rightarrow> Inl (writeResolverError e)
      | Inr sh \<Rightarrow> (case raw_range q sh of
          Inl resp \<Rightarrow> Inl resp
        | Inr rng \<Rightarrow> (case q_open q sh (map_option fst rng) of
            None \<Rightarrow> Inl (share_error 502 ''backend_error'')
          | Some (info, content) \<Rightarrow> Inr (sh, rng, info, content))))"

definition raw_deliver :: "share_req \<Rightarrow> string option \<Rightarrow> time \<Rightarrow> Share \<Rightarrow> (byte_range \<times> int) option \<Rightarrow> ObjectInfo \<Rightarrow> string \<Rightarrow> shares
    \<Rightarrow> share_resp \<times> share_event list \<times> shares" where
  "raw_deliver q db later sh rng info content rows =
     (case RecordAccess db later (sh_ID sh) rows of
        Inl _ \<Rightarrow> (respond 410 (raw_headers q sh info) (ErrorJSON ''exhausted''), [], rows)
      | Inr rows1 \<Rightarrow>
          ((case rng of
              None \<Rightarrow> respond 200 (raw_headers q sh info) (Content content)
            | Some (g, sz) \<Rightarrow> respond 206 (raw_headers q sh info
                @ [(''Content-Range'', ''bytes '' @ FormatInt (rg_Start g) @ ''-'' @ FormatInt (rg_End g) @ ''/'' @ FormatInt sz)]) (Content content)),
           [\<lparr>ev_Action = ''share.access'', ev_Backend = sh_BackendID sh, ev_Bucket = sh_Bucket sh, ev_Key = sh_Key sh, ev_ShareID = sh_ID sh\<rparr>], rows1))"

definition handleShareRaw :: "argon \<Rightarrow> string \<Rightarrow> share_req \<Rightarrow> string option \<Rightarrow> time \<Rightarrow> shares \<Rightarrow> share_resp \<times> share_event list \<times> shares" where
  "handleShareRaw IDKey secret q db later rows =
     (case raw_open IDKey secret q rows of
        Inl resp \<Rightarrow> (resp, [], rows)
      | Inr (sh, rng, info, content) \<Rightarrow> raw_deliver q db later sh rng info content rows)"

section \<open>Concurrent downloads\<close>

record open_download =
  od_req :: share_req
  od_share :: Share
  od_range :: "(byte_range \<times> int) option"
  od_info :: ObjectInfo
  od_content :: string

record share_sys =
  y_rows :: shares
  y_open :: "open_download list"
  y_log :: "(string \<times> time) list"

text \<open>The log has the share and the time of every response with content.\<close>

inductive share_step :: "argon \<Rightarrow> string \<Rightarrow> share_sys \<Rightarrow> share_sys \<Rightarrow> bool" for IDKey secret where
  create: "Create E user p (y_rows S) = Inr (sh, rows) \<Longrightarrow> share_step IDKey secret S (S\<lparr>y_rows := rows\<rparr>)"
| revoke: "Revoke d1 d2 now user role i (y_rows S) = (res, rows) \<Longrightarrow> share_step IDKey secret S (S\<lparr>y_rows := rows\<rparr>)"
| opens: "raw_open IDKey secret q (y_rows S) = Inr (sh, rng, info, content)
    \<Longrightarrow> share_step IDKey secret S (S\<lparr>y_open := \<lparr>od_req = q, od_share = sh, od_range = rng, od_info = info, od_content = content\<rparr> # y_open S\<rparr>)"
| delivers: "dl \<in> set (y_open S) \<Longrightarrow> raw_deliver (od_req dl) db later (od_share dl) (od_range dl) (od_info dl) (od_content dl) (y_rows S) = (resp, evs, rows)
    \<Longrightarrow> sr_Body resp = Content content \<Longrightarrow> share_step IDKey secret S (S\<lparr>y_rows := rows, y_open := remove1 dl (y_open S), y_log := (sh_ID (od_share dl), later) # y_log S\<rparr>)"
| refuses: "dl \<in> set (y_open S) \<Longrightarrow> raw_deliver (od_req dl) db later (od_share dl) (od_range dl) (od_info dl) (od_content dl) (y_rows S) = (resp, evs, rows)
    \<Longrightarrow> sr_Body resp = ErrorJSON code \<Longrightarrow> share_step IDKey secret S (S\<lparr>y_rows := rows, y_open := remove1 dl (y_open S)\<rparr>)"

definition share_init :: share_sys where
  "share_init = \<lparr>y_rows = [], y_open = [], y_log = []\<rparr>"

definition downloads :: "string \<Rightarrow> (string \<times> time) list \<Rightarrow> nat" where
  "downloads i lg = length (filter (\<lambda>(j, t). j = i) lg)"

section \<open>Lemmas about the table\<close>

interpretation shares: keyed_table sh_ID .

lemma update_where_Inr: "update_where d P f rows = Inr rows' \<longleftrightarrow> d = None \<and> (\<exists>r \<in> set rows. P r) \<and> rows' = set_rows P f rows"
  by (auto simp: update_where_def list_ex_iff split: option.splits)

lemma set_rows_mem: "r \<in> set rows \<Longrightarrow> (if P r then f r else r) \<in> set (set_rows P f rows)"
  unfolding set_rows_def set_map by (rule imageI)

lemma set_rows_D: "x \<in> set (set_rows P f rows) \<Longrightarrow> \<exists>r \<in> set rows. x = (if P r then f r else r)"
  by (auto simp: set_rows_def)

text \<open>A row as it was created: what no operation changes.\<close>

definition same_share :: "Share \<Rightarrow> Share \<Rightarrow> bool" where
  "same_share r r' \<longleftrightarrow> sh_ID r' = sh_ID r \<and> sh_Code r' = sh_Code r \<and> sh_MaxDownloads r' = sh_MaxDownloads r \<and> sh_ExpiresAt r' = sh_ExpiresAt r
     \<and> sh_PasswordHash r' = sh_PasswordHash r \<and> sh_BackendID r' = sh_BackendID r \<and> sh_Bucket r' = sh_Bucket r \<and> sh_Key r' = sh_Key r
     \<and> (sh_Revoked r \<longrightarrow> sh_Revoked r')"

lemma same_share_refl [simp, intro]: "same_share r r"
  by (simp add: same_share_def)

lemma same_share_trans: "same_share r r1 \<Longrightarrow> same_share r1 r2 \<Longrightarrow> same_share r r2"
  by (simp add: same_share_def)

lemma same_share_set_rows: "r \<in> set rows \<Longrightarrow> (\<And>r. same_share r (f r)) \<Longrightarrow> \<exists>r' \<in> set (set_rows P f rows). same_share r r'"
  by (rule bexI [OF _ set_rows_mem]) auto

definition share_ok :: "(string \<times> time) list \<Rightarrow> Share \<Rightarrow> bool" where
  "share_ok lg r \<longleftrightarrow> sh_DownloadCount r = int (downloads (sh_ID r) lg) \<and> (\<forall>m. sh_MaxDownloads r = Some m \<longrightarrow> sh_DownloadCount r \<le> m)
     \<and> (\<forall>t e. (sh_ID r, t) \<in> set lg \<longrightarrow> sh_ExpiresAt r = Some e \<longrightarrow> t < e)"

definition share_inv :: "share_sys \<Rightarrow> bool" where
  "share_inv S \<longleftrightarrow> shares.keyed (y_rows S) \<and> distinct (map sh_Code (y_rows S)) \<and> (\<forall>r \<in> set (y_rows S). share_ok (y_log S) r)
     \<and> (\<forall>(i, t) \<in> set (y_log S). i \<in> sh_ID ` set (y_rows S))"

lemma InsertShare_Inr:
  "InsertShare d sh rows = Inr rows' \<Longrightarrow> rows' = rows @ [sh\<lparr>sh_DownloadCount := 0, sh_Revoked := False, sh_RevokedAt := None, sh_LastAccessedAt := None\<rparr>]
     \<and> (\<forall>r \<in> set rows. sh_ID r \<noteq> sh_ID sh \<and> sh_Code r \<noteq> sh_Code sh)"
  by (auto simp: InsertShare_def list_ex_iff split: if_splits option.splits)

lemma insert_attempts_Inr:
  "insert_attempts n rnd db sh i rows = Inr (sh', rows') \<Longrightarrow> \<exists>code d. sh' = sh\<lparr>sh_Code := code\<rparr> \<and> InsertShare d sh' rows = Inr rows'"
proof (induction n arbitrary: i)
  case (Suc n)
  then show ?case by (auto simp: Let_def split: option.splits sum.splits store_err.splits)
qed simp

lemma Create_Inr:
  assumes "Create E user p rows = Inr (sh, rows')"
  shows "\<exists>hash code d. sh = (new_share (ce_id E) user p (ce_now E) hash)\<lparr>sh_Code := code\<rparr> \<and> InsertShare d sh rows = Inr rows'
    \<and> CreateParams_validate p (ce_now E) = None \<and> (if p_Password p = [] then Some [] else HashPassword (ce_IDKey E) (ce_salt E) (p_Password p)) = Some hash"
  using assms by (auto simp: Create_def dest!: insert_attempts_Inr split: option.splits if_splits)

lemma new_share_sel [simp]:
  "sh_ID (new_share i u p now h) = i" "sh_DownloadCount (new_share i u p now h) = 0" "sh_Revoked (new_share i u p now h) = False"
  "sh_ExpiresAt (new_share i u p now h) = p_ExpiresAt p" "sh_PasswordHash (new_share i u p now h) = h"
  "sh_MaxDownloads (new_share i u p now h) = (if 0 < p_MaxDownloads p then Some (p_MaxDownloads p) else None)"
  by (simp_all add: new_share_def)

lemma Revoke_rows:
  assumes "Revoke d1 d2 now user role i rows = (res, rows')"
  shows "rows' = rows \<or> rows' = set_rows (\<lambda>s. sh_ID s = i) (\<lambda>s. s\<lparr>sh_Revoked := True, sh_RevokedAt := Some now\<rparr>) rows"
  using assms by (auto simp: Revoke_def RevokeShare_def update_where_Inr split: sum.splits store_err.splits if_splits)

lemma raw_deliver_content:
  assumes "raw_deliver q db later sh rng info content rows = (resp, evs, rows')"
  shows "sr_Body resp = Content c \<longleftrightarrow> RecordAccess db later (sh_ID sh) rows = Inr rows' \<and> c = content \<and> evs \<noteq> []"
    and "(\<forall>c. sr_Body resp \<noteq> Content c) \<Longrightarrow> rows' = rows \<and> evs = []"
  using assms by (auto simp: raw_deliver_def respond_def split: sum.splits option.splits)

lemma RecordAccess_Inr:
  "RecordAccess db now i rows = Inr rows' \<longleftrightarrow> db = None \<and> (\<exists>r \<in> set rows. countable_share i now r)
     \<and> rows' = set_rows (countable_share i now) (\<lambda>s. s\<lparr>sh_DownloadCount := sh_DownloadCount s + 1, sh_LastAccessedAt := Some now\<rparr>) rows"
  by (simp add: RecordAccess_def IncrementShareAccess_def update_where_Inr)

text \<open>Rows survive every step, as the shares they were created as.\<close>

lemma step_rows:
  assumes "share_step IDKey secret S S'" "r \<in> set (y_rows S)"
  shows "\<exists>r' \<in> set (y_rows S'). same_share r r'"
  using assms
proof (induction rule: share_step.induct)
  case (create E user p S sh rows)
  then show ?case by (auto dest!: Create_Inr InsertShare_Inr intro: bexI [of _ r])
next
  case (revoke d1 d2 now user role i S res rows)
  then show ?case using Revoke_rows [OF revoke(1)] same_share_set_rows [OF revoke(2), of "\<lambda>s. s\<lparr>sh_Revoked := True, sh_RevokedAt := Some now\<rparr>"]
    by (auto simp: same_share_def)
next
  case (delivers dl S db later resp evs rows content)
  then have "rows = set_rows (countable_share (sh_ID (od_share dl)) later) (\<lambda>s. s\<lparr>sh_DownloadCount := sh_DownloadCount s + 1, sh_LastAccessedAt := Some later\<rparr>) (y_rows S)"
    using raw_deliver_content(1) [OF delivers(2)] by (simp add: RecordAccess_Inr)
  then show ?case using same_share_set_rows [OF delivers(4)] by (simp add: same_share_def)
next
  case (refuses dl S db later resp evs rows code)
  then show ?case using raw_deliver_content(2) [OF refuses(2)] by fastforce
qed (simp, blast)

text \<open>The invariant is kept by each change of the table.\<close>

lemma keyed_row: "shares.keyed rows \<Longrightarrow> r \<in> set rows \<Longrightarrow> r' \<in> set rows \<Longrightarrow> sh_ID r = sh_ID r' \<Longrightarrow> r = r'"
  by (metis shares.row_mem option.inject)

lemma inv_create:
  assumes "share_inv S" "InsertShare d sh (y_rows S) = Inr rows" "\<forall>m. sh_MaxDownloads sh = Some m \<longrightarrow> 0 \<le> m"
  shows "share_inv (S\<lparr>y_rows := rows\<rparr>)"
proof -
  note r = InsertShare_Inr [OF assms(2)]
  have none: "downloads (sh_ID sh) (y_log S) = 0" "\<And>t. (sh_ID sh, t) \<notin> set (y_log S)"
    using assms(1) r by (fastforce simp: share_inv_def downloads_def filter_empty_conv)+
  have fresh: "sh_ID sh \<notin> sh_ID ` set (y_rows S)" "sh_Code sh \<notin> sh_Code ` set (y_rows S)" using r by force+
  show ?thesis using assms(1,3) r none fresh by (auto simp: share_inv_def share_ok_def shares.keyed_def split_beta)
qed

lemma inv_revoke:
  assumes "share_inv S"
  shows "share_inv (S\<lparr>y_rows := set_rows (\<lambda>s. sh_ID s = i) (\<lambda>s. s\<lparr>sh_Revoked := True, sh_RevokedAt := Some now\<rparr>) (y_rows S)\<rparr>)"
proof -
  let ?f = "\<lambda>s. s\<lparr>sh_Revoked := True, sh_RevokedAt := Some now\<rparr> :: Share"
  have m: "map sh_ID (set_rows (\<lambda>s. sh_ID s = i) ?f (y_rows S)) = map sh_ID (y_rows S)" "map sh_Code (set_rows (\<lambda>s. sh_ID s = i) ?f (y_rows S)) = map sh_Code (y_rows S)"
    by (simp_all add: set_rows_def)
  have f: "share_ok lg (?f r) = share_ok lg r" for lg r by (simp add: share_ok_def)
  have "share_ok (y_log S) x" if "x \<in> set (set_rows (\<lambda>s. sh_ID s = i) ?f (y_rows S))" for x
    using set_rows_D [OF that] assms f by (auto simp: share_inv_def)
  then show ?thesis using assms m by (simp add: share_inv_def shares.keyed_def flip: set_map)
qed

lemma inv_deliver:
  assumes inv: "share_inv S" and rec: "RecordAccess db later i (y_rows S) = Inr rows"
  shows "share_inv (S\<lparr>y_rows := rows, y_open := ds, y_log := (i, later) # y_log S\<rparr>)"
proof -
  let ?f = "\<lambda>s. s\<lparr>sh_DownloadCount := sh_DownloadCount s + 1, sh_LastAccessedAt := Some later\<rparr> :: Share"
  obtain r0 where r0: "r0 \<in> set (y_rows S)" "countable_share i later r0" and rows: "rows = set_rows (countable_share i later) ?f (y_rows S)"
    using rec by (auto simp: RecordAccess_Inr)
  have m: "map sh_ID rows = map sh_ID (y_rows S)" "map sh_Code rows = map sh_Code (y_rows S)" by (simp_all add: rows set_rows_def)
  have k: "shares.keyed (y_rows S)" using inv by (simp add: share_inv_def)
  have "share_ok ((i, later) # y_log S) x" if x: "x \<in> set rows" for x
  proof -
    obtain r where r: "r \<in> set (y_rows S)" "x = (if countable_share i later r then ?f r else r)" using set_rows_D [OF x [unfolded rows]] by auto
    have ok: "share_ok (y_log S) r" using inv r(1) by (simp add: share_inv_def)
    show ?thesis
    proof (cases "sh_ID r = i")
      case True
      then have "r = r0" using keyed_row [OF k r(1) r0(1)] r0(2) by (simp add: countable_share_def)
      then show ?thesis using ok r0(2) r(2) True by (auto simp: share_ok_def countable_share_def downloads_def)
    next
      case False
      then have "x = r" using r(2) by (simp add: countable_share_def)
      then show ?thesis using ok False by (auto simp: share_ok_def downloads_def)
    qed
  qed
  moreover have "i \<in> sh_ID ` set (y_rows S)" using r0 by (auto simp: countable_share_def)
  ultimately show ?thesis using inv m by (auto simp: share_inv_def shares.keyed_def simp flip: set_map)
qed

lemma step_inv:
  assumes "share_step IDKey secret S S'" "share_inv S"
  shows "share_inv S'"
  using assms
proof (induction rule: share_step.induct)
  case (create E user p S sh rows)
  then show ?case by (auto dest!: Create_Inr intro!: inv_create split: if_splits)
next
  case (revoke d1 d2 now user role i S res rows)
  then show ?case using Revoke_rows [OF revoke(1)] inv_revoke [OF revoke(2)] by auto
next
  case (opens q S sh rng info content)
  then show ?case by (simp add: share_inv_def)
next
  case (delivers dl S db later resp evs rows content)
  then show ?case using raw_deliver_content(1) [OF delivers(2)] by (auto intro: inv_deliver)
next
  case (refuses dl S db later resp evs rows code)
  then show ?case using raw_deliver_content(2) [OF refuses(2)] by (simp add: share_inv_def)
qed

lemma inv_init: "share_inv share_init"
  by (simp add: share_inv_def share_init_def shares.keyed_def)

lemma run_inv: "(share_step IDKey secret)\<^sup>*\<^sup>* S S' \<Longrightarrow> share_inv S \<Longrightarrow> share_inv S'"
  by (induction rule: rtranclp_induct) (auto intro: step_inv)

lemma run_rows:
  "(share_step IDKey secret)\<^sup>*\<^sup>* S S' \<Longrightarrow> r \<in> set (y_rows S) \<Longrightarrow> \<exists>r' \<in> set (y_rows S'). same_share r r'"
proof (induction rule: rtranclp_induct)
  case (step S1 S2)
  then show ?case using step_rows [OF step(2)] same_share_trans by meson
qed blast

text \<open>A revoked share is delivered no more.\<close>

lemma step_revoked:
  assumes "share_step IDKey secret S S'" "share_inv S" "r \<in> set (y_rows S)" "sh_Revoked r"
  shows "downloads (sh_ID r) (y_log S') = downloads (sh_ID r) (y_log S)"
  using assms
proof (induction rule: share_step.induct)
  case (delivers dl S db later resp evs rows content)
  then obtain r0 where r0: "r0 \<in> set (y_rows S)" "countable_share (sh_ID (od_share dl)) later r0"
    using raw_deliver_content(1) [OF delivers(2)] by (auto simp: RecordAccess_Inr)
  have "sh_ID (od_share dl) \<noteq> sh_ID r"
    using keyed_row [of "y_rows S" r0 r] r0 delivers(4-6) by (auto simp: share_inv_def countable_share_def)
  then show ?case by (simp add: downloads_def)
qed auto

lemma run_revoked:
  assumes "(share_step IDKey secret)\<^sup>*\<^sup>* S S'" "share_inv S" "r \<in> set (y_rows S)" "sh_Revoked r"
  shows "downloads (sh_ID r) (y_log S') = downloads (sh_ID r) (y_log S)"
  using assms
proof (induction rule: rtranclp_induct)
  case (step S1 S2)
  obtain r1 where "r1 \<in> set (y_rows S1)" "same_share r r1" using run_rows [OF step(1,5)] by blast
  then show ?case using step_revoked [OF step(2) run_inv [OF step(1,4)], of r1] step by (simp add: same_share_def)
qed simp

section \<open>Lemmas about the cookie\<close>



section \<open>An example\<close>

text \<open>A share that may be downloaded once.\<close>

definition ex_create :: create_env where
  "ex_create = \<lparr>ce_now = 0, ce_id = ''id1'', ce_head = (\<lambda>_. Some (\<lambda>_ _. True)), ce_IDKey = ex_IDKey, ce_salt = Some ''0123456789abcdef'',
     ce_rnd = (\<lambda>_. Some ''abc''), ce_db = (\<lambda>_. None)\<rparr>"

definition ex_params :: CreateParams where
  "ex_params = \<lparr>p_BackendID = ''b'', p_Bucket = ''docs'', p_Key = ''a.txt'', p_ExpiresAt = Some 100, p_Password = [], p_MaxDownloads = 1, p_Disposition = []\<rparr>"

definition ex_share :: Share where
  "ex_share = \<lparr>sh_ID = ''id1'', sh_Code = ''YWJj'', sh_BackendID = ''b'', sh_Bucket = ''docs'', sh_Key = ''a.txt'', sh_CreatedBy = ''u1'', sh_CreatedAt = 0,
     sh_ExpiresAt = Some 100, sh_PasswordHash = [], sh_MaxDownloads = Some 1, sh_DownloadCount = 0, sh_Revoked = False, sh_RevokedAt = None,
     sh_LastAccessedAt = None, sh_Disposition = ''attachment''\<rparr>"

definition ex_info :: ObjectInfo where
  "ex_info = \<lparr>oi_Key = ''a.txt'', oi_Size = 4, oi_ETag = [], oi_ContentType = ''text/plain'', oi_StorageClass = [], oi_VersionID = [], oi_LastModified = None, oi_Metadata = None\<rparr>"

definition ex_dl :: share_req where
  "ex_dl = \<lparr>q_req = \<lparr>Method = ''GET'', URL = \<lparr>Scheme = [], UHost = [], Path = ''/s/YWJj/raw'', RawPath = [], RawQuery = []\<rparr>, Host = [], Header = [],
       ContentLength = 0, Body = ([], None), RemoteAddr = [], TLS = True\<rparr>,
     q_code = ''YWJj'', q_wall = 10, q_now = 10, q_head = (\<lambda>_. Some ex_info), q_open = (\<lambda>_ _. Some (ex_info, ''data'')), q_db = None\<rparr>"

definition ex_download :: open_download where
  "ex_download = \<lparr>od_req = ex_dl, od_share = ex_share, od_range = None, od_info = ex_info, od_content = ''data''\<rparr>"

lemma ex_created: "Create ex_create ''u1'' ex_params [] = Inr (ex_share, [ex_share])"
proof -
  have "raw64_EncodeToString url_alphabet ''abc'' = ''YWJj''" by code_simp
  then show ?thesis
    by (simp add: Create_def CreateParams_validate_def time_After_def ex_create_def ex_params_def ex_share_def new_share_def InsertShare_def Let_def numeral_eq_Suc del: raw64_EncodeToString.simps)
qed

lemma ex_opened: "raw_open ex_IDKey ''k'' ex_dl [ex_share] = Inr (ex_share, None, ex_info, ''data'')"
proof -
  have c: "req_Cookie (q_req ex_dl) (unlockCookieName (q_code ex_dl)) = None" "parseRangeHeader (header_Get (Header (q_req ex_dl)) ''Range'') = None" by code_simp+
  have g: "q_code ex_dl = ''YWJj''" "q_now ex_dl = 10" "q_db ex_dl = None" "q_open ex_dl s r = Some (ex_info, ''data'')" for s r by (simp_all add: ex_dl_def)
  have "Resolve ex_IDKey None 10 ''YWJj'' [] [ex_share] = Inr ex_share"
    by (simp add: Resolve_def Lookup_def GetShareByCode_def time_After_def ex_share_def)
  then have "resolveWithCookie ex_IDKey ''k'' ex_dl [ex_share] = Inr ex_share" using c(1) g by (simp add: resolveWithCookie_def)
  then show ?thesis using c(2) g by (simp add: raw_open_def raw_range_def)
qed

lemma ex_counted:
  "RecordAccess None 11 ''id1'' [ex_share] = Inr [ex_share\<lparr>sh_DownloadCount := 1, sh_LastAccessedAt := Some 11\<rparr>]"
  "RecordAccess None 12 ''id1'' [ex_share\<lparr>sh_DownloadCount := 1, sh_LastAccessedAt := Some 11\<rparr>] = Inl ErrShareNotFound"
  by (simp_all add: RecordAccess_def IncrementShareAccess_def update_where_def countable_share_def set_rows_def ex_share_def)

abbreviation ex_ssys :: "shares \<Rightarrow> open_download list \<Rightarrow> (string \<times> time) list \<Rightarrow> share_sys" where
  "ex_ssys rows ds lg \<equiv> \<lparr>y_rows = rows, y_open = ds, y_log = lg\<rparr>"

lemma ex_share_run:
  "(share_step ex_IDKey ''k'')\<^sup>*\<^sup>* share_init (ex_ssys [ex_share] [ex_download, ex_download] [])"
  "(share_step ex_IDKey ''k'')\<^sup>*\<^sup>* (ex_ssys [ex_share] [ex_download, ex_download] [])
     (ex_ssys [ex_share\<lparr>sh_DownloadCount := 1, sh_LastAccessedAt := Some 11\<rparr>] [] [(''id1'', 11)])"
proof -
  have 1: "share_step ex_IDKey ''k'' share_init (ex_ssys [ex_share] [] [])"
    using share_step.create [of ex_create "''u1''" ex_params share_init ex_share "[ex_share]" ex_IDKey "''k''"] ex_created by (simp add: share_init_def)
  have 2: "share_step ex_IDKey ''k'' (ex_ssys [ex_share] ds []) (ex_ssys [ex_share] (ex_download # ds) [])" for ds
    using share_step.opens [of ex_IDKey "''k''" ex_dl "ex_ssys [ex_share] ds []"] ex_opened by (simp add: ex_download_def)
  show "(share_step ex_IDKey ''k'')\<^sup>*\<^sup>* share_init (ex_ssys [ex_share] [ex_download, ex_download] [])"
    using 1 2 by (blast intro: rtranclp.rtrancl_into_rtrancl)
  let ?row = "ex_share\<lparr>sh_DownloadCount := 1, sh_LastAccessedAt := Some 11\<rparr>"
  have i: "sh_ID ex_share = ''id1''" by (simp add: ex_share_def)
  have 3: "share_step ex_IDKey ''k'' (ex_ssys [ex_share] [ex_download, ex_download] []) (ex_ssys [?row] [ex_download] [(''id1'', 11)])"
    using share_step.delivers [of ex_download "ex_ssys [ex_share] [ex_download, ex_download] []" None 11 _ _ "[?row]" "''data''" ex_IDKey "''k''"] ex_counted(1) i
    by (simp add: raw_deliver_def ex_download_def respond_def)
  have 4: "share_step ex_IDKey ''k'' (ex_ssys [?row] [ex_download] [(''id1'', 11)]) (ex_ssys [?row] [] [(''id1'', 11)])"
    using share_step.refuses [of ex_download "ex_ssys [?row] [ex_download] [(''id1'', 11)]" None 12 _ _ "[?row]" "''exhausted''" ex_IDKey "''k''"] ex_counted(2) i
    by (simp add: raw_deliver_def ex_download_def respond_def)
  show "(share_step ex_IDKey ''k'')\<^sup>*\<^sup>* (ex_ssys [ex_share] [ex_download, ex_download] []) (ex_ssys [?row] [] [(''id1'', 11)])"
    using 3 4 by (blast intro: rtranclp.rtrancl_into_rtrancl)
qed

section \<open>Properties\<close>

text \<open>C11: Share links keep their limits, however downloads, creations and revocations interleave between resolving a share and
  counting the download: the number of downloads delivered is the counter of the row and never above its
  maximum, every delivery was counted before the share expired, and from the moment a share is revoked
  nothing more is delivered; shares never disappear or change their target, password or limits.\<close>

theorem share_limits_kept:
  assumes "(share_step IDKey secret)\<^sup>*\<^sup>* share_init S" "r \<in> set (y_rows S)" "(share_step IDKey secret)\<^sup>*\<^sup>* S S'"
  shows "\<exists>r' \<in> set (y_rows S'). same_share r r' \<and> sh_DownloadCount r' = int (downloads (sh_ID r) (y_log S'))
    \<and> (\<forall>m. sh_MaxDownloads r = Some m \<longrightarrow> int (downloads (sh_ID r) (y_log S')) \<le> m)
    \<and> (\<forall>t e. (sh_ID r, t) \<in> set (y_log S') \<longrightarrow> sh_ExpiresAt r = Some e \<longrightarrow> t < e)
    \<and> (sh_Revoked r \<longrightarrow> downloads (sh_ID r) (y_log S') = downloads (sh_ID r) (y_log S))"
proof -
  have inv: "share_inv S" using run_inv [OF assms(1) inv_init] .
  obtain r' where r': "r' \<in> set (y_rows S')" "same_share r r'" using run_rows [OF assms(3,2)] by blast
  have "share_ok (y_log S') r'" using run_inv [OF assms(3) inv] r'(1) by (simp add: share_inv_def)
  then show ?thesis using r' run_revoked [OF assms(3) inv assms(2)] by (auto simp: share_ok_def same_share_def intro!: bexI [of _ r'])
qed

theorem share_limits_kept_witness:
  "\<exists>S S'. (share_step ex_IDKey ''k'')\<^sup>*\<^sup>* S S' \<and> length (y_open S) = 2 \<and> sh_MaxDownloads ex_share = Some 1 \<and> downloads ''id1'' (y_log S') = 1 \<and> int (downloads ''id1'' (y_log S')) \<le> 1"
proof -
  let ?S' = "ex_ssys [ex_share\<lparr>sh_DownloadCount := 1, sh_LastAccessedAt := Some 11\<rparr>] [] [(''id1'', 11)]"
  have m: "sh_ID ex_share = ''id1''" "sh_MaxDownloads ex_share = Some 1" by (simp_all add: ex_share_def)
  have "int (downloads ''id1'' (y_log ?S')) \<le> 1"
    using share_limits_kept [OF ex_share_run(1) _ ex_share_run(2), of ex_share] m by auto
  then show ?thesis using ex_share_run(2) m by (intro exI conjI) (assumption | simp add: downloads_def)+
qed

text \<open>The outcomes of a raw request: content, counted and recorded once, or no content, and then nothing changes or is recorded.\<close>

lemma share_raw_outcome:
  assumes "handleShareRaw IDKey secret q db later rows = (resp, evs, rows')" "shares.keyed rows"
  shows "(\<exists>c sh info rng. sr_Body resp = Content c \<and> (sr_Status resp = 200 \<or> sr_Status resp = 206)
      \<and> sh \<in> set rows \<and> sh_Code sh = q_code q \<and> \<not> sh_Revoked sh
      \<and> (\<forall>t. sh_ExpiresAt sh = Some t \<longrightarrow> q_now q < t \<and> later < t) \<and> (\<forall>m. sh_MaxDownloads sh = Some m \<longrightarrow> sh_DownloadCount sh < m)
      \<and> (sh_PasswordHash sh = [] \<or> (\<exists>ck. req_Cookie (q_req q) (unlockCookieName (q_code q)) = Some ck \<and> unlock_verify secret ck (q_wall q) (q_code q)))
      \<and> q_open q sh rng = Some (info, c)
      \<and> rows' = set_rows (\<lambda>s. sh_ID s = sh_ID sh) (\<lambda>s. s\<lparr>sh_DownloadCount := sh_DownloadCount s + 1, sh_LastAccessedAt := Some later\<rparr>) rows
      \<and> map (\<lambda>e. (ev_Action e, ev_ShareID e)) evs = [(''share.access'', sh_ID sh)])
    \<or> (\<forall>c. sr_Body resp \<noteq> Content c) \<and> rows' = rows \<and> evs = []"
proof (cases "raw_open IDKey secret q rows")
  case (Inl e)
  then have e: "resp = e" "rows' = rows" "evs = []" using assms(1) by (auto simp: handleShareRaw_def)
  have "\<forall>c. sr_Body e \<noteq> Content c" using Inl
    by (auto simp: raw_open_def raw_range_def respond_def writeResolverError_def Let_def split: if_splits sum.splits option.splits share_err.splits)
  then show ?thesis using e by simp
next
  case (Inr plan)
  then obtain sh rng info content where p: "plan = (sh, rng, info, content)" using prod_cases4 by blast
  have d: "raw_deliver q db later sh rng info content rows = (resp, evs, rows')" using assms(1) Inr p by (simp add: handleShareRaw_def)
  have o: "resolveWithCookie IDKey secret q rows = Inr sh" "q_open q sh (map_option fst rng) = Some (info, content)"
    using Inr p by (auto simp: raw_open_def split: if_splits sum.splits option.splits)
  have g: "sh \<in> set rows" "sh_Code sh = q_code q" "\<not> sh_Revoked sh" "\<forall>t. sh_ExpiresAt sh = Some t \<longrightarrow> q_now q < t"
    "\<forall>m. sh_MaxDownloads sh = Some m \<longrightarrow> sh_DownloadCount sh < m"
    "sh_PasswordHash sh = [] \<or> (\<exists>ck. req_Cookie (q_req q) (unlockCookieName (q_code q)) = Some ck \<and> unlock_verify secret ck (q_wall q) (q_code q))"
    using o(1)
    by (auto simp: resolveWithCookie_def Resolve_def Lookup_def GetShareByCode_def find_Some_iff time_After_def not_le split: if_splits option.splits sum.splits store_err.splits)
  show ?thesis
  proof (cases "RecordAccess db later (sh_ID sh) rows")
    case (Inl e)
    then have "sr_Body resp = ErrorJSON ''exhausted''" "rows' = rows" "evs = []" using d by (auto simp: raw_deliver_def respond_def)
    then show ?thesis by simp
  next
    case rec: (Inr rows1)
    have "rows' = rows1" and b: "sr_Body resp = Content content" "sr_Status resp = 200 \<or> sr_Status resp = 206"
      and ev: "map (\<lambda>e. (ev_Action e, ev_ShareID e)) evs = [(''share.access'', sh_ID sh)]"
      using d rec by (auto simp: raw_deliver_def respond_def split: option.splits)
    obtain r0 where r0: "r0 \<in> set rows" "countable_share (sh_ID sh) later r0"
      and rows1: "rows1 = set_rows (countable_share (sh_ID sh) later) (\<lambda>s. s\<lparr>sh_DownloadCount := sh_DownloadCount s + 1, sh_LastAccessedAt := Some later\<rparr>) rows"
      using rec by (auto simp: RecordAccess_Inr)
    have "r0 = sh" using keyed_row [OF assms(2) r0(1) g(1)] r0(2) by (simp add: countable_share_def)
    then have c: "countable_share (sh_ID sh) later s \<longleftrightarrow> sh_ID s = sh_ID sh" if "s \<in> set rows" for s
      using keyed_row [OF assms(2) that g(1)] r0(2) by (auto simp: countable_share_def)
    have "rows' = set_rows (\<lambda>s. sh_ID s = sh_ID sh) (\<lambda>s. s\<lparr>sh_DownloadCount := sh_DownloadCount s + 1, sh_LastAccessedAt := Some later\<rparr>) rows"
      unfolding \<open>rows' = rows1\<close> rows1 set_rows_def using c by (intro map_cong) auto
    moreover have "\<forall>t. sh_ExpiresAt sh = Some t \<longrightarrow> later < t" using r0(2) \<open>r0 = sh\<close> by (auto simp: countable_share_def)
    ultimately show ?thesis using g b ev o(2)
      by (intro disjI1 exI [of _ content] exI [of _ sh] exI [of _ info] exI [of _ "map_option fst rng"]) simp
  qed
qed

text \<open>C12: Bytes leave only through the gates. When the raw endpoint answers with content, there is a share with the
  requested code that was not revoked, not expired and below its cap when it was resolved, whose
  password the client had shown to know by a valid unlock cookie if it has one; the content is what its
  backend returned for it, the counter of exactly that share went up by one, and one access event was
  recorded. In every other case no content is sent and the table is unchanged.\<close>

theorem share_bytes_gated:
  assumes "handleShareRaw IDKey secret q db later rows = (resp, evs, rows')" "shares.keyed rows"
  shows "(\<exists>c sh info rng. sr_Body resp = Content c \<and> (sr_Status resp = 200 \<or> sr_Status resp = 206)
      \<and> sh \<in> set rows \<and> sh_Code sh = q_code q \<and> \<not> sh_Revoked sh
      \<and> (\<forall>t. sh_ExpiresAt sh = Some t \<longrightarrow> q_now q < t \<and> later < t) \<and> (\<forall>m. sh_MaxDownloads sh = Some m \<longrightarrow> sh_DownloadCount sh < m)
      \<and> (sh_PasswordHash sh = [] \<or> (\<exists>ck. req_Cookie (q_req q) (unlockCookieName (q_code q)) = Some ck \<and> unlock_verify secret ck (q_wall q) (q_code q)))
      \<and> q_open q sh rng = Some (info, c)
      \<and> rows' = set_rows (\<lambda>s. sh_ID s = sh_ID sh) (\<lambda>s. s\<lparr>sh_DownloadCount := sh_DownloadCount s + 1, sh_LastAccessedAt := Some later\<rparr>) rows
      \<and> map (\<lambda>e. (ev_Action e, ev_ShareID e)) evs = [(''share.access'', sh_ID sh)])
    \<or> (\<forall>c. sr_Body resp \<noteq> Content c) \<and> rows' = rows"
  using share_raw_outcome [OF assms] by blast

theorem share_bytes_gated_witness:
  "\<exists>resp evs rows'. handleShareRaw ex_IDKey ''k'' ex_dl None 11 [ex_share] = (resp, evs, rows') \<and> sr_Body resp = Content ''data''
     \<and> rows' = [ex_share\<lparr>sh_DownloadCount := 1, sh_LastAccessedAt := Some 11\<rparr>] \<and> length evs = 1"
proof -
  have i: "sh_ID ex_share = ''id1''" by (simp add: ex_share_def)
  obtain resp evs where h: "handleShareRaw ex_IDKey ''k'' ex_dl None 11 [ex_share] = (resp, evs, [ex_share\<lparr>sh_DownloadCount := 1, sh_LastAccessedAt := Some 11\<rparr>])"
      "sr_Body resp = Content ''data''"
    using ex_opened ex_counted(1) i by (simp add: handleShareRaw_def raw_deliver_def respond_def)
  have k: "shares.keyed [ex_share]" by (simp add: shares.keyed_def)
  have "length evs = 1" using share_bytes_gated [OF h(1) k] h(2) by (auto dest: arg_cong [of _ _ length])
  then show ?thesis using h by blast
qed



text \<open>C25: Creating and resolving fit together: when a share is created, looking its code up in the new table before it expires
  and presenting its password (or none, if it has none) gives the share as it was created.\<close>

theorem created_share_resolves:
  assumes "Create E user p rows = Inr (sh, rows')" "\<And>t. p_ExpiresAt p = Some t \<Longrightarrow> now < t"
    and "\<And>p dk salt. ce_IDKey E p salt argonTime argonMemory argonThreads argonKeyLen = Some dk \<Longrightarrow> length dk = argonKeyLen"
  shows "Resolve (ce_IDKey E) None now (sh_Code sh) (p_Password p) rows' = Inr sh"
proof -
  obtain hash code d where c: "sh = (new_share (ce_id E) user p (ce_now E) hash)\<lparr>sh_Code := code\<rparr>" "InsertShare d sh rows = Inr rows'"
      "(if p_Password p = [] then Some [] else HashPassword (ce_IDKey E) (ce_salt E) (p_Password p)) = Some hash"
    using Create_Inr [OF assms(1)] by blast
  note r = InsertShare_Inr [OF c(2)]
  have "sh\<lparr>sh_DownloadCount := 0, sh_Revoked := False, sh_RevokedAt := None, sh_LastAccessedAt := None\<rparr> = sh" unfolding c(1) by (simp add: new_share_def)
  then have "find (\<lambda>s. sh_Code s = sh_Code sh) rows' = Some sh" using r by (induction rows arbitrary: rows') auto
  then have l: "Lookup None now (sh_Code sh) rows' = Inr sh"
    using assms(2) c(1) by (auto simp: Lookup_def GetShareByCode_def time_After_def split: option.splits)
  have "p_Password p = [] \<Longrightarrow> hash = []" using c(3) by simp
  moreover have "VerifyPassword (ce_IDKey E) (p_Password p) hash = PwMatch" if pw: "p_Password p \<noteq> []"
  proof -
    have h0: "HashPassword (ce_IDKey E) (ce_salt E) (p_Password p) = Some hash" using c(3) pw by simp
    then obtain salt where s: "ce_salt E = Some salt" by (auto simp: HashPassword_def split: option.splits)
    have h: "HashPassword (ce_IDKey E) (Some salt) (p_Password p) = Some hash" using h0 s by simp
    then obtain dk where "ce_IDKey E (p_Password p) salt argonTime argonMemory argonThreads argonKeyLen = Some dk" by (auto simp: HashPassword_def)
    then show ?thesis using VerifyPassword_hash [OF h assms(3)] by simp
  qed
  ultimately show ?thesis using l c(1) by (auto simp: Resolve_def)
qed

theorem created_share_resolves_witness:
  "\<exists>sh rows'. Create (ex_create\<lparr>ce_rnd := (\<lambda>_. Some ''abc'')\<rparr>) ''u1'' (ex_params\<lparr>p_Password := ''pw''\<rparr>) [] = Inr (sh, rows')
     \<and> sh_PasswordHash sh \<noteq> [] \<and> Resolve ex_IDKey None 50 (sh_Code sh) ''pw'' rows' = Inr sh"
proof -
  let ?E = "ex_create\<lparr>ce_rnd := (\<lambda>_. Some ''abc'')\<rparr>" and ?p = "ex_params\<lparr>p_Password := ''pw''\<rparr>"
  obtain hash where h: "HashPassword ex_IDKey (Some ''0123456789abcdef'') ''pw'' = Some hash" "hash \<noteq> []"
    by (simp add: HashPassword_def ex_IDKey_def argonTime_def argonThreads_def phc_def del: raw64_EncodeToString.simps)
  then obtain sh rows' where c: "Create ?E ''u1'' ?p [] = Inr (sh, rows')" "sh_PasswordHash sh = hash"
    by (simp add: Create_def CreateParams_validate_def time_After_def ex_create_def ex_params_def new_share_def InsertShare_def Let_def numeral_eq_Suc del: raw64_EncodeToString.simps)
  have e: "ce_IDKey ?E = ex_IDKey" "p_Password ?p = ''pw''" "p_ExpiresAt ?p = Some 100" by (simp_all add: ex_create_def ex_params_def)
  have "Resolve (ce_IDKey ?E) None 50 (sh_Code sh) (p_Password ?p) rows' = Inr sh"
    by (rule created_share_resolves [OF c(1)]) (auto simp: e ex_IDKey_def split: if_splits)
  then show ?thesis using c h(2) e by auto
qed

end
