(* ===== verification/Memory_Backend.thy ===== *)
theory Memory_Backend
  imports Object_Store Crypto_Hash "HOL-Library.Multiset"
begin

text \<open>
  The in-process backend of \<^verbatim>\<open>internal/backend/memory/memory.go\<close>, operation by operation, and its interpretation as an
  \<open>object_store\<close>. Maps are association lists; the order of Go's map iteration shows only in \<^verbatim>\<open>ListMultipartUploads\<close>, where it
  is the order of the list. The clock is part of the state. Metadata and tag maps are replaced, never changed in
  place, so values model the shared pointers.
\<close>

section \<open>State\<close>

record objectData =
  ob_Data :: string
  ob_ContentType :: string
  ob_Metadata :: "metadata option"
  ob_Tags :: metadata
  ob_ETag :: string
  ob_Modified :: time
  ob_VersionID :: string

record bucketData =
  bd_CreatedAt :: time
  bd_Versioned :: bool
  bd_Policy :: string
  bd_CORS :: "CORSRule list"
  bd_Lifecycle :: "LifecycleRule list"
  bd_Objects :: "(string \<times> objectData) list"

record mpUpload =
  mp_bucket :: string
  mp_key :: string
  mp_contentType :: string
  mp_parts :: "(int \<times> string) list"
  mp_metadata :: "metadata option"

record mem =
  m_clock :: time
  m_buckets :: "(string \<times> bucketData) list"
  m_uploads :: "(string \<times> mpUpload) list"

definition Memory_New :: "time \<Rightarrow> mem" where
  "Memory_New now = \<lparr>m_clock = now, m_buckets = [], m_uploads = []\<rparr>"

definition errNoBucket :: string where "errNoBucket = ''memory: no such bucket''"
definition errNoObject :: string where "errNoObject = ''memory: no such object''"

definition requireBucket :: "string \<Rightarrow> mem \<Rightarrow> string + bucketData" where
  "requireBucket name s = (case map_of (m_buckets s) name of None \<Rightarrow> Inl errNoBucket | Some bk \<Rightarrow> Inr bk)"

text \<open>Sixteen lower-case hexadecimal digits of a polynomial hash modulo \<^verbatim>\<open>2^64\<close>, in quotes.\<close>

definition fakeETag :: "string \<Rightarrow> string" where
  "fakeETag data =
     (let sum = foldl (\<lambda>h c. h * 131 + of_nat (of_char c)) (0 :: 64 word) data
      in CHR 0x22 # map (\<lambda>i. hexL (unat (drop_bit (4 * i) sum mod 16))) (rev [0..<16]) @ [CHR 0x22])"

section \<open>Buckets\<close>

text \<open>An operation on an existing bucket: what it reads of it and what it makes of it.\<close>

definition with_bucket :: "string \<Rightarrow> (bucketData \<Rightarrow> (string + 'a) \<times> bucketData) \<Rightarrow> (mem, 'a) op" where
  "with_bucket name f s =
     (case requireBucket name s of
        Inl e \<Rightarrow> (Inl e, s)
      | Inr bk \<Rightarrow> (case f bk of (r, bk') \<Rightarrow> (r, s\<lparr>m_buckets := AList.update name bk' (m_buckets s)\<rparr>)))"

definition mem_ListBuckets :: "(mem, (string \<times> time) list) op" where
  "mem_ListBuckets s = (Inr (map (\<lambda>n. (n, case map_of (m_buckets s) n of Some bk \<Rightarrow> bd_CreatedAt bk | None \<Rightarrow> 0)) (sort (map fst (m_buckets s)))), s)"

definition mem_CreateBucket :: "string \<Rightarrow> string \<Rightarrow> (mem, unit) op" where
  "mem_CreateBucket name region s =
     (case map_of (m_buckets s) name of
        Some _ \<Rightarrow> (Inl ''memory: bucket exists'', s)
      | None \<Rightarrow> (Inr (), s\<lparr>m_buckets := AList.update name \<lparr>bd_CreatedAt = m_clock s, bd_Versioned = False, bd_Policy = [], bd_CORS = [],
                            bd_Lifecycle = [], bd_Objects = []\<rparr> (m_buckets s)\<rparr>))"

definition mem_DeleteBucket :: "string \<Rightarrow> (mem, unit) op" where
  "mem_DeleteBucket name s =
     (case map_of (m_buckets s) name of
        None \<Rightarrow> (Inl errNoBucket, s)
      | Some bk \<Rightarrow> if bd_Objects bk \<noteq> [] then (Inl ''memory: bucket not empty'', s)
          else (Inr (), s\<lparr>m_buckets := AList.delete name (m_buckets s)\<rparr>))"

definition mem_HeadBucket :: "string \<Rightarrow> (mem, unit) op" where
  "mem_HeadBucket name s = (case map_of (m_buckets s) name of None \<Rightarrow> (Inl errNoBucket, s) | Some _ \<Rightarrow> (Inr (), s))"

definition mem_GetBucketVersioning :: "string \<Rightarrow> (mem, bool) op" where
  "mem_GetBucketVersioning name = with_bucket name (\<lambda>bk. (Inr (bd_Versioned bk), bk))"

definition mem_SetBucketVersioning :: "string \<Rightarrow> bool \<Rightarrow> (mem, unit) op" where
  "mem_SetBucketVersioning name b = with_bucket name (\<lambda>bk. (Inr (), bk\<lparr>bd_Versioned := b\<rparr>))"

definition mem_GetBucketCORS :: "string \<Rightarrow> (mem, CORSRule list) op" where
  "mem_GetBucketCORS name = with_bucket name (\<lambda>bk. (Inr (bd_CORS bk), bk))"

definition mem_SetBucketCORS :: "string \<Rightarrow> CORSRule list \<Rightarrow> (mem, unit) op" where
  "mem_SetBucketCORS name rules = with_bucket name (\<lambda>bk. (Inr (), bk\<lparr>bd_CORS := rules\<rparr>))"

definition mem_GetBucketPolicy :: "string \<Rightarrow> (mem, string) op" where
  "mem_GetBucketPolicy name = with_bucket name (\<lambda>bk. (Inr (bd_Policy bk), bk))"

definition mem_SetBucketPolicy :: "string \<Rightarrow> string \<Rightarrow> (mem, unit) op" where
  "mem_SetBucketPolicy name p = with_bucket name (\<lambda>bk. (Inr (), bk\<lparr>bd_Policy := p\<rparr>))"

definition mem_DeleteBucketPolicy :: "string \<Rightarrow> (mem, unit) op" where
  "mem_DeleteBucketPolicy name = with_bucket name (\<lambda>bk. (Inr (), bk\<lparr>bd_Policy := []\<rparr>))"

definition mem_GetBucketLifecycle :: "string \<Rightarrow> (mem, LifecycleRule list) op" where
  "mem_GetBucketLifecycle name = with_bucket name (\<lambda>bk. (Inr (bd_Lifecycle bk), bk))"

definition mem_SetBucketLifecycle :: "string \<Rightarrow> LifecycleRule list \<Rightarrow> (mem, unit) op" where
  "mem_SetBucketLifecycle name rules = with_bucket name (\<lambda>bk. (Inr (), bk\<lparr>bd_Lifecycle := rules\<rparr>))"

section \<open>Objects\<close>

definition object_info :: "string \<Rightarrow> string \<Rightarrow> objectData \<Rightarrow> ObjectInfo" where
  "object_info key data ob = \<lparr>oi_Key = key, oi_Size = int (length data), oi_ETag = ob_ETag ob, oi_ContentType = ob_ContentType ob, oi_StorageClass = [],
     oi_VersionID = [], oi_LastModified = Some (ob_Modified ob), oi_Metadata = ob_Metadata ob\<rparr>"

text \<open>The common prefix a key is folded into, if any.\<close>

definition folded :: "string \<Rightarrow> string \<Rightarrow> string \<Rightarrow> string option" where
  "folded prefix delim k =
     (if delim = [] then None
      else let rest = TrimPrefix k prefix in map_option (\<lambda>i. prefix @ take (i + length delim) rest) (Index rest delim))"

fun list_keys :: "string \<Rightarrow> string \<Rightarrow> (string \<Rightarrow> ObjectInfo) \<Rightarrow> string list \<Rightarrow> ObjectInfo list \<times> string list \<Rightarrow> ObjectInfo list \<times> string list" where
  "list_keys prefix delim info [] (os, ps) = (os, ps)"
| "list_keys prefix delim info (k # ks) (os, ps) =
     (case folded prefix delim k of
        Some p \<Rightarrow> list_keys prefix delim info ks (os, if p \<in> set ps then ps else ps @ [p])
      | None \<Rightarrow> list_keys prefix delim info ks (os @ [info k], ps))"

definition mem_ListObjects :: "ListObjectsRequest \<Rightarrow> (mem, ListObjectsResult) op" where
  "mem_ListObjects rq s =
     (case requireBucket (lq_Bucket rq) s of
        Inl e \<Rightarrow> (Inl e, s)
      | Inr bk \<Rightarrow>
          (let keys = sort (filter (\<lambda>k. HasPrefix k (lq_Prefix rq)) (remdups (map fst (bd_Objects bk))));
               info = (\<lambda>k. case map_of (bd_Objects bk) k of Some ob \<Rightarrow> object_info k (ob_Data ob) ob | None \<Rightarrow> undefined)
           in case list_keys (lq_Prefix rq) (lq_Delimiter rq) info keys ([], []) of
                (os, ps) \<Rightarrow> (Inr \<lparr>lr_Objects = os, lr_CommonPrefixes = ps, lr_Next = [], lr_IsTruncated = False\<rparr>, s)))"

definition with_object :: "string \<Rightarrow> string \<Rightarrow> (objectData \<Rightarrow> (string + 'a) \<times> objectData) \<Rightarrow> (mem, 'a) op" where
  "with_object bkt key f =
     with_bucket bkt (\<lambda>bk. case map_of (bd_Objects bk) key of
       None \<Rightarrow> (Inl errNoObject, bk)
     | Some ob \<Rightarrow> (case f ob of (r, ob') \<Rightarrow> (r, bk\<lparr>bd_Objects := AList.update key ob' (bd_Objects bk)\<rparr>)))"

text \<open>The bytes of a range, or \<^term>\<open>None\<close> when it is not satisfiable; the end is inclusive.\<close>

definition slice_range :: "byte_range option \<Rightarrow> string \<Rightarrow> string option" where
  "slice_range rng data =
     (case rng of
        None \<Rightarrow> Some data
      | Some g \<Rightarrow>
          (let e = (if 0 \<le> rg_End g \<and> rg_End g < int (length data) - 1 then rg_End g else int (length data) - 1)
           in if rg_Start g < 0 \<or> rg_Start g > e then None else Some (take (nat (e + 1 - rg_Start g)) (drop (nat (rg_Start g)) data))))"

definition mem_GetObject :: "string \<Rightarrow> string \<Rightarrow> string \<Rightarrow> byte_range option \<Rightarrow> (mem, ObjectInfo \<times> stream) op" where
  "mem_GetObject bkt key version rng =
     with_object bkt key (\<lambda>ob. (case slice_range rng (ob_Data ob) of
         None \<Rightarrow> Inl ''memory: range not satisfiable'' | Some data \<Rightarrow> Inr (object_info key data ob, (data, None)), ob))"

definition mem_HeadObject :: "string \<Rightarrow> string \<Rightarrow> string \<Rightarrow> (mem, ObjectInfo) op" where
  "mem_HeadObject bkt key version = with_object bkt key (\<lambda>ob. (Inr (object_info key (ob_Data ob) ob), ob))"

definition new_object :: "time \<Rightarrow> PutObjectRequest \<Rightarrow> string \<Rightarrow> objectData" where
  "new_object now rq data = \<lparr>ob_Data = data, ob_ContentType = po_ContentType rq, ob_Metadata = po_Metadata rq, ob_Tags = [], ob_ETag = fakeETag data,
     ob_Modified = now, ob_VersionID = []\<rparr>"

definition mem_PutObject :: "PutObjectRequest \<Rightarrow> (mem, ObjectInfo) op" where
  "mem_PutObject rq s =
     with_bucket (po_Bucket rq) (\<lambda>bk. case po_Body rq of
         (_, Some e) \<Rightarrow> (Inl e, bk)
       | (data, None) \<Rightarrow>
           (let ob = new_object (m_clock s) rq data
            in (Inr (object_info (po_Key rq) data ob), bk\<lparr>bd_Objects := AList.update (po_Key rq) ob (bd_Objects bk)\<rparr>))) s"

definition mem_DeleteObject :: "string \<Rightarrow> string \<Rightarrow> string \<Rightarrow> (mem, unit) op" where
  "mem_DeleteObject bkt key version = with_bucket bkt (\<lambda>bk. (Inr (), bk\<lparr>bd_Objects := AList.delete key (bd_Objects bk)\<rparr>))"

fun mem_DeleteObjects :: "string \<Rightarrow> ObjectIdentifier list \<Rightarrow> (mem, DeleteObjectsResult) op" where
  "mem_DeleteObjects bkt [] s = (Inr \<lparr>dr_Deleted = [], dr_Errors = []\<rparr>, s)"
| "mem_DeleteObjects bkt (i # ids) s =
     (case mem_DeleteObject bkt (id_Key i) (id_VersionID i) s of (r, s1) \<Rightarrow>
      case mem_DeleteObjects bkt ids s1 of
        (Inl e, s2) \<Rightarrow> (Inl e, s2)
      | (Inr res, s2) \<Rightarrow>
          (Inr (case r of Inl e \<Rightarrow> res\<lparr>dr_Errors := \<lparr>de_Key = id_Key i, de_Code = [], de_Message = e\<rparr> # dr_Errors res\<rparr>
                | Inr _ \<Rightarrow> res\<lparr>dr_Deleted := i # dr_Deleted res\<rparr>), s2))"

definition mem_CopyObject :: "ObjectRef \<Rightarrow> ObjectRef \<Rightarrow> metadata option \<Rightarrow> (mem, unit) op" where
  "mem_CopyObject src dst md s =
     (case requireBucket (ref_Bucket src) s of
        Inl e \<Rightarrow> (Inl e, s)
      | Inr sb \<Rightarrow> with_bucket (ref_Bucket dst) (\<lambda>db. case map_of (bd_Objects sb) (ref_Key src) of
          None \<Rightarrow> (Inl errNoObject, db)
        | Some so \<Rightarrow> (Inr (), db\<lparr>bd_Objects := AList.update (ref_Key dst)
            (so\<lparr>ob_Metadata := (if md = None then ob_Metadata so else md), ob_Modified := m_clock s\<rparr>) (bd_Objects db)\<rparr>)) s)"

definition mem_GetObjectTagging :: "string \<Rightarrow> string \<Rightarrow> string \<Rightarrow> (mem, metadata) op" where
  "mem_GetObjectTagging bkt key version = with_object bkt key (\<lambda>ob. (Inr (ob_Tags ob), ob))"

definition mem_SetObjectTagging :: "string \<Rightarrow> string \<Rightarrow> string \<Rightarrow> metadata \<Rightarrow> (mem, unit) op" where
  "mem_SetObjectTagging bkt key version tags = with_object bkt key (\<lambda>ob. (Inr (), ob\<lparr>ob_Tags := tags\<rparr>))"

definition mem_ListObjectVersions :: "string \<Rightarrow> string \<Rightarrow> (mem, ObjectVersion list) op" where
  "mem_ListObjectVersions bkt keyPrefix =
     with_bucket bkt (\<lambda>bk. (Inr (map (\<lambda>k. case map_of (bd_Objects bk) k of
         Some ob \<Rightarrow> \<lparr>ov_Key = k, ov_VersionID = ob_VersionID ob, ov_IsLatest = True, ov_IsDeleteMarker = False, ov_Size = int (length (ob_Data ob)), ov_ETag = ob_ETag ob, ov_StorageClass = [], ov_LastModified = Some (ob_Modified ob)\<rparr>
       | None \<Rightarrow> undefined) (sort (filter (\<lambda>k. HasPrefix k keyPrefix) (remdups (map fst (bd_Objects bk)))))), bk))"

definition mem_UpdateObjectMetadata :: "string \<Rightarrow> string \<Rightarrow> metadata option \<Rightarrow> (mem, unit) op" where
  "mem_UpdateObjectMetadata bkt key md s =
     with_object bkt key (\<lambda>ob. (Inr (), ob\<lparr>ob_Metadata := md, ob_Modified := m_clock s\<rparr>)) s"

section \<open>Multipart uploads\<close>

text \<open>The uploads are a variable of the package, so they outlive and are shared by all memory backends; here they are part of
  the state. \<open>stamp\<close> is the formatted clock.\<close>

definition mem_CreateMultipart :: "(time \<Rightarrow> string) \<Rightarrow> string \<Rightarrow> string \<Rightarrow> string \<Rightarrow> metadata option \<Rightarrow> (mem, string) op" where
  "mem_CreateMultipart stamp bkt key contentType md s =
     (case requireBucket bkt s of
        Inl e \<Rightarrow> (Inl e, s)
      | Inr _ \<Rightarrow>
          (let uid = bkt @ '':'' @ key @ '':'' @ stamp (m_clock s)
           in (Inr uid, s\<lparr>m_uploads := AList.update uid \<lparr>mp_bucket = bkt, mp_key = key, mp_contentType = contentType, mp_parts = [], mp_metadata = md\<rparr> (m_uploads s)\<rparr>)))"

definition mem_UploadPart :: "string \<Rightarrow> string \<Rightarrow> string \<Rightarrow> int \<Rightarrow> stream \<Rightarrow> int \<Rightarrow> (mem, string) op" where
  "mem_UploadPart bkt key uploadID part r n s =
     (case r of
        (_, Some e) \<Rightarrow> (Inl e, s)
      | (data, None) \<Rightarrow> (case map_of (m_uploads s) uploadID of
          None \<Rightarrow> (Inl ''memory: no such upload'', s)
        | Some u \<Rightarrow> (Inr (fakeETag data), s\<lparr>m_uploads := AList.update uploadID (u\<lparr>mp_parts := AList.update part data (mp_parts u)\<rparr>) (m_uploads s)\<rparr>)))"

definition mem_CompleteMultipart :: "string \<Rightarrow> string \<Rightarrow> string \<Rightarrow> CompletedPart list \<Rightarrow> (mem, ObjectInfo) op" where
  "mem_CompleteMultipart bkt key uploadID parts s =
     (case map_of (m_uploads s) uploadID of
        None \<Rightarrow> (Inl ''memory: no such upload'', s)
      | Some u \<Rightarrow>
          (let all = concat (map (\<lambda>p. lookup_or [] (mp_parts u) (cp_PartNumber p)) (sort_key cp_PartNumber parts))
           in mem_PutObject \<lparr>po_Bucket = mp_bucket u, po_Key = mp_key u, po_Body = (all, None), po_Size = int (length all),
                po_ContentType = mp_contentType u, po_Metadata = mp_metadata u\<rparr> (s\<lparr>m_uploads := AList.delete uploadID (m_uploads s)\<rparr>)))"

definition mem_AbortMultipart :: "string \<Rightarrow> string \<Rightarrow> string \<Rightarrow> (mem, unit) op" where
  "mem_AbortMultipart bkt key uploadID s = (Inr (), s\<lparr>m_uploads := AList.delete uploadID (m_uploads s)\<rparr>)"

definition mem_ListMultipartUploads :: "string \<Rightarrow> string \<Rightarrow> (mem, MultipartUpload list) op" where
  "mem_ListMultipartUploads bkt prefix s =
     (Inr (map (\<lambda>(uid, u). \<lparr>mu_Key = mp_key u, mu_UploadID = uid, mu_Initiated = None\<rparr>) (filter (\<lambda>(uid, u). mp_bucket u = bkt \<and> (prefix = [] \<or> HasPrefix (mp_key u) prefix)) (m_uploads s))), s)"

definition mem_Capabilities :: Capabilities where
  "mem_Capabilities = \<lparr>cap_Versioning = True, cap_Lifecycle = True, cap_BucketPolicy = True, cap_CORS = True, cap_Tagging = True,
     cap_MaxMultipartParts = 10000, cap_MaxPartSizeBytes = 2 ^ 30\<rparr>"

definition memory :: "(time \<Rightarrow> string) \<Rightarrow> string \<Rightarrow> mem ObjectBackend" where
  "memory stamp i = \<lparr>b_ID = i, b_Capabilities = mem_Capabilities, b_ListBuckets = mem_ListBuckets, b_CreateBucket = mem_CreateBucket, b_DeleteBucket = mem_DeleteBucket, b_HeadBucket = mem_HeadBucket,
     b_GetBucketVersioning = mem_GetBucketVersioning, b_SetBucketVersioning = mem_SetBucketVersioning, b_GetBucketCORS = mem_GetBucketCORS, b_SetBucketCORS = mem_SetBucketCORS,
     b_GetBucketPolicy = mem_GetBucketPolicy, b_SetBucketPolicy = mem_SetBucketPolicy, b_DeleteBucketPolicy = mem_DeleteBucketPolicy,
     b_GetBucketLifecycle = mem_GetBucketLifecycle, b_SetBucketLifecycle = mem_SetBucketLifecycle,
     b_ListObjects = mem_ListObjects, b_GetObject = mem_GetObject, b_HeadObject = mem_HeadObject, b_ListObjectVersions = mem_ListObjectVersions,
     b_PutObject = mem_PutObject, b_DeleteObject = mem_DeleteObject, b_DeleteObjects = mem_DeleteObjects, b_CopyObject = mem_CopyObject,
     b_GetObjectTagging = mem_GetObjectTagging, b_SetObjectTagging = mem_SetObjectTagging, b_UpdateObjectMetadata = mem_UpdateObjectMetadata,
     b_CreateMultipart = mem_CreateMultipart stamp, b_UploadPart = mem_UploadPart, b_CompleteMultipart = mem_CompleteMultipart, b_AbortMultipart = mem_AbortMultipart,
     b_ListMultipartUploads = mem_ListMultipartUploads\<rparr>"

section \<open>Contents\<close>

definition mem_objects :: "mem \<Rightarrow> string \<Rightarrow> string \<Rightarrow> objectData option" where
  "mem_objects s b = (case map_of (m_buckets s) b of None \<Rightarrow> (\<lambda>_. None) | Some bk \<Rightarrow> map_of (bd_Objects bk))"

definition content_of :: "objectData \<Rightarrow> object_content" where
  "content_of ob = (ob_Data ob, ob_ContentType ob, ob_Metadata ob)"

definition mem_contents :: "mem \<Rightarrow> string \<Rightarrow> string \<Rightarrow> object_content option" where
  "mem_contents s b k = map_option content_of (mem_objects s b k)"

text \<open>What an operation on a bucket does to the objects.\<close>

lemma with_bucket_objects:
  assumes "with_bucket n f s = (r, s')"
  shows "mem_objects s' = (case map_of (m_buckets s) n of None \<Rightarrow> mem_objects s | Some bk \<Rightarrow> (mem_objects s)(n := map_of (bd_Objects (snd (f bk)))))"
    and "r = (case map_of (m_buckets s) n of None \<Rightarrow> Inl errNoBucket | Some bk \<Rightarrow> fst (f bk))"
  using assms by (auto simp: with_bucket_def requireBucket_def mem_objects_def update_conv' fun_eq_iff split: option.splits prod.splits)

lemma with_object_objects:
  assumes "with_object n k f s = (r, s')"
  shows "mem_objects s' = (case mem_objects s n k of None \<Rightarrow> mem_objects s | Some ob \<Rightarrow> (mem_objects s)(n := (mem_objects s n)(k \<mapsto> snd (f ob))))"
    and "mem_objects s n k = Some ob \<Longrightarrow> r = fst (f ob)" "mem_objects s n k = None \<Longrightarrow> \<exists>e. r = Inl e"
proof -
  note w = with_bucket_objects [OF assms [unfolded with_object_def]]
  show "mem_objects s' = (case mem_objects s n k of None \<Rightarrow> mem_objects s | Some ob \<Rightarrow> (mem_objects s)(n := (mem_objects s n)(k \<mapsto> snd (f ob))))"
    unfolding w(1) by (auto simp: mem_objects_def update_conv' fun_eq_iff split: option.splits prod.splits)
  show "mem_objects s n k = Some ob \<Longrightarrow> r = fst (f ob)"
    unfolding w(2) by (auto simp: mem_objects_def split: option.splits prod.splits)
  show "mem_objects s n k = None \<Longrightarrow> \<exists>e. r = Inl e" unfolding w(2) by (auto simp: mem_objects_def split: option.splits)
qed

lemma no_bucket: "map_of (m_buckets s) n = None \<Longrightarrow> mem_objects s n = (\<lambda>_. None)"
  and some_bucket: "map_of (m_buckets s) n = Some bk \<Longrightarrow> mem_objects s n = map_of (bd_Objects bk)"
  by (auto simp: mem_objects_def)

lemma mem_DeleteObject_objects:
  assumes "mem_DeleteObject b k v s = (r, s')"
  shows "mem_objects s' = (mem_objects s)(b := (mem_objects s b)(k := None))"
proof (cases "map_of (m_buckets s) b")
  case None
  then show ?thesis using with_bucket_objects(1) [OF assms [unfolded mem_DeleteObject_def]] no_bucket [OF None] by (auto simp: fun_eq_iff)
next
  case (Some bk)
  then show ?thesis using with_bucket_objects(1) [OF assms [unfolded mem_DeleteObject_def]] some_bucket [OF Some] by (simp add: delete_conv')
qed

lemma mem_PutObject_objects:
  assumes "mem_PutObject rq s = (Inr info, s')"
  shows "\<exists>data. po_Body rq = (data, None) \<and> info = object_info (po_Key rq) data (new_object (m_clock s) rq data)
    \<and> mem_objects s' = (mem_objects s)(po_Bucket rq := (mem_objects s (po_Bucket rq))(po_Key rq \<mapsto> new_object (m_clock s) rq data))"
proof -
  note w = with_bucket_objects [OF assms [unfolded mem_PutObject_def]]
  obtain bk where bk: "map_of (m_buckets s) (po_Bucket rq) = Some bk" using w(2) by (auto split: option.splits)
  obtain data where d: "po_Body rq = (data, None)" using w(2) bk by (auto split: prod.splits option.splits)
  show ?thesis using w bk d some_bucket [OF bk] by (auto simp: Let_def update_conv')
qed

text \<open>The listing loop.\<close>

lemma list_keys_objects: "fst (list_keys prefix delim info ks (os, ps)) = os @ map info (filter (\<lambda>k. folded prefix delim k = None) ks)"
  by (induction ks arbitrary: os ps) (auto split: option.splits)

lemma list_keys_prefixes:
  "distinct ps \<Longrightarrow> distinct (snd (list_keys prefix delim info ks (os, ps))) \<and> set (snd (list_keys prefix delim info ks (os, ps))) = set ps \<union> {p. \<exists>k \<in> set ks. folded prefix delim k = Some p}"
  by (induction ks arbitrary: os ps) (auto split: option.splits)

lemma mem_ListObjects_Inr:
  assumes "mem_ListObjects rq s = (Inr res, s')"
  shows "\<exists>bk. map_of (m_buckets s) (lq_Bucket rq) = Some bk
    \<and> map oi_Key (lr_Objects res) = filter (\<lambda>k. folded (lq_Prefix rq) (lq_Delimiter rq) k = None) (sort (filter (\<lambda>k. HasPrefix k (lq_Prefix rq)) (remdups (map fst (bd_Objects bk)))))
    \<and> (\<forall>i \<in> set (lr_Objects res). \<exists>ob. map_of (bd_Objects bk) (oi_Key i) = Some ob \<and> i = object_info (oi_Key i) (ob_Data ob) ob)
    \<and> distinct (lr_CommonPrefixes res) \<and> set (lr_CommonPrefixes res) = {p. \<exists>k. HasPrefix k (lq_Prefix rq) \<and> map_of (bd_Objects bk) k \<noteq> None \<and> folded (lq_Prefix rq) (lq_Delimiter rq) k = Some p}
    \<and> \<not> lr_IsTruncated res \<and> lr_Next res = []" "s' = s"
proof -
  obtain bk where bk: "map_of (m_buckets s) (lq_Bucket rq) = Some bk" using assms by (auto simp: mem_ListObjects_def requireBucket_def split: option.splits)
  define keys where "keys = sort (filter (\<lambda>k. HasPrefix k (lq_Prefix rq)) (remdups (map fst (bd_Objects bk))))"
  define info where "info = (\<lambda>k. case map_of (bd_Objects bk) k of Some ob \<Rightarrow> object_info k (ob_Data ob) ob | None \<Rightarrow> undefined)"
  have mem: "k \<in> set keys \<longleftrightarrow> HasPrefix k (lq_Prefix rq) \<and> map_of (bd_Objects bk) k \<noteq> None" for k
    by (auto simp: keys_def map_of_eq_None_iff)
  then have info: "oi_Key (info k) = k \<and> (\<exists>ob. map_of (bd_Objects bk) k = Some ob \<and> info k = object_info k (ob_Data ob) ob)" if "k \<in> set keys" for k
    using that by (auto simp: info_def object_info_def)
  have "res = \<lparr>lr_Objects = fst (list_keys (lq_Prefix rq) (lq_Delimiter rq) info keys ([], [])), lr_CommonPrefixes = snd (list_keys (lq_Prefix rq) (lq_Delimiter rq) info keys ([], [])),
      lr_Next = [], lr_IsTruncated = False\<rparr>" "s' = s"
    using assms bk by (auto simp: mem_ListObjects_def requireBucket_def keys_def [symmetric] info_def [symmetric] Let_def split: prod.splits)
  note r = this list_keys_objects [of "lq_Prefix rq" "lq_Delimiter rq" info keys "[]" "[]"] list_keys_prefixes [of "[]" "lq_Prefix rq" "lq_Delimiter rq" info keys "[]"]
  have o: "lr_Objects res = map info (filter (\<lambda>k. folded (lq_Prefix rq) (lq_Delimiter rq) k = None) keys)" using r by simp
  have m: "map oi_Key (lr_Objects res) = filter (\<lambda>k. folded (lq_Prefix rq) (lq_Delimiter rq) k = None) keys"
    unfolding o map_map by (rule map_idI) (use info in auto)
  show "\<exists>bk. map_of (m_buckets s) (lq_Bucket rq) = Some bk
    \<and> map oi_Key (lr_Objects res) = filter (\<lambda>k. folded (lq_Prefix rq) (lq_Delimiter rq) k = None) (sort (filter (\<lambda>k. HasPrefix k (lq_Prefix rq)) (remdups (map fst (bd_Objects bk)))))
    \<and> (\<forall>i \<in> set (lr_Objects res). \<exists>ob. map_of (bd_Objects bk) (oi_Key i) = Some ob \<and> i = object_info (oi_Key i) (ob_Data ob) ob)
    \<and> distinct (lr_CommonPrefixes res) \<and> set (lr_CommonPrefixes res) = {p. \<exists>k. HasPrefix k (lq_Prefix rq) \<and> map_of (bd_Objects bk) k \<noteq> None \<and> folded (lq_Prefix rq) (lq_Delimiter rq) k = Some p}
    \<and> \<not> lr_IsTruncated res \<and> lr_Next res = []"
  proof (intro exI [of _ bk] conjI)
    show "map oi_Key (lr_Objects res) = filter (\<lambda>k. folded (lq_Prefix rq) (lq_Delimiter rq) k = None) (sort (filter (\<lambda>k. HasPrefix k (lq_Prefix rq)) (remdups (map fst (bd_Objects bk)))))"
      using m by (simp add: keys_def)
    show "\<forall>i \<in> set (lr_Objects res). \<exists>ob. map_of (bd_Objects bk) (oi_Key i) = Some ob \<and> i = object_info (oi_Key i) (ob_Data ob) ob"
      unfolding o using info by fastforce
    show "set (lr_CommonPrefixes res) = {p. \<exists>k. HasPrefix k (lq_Prefix rq) \<and> map_of (bd_Objects bk) k \<noteq> None \<and> folded (lq_Prefix rq) (lq_Delimiter rq) k = Some p}"
      using r(1,4) mem by auto
  qed (use r bk in auto)
  show "s' = s" by (rule r(2))
qed

section \<open>The memory backend is an object store\<close>

lemma folded_no_delim [simp]: "folded prefix [] k = None"
  by (simp add: folded_def)

lemma mem_DeleteObjects_spec:
  "\<exists>res s'. mem_DeleteObjects bkt ids s = (Inr res, s') \<and> (\<forall>b k. mem_objects s' b k = (if b = bkt \<and> k \<in> id_Key ` set ids then None else mem_objects s b k))
     \<and> set (dr_Deleted res) \<subseteq> set ids \<and> (\<forall>i \<in> set ids. i \<in> set (dr_Deleted res) \<or> id_Key i \<in> de_Key ` set (dr_Errors res))"
proof (induction ids arbitrary: s)
  case (Cons i ids)
  obtain r s1 where d: "mem_DeleteObject bkt (id_Key i) (id_VersionID i) s = (r, s1)" by force
  obtain res s' where r: "mem_DeleteObjects bkt ids s1 = (Inr res, s')" "\<forall>b k. mem_objects s' b k = (if b = bkt \<and> k \<in> id_Key ` set ids then None else mem_objects s1 b k)"
      "set (dr_Deleted res) \<subseteq> set ids" "\<forall>i \<in> set ids. i \<in> set (dr_Deleted res) \<or> id_Key i \<in> de_Key ` set (dr_Errors res)"
    using Cons.IH [of s1] by blast
  have "\<forall>b k. mem_objects s' b k = (if b = bkt \<and> k \<in> id_Key ` set (i # ids) then None else mem_objects s b k)"
    using r(2) mem_DeleteObject_objects [OF d] by auto
  then show ?case using d r by (cases r) auto
qed simp

lemma copy_objects:
  assumes "mem_CopyObject src dst md s = (r, s')"
  shows "r = Inr () \<Longrightarrow> \<exists>ob. mem_objects s (ref_Bucket src) (ref_Key src) = Some ob \<and> mem_objects s' = (mem_objects s)(ref_Bucket dst := (mem_objects s (ref_Bucket dst))
      (ref_Key dst \<mapsto> ob\<lparr>ob_Metadata := (if md = None then ob_Metadata ob else md), ob_Modified := m_clock s\<rparr>))"
    and "r \<noteq> Inr () \<Longrightarrow> mem_objects s' = mem_objects s"
proof -
  consider (none) "map_of (m_buckets s) (ref_Bucket src) = None" "s' = s" "r \<noteq> Inr ()"
    | (some) sb where "map_of (m_buckets s) (ref_Bucket src) = Some sb"
        "with_bucket (ref_Bucket dst) (\<lambda>db. case map_of (bd_Objects sb) (ref_Key src) of
          None \<Rightarrow> (Inl errNoObject, db)
        | Some so \<Rightarrow> (Inr (), db\<lparr>bd_Objects := AList.update (ref_Key dst)
            (so\<lparr>ob_Metadata := (if md = None then ob_Metadata so else md), ob_Modified := m_clock s\<rparr>) (bd_Objects db)\<rparr>)) s = (r, s')"
    using assms by (auto simp: mem_CopyObject_def requireBucket_def split: option.splits)
  then have "(r = Inr () \<longrightarrow> (\<exists>ob. mem_objects s (ref_Bucket src) (ref_Key src) = Some ob \<and> mem_objects s' = (mem_objects s)(ref_Bucket dst := (mem_objects s (ref_Bucket dst))
      (ref_Key dst \<mapsto> ob\<lparr>ob_Metadata := (if md = None then ob_Metadata ob else md), ob_Modified := m_clock s\<rparr>))))
    \<and> (r \<noteq> Inr () \<longrightarrow> mem_objects s' = mem_objects s)"
  proof cases
    case some
    note w = with_bucket_objects [OF some(2)]
    show ?thesis
    proof (cases "map_of (m_buckets s) (ref_Bucket dst)")
      case None
      then show ?thesis using w by simp
    next
      case (Some db)
      then show ?thesis using w some_bucket [OF some(1)] some_bucket [OF Some] by (auto simp: update_conv' fun_eq_iff split: option.splits)
    qed
  qed simp
  then show "r = Inr () \<Longrightarrow> \<exists>ob. mem_objects s (ref_Bucket src) (ref_Key src) = Some ob \<and> mem_objects s' = (mem_objects s)(ref_Bucket dst := (mem_objects s (ref_Bucket dst))
      (ref_Key dst \<mapsto> ob\<lparr>ob_Metadata := (if md = None then ob_Metadata ob else md), ob_Modified := m_clock s\<rparr>))"
    and "r \<noteq> Inr () \<Longrightarrow> mem_objects s' = mem_objects s" by blast+
qed

lemma memory_sel [simp]:
  "b_ListObjects (memory stamp i) = mem_ListObjects" "b_DeleteObjects (memory stamp i) = mem_DeleteObjects" "b_CopyObject (memory stamp i) = mem_CopyObject"
  by (simp_all add: memory_def)

interpretation mem: object_store "memory stamp i" mem_contents "\<lambda>_ _. True" for stamp i
proof
  show "True" by (rule TrueI)
  show "finite {k. mem_contents s bkt k \<noteq> None}" for s bkt
    using finite_dom_map_of by (cases "map_of (m_buckets s) bkt") (auto simp: mem_contents_def mem_objects_def dom_def)
  show "mem_contents s' = mem_contents s" if "b_ListObjects (memory stamp i) rq s = (lr, s')" for rq s lr s'
    using that by (auto simp: mem_ListObjects_def Let_def split: sum.splits prod.splits)
  show "HasPrefix (oi_Key x) (lq_Prefix rq) \<and> (\<exists>d ct md. mem_contents s (lq_Bucket rq) (oi_Key x) = Some (d, ct, md) \<and> oi_Size x = int (length d))"
    if l: "b_ListObjects (memory stamp i) rq s = (Inr res, s')" and d: "lq_Delimiter rq = []" and x: "x \<in> set (lr_Objects res)" for rq s res s' x
  proof -
    obtain bk where bk: "map_of (m_buckets s) (lq_Bucket rq) = Some bk" "map oi_Key (lr_Objects res) = sort (filter (\<lambda>k. HasPrefix k (lq_Prefix rq)) (remdups (map fst (bd_Objects bk))))"
        "\<exists>ob. map_of (bd_Objects bk) (oi_Key x) = Some ob \<and> x = object_info (oi_Key x) (ob_Data ob) ob"
      using mem_ListObjects_Inr(1) [of rq s res s'] l d x by auto
    have "oi_Key x \<in> set (map oi_Key (lr_Objects res))" using x by simp
    then have "HasPrefix (oi_Key x) (lq_Prefix rq)" unfolding bk(2) by simp
    moreover obtain ob where ob: "map_of (bd_Objects bk) (oi_Key x) = Some ob" "x = object_info (oi_Key x) (ob_Data ob) ob" using bk(3) by blast
    have "oi_Size x = int (length (ob_Data ob))" using ob(2) by (metis ObjectInfo.select_convs(2) object_info_def)
    ultimately show ?thesis using ob(1) some_bucket [OF bk(1)] by (simp add: mem_contents_def content_of_def)
  qed
  show "k \<in> oi_Key ` set (lr_Objects res) \<or> lr_more res \<and> True"
    if l: "b_ListObjects (memory stamp i) rq s = (Inr res, s')" and d: "lq_Delimiter rq = []" and p: "HasPrefix k (lq_Prefix rq)" and c: "mem_contents s (lq_Bucket rq) k \<noteq> None" for rq s res s' k
  proof -
    obtain bk where bk: "map_of (m_buckets s) (lq_Bucket rq) = Some bk" "map oi_Key (lr_Objects res) = sort (filter (\<lambda>k. HasPrefix k (lq_Prefix rq)) (remdups (map fst (bd_Objects bk))))"
      using mem_ListObjects_Inr(1) [of rq s res s'] l d by auto
    have "k \<in> set (remdups (map fst (bd_Objects bk)))" using c some_bucket [OF bk(1)] by (force simp: mem_contents_def dest: map_of_SomeD)
    then have "k \<in> set (map oi_Key (lr_Objects res))" unfolding bk(2) using p by simp
    then show ?thesis by simp
  qed
  show "(\<forall>k. True \<longrightarrow> True) \<and> (\<exists>x \<in> set (lr_Objects res). True \<and> \<not> True)"
    if "b_ListObjects (memory stamp i) rq s = (Inr res, s')" "lr_more res" for rq s res s'
    using mem_ListObjects_Inr(1) [of rq s res s'] that by (auto simp: lr_more_def)
next
  fix bkt ids s dr s' assume d: "b_DeleteObjects (memory stamp i) bkt ids s = (dr, s')"
  note sp = mem_DeleteObjects_spec [of bkt ids s]
  show "mem_contents s' b k = mem_contents s b k" if "b \<noteq> bkt \<or> k \<notin> id_Key ` set ids" for b k
    using sp d that by (auto simp: mem_contents_def)
  show "mem_contents s' b k = mem_contents s b k \<or> mem_contents s' b k = None" for b k
    using sp d by (cases "b = bkt \<and> k \<in> id_Key ` set ids") (auto simp: mem_contents_def)
  show "set (dr_Deleted dres) \<subseteq> set ids \<and> (\<forall>i \<in> set (dr_Deleted dres). mem_contents s' bkt (id_Key i) = None)
      \<and> (\<forall>i \<in> set ids. i \<in> set (dr_Deleted dres) \<or> id_Key i \<in> de_Key ` set (dr_Errors dres))"
    if "b_DeleteObjects (memory stamp i) bkt ids s = (Inr dres, s')" for bkt ids s dres s'
    using mem_DeleteObjects_spec [of bkt ids s] that by (auto simp: mem_contents_def)
next
  fix src dst md s cr s' assume c: "b_CopyObject (memory stamp i) src dst md s = (cr, s')"
  show "mem_contents s' b k = mem_contents s b k" if "(b, k) \<noteq> (ref_Bucket dst, ref_Key dst)" for b k
    using copy_objects [of src dst md s cr s'] c that by (cases "cr = Inr ()") (auto simp: mem_contents_def)
  show "mem_contents s' (ref_Bucket dst) (ref_Key dst) = mem_contents s (ref_Bucket dst) (ref_Key dst)
      \<or> (\<exists>d ct m. mem_contents s (ref_Bucket src) (ref_Key src) = Some (d, ct, m) \<and> mem_contents s' (ref_Bucket dst) (ref_Key dst) = Some (d, ct, if md = None then m else md))"
    using copy_objects [of src dst md s cr s'] c by (cases "cr = Inr ()") (auto simp: mem_contents_def content_of_def)
  show "\<exists>d ct m. mem_contents s (ref_Bucket src) (ref_Key src) = Some (d, ct, m) \<and> mem_contents s' (ref_Bucket dst) (ref_Key dst) = Some (d, ct, if md = None then m else md)"
    if "b_CopyObject (memory stamp i) src dst md s = (Inr (), s')" for src dst md s s'
    using copy_objects(1) [of src dst md s "Inr ()" s'] that by (auto simp: mem_contents_def content_of_def)
qed

interpretation mem: object_listing "memory stamp i" mem_contents "\<lambda>_ _. True" for stamp i
proof
  show "distinct (map oi_Key (lr_Objects res)) \<and> (\<forall>x \<in> set (lr_Objects res). True \<and> (lr_more res \<longrightarrow> \<not> True))"
    if "b_ListObjects (memory stamp i) rq s = (Inr res, s')" for rq s res s'
    using mem_ListObjects_Inr(1) [of rq s res s'] that by (auto simp: lr_more_def)
qed

lemma mem_GetObject_reads:
  assumes "mem_GetObject b k v rng s = (r, s')"
  shows "mem_objects s' = mem_objects s" "r = Inr (info, body) \<Longrightarrow> \<exists>ob. mem_objects s b k = Some ob \<and> slice_range rng (ob_Data ob) = Some (fst body) \<and> snd body = None"
proof -
  note w = with_object_objects [OF assms [unfolded mem_GetObject_def]]
  show "mem_objects s' = mem_objects s" using w(1) by (auto simp: fun_eq_iff split: option.splits)
  show "r = Inr (info, body) \<Longrightarrow> \<exists>ob. mem_objects s b k = Some ob \<and> slice_range rng (ob_Data ob) = Some (fst body) \<and> snd body = None"
    using w(2,3) by (cases "mem_objects s b k") (force split: option.splits)+
qed

interpretation mem: object_reading "memory stamp i" mem_contents "\<lambda>_ _. True" for stamp i
proof
  fix b k v rng s gr s' assume "b_GetObject (memory stamp i) b k v rng s = (gr, s')"
  then have "mem_GetObject b k v rng s = (gr, s')" by (simp add: memory_def)
  then show "mem_contents s' = mem_contents s" by (auto simp: mem_contents_def fun_eq_iff dest!: mem_GetObject_reads(1))
next
  fix b k s info body s' assume "b_GetObject (memory stamp i) b k [] None s = (Inr (info, body), s')"
  then have "mem_GetObject b k [] None s = (Inr (info, body), s')" by (simp add: memory_def)
  from mem_GetObject_reads(2) [OF this refl]
  show "\<exists>d ct md. mem_contents s b k = Some (d, ct, md) \<and> (\<exists>rest. d = fst body @ rest) \<and> (snd body = None \<longrightarrow> fst body = d)"
    by (auto simp: mem_contents_def content_of_def slice_range_def)
qed

section \<open>Multipart uploads are puts\<close>

definition upload_parts :: "string \<Rightarrow> string \<Rightarrow> string \<Rightarrow> (int \<times> string) list \<Rightarrow> mem \<Rightarrow> mem" where
  "upload_parts bkt key uid ps s = fold (\<lambda>(n, d) s. snd (mem_UploadPart bkt key uid n (d, None) (int (length d)) s)) ps s"

lemma upload_parts_state:
  "map_of (m_uploads s) uid = Some u \<Longrightarrow>
   \<exists>u'. map_of (m_uploads (upload_parts bkt key uid ps s)) uid = Some u' \<and> mp_bucket u' = mp_bucket u \<and> mp_key u' = mp_key u \<and> mp_contentType u' = mp_contentType u
     \<and> mp_metadata u' = mp_metadata u \<and> map_of (mp_parts u') = map_of (mp_parts u) ++ map_of (rev ps)
     \<and> m_buckets (upload_parts bkt key uid ps s) = m_buckets s \<and> m_clock (upload_parts bkt key uid ps s) = m_clock s"
proof (induction ps arbitrary: s u)
  case Nil
  then show ?case by (simp add: upload_parts_def)
next
  case (Cons p ps)
  obtain n d where p: "p = (n, d)" by force
  let ?u = "u\<lparr>mp_parts := AList.update n d (mp_parts u)\<rparr>" and ?s = "snd (mem_UploadPart bkt key uid n (d, None) (int (length d)) s)"
  have s: "?s = s\<lparr>m_uploads := AList.update uid ?u (m_uploads s)\<rparr>" using Cons.prems by (simp add: mem_UploadPart_def)
  have "map_of (m_uploads ?s) uid = Some ?u" unfolding s by (simp add: update_conv')
  from Cons.IH [OF this] obtain u' where u': "map_of (m_uploads (upload_parts bkt key uid ps ?s)) uid = Some u'" "mp_bucket u' = mp_bucket u" "mp_key u' = mp_key u"
      "mp_contentType u' = mp_contentType u" "mp_metadata u' = mp_metadata u" "map_of (mp_parts u') = map_of (AList.update n d (mp_parts u)) ++ map_of (rev ps)"
      "m_buckets (upload_parts bkt key uid ps ?s) = m_buckets s" "m_clock (upload_parts bkt key uid ps ?s) = m_clock s"
    unfolding s by auto
  have "map_of (mp_parts u') = map_of (mp_parts u) ++ map_of (rev (p # ps))" unfolding u'(6) p
    by (auto simp: update_conv' map_add_def fun_eq_iff split: option.splits)
  moreover have "upload_parts bkt key uid (p # ps) s = upload_parts bkt key uid ps ?s" by (simp add: upload_parts_def p)
  ultimately show ?case using u' by auto
qed

text \<open>The numbers of the parts, in whatever order they are given, sort to the same sequence.\<close>

lemma sorted_parts:
  assumes "distinct (map fst ps)" "mset (map cp_PartNumber parts) = mset (map fst ps)"
  shows "concat (map (\<lambda>p. lookup_or [] ps (cp_PartNumber p)) (sort_key cp_PartNumber parts)) = concat (map snd (sort_key fst ps))"
proof -
  have "map cp_PartNumber (sort_key cp_PartNumber parts) = sort (map fst ps)"
    using assms(2) by (intro properties_for_sort [symmetric]) (metis mset_map mset_sort, simp)
  moreover have "map fst (sort_key fst ps) = sort (map fst ps)"
    by (intro properties_for_sort [symmetric]) (metis mset_map mset_sort, simp)
  moreover have "map (\<lambda>n. lookup_or [] ps n) (map fst (sort_key fst ps)) = map snd (sort_key fst ps)"
    using assms(1) by (auto simp: lookup_or_def)
  ultimately have "map (\<lambda>p. lookup_or [] ps (cp_PartNumber p)) (sort_key cp_PartNumber parts) = map snd (sort_key fst ps)"
    by (metis (no_types, lifting) list.map_comp map_eq_conv o_apply)
  then show ?thesis by simp
qed

section \<open>Listings\<close>

text \<open>The first occurrence of a delimiter stays the first when what follows it changes.\<close>

lemma Index_bound: "Index s d = Some i \<Longrightarrow> i + length d \<le> length s"
proof (induction s arbitrary: i)
  case Nil
  then show ?case by (subst (asm) Index.simps) (auto simp: HasPrefix_iff split: if_splits)
next
  case (Cons x s)
  show ?case
  proof (cases "HasPrefix (x # s) d")
    case True
    then have "length d \<le> length (x # s)" by (auto simp only: HasPrefix_iff length_append)
    then show ?thesis using True Cons.prems by (simp add: Index.simps [of "x # s"])
  next
    case False
    then obtain j where "i = Suc j" "Index s d = Some j" using Cons.prems by (subst (asm) Index.simps) auto
    then show ?thesis using Cons.IH by simp
  qed
qed

lemma Index_take: "Index s d = Some i \<Longrightarrow> Index (take (i + length d) s @ t) d = Some i"
proof (induction s arbitrary: i)
  case Nil
  then show ?case by (subst (asm) Index.simps, subst Index.simps) (auto simp: HasPrefix_iff split: if_splits)
next
  case (Cons x s)
  show ?case
  proof (cases "HasPrefix (x # s) d")
    case True
    then have "i = 0" using Cons.prems by (simp add: Index.simps [of "x # s"])
    moreover have "HasPrefix (take (length d) (x # s) @ t) d" using True by (auto simp: HasPrefix_iff)
    ultimately show ?thesis by (simp add: Index.simps [of "take (length d) (x # s) @ t"])
  next
    case False
    then obtain j where j: "i = Suc j" "Index s d = Some j" using Cons.prems by (subst (asm) Index.simps) auto
    have "\<not> HasPrefix (x # take (j + length d) s @ t) d"
    proof
      assume "HasPrefix (x # take (j + length d) s @ t) d"
      then have "take (length d) (x # take (j + length d) s @ t) = d" by (auto simp: HasPrefix_iff)
      then have "take (length d) (x # s) = d" using Index_bound [OF j(2)] by (cases d) (auto simp: min_def)
      then have "x # s = d @ drop (length d) (x # s)" by (metis append_take_drop_id)
      then show False using False by (auto simp: HasPrefix_iff)
    qed
    then show ?thesis using j Cons.IH [OF j(2)] by (simp add: Index.simps [of "x # take (j + length d) s @ t"])
  qed
qed

lemma folded_prefix: "HasPrefix k p \<Longrightarrow> folded p d k = Some c \<Longrightarrow> HasPrefix k c"
  by (auto simp: folded_def HasPrefix_iff Let_def split: if_splits) (metis append_take_drop_id)

lemma folded_determined:
  assumes "HasPrefix k' p" "folded p d k' = Some c" "HasPrefix k c"
  shows "HasPrefix k p \<and> folded p d k = Some c"
proof -
  obtain r' i where r': "k' = p @ r'" "Index r' d = Some i" "c = p @ take (i + length d) r'" "d \<noteq> []"
    using assms(1,2) by (auto simp: folded_def HasPrefix_iff Let_def split: if_splits)
  obtain t where t: "k = p @ take (i + length d) r' @ t" using assms(3) r'(3) by (auto simp: HasPrefix_iff)
  have "take (i + length d) (take (i + length d) r' @ t) = take (i + length d) r'" using Index_bound [OF r'(2)] by simp
  then show ?thesis using Index_take [OF r'(2), of t] r'(3,4) unfolding t by (simp add: folded_def)
qed

section \<open>Properties\<close>

text \<open>A multipart upload is a put in pieces: creating an upload, sending its parts in any order and completing it with the part
  numbers in any order leaves exactly the objects that one put of the parts, joined by part number, leaves, with the
  same answer, and the upload is gone.\<close>

theorem multipart_equals_put:
  assumes "mem_CreateMultipart stamp bkt key ct md s = (Inr uid, s1)" "distinct (map fst ps)" "mset (map cp_PartNumber parts) = mset (map fst ps)"
    and "mem_CompleteMultipart b' k' uid parts (upload_parts bkt key uid ps s1) = (r, s2)"
    and "mem_PutObject \<lparr>po_Bucket = bkt, po_Key = key, po_Body = (concat (map snd (sort_key fst ps)), None),
       po_Size = int (length (concat (map snd (sort_key fst ps)))), po_ContentType = ct, po_Metadata = md\<rparr> s = (r', s3)"
  shows "r = r' \<and> (\<exists>info. r = Inr info) \<and> mem_objects s2 = mem_objects s3 \<and> map_of (m_uploads s2) uid = None"
proof -
  let ?u = "\<lparr>mp_bucket = bkt, mp_key = key, mp_contentType = ct, mp_parts = [], mp_metadata = md\<rparr>"
  obtain bk where bk: "map_of (m_buckets s) bkt = Some bk" and s1: "s1 = s\<lparr>m_uploads := AList.update uid ?u (m_uploads s)\<rparr>"
    using assms(1) by (auto simp: mem_CreateMultipart_def requireBucket_def Let_def split: option.splits)
  let ?up = "upload_parts bkt key uid ps s1"
  have "map_of (m_uploads s1) uid = Some ?u" unfolding s1 by (simp add: update_conv')
  from upload_parts_state [OF this, of bkt key ps] obtain u where u: "map_of (m_uploads ?up) uid = Some u" "mp_bucket u = bkt" "mp_key u = key" "mp_contentType u = ct"
      "mp_metadata u = md" "map_of (mp_parts u) = map_of (rev ps)" "m_buckets ?up = m_buckets s" "m_clock ?up = m_clock s"
    by (auto simp: s1)
  have "map_of (rev ps) = map_of ps" using assms(2) by (subst map_of_inject_set) (simp_all add: rev_map [symmetric])
  then have lk: "(\<lambda>p. lookup_or [] (mp_parts u) (cp_PartNumber p)) = (\<lambda>p. lookup_or [] ps (cp_PartNumber p))" using u(6) by (simp add: lookup_or_def fun_eq_iff)
  let ?rq = "\<lparr>po_Bucket = bkt, po_Key = key, po_Body = (concat (map snd (sort_key fst ps)), None),
       po_Size = int (length (concat (map snd (sort_key fst ps)))), po_ContentType = ct, po_Metadata = md\<rparr>"
  have c: "mem_PutObject ?rq (?up\<lparr>m_uploads := AList.delete uid (m_uploads ?up)\<rparr>) = (r, s2)"
    using assms(4) u(1-5) sorted_parts [OF assms(2,3)] by (simp add: mem_CompleteMultipart_def lk Let_def)
  note simps = mem_PutObject_def with_bucket_def requireBucket_def Let_def
  have "r = r'" "\<exists>info. r = Inr info" "m_buckets s2 = m_buckets s3" "m_uploads s2 = AList.delete uid (m_uploads ?up)"
    using c assms(5) bk u(7,8) by (auto simp: simps)
  then show ?thesis by (auto simp: mem_objects_def fun_eq_iff delete_conv')
qed

definition ex_mem :: mem where
  "ex_mem = snd (mem_CreateBucket ''b'' [] (Memory_New 5))"

theorem multipart_equals_put_witness:
  "\<exists>info s2 s3. mem_CompleteMultipart [] [] ''b:k:now'' [\<lparr>cp_PartNumber = 1, cp_ETag = []\<rparr>, \<lparr>cp_PartNumber = 2, cp_ETag = []\<rparr>]
       (upload_parts ''b'' ''k'' ''b:k:now'' [(2, ''lo''), (1, ''hel'')] (snd (mem_CreateMultipart (\<lambda>_. ''now'') ''b'' ''k'' ''text/plain'' None ex_mem))) = (Inr info, s2)
     \<and> mem_PutObject \<lparr>po_Bucket = ''b'', po_Key = ''k'', po_Body = (''hello'', None), po_Size = 5, po_ContentType = ''text/plain'', po_Metadata = None\<rparr> ex_mem = (Inr info, s3)
     \<and> mem_objects s2 = mem_objects s3 \<and> oi_Size info = 5"
proof -
  define s1 where "s1 = snd (mem_CreateMultipart (\<lambda>_. ''now'') ''b'' ''k'' ''text/plain'' None ex_mem)"
  have c: "mem_CreateMultipart (\<lambda>_. ''now'') ''b'' ''k'' ''text/plain'' None ex_mem = (Inr ''b:k:now'', s1)" unfolding s1_def by code_simp
  obtain r s2 where r: "mem_CompleteMultipart [] [] ''b:k:now'' [\<lparr>cp_PartNumber = 1, cp_ETag = []\<rparr>, \<lparr>cp_PartNumber = 2, cp_ETag = []\<rparr>]
       (upload_parts ''b'' ''k'' ''b:k:now'' [(2, ''lo''), (1, ''hel'')] s1) = (r, s2)" by force
  define ps :: "(int \<times> string) list" where "ps = [(2, ''lo''), (1, ''hel'')]"
  have srt: "concat (map snd (sort_key fst ps)) = ''hello''" unfolding ps_def by code_simp
  obtain r' s3 where p: "mem_PutObject \<lparr>po_Bucket = ''b'', po_Key = ''k'', po_Body = (''hello'', None), po_Size = 5, po_ContentType = ''text/plain'', po_Metadata = None\<rparr> ex_mem = (r', s3)" by force
  have "r = r' \<and> (\<exists>info. r = Inr info) \<and> mem_objects s2 = mem_objects s3 \<and> map_of (m_uploads s2) ''b:k:now'' = None"
    by (rule multipart_equals_put [OF c _ _ r [folded ps_def]]) (use p srt in \<open>simp_all add: ps_def\<close>)
  moreover have "case fst (mem_PutObject \<lparr>po_Bucket = ''b'', po_Key = ''k'', po_Body = (''hello'', None), po_Size = 5, po_ContentType = ''text/plain'', po_Metadata = None\<rparr> ex_mem) of
      Inr info \<Rightarrow> oi_Size info = 5 | Inl _ \<Rightarrow> False" by code_simp
  ultimately show ?thesis using r p unfolding s1_def by auto
qed

text \<open>A listing shows every object under its prefix once: the keys of the bucket with the prefix are, in order, the listed
  objects, except those with the delimiter after the prefix, each of which starts with exactly one of the listed common prefixes;
  no other prefix is listed and none twice.\<close>

theorem listing_partition:
  assumes "mem_ListObjects rq s = (Inr res, s')" "lq_Prefix rq = p"
  shows "s' = s \<and> sorted (map oi_Key (lr_Objects res)) \<and> distinct (lr_CommonPrefixes res)
    \<and> {k. HasPrefix k p \<and> mem_objects s (lq_Bucket rq) k \<noteq> None} = oi_Key ` set (lr_Objects res) \<union> {k. mem_objects s (lq_Bucket rq) k \<noteq> None \<and> (\<exists>c \<in> set (lr_CommonPrefixes res). HasPrefix k c)}
    \<and> (\<forall>i \<in> set (lr_Objects res). \<forall>c \<in> set (lr_CommonPrefixes res). \<not> HasPrefix (oi_Key i) c)"
proof -
  obtain bk where bk: "map_of (m_buckets s) (lq_Bucket rq) = Some bk" "distinct (lr_CommonPrefixes res)"
      "map oi_Key (lr_Objects res) = filter (\<lambda>k. folded p (lq_Delimiter rq) k = None) (sort (filter (\<lambda>k. HasPrefix k p) (remdups (map fst (bd_Objects bk)))))"
      "set (lr_CommonPrefixes res) = {c. \<exists>k. HasPrefix k p \<and> map_of (bd_Objects bk) k \<noteq> None \<and> folded p (lq_Delimiter rq) k = Some c}"
    using mem_ListObjects_Inr(1) [OF assms(1)] unfolding assms(2) by blast
  have objs: "mem_objects s (lq_Bucket rq) = map_of (bd_Objects bk)" by (rule some_bucket [OF bk(1)])
  have "oi_Key ` set (lr_Objects res) = set (map oi_Key (lr_Objects res))" by simp
  also have "\<dots> = {k. HasPrefix k p \<and> map_of (bd_Objects bk) k \<noteq> None \<and> folded p (lq_Delimiter rq) k = None}"
    unfolding bk(3) by (auto simp: map_of_eq_None_iff)
  finally have o: "oi_Key ` set (lr_Objects res) = {k. HasPrefix k p \<and> map_of (bd_Objects bk) k \<noteq> None \<and> folded p (lq_Delimiter rq) k = None}" .
  have c: "(\<exists>c \<in> set (lr_CommonPrefixes res). HasPrefix k c) \<longleftrightarrow> HasPrefix k p \<and> folded p (lq_Delimiter rq) k \<noteq> None" if "map_of (bd_Objects bk) k \<noteq> None" for k
    using that folded_determined folded_prefix unfolding bk(4) by blast
  have "sorted (map oi_Key (lr_Objects res))" unfolding bk(3) by (simp add: sorted_wrt_filter)
  moreover have "{k. HasPrefix k p \<and> mem_objects s (lq_Bucket rq) k \<noteq> None} = oi_Key ` set (lr_Objects res) \<union> {k. mem_objects s (lq_Bucket rq) k \<noteq> None \<and> (\<exists>c \<in> set (lr_CommonPrefixes res). HasPrefix k c)}"
    unfolding objs o using c by auto
  moreover have "\<forall>i \<in> set (lr_Objects res). \<forall>c \<in> set (lr_CommonPrefixes res). \<not> HasPrefix (oi_Key i) c"
  proof (intro ballI notI)
    fix i c' assume i: "i \<in> set (lr_Objects res)" "c' \<in> set (lr_CommonPrefixes res)" "HasPrefix (oi_Key i) c'"
    have "oi_Key i \<in> oi_Key ` set (lr_Objects res)" using i(1) by simp
    then show False using c [of "oi_Key i"] i(2,3) unfolding o by auto
  qed
  ultimately show ?thesis using mem_ListObjects_Inr(2) [OF assms(1)] bk(2) by blast
qed

definition ex_putm :: "string \<Rightarrow> mem \<Rightarrow> mem" where
  "ex_putm k s = snd (mem_PutObject \<lparr>po_Bucket = ''b'', po_Key = k, po_Body = (''data'', None), po_Size = 4, po_ContentType = [], po_Metadata = None\<rparr> s)"

definition ex_tree :: mem where
  "ex_tree = fold ex_putm [''a/x'', ''c'', ''a/y/z'', ''b''] ex_mem"

definition ex_rq :: ListObjectsRequest where
  "ex_rq = \<lparr>lq_Bucket = ''b'', lq_Prefix = [], lq_Delimiter = ''/'', lq_Token = [], lq_MaxKeys = 0\<rparr>"

theorem listing_partition_witness:
  "\<exists>res. mem_ListObjects ex_rq ex_tree = (Inr res, ex_tree) \<and> map oi_Key (lr_Objects res) = [''b'', ''c''] \<and> lr_CommonPrefixes res = [''a/'']
     \<and> {k. HasPrefix k [] \<and> mem_objects ex_tree ''b'' k \<noteq> None} = {''b'', ''c''} \<union> {k. mem_objects ex_tree ''b'' k \<noteq> None \<and> HasPrefix k ''a/''}"
proof -
  have e: "case fst (mem_ListObjects ex_rq ex_tree) of Inr res \<Rightarrow> map oi_Key (lr_Objects res) = [''b'', ''c''] \<and> lr_CommonPrefixes res = [''a/''] | Inl _ \<Rightarrow> False" by code_simp
  then obtain res s' where r: "mem_ListObjects ex_rq ex_tree = (Inr res, s')" "map oi_Key (lr_Objects res) = [''b'', ''c'']" "lr_CommonPrefixes res = [''a/'']"
    by (cases "mem_ListObjects ex_rq ex_tree") (auto split: sum.splits)
  have rq: "lq_Prefix ex_rq = []" "lq_Bucket ex_rq = ''b''" by (simp_all add: ex_rq_def)
  have k: "oi_Key ` set (lr_Objects res) = {''b'', ''c''}" using arg_cong [OF r(2), of set] by simp
  show ?thesis using listing_partition [OF r(1) rq(1), unfolded rq(2) k r(3)] r by auto
qed

end
