(* ===== verification/Bucket_Sizes.thy ===== *)
theory Bucket_Sizes
  imports Memory_Backend Quotas
begin

text \<open>
  Folder sizes (\<^verbatim>\<open>internal/sizes/sizes.go\<close>, \<^verbatim>\<open>internal/store/sqlstore/bucket_size_tracking.go\<close>): the table of buckets whose sizes
  are not tracked, the walk over the pages of a listing, the cache of bucket totals and the cache of prefix totals with
  its lifetime. The service is threaded through together with the world of the backends; the scheduler loop, which only waits, is left
  out. A walk lists page by page: what others do to the store before its \<open>i\<close>-th page is the argument \<open>env i\<close>. Asking, changing the store, scanning and
  forgetting are interleaved in a step relation.
\<close>

section \<open>The tracking table\<close>

record BucketSizeTracking =
  bt_BackendID :: string
  bt_Bucket :: string
  bt_Enabled :: bool
  bt_UpdatedAt :: time
  bt_UpdatedBy :: string

text \<open>The first argument of a query is the failure of the database, if it fails.\<close>

definition tracking_row :: "string \<Rightarrow> string \<Rightarrow> BucketSizeTracking \<Rightarrow> bool" where
  "tracking_row bid bkt t \<longleftrightarrow> bt_BackendID t = bid \<and> bt_Bucket t = bkt"

definition IsBucketSizeTracked :: "string option \<Rightarrow> string \<Rightarrow> string \<Rightarrow> BucketSizeTracking list \<Rightarrow> string + bool" where
  "IsBucketSizeTracked db bid bkt rows =
     (case db of
        Some e \<Rightarrow> Inl e
      | None \<Rightarrow> Inr (case find (tracking_row bid bkt) rows of None \<Rightarrow> True | Some t \<Rightarrow> bt_Enabled t))"

definition SetBucketSizeTracking :: "string option \<Rightarrow> BucketSizeTracking \<Rightarrow> BucketSizeTracking list \<Rightarrow> string + BucketSizeTracking list" where
  "SetBucketSizeTracking db t rows =
     (case db of
        Some e \<Rightarrow> Inl e
      | None \<Rightarrow> Inr (let same = tracking_row (bt_BackendID t) (bt_Bucket t)
                     in if list_ex same rows then map (\<lambda>r. if same r then t else r) rows else rows @ [t]))"

definition ListDisabledSizeTracking :: "string option \<Rightarrow> BucketSizeTracking list \<Rightarrow> string + string list" where
  "ListDisabledSizeTracking db rows =
     (case db of
        Some e \<Rightarrow> Inl e
      | None \<Rightarrow> Inr (map (\<lambda>t. bt_BackendID t @ ''/'' @ bt_Bucket t) (filter (\<lambda>t. \<not> bt_Enabled t) rows)))"

section \<open>The service\<close>

text \<open>A cache entry that was never filled has the zero time, which every clock reading is after.\<close>

record prefixEntry =
  pe_bytes :: int
  pe_count :: int
  pe_expiresAt :: "time option"

record SizeService =
  sz_Store :: "BucketSizeTracking list option"
  sz_bucketCache :: "(string \<times> Usage) list"
  sz_prefixCache :: "(string \<times> prefixEntry) list"

definition sizes_New :: "BucketSizeTracking list option \<Rightarrow> SizeService" where
  "sizes_New store = \<lparr>sz_Store = store, sz_bucketCache = [], sz_prefixCache = []\<rparr>"

definition bucketKey :: "string \<Rightarrow> string \<Rightarrow> string" where
  "bucketKey bid bkt = bid @ ''/'' @ bkt"

definition IsTracked :: "string option \<Rightarrow> string \<Rightarrow> string \<Rightarrow> SizeService \<Rightarrow> string + bool" where
  "IsTracked db bid bkt S = (case sz_Store S of None \<Rightarrow> Inr True | Some rows \<Rightarrow> IsBucketSizeTracked db bid bkt rows)"

definition sizes_Get :: "string \<Rightarrow> string \<Rightarrow> SizeService \<Rightarrow> Usage option" where
  "sizes_Get bid bkt S = map_of (sz_bucketCache S) (bucketKey bid bkt)"

definition sizes_Forget :: "string \<Rightarrow> string \<Rightarrow> SizeService \<Rightarrow> SizeService" where
  "sizes_Forget bid bkt S =
     S\<lparr>sz_bucketCache := AList.delete (bucketKey bid bkt) (sz_bucketCache S),
       sz_prefixCache := filter (\<lambda>(k, _). \<not> HasPrefix k (bucketKey bid bkt @ ''/'')) (sz_prefixCache S)\<rparr>"

definition sizes_Recorded :: "string \<Rightarrow> string \<Rightarrow> int \<Rightarrow> SizeService \<Rightarrow> SizeService" where
  "sizes_Recorded bid bkt n S =
     (if n \<le> 0 then S
      else case map_of (sz_bucketCache S) (bucketKey bid bkt) of
        None \<Rightarrow> S
      | Some u \<Rightarrow> S\<lparr>sz_bucketCache := AList.update (bucketKey bid bkt) (u\<lparr>Bytes := wrap64 (Bytes u + n), ObjectCount := wrap64 (ObjectCount u + 1)\<rparr>) (sz_bucketCache S)\<rparr>)"

definition scanPageSize :: int where "scanPageSize = 1000"
definition prefixCacheTTL :: duration where "prefixCacheTTL = 60 * Second"

definition walk_request :: "string \<Rightarrow> string \<Rightarrow> string \<Rightarrow> ListObjectsRequest" where
  "walk_request bkt prefix token = \<lparr>lq_Bucket = bkt, lq_Prefix = prefix, lq_Delimiter = [], lq_Token = token, lq_MaxKeys = scanPageSize\<rparr>"

type_synonym 's meddling = "nat \<Rightarrow> 's \<Rightarrow> 's"

partial_function (option) walkPrefix ::
  "'s ObjectBackend \<Rightarrow> 's meddling \<Rightarrow> string \<Rightarrow> string \<Rightarrow> nat \<Rightarrow> string \<Rightarrow> int \<times> int \<Rightarrow> 's \<Rightarrow> ((string + int \<times> int) \<times> 's) option" where
  "walkPrefix b env bkt prefix i token acc s =
     (case b_ListObjects b (walk_request bkt prefix token) (env i s) of
        (Inl e, s1) \<Rightarrow> Some (Inl e, s1)
      | (Inr res, s1) \<Rightarrow>
          if \<not> lr_IsTruncated res \<or> lr_Next res = [] then Some (Inr (add_page (map oi_Size (lr_Objects res)) acc), s1)
          else walkPrefix b env bkt prefix (Suc i) (lr_Next res) (add_page (map oi_Size (lr_Objects res)) acc) s1)"

declare walkPrefix.simps [code]

datatype size_err = ErrTrackingDisabled | SizeStoreErr string | SizeNotRegistered | SizeBackendErr string

definition sizes_Scan :: "(string \<Rightarrow> 's ObjectBackend option) \<Rightarrow> 's meddling \<Rightarrow> time \<Rightarrow> string \<Rightarrow> string \<Rightarrow> SizeService \<Rightarrow> 's \<Rightarrow> ((size_err + Usage) \<times> SizeService \<times> 's) option" where
  "sizes_Scan reg env later bid bkt S s =
     (case reg bid of
        None \<Rightarrow> Some (Inl SizeNotRegistered, S, s)
      | Some b \<Rightarrow> map_option (\<lambda>(res, s1). case res of
          Inl e \<Rightarrow> (Inl (SizeBackendErr e), S, s1)
        | Inr (bytes, cnt) \<Rightarrow>
            (let usage = \<lparr>Bytes = bytes, ObjectCount = cnt, ComputedAt = later\<rparr>
             in (Inr usage, S\<lparr>sz_bucketCache := AList.update (bucketKey bid bkt) usage (sz_bucketCache S)\<rparr>, s1))) (walkPrefix b env bkt [] 0 [] (0, 0) s))"

text \<open>The clock is read twice: \<open>now\<close> when the cache is consulted, \<open>later\<close> when the walk is over.\<close>

definition PrefixSize :: "string option \<Rightarrow> (string \<Rightarrow> 's ObjectBackend option) \<Rightarrow> 's meddling \<Rightarrow> time \<Rightarrow> time \<Rightarrow> string \<Rightarrow> string \<Rightarrow> string \<Rightarrow> SizeService \<Rightarrow> 's
    \<Rightarrow> ((size_err + int \<times> int) \<times> SizeService \<times> 's) option" where
  "PrefixSize db reg env now later bid bkt prefix S s =
     (case IsTracked db bid bkt S of
        Inl e \<Rightarrow> Some (Inl (SizeStoreErr e), S, s)
      | Inr False \<Rightarrow> Some (Inl ErrTrackingDisabled, S, s)
      | Inr True \<Rightarrow>
          (let k = bucketKey bid bkt @ ''/'' @ prefix;
               e = (case map_of (sz_prefixCache S) k of Some e \<Rightarrow> e | None \<Rightarrow> \<lparr>pe_bytes = 0, pe_count = 0, pe_expiresAt = None\<rparr>);
               S1 = S\<lparr>sz_prefixCache := AList.update k e (sz_prefixCache S)\<rparr>
           in if \<exists>t \<in> set_option (pe_expiresAt e). now < t then Some (Inr (pe_bytes e, pe_count e), S1, s)
              else case reg bid of
                None \<Rightarrow> Some (Inl SizeNotRegistered, S1, s)
              | Some b \<Rightarrow> map_option (\<lambda>(res, s1). case res of
                  Inl err \<Rightarrow> (Inl (SizeBackendErr err), S1, s1)
                | Inr (bytes, cnt) \<Rightarrow> (Inr (bytes, cnt),
                    S1\<lparr>sz_prefixCache := AList.update k \<lparr>pe_bytes = bytes, pe_count = cnt, pe_expiresAt = Some (time_Add later prefixCacheTTL)\<rparr> (sz_prefixCache S1)\<rparr>, s1))
                  (walkPrefix b env bkt prefix 0 [] (0, 0) s)))"

text \<open>The scan of all backends; \<open>ctx\<close> says when the scheduler is being stopped.\<close>

fun scan_buckets :: "(string \<Rightarrow> 's ObjectBackend option) \<Rightarrow> (string \<Rightarrow> string \<Rightarrow> 's meddling) \<Rightarrow> ('s \<Rightarrow> bool) \<Rightarrow> time \<Rightarrow> string list \<Rightarrow> string \<Rightarrow> (string \<times> time) list \<Rightarrow> SizeService \<Rightarrow> 's \<Rightarrow> (bool \<times> SizeService \<times> 's) option" where
  "scan_buckets reg env ctx now off bid [] S s = Some (False, S, s)"
| "scan_buckets reg env ctx now off bid ((bkt, _) # bkts) S s =
     (if ctx s then Some (True, S, s)
      else if bid @ ''/'' @ bkt \<in> set off then scan_buckets reg env ctx now off bid bkts S s
      else case sizes_Scan reg (env bid bkt) now bid bkt S s of
        None \<Rightarrow> None
      | Some (_, S1, s1) \<Rightarrow> scan_buckets reg env ctx now off bid bkts S1 s1)"

fun scan_backends :: "(string \<Rightarrow> 's ObjectBackend option) \<Rightarrow> (string \<Rightarrow> string \<Rightarrow> 's meddling) \<Rightarrow> ('s \<Rightarrow> bool) \<Rightarrow> time \<Rightarrow> string list \<Rightarrow> 's ObjectBackend list \<Rightarrow> SizeService \<Rightarrow> 's \<Rightarrow> (SizeService \<times> 's) option" where
  "scan_backends reg env ctx now off [] S s = Some (S, s)"
| "scan_backends reg env ctx now off (b # bs) S s =
     (if ctx s then Some (S, s)
      else case b_ListBuckets b s of
        (Inl _, s1) \<Rightarrow> scan_backends reg env ctx now off bs S s1
      | (Inr bkts, s1) \<Rightarrow> (case scan_buckets reg env ctx now off (b_ID b) bkts S s1 of
          None \<Rightarrow> None
        | Some (stop, S1, s2) \<Rightarrow> if stop then Some (S1, s2) else scan_backends reg env ctx now off bs S1 s2))"

definition scanAll :: "string option \<Rightarrow> (string \<Rightarrow> 's ObjectBackend option) \<Rightarrow> (string \<Rightarrow> string \<Rightarrow> 's meddling) \<Rightarrow> ('s \<Rightarrow> bool) \<Rightarrow> time \<Rightarrow> 's ObjectBackend list \<Rightarrow> SizeService \<Rightarrow> 's \<Rightarrow> (SizeService \<times> 's) option" where
  "scanAll db reg env ctx now bs S s =
     (let off = (case sz_Store S of None \<Rightarrow> [] | Some rows \<Rightarrow> (case ListDisabledSizeTracking db rows of Inl _ \<Rightarrow> [] | Inr off \<Rightarrow> off))
      in scan_backends reg env ctx now off bs S s)"

section \<open>Totals of a store\<close>

definition content_size :: "object_content option \<Rightarrow> int" where
  "content_size c = (case c of None \<Rightarrow> 0 | Some (d, _) \<Rightarrow> int (length d))"

text \<open>The bytes and the number of objects under a prefix, as 64-bit integers.\<close>

definition totals :: "(string \<Rightarrow> object_content option) \<Rightarrow> string \<Rightarrow> int \<times> int" where
  "totals f prefix = (let K = {k. HasPrefix k prefix \<and> f k \<noteq> None} in (wrap64 (\<Sum>k \<in> K. content_size (f k)), wrap64 (int (card K))))"

text \<open>The stores the listings of a walk see.\<close>

inductive walk_sees :: "'s ObjectBackend \<Rightarrow> 's meddling \<Rightarrow> string \<Rightarrow> string \<Rightarrow> nat \<Rightarrow> string \<Rightarrow> 's \<Rightarrow> 's list \<Rightarrow> bool" for B env bkt p where
  last: "b_ListObjects B (walk_request bkt p tok) (env i s) = (Inr res, s1) \<Longrightarrow> \<not> lr_more res \<Longrightarrow> walk_sees B env bkt p i tok s [env i s]"
| more: "b_ListObjects B (walk_request bkt p tok) (env i s) = (Inr res, s1) \<Longrightarrow> lr_more res \<Longrightarrow> walk_sees B env bkt p (Suc i) (lr_Next res) s1 ss
    \<Longrightarrow> walk_sees B env bkt p i tok s (env i s # ss)"

text \<open>A total measured on these stores: no key counts twice, each counts with a size it had in one of them, and every key that
  was there in all of them counts. When they agree on the bucket it is the total of the bucket.\<close>

definition counted :: "('s \<Rightarrow> string \<Rightarrow> string \<Rightarrow> object_content option) \<Rightarrow> 's list \<Rightarrow> string \<Rightarrow> string \<Rightarrow> int \<times> int \<Rightarrow> bool" where
  "counted contents ss bkt p v \<longleftrightarrow> (\<exists>K m. finite K
     \<and> (\<forall>k \<in> K. HasPrefix k p \<and> m k \<in> set ss \<and> contents (m k) bkt k \<noteq> None)
     \<and> (\<forall>k. HasPrefix k p \<longrightarrow> (\<forall>s \<in> set ss. contents s bkt k \<noteq> None) \<longrightarrow> k \<in> K)
     \<and> v = (wrap64 (\<Sum>k \<in> K. content_size (contents (m k) bkt k)), wrap64 (int (card K))))"

lemma counted_still:
  assumes "counted contents ss bkt p v" "\<forall>s \<in> set ss. contents s bkt = f"
  shows "v = totals f p"
proof -
  obtain K m where K: "\<forall>k \<in> K. HasPrefix k p \<and> m k \<in> set ss \<and> contents (m k) bkt k \<noteq> None"
    "\<forall>k. HasPrefix k p \<longrightarrow> (\<forall>s \<in> set ss. contents s bkt k \<noteq> None) \<longrightarrow> k \<in> K"
    and v: "v = (wrap64 (\<Sum>k \<in> K. content_size (contents (m k) bkt k)), wrap64 (int (card K)))" using assms(1) by (auto simp: counted_def)
  have "K = {k. HasPrefix k p \<and> f k \<noteq> None}" using K assms(2) by fastforce
  moreover have "(\<Sum>k \<in> K. content_size (contents (m k) bkt k)) = (\<Sum>k \<in> K. content_size (f k))" using K(1) assms(2) by (intro sum.cong) auto
  ultimately show ?thesis using v by (simp add: totals_def Let_def)
qed

context object_listing
begin

lemma page_sum:
  assumes l: "b_ListObjects B (walk_request bkt p tok) s = (Inr res, s1)"
  shows "sum_list (map oi_Size (lr_Objects res)) = (\<Sum>k \<in> oi_Key ` set (lr_Objects res). content_size (contents s bkt k))"
    and "length (lr_Objects res) = card (oi_Key ` set (lr_Objects res))"
proof -
  have sz: "oi_Size i = content_size (contents s bkt (oi_Key i))" if "i \<in> set (lr_Objects res)" for i
    using list_sound [OF l _ that] by (auto simp: walk_request_def content_size_def)
  have d: "distinct (map oi_Key (lr_Objects res))" using list_once [OF l] by (simp add: walk_request_def)
  have "map oi_Size (lr_Objects res) = map (\<lambda>k. content_size (contents s bkt k)) (map oi_Key (lr_Objects res))" using sz by simp
  then show "sum_list (map oi_Size (lr_Objects res)) = (\<Sum>k \<in> oi_Key ` set (lr_Objects res). content_size (contents s bkt k))"
    using sum_list_distinct_conv_sum_set [OF d, of "\<lambda>k. content_size (contents s bkt k)"] by (metis set_map)
  show "length (lr_Objects res) = card (oi_Key ` set (lr_Objects res))" using distinct_card [OF d] by simp
qed

lemma walk_counted:
  assumes "walkPrefix B env bkt p i tok (wrap64 b, wrap64 n) s = Some (Inr v, s')"
  shows "\<exists>ss K m. walk_sees B env bkt p i tok s ss \<and> finite K
    \<and> (\<forall>k \<in> K. HasPrefix k p \<and> after tok k \<and> m k \<in> set ss \<and> contents (m k) bkt k \<noteq> None)
    \<and> (\<forall>k. HasPrefix k p \<longrightarrow> after tok k \<longrightarrow> (\<forall>s \<in> set ss. contents s bkt k \<noteq> None) \<longrightarrow> k \<in> K)
    \<and> v = (wrap64 (b + (\<Sum>k \<in> K. content_size (contents (m k) bkt k))), wrap64 (n + int (card K)))"
  (is "?P i tok b n s v")
proof -
  have main: "fst y = Inr v \<longrightarrow> B' = B \<longrightarrow> env' = env \<longrightarrow> bkt' = bkt \<longrightarrow> p' = p \<longrightarrow> acc = (wrap64 b, wrap64 n) \<longrightarrow> ?P i tok b n s v"
    if "walkPrefix B' env' bkt' p' i tok acc s = Some y" for B' env' bkt' p' i tok acc s y v b n
    using that
  proof (induction arbitrary: v b n rule: walkPrefix.raw_induct [rotated, consumes 1, case_names walk])
    case (walk rec B' env' bkt' p' i tok acc s y)
    show ?case
    proof (intro impI)
      assume y: "fst y = Inr v" and eq: "B' = B" "env' = env" "bkt' = bkt" "p' = p" "acc = (wrap64 b, wrap64 n)"
      obtain lr s1 where l: "b_ListObjects B (walk_request bkt p tok) (env i s) = (lr, s1)" by force
      obtain res where res: "lr = Inr res" using walk(2) y l eq by (cases lr) auto
      note l = l [unfolded res]
      let ?s = "env i s" and ?K = "oi_Key ` set (lr_Objects res)"
      note ps = page_sum [OF l]
      have a: "add_page (map oi_Size (lr_Objects res)) acc = (wrap64 (b + (\<Sum>k \<in> ?K. content_size (contents ?s bkt k))), wrap64 (n + int (card ?K)))"
        by (simp add: add_page_eq ps eq)
      have K: "\<forall>k \<in> ?K. HasPrefix k p \<and> after tok k \<and> contents ?s bkt k \<noteq> None"
        using list_sound [OF l] list_once [OF l] by (fastforce simp: walk_request_def)
      show "?P i tok b n s v"
      proof (cases "lr_more res")
        case False
        then have v: "v = (wrap64 (b + (\<Sum>k \<in> ?K. content_size (contents ?s bkt k))), wrap64 (n + int (card ?K)))"
          using walk(2) y l a eq by (auto simp: lr_more_def)
        have "k \<in> ?K" if "HasPrefix k p" "after tok k" "contents ?s bkt k \<noteq> None" for k
          using list_complete [OF l, of k] that False by (simp add: walk_request_def)
        then show ?thesis using walk_sees.last [of B bkt p tok env i s, OF l False] K v by (intro exI [of _ "[?s]"] exI [of _ ?K] exI [of _ "\<lambda>_. ?s"]) auto
      next
        case True
        then have "rec B env bkt p (Suc i) (lr_Next res) (wrap64 (b + (\<Sum>k \<in> ?K. content_size (contents ?s bkt k))), wrap64 (n + int (card ?K))) s1 = Some y"
          using walk(2) l a eq by (auto simp: lr_more_def)
        from walk(1) [OF this, of v "b + (\<Sum>k \<in> ?K. content_size (contents ?s bkt k))" "n + int (card ?K)"] y
        obtain ss L m where L: "walk_sees B env bkt p (Suc i) (lr_Next res) s1 ss" "finite L"
          "\<forall>k \<in> L. HasPrefix k p \<and> after (lr_Next res) k \<and> m k \<in> set ss \<and> contents (m k) bkt k \<noteq> None"
          "\<forall>k. HasPrefix k p \<longrightarrow> after (lr_Next res) k \<longrightarrow> (\<forall>s \<in> set ss. contents s bkt k \<noteq> None) \<longrightarrow> k \<in> L"
          "v = (wrap64 (b + (\<Sum>k \<in> ?K. content_size (contents ?s bkt k)) + (\<Sum>k \<in> L. content_size (contents (m k) bkt k))), wrap64 (n + int (card ?K) + int (card L)))"
          by blast
        let ?m = "\<lambda>k. if k \<in> ?K then ?s else m k"
        have d: "?K \<inter> L = {}" using list_once [OF l] L(3) True by (fastforce simp: walk_request_def)
        have "(\<Sum>k \<in> ?K. content_size (contents (?m k) bkt k)) = (\<Sum>k \<in> ?K. content_size (contents ?s bkt k))" by (rule sum.cong) simp_all
        moreover have "(\<Sum>k \<in> L. content_size (contents (?m k) bkt k)) = (\<Sum>k \<in> L. content_size (contents (m k) bkt k))"
          by (rule sum.cong) (use d in auto)
        ultimately have sm: "(\<Sum>k \<in> ?K \<union> L. content_size (contents (?m k) bkt k)) = (\<Sum>k \<in> ?K. content_size (contents ?s bkt k)) + (\<Sum>k \<in> L. content_size (contents (m k) bkt k))"
          by (simp only: sum.union_disjoint [OF finite_imageI [OF finite_set] L(2) d])
        have "card (?K \<union> L) = card ?K + card L" using d L(2) by (simp add: card_Un_disjoint)
        then have v: "v = (wrap64 (b + (\<Sum>k \<in> ?K \<union> L. content_size (contents (?m k) bkt k))), wrap64 (n + int (card (?K \<union> L))))"
          by (simp only: L(5) sm of_nat_add add.assoc)
        have sound: "\<forall>k \<in> ?K \<union> L. HasPrefix k p \<and> after tok k \<and> ?m k \<in> set (?s # ss) \<and> contents (?m k) bkt k \<noteq> None"
          using K L(3) list_progress [OF l _ True] by (auto simp: walk_request_def)
        have all: "\<forall>k. HasPrefix k p \<longrightarrow> after tok k \<longrightarrow> (\<forall>s \<in> set (?s # ss). contents s bkt k \<noteq> None) \<longrightarrow> k \<in> ?K \<union> L"
        proof (intro allI impI)
          fix k assume k: "HasPrefix k p" "after tok k" "\<forall>s \<in> set (?s # ss). contents s bkt k \<noteq> None"
          then show "k \<in> ?K \<union> L" using list_complete [OF l, of k] L(4) by (auto simp: walk_request_def)
        qed
        have fin: "finite (?K \<union> L)" using L(2) by simp
        have sees: "walk_sees B env bkt p i tok s (?s # ss)" by (rule walk_sees.more [of B bkt p tok env i s, OF l True L(1)])
        show ?thesis
          by (rule exI [of _ "?s # ss"], rule exI [of _ "?K \<union> L"], rule exI [of _ ?m]) (intro conjI, rule sees, rule fin, rule sound, rule all, rule v)
      qed
    qed
  qed
  show ?thesis using main [of B env bkt p i tok "(wrap64 b, wrap64 n)" s "(Inr v, s')" v b n] assms by simp
qed

text \<open>A walk ends when nobody adds objects meanwhile.\<close>

lemma walkPrefix_returns:
  assumes "\<And>i s. contents (env i s) = contents s"
  shows "walkPrefix B env bkt p i tok acc s \<noteq> None"
proof (induction "card (matching s bkt p tok)" arbitrary: i tok acc s rule: less_induct)
  case less
  obtain lr s1 where l: "b_ListObjects B (walk_request bkt p tok) (env i s) = (lr, s1)" by force
  have c: "contents s1 = contents s" using list_reads [OF l] assms by simp
  show ?case
  proof (cases "\<exists>res. lr = Inr res \<and> lr_more res")
    case False
    then show ?thesis using l by (subst walkPrefix.simps) (auto simp: lr_more_def split: sum.splits)
  next
    case True
    then obtain res where res: "lr = Inr res" "lr_more res" by blast
    note l = l [unfolded res(1)]
    let ?K = "oi_Key ` set (lr_Objects res)" and ?M = "matching s1 bkt p (lr_Next res)"
    have s: "matching (env i s) bkt p t = matching s bkt p t" "matching s1 bkt p t = matching s bkt p t" for t by (simp_all add: matching_def c assms)
    have m: "matching s bkt p tok = ?K \<union> ?M" "?K \<inter> ?M = {}" using page_keys [OF l] res(2) s by (simp_all add: walk_request_def)
    have "?K \<noteq> {}" using list_progress [OF l _ res(2)] unfolding walk_request_def by fastforce
    then have "0 < card ?K" by (simp add: card_gt_0_iff)
    moreover have "finite ?M" by (rule finite_subset [OF _ finite_keys]) (auto simp: matching_def)
    ultimately have "card ?M < card (matching s bkt p tok)" unfolding m(1) using card_Un_disjoint [OF _ _ m(2)] by simp
    from less.hyps [OF this] show ?thesis using l res by (subst walkPrefix.simps) (auto simp: lr_more_def)
  qed
qed

lemma walk_totals:
  assumes "walkPrefix B env bkt p 0 [] (0, 0) s = Some (Inr v, s')"
  shows "\<exists>ss. walk_sees B env bkt p 0 [] s ss \<and> counted contents ss bkt p v"
proof -
  have "wrap64 0 = 0" by (simp add: wrap64_def)
  then show ?thesis using walk_counted [of env bkt p 0 "[]" 0 0 s v s'] assms after_start unfolding counted_def by auto
qed

end

section \<open>Runs\<close>

text \<open>Requests for a size, scans, uploads that are recorded, buckets that are forgotten and changes of the tracking table, in any
  order, while anyone changes the stores, also between the pages of a walk. The run keeps, of every walk that gave a size, the time it ended and the stores its pages saw,
  and the answers with the time of the request and of the answer. Backend and bucket are segments of the URL, so they contain no slash.\<close>

record 's size_run =
  sr_now :: time
  sr_store :: 's
  sr_svc :: SizeService
  sr_walks :: "(time \<times> 's list) list"
  sr_answers :: "(time \<times> time \<times> string \<times> string \<times> string \<times> int \<times> int) list"

definition answered :: "time \<Rightarrow> time \<Rightarrow> string \<Rightarrow> string \<Rightarrow> string \<Rightarrow> size_err + int \<times> int \<Rightarrow> (time \<times> time \<times> string \<times> string \<times> string \<times> int \<times> int) list" where
  "answered t t' bid bkt p res = (case res of Inl _ \<Rightarrow> [] | Inr (n, c) \<Rightarrow> [(t, t', bid, bkt, p, n, c)])"

definition entry_fresh :: "time \<Rightarrow> string \<Rightarrow> string \<Rightarrow> string \<Rightarrow> SizeService \<Rightarrow> bool" where
  "entry_fresh now bid bkt p S \<longleftrightarrow> (\<exists>e x. map_of (sz_prefixCache S) (bucketKey bid bkt @ ''/'' @ p) = Some e \<and> pe_expiresAt e = Some x \<and> now < x)"

text \<open>What a request adds to the walks: nothing when it is served from the cache or fails.\<close>

definition walked :: "(string \<Rightarrow> 's ObjectBackend option) \<Rightarrow> 's meddling \<Rightarrow> time \<Rightarrow> time \<Rightarrow> string \<Rightarrow> string \<Rightarrow> string \<Rightarrow> SizeService \<Rightarrow> 's \<Rightarrow> size_err + int \<times> int
    \<Rightarrow> (time \<times> 's list) list \<Rightarrow> bool" where
  "walked reg env t t' bid bkt p S s res ws \<longleftrightarrow>
     (if entry_fresh t bid bkt p S \<or> (\<exists>e. res = Inl e) then ws = []
      else \<exists>B ss. reg bid = Some B \<and> walk_sees B env bkt p 0 [] s ss \<and> ws = [(t', ss)])"

definition segment :: "string \<Rightarrow> bool" where
  "segment x \<longleftrightarrow> CHR ''/'' \<notin> set x"

inductive size_step :: "(string \<Rightarrow> 's ObjectBackend option) \<Rightarrow> 's size_run \<Rightarrow> 's size_run \<Rightarrow> bool" for reg where
  change: "sr_now st \<le> t \<Longrightarrow> size_step reg st (st\<lparr>sr_now := t, sr_store := s'\<rparr>)"
| ask: "sr_now st \<le> t \<Longrightarrow> t \<le> t' \<Longrightarrow> segment bid \<Longrightarrow> segment bkt \<Longrightarrow> PrefixSize db reg env t t' bid bkt p (sr_svc st) (sr_store st) = Some (res, S', s')
    \<Longrightarrow> walked reg env t t' bid bkt p (sr_svc st) (sr_store st) res ws
    \<Longrightarrow> size_step reg st \<lparr>sr_now = t', sr_store = s', sr_svc = S', sr_walks = sr_walks st @ ws, sr_answers = sr_answers st @ answered t t' bid bkt p res\<rparr>"
| scan: "sr_now st \<le> t \<Longrightarrow> sizes_Scan reg env t bid bkt (sr_svc st) (sr_store st) = Some (u, S', s')
    \<Longrightarrow> size_step reg st (st\<lparr>sr_now := t, sr_store := s', sr_svc := S'\<rparr>)"
| forget: "size_step reg st (st\<lparr>sr_svc := sizes_Forget bid bkt (sr_svc st)\<rparr>)"
| record_upload: "size_step reg st (st\<lparr>sr_svc := sizes_Recorded bid bkt n (sr_svc st)\<rparr>)"
| track: "size_step reg st (st\<lparr>sr_svc := (sr_svc st)\<lparr>sz_Store := rows\<rparr>\<rparr>)"

inductive size_reach :: "(string \<Rightarrow> 's ObjectBackend option) \<Rightarrow> 's size_run \<Rightarrow> bool" for reg where
  start: "size_reach reg \<lparr>sr_now = t, sr_store = s, sr_svc = sizes_New rows, sr_walks = [], sr_answers = []\<rparr>"
| step: "size_reach reg st \<Longrightarrow> size_step reg st st' \<Longrightarrow> size_reach reg st'"

lemma sep_inj: "c \<notin> set xs \<Longrightarrow> c \<notin> set xs' \<Longrightarrow> xs @ c # ys = xs' @ c # ys' \<longleftrightarrow> xs = xs' \<and> ys = ys'"
proof (induction xs arbitrary: xs')
  case Nil
  then show ?case by (cases xs') auto
next
  case (Cons x xs)
  then show ?case by (cases xs') auto
qed

lemma segments_inj:
  assumes "segment a" "segment b" "segment a'" "segment b'"
  shows "bucketKey a b @ ''/'' @ p = bucketKey a' b' @ ''/'' @ p' \<longleftrightarrow> a = a' \<and> b = b' \<and> p = p'"
  using assms by (simp add: bucketKey_def segment_def sep_inj)

lemma walk_sees_unique: "walk_sees B env bkt p i tok s ss \<Longrightarrow> walk_sees B env bkt p i tok s ss' \<Longrightarrow> ss = ss'"
proof (induction arbitrary: ss' rule: walk_sees.induct)
  case (last tok i s res s1)
  note hyps = last.hyps
  from last.prems show ?case by cases (use hyps in simp_all)
next
  case (more tok i s res s1 ss)
  note hyps = more.hyps and IH = more.IH
  from more.prems show ?case
  proof cases
    case (last res' s1')
    then show ?thesis using hyps by simp
  next
    case (more res' s1' ss'')
    then show ?thesis using hyps IH by simp
  qed
qed

text \<open>A total measured by a walk of the past.\<close>

definition measured :: "(string \<Rightarrow> 's \<Rightarrow> string \<Rightarrow> string \<Rightarrow> object_content option) \<Rightarrow> 's size_run \<Rightarrow> time \<Rightarrow> string \<Rightarrow> string \<Rightarrow> string \<Rightarrow> int \<times> int \<Rightarrow> bool" where
  "measured contents st t0 bid bkt p v \<longleftrightarrow> (\<exists>ss. (t0, ss) \<in> set (sr_walks st) \<and> counted (contents bid) ss bkt p v)"

definition entries_true :: "(string \<Rightarrow> 's \<Rightarrow> string \<Rightarrow> string \<Rightarrow> object_content option) \<Rightarrow> 's size_run \<Rightarrow> bool" where
  "entries_true contents st \<longleftrightarrow> (\<forall>bid bkt p e x. segment bid \<longrightarrow> segment bkt \<longrightarrow> map_of (sz_prefixCache (sr_svc st)) (bucketKey bid bkt @ ''/'' @ p) = Some e \<longrightarrow> pe_expiresAt e = Some x
     \<longrightarrow> (\<exists>t0 \<le> sr_now st. x = t0 + prefixCacheTTL \<and> measured contents st t0 bid bkt p (pe_bytes e, pe_count e)))"

definition answers_true :: "(string \<Rightarrow> 's \<Rightarrow> string \<Rightarrow> string \<Rightarrow> object_content option) \<Rightarrow> 's size_run \<Rightarrow> bool" where
  "answers_true contents st \<longleftrightarrow> (\<forall>t t' bid bkt p n c. (t, t', bid, bkt, p, n, c) \<in> set (sr_answers st)
     \<longrightarrow> (\<exists>t0 \<le> t'. t < t0 + prefixCacheTTL \<and> measured contents st t0 bid bkt p (n, c)))"

lemma measured_mono: "measured contents st t0 bid bkt p v \<Longrightarrow> set (sr_walks st) \<subseteq> set (sr_walks st') \<Longrightarrow> measured contents st' t0 bid bkt p v"
  by (auto simp: measured_def)

text \<open>What an answer is: the entry of the cache, or the total of the store walked over.\<close>

lemma PrefixSize_cases:
  assumes reg: "\<forall>bid B. reg bid = Some B \<longrightarrow> object_listing B (contents bid) (after bid)"
    and run: "PrefixSize db reg env t t' bid bkt p S s = Some (res, S', s')"
  obtains (kept) "\<And>k e x. map_of (sz_prefixCache S') k = Some e \<Longrightarrow> pe_expiresAt e = Some x \<Longrightarrow> map_of (sz_prefixCache S) k = Some e"
      "\<And>v. res = Inr v \<Longrightarrow> \<exists>e x. map_of (sz_prefixCache S) (bucketKey bid bkt @ ''/'' @ p) = Some e \<and> pe_expiresAt e = Some x \<and> t < x \<and> v = (pe_bytes e, pe_count e)"
  | (walk) e B ss where "map_of (sz_prefixCache S') = (map_of (sz_prefixCache S))(bucketKey bid bkt @ ''/'' @ p \<mapsto> e)" "pe_expiresAt e = Some (t' + prefixCacheTTL)"
      "res = Inr (pe_bytes e, pe_count e)" "\<not> entry_fresh t bid bkt p S" "reg bid = Some B" "walk_sees B env bkt p 0 [] s ss" "counted (contents bid) ss bkt p (pe_bytes e, pe_count e)"
proof -
  let ?k = "bucketKey bid bkt @ ''/'' @ p"
  define e where "e = (case map_of (sz_prefixCache S) ?k of Some e \<Rightarrow> e | None \<Rightarrow> \<lparr>pe_bytes = 0, pe_count = 0, pe_expiresAt = None\<rparr>)"
  define S1 where "S1 = S\<lparr>sz_prefixCache := AList.update ?k e (sz_prefixCache S)\<rparr>"
  have S1: "map_of (sz_prefixCache S1) = (map_of (sz_prefixCache S))(?k \<mapsto> e)" by (simp add: S1_def update_conv')
  have old: "map_of (sz_prefixCache S) k = Some e'" if "map_of (sz_prefixCache S1) k = Some e'" "pe_expiresAt e' = Some x" for k e' x
    using that unfolding S1 by (auto simp: e_def split: if_splits option.splits)
  note run = run [unfolded PrefixSize_def Let_def e_def [symmetric] S1_def [symmetric]]
  consider (idle) "S' = S" "\<And>v. res \<noteq> Inr v" | (tracked) "IsTracked db bid bkt S = Inr True" using run by (auto split: sum.splits bool.splits)
  then show thesis
  proof cases
    case idle
    then show thesis using kept by auto
  next
    case tracked
    show thesis
    proof (cases "\<exists>x \<in> set_option (pe_expiresAt e). t < x")
      case True
      then obtain x where x: "pe_expiresAt e = Some x" "t < x" by (cases "pe_expiresAt e") auto
      then have "res = Inr (pe_bytes e, pe_count e)" "S' = S1" using run tracked by auto
      moreover have "map_of (sz_prefixCache S) ?k = Some e" using x(1) by (simp add: e_def split: option.splits)
      ultimately show thesis using kept old x by auto
    next
      case False
      then consider (none) "S' = S1" "\<And>v. res \<noteq> Inr v"
        | (some) b where "reg bid = Some b" "map_option (\<lambda>(res, s1). case res of Inl err \<Rightarrow> (Inl (SizeBackendErr err), S1, s1)
            | Inr (bytes, cnt) \<Rightarrow> (Inr (bytes, cnt), S1\<lparr>sz_prefixCache := AList.update ?k \<lparr>pe_bytes = bytes, pe_count = cnt, pe_expiresAt = Some (time_Add t' prefixCacheTTL)\<rparr> (sz_prefixCache S1)\<rparr>, s1))
            (walkPrefix b env bkt p 0 [] (0, 0) s) = Some (res, S', s')"
        using run tracked by (auto split: option.splits)
      then show thesis
      proof cases
        case none
        then show thesis using kept old by auto
      next
        case some
        from some(2) obtain r s1 where w: "walkPrefix b env bkt p 0 [] (0, 0) s = Some (r, s1)" by auto
        show thesis
        proof (cases r)
          case (Inl err)
          then have "S' = S1" "res = Inl (SizeBackendErr err)" using some(2) w(1) by auto
          then show thesis using kept old by auto
        next
          case (Inr v)
          from object_listing.walk_totals [OF reg [rule_format, OF some(1)] w [unfolded Inr]] obtain ss
            where ss: "walk_sees b env bkt p 0 [] s ss" "counted (contents bid) ss bkt p v" by blast
          define e' where "e' = \<lparr>pe_bytes = fst v, pe_count = snd v, pe_expiresAt = Some (t' + prefixCacheTTL)\<rparr>"
          have h: "S' = S1\<lparr>sz_prefixCache := AList.update ?k e' (sz_prefixCache S1)\<rparr>" "res = Inr v"
            using some(2) w(1) Inr by (auto simp: e'_def time_Add_def split: prod.splits)
          have "\<not> entry_fresh t bid bkt p S" using False by (auto simp: entry_fresh_def e_def)
          then show thesis
          proof (rule walk [of e' b ss, rotated 3])
            show "map_of (sz_prefixCache S') = (map_of (sz_prefixCache S))(?k \<mapsto> e')" using S1 by (simp add: h(1) update_conv')
          qed (use h ss some(1) in \<open>simp_all add: e'_def\<close>)
        qed
      qed
    qed
  qed
qed

lemma PrefixSize_returns:
  assumes "\<forall>bid B. reg bid = Some B \<longrightarrow> object_listing B (contents bid) (after bid)"
    and "\<And>i s. contents bid (env i s) = contents bid s"
  shows "PrefixSize db reg env t t' bid bkt p S s \<noteq> None"
proof (cases "reg bid")
  case (Some b)
  then obtain r s1 where "walkPrefix b env bkt p 0 [] (0, 0) s = Some (r, s1)" using object_listing.walkPrefix_returns [where env = env, OF assms(1) [rule_format, OF Some] assms(2), of bkt p 0 "[]" "(0, 0)" s]
    by auto
  then show ?thesis using Some by (simp add: PrefixSize_def Let_def split: sum.split bool.split)
qed (auto simp: PrefixSize_def Let_def split: sum.splits bool.splits)

text \<open>Steps that leave the answers alone and keep entries of the cache at most.\<close>

lemma kept_step:
  assumes inv: "entries_true contents st" "answers_true contents st"
    and "sr_now st \<le> sr_now st'" "set (sr_walks st) \<subseteq> set (sr_walks st')" "sr_answers st' = sr_answers st"
    and cache: "\<And>k e x. map_of (sz_prefixCache (sr_svc st')) k = Some e \<Longrightarrow> pe_expiresAt e = Some x \<Longrightarrow> map_of (sz_prefixCache (sr_svc st)) k = Some e"
  shows "entries_true contents st' \<and> answers_true contents st'"
proof
  show "entries_true contents st'" unfolding entries_true_def
  proof (intro allI impI)
    fix bid bkt p e x assume "segment bid" "segment bkt" "map_of (sz_prefixCache (sr_svc st')) (bucketKey bid bkt @ ''/'' @ p) = Some e" and x: "pe_expiresAt e = Some x"
    with cache have "map_of (sz_prefixCache (sr_svc st)) (bucketKey bid bkt @ ''/'' @ p) = Some e" by blast
    with inv(1) \<open>segment bid\<close> \<open>segment bkt\<close> x obtain t0 where "t0 \<le> sr_now st" "x = t0 + prefixCacheTTL" "measured contents st t0 bid bkt p (pe_bytes e, pe_count e)"
      unfolding entries_true_def by blast
    then show "\<exists>t0 \<le> sr_now st'. x = t0 + prefixCacheTTL \<and> measured contents st' t0 bid bkt p (pe_bytes e, pe_count e)"
      using assms(3) measured_mono [OF _ assms(4)] by (intro exI [of _ t0]) auto
  qed
  show "answers_true contents st'" using inv(2) measured_mono [OF _ assms(4)] unfolding answers_true_def assms(5) by meson
qed

lemma sizes_Scan_prefixes: "sizes_Scan reg env t bid bkt S s = Some (u, S', s') \<Longrightarrow> sz_prefixCache S' = sz_prefixCache S"
  by (auto simp: sizes_Scan_def Let_def map_option_case split: option.splits sum.splits prod.splits)

lemma size_step_inv:
  assumes reg: "\<forall>bid B. reg bid = Some B \<longrightarrow> object_listing B (contents bid) (after bid)"
    and "size_step reg st st'" "entries_true contents st" "answers_true contents st"
  shows "entries_true contents st' \<and> answers_true contents st'"
  using assms(2)
proof cases
  case (ask t t' bid bkt db env p res S' s' ws)
  note inv = assms(3,4)
  have seg: "segment bid" "segment bkt" by fact+
  let ?mid = "st\<lparr>sr_now := t', sr_store := s', sr_walks := sr_walks st @ ws\<rparr>"
  have mid: "entries_true contents ?mid \<and> answers_true contents ?mid" by (rule kept_step [OF inv]) (use ask(2,3) in auto)
  have same: "measured contents st' = measured contents ?mid" by (simp add: ask(1) measured_def fun_eq_iff)
  from reg ask(6) show ?thesis
  proof (cases rule: PrefixSize_cases)
    case kept
    have new: "\<exists>t0 \<le> t'. t < t0 + prefixCacheTTL \<and> measured contents ?mid t0 bid bkt p v" if v: "res = Inr v" for v
    proof -
      from kept(2) [OF v] obtain e x where e: "map_of (sz_prefixCache (sr_svc st)) (bucketKey bid bkt @ ''/'' @ p) = Some e" "pe_expiresAt e = Some x" "t < x" "v = (pe_bytes e, pe_count e)" by blast
      then obtain t0 where "t0 \<le> sr_now st" "x = t0 + prefixCacheTTL" "measured contents st t0 bid bkt p v" using inv(1) seg unfolding entries_true_def by blast
      then show ?thesis using e(3) ask(2,3) measured_mono [of contents st t0 bid bkt p v ?mid] by (intro exI [of _ t0]) auto
    qed
    have e: "entries_true contents st'" using mid kept(1) unfolding entries_true_def same by (simp add: ask(1))
    have "answers_true contents st'" using mid new unfolding answers_true_def same by (auto simp: ask(1) answered_def split: sum.splits)
    with e show ?thesis ..
  next
    case (walk e B ss)
    have "ws = [(t', ss')] \<Longrightarrow> ss' = ss" for ss' using ask(7) walk(4,5,6) walk_sees_unique by (fastforce simp: walked_def walk(3))
    then have now: "measured contents ?mid t' bid bkt p (pe_bytes e, pe_count e)"
      using ask(7) walk(3,4,7) by (auto simp: walked_def measured_def)
    have "entries_true contents st'" unfolding entries_true_def same
    proof (intro allI impI)
      fix bid' bkt' p' e' x assume a: "segment bid'" "segment bkt'" "map_of (sz_prefixCache (sr_svc st')) (bucketKey bid' bkt' @ ''/'' @ p') = Some e'" "pe_expiresAt e' = Some x"
      show "\<exists>t0 \<le> sr_now st'. x = t0 + prefixCacheTTL \<and> measured contents ?mid t0 bid' bkt' p' (pe_bytes e', pe_count e')"
      proof (cases "bid' = bid \<and> bkt' = bkt \<and> p' = p")
        case True
        then show ?thesis using a(3,4) walk(1,2) now by (auto simp: ask(1))
      next
        case False
        then have "map_of (sz_prefixCache (sr_svc ?mid)) (bucketKey bid' bkt' @ ''/'' @ p') = Some e'"
          using a walk(1) segments_inj [OF a(1,2) seg, of p' p] by (auto simp: ask(1) split: if_splits)
        then show ?thesis using mid a(1,2,4) unfolding entries_true_def by (simp add: ask(1))
      qed
    qed
    moreover have "answers_true contents st'" unfolding answers_true_def same
    proof (intro allI impI)
      fix u u' b k q n c assume "(u, u', b, k, q, n, c) \<in> set (sr_answers st')"
      then consider "(u, u', b, k, q, n, c) \<in> set (sr_answers ?mid)" | "(u, u', b, k, q, n, c) = (t, t', bid, bkt, p, pe_bytes e, pe_count e)"
        using walk(3) by (auto simp: ask(1) answered_def)
      then show "\<exists>t0 \<le> u'. u < t0 + prefixCacheTTL \<and> measured contents ?mid t0 b k q (n, c)"
      proof cases
        case 1
        then show ?thesis using mid unfolding answers_true_def by blast
      next
        case 2
        then show ?thesis using now ask(3) by (auto simp: prefixCacheTTL_def)
      qed
    qed
    ultimately show ?thesis ..
  qed
next
  case (change t s')
  show ?thesis by (rule kept_step [OF assms(3,4)]) (use change in auto)
next
  case (scan t env bid bkt u S' s')
  then have "sz_prefixCache S' = sz_prefixCache (sr_svc st)" by (metis sizes_Scan_prefixes)
  then show ?thesis by (intro kept_step [OF assms(3,4)]) (use scan in auto)
next
  case (forget bid bkt)
  show ?thesis by (rule kept_step [OF assms(3,4)]) (auto simp: forget sizes_Forget_def map_of_filter_key split: if_splits)
next
  case (record_upload bid bkt n)
  have "sz_prefixCache (sizes_Recorded bid bkt n S) = sz_prefixCache S" for S by (simp add: sizes_Recorded_def split: option.splits)
  then show ?thesis by (intro kept_step [OF assms(3,4)]) (auto simp: record_upload)
next
  case (track rows)
  show ?thesis by (rule kept_step [OF assms(3,4)]) (auto simp: track)
qed

text \<open>C20: A folder size shown is at most a minute old. However requests for sizes, scans, recorded uploads, forgotten buckets, changes of the tracking
  table and changes of the stores interleave, the latter also between the pages of a listing, every size answered was measured by a walk that ended
  before the answer and less than sixty seconds before the request, or between request and answer: in it no object counts twice, each counts
  with a size it had at one of its pages, and every object that was there at all of them counts, so that it is exactly the total (as 64-bit integers) when the bucket did not change
  meanwhile. A request returns when nobody changes the contents during its walk.\<close>

theorem folder_sizes_recent:
  assumes reg: "\<forall>bid B. reg bid = Some B \<longrightarrow> object_listing B (contents bid) (after bid)"
    and reach: "size_reach reg st"
  shows "((\<forall>i s. contents b (env i s) = contents b s) \<longrightarrow> PrefixSize db reg env now later b k q (sr_svc st) (sr_store st) \<noteq> None)
    \<and> (\<forall>t t' bid bkt p n c. (t, t', bid, bkt, p, n, c) \<in> set (sr_answers st) \<longrightarrow>
      (\<exists>t0 ss. (t0, ss) \<in> set (sr_walks st) \<and> t0 \<le> t' \<and> t < t0 + 60 * Second \<and> counted (contents bid) ss bkt p (n, c)
         \<and> (\<forall>f. (\<forall>s \<in> set ss. contents bid s bkt = f) \<longrightarrow> (n, c) = totals f p)))"
proof (intro conjI impI)
  show "PrefixSize db reg env now later b k q (sr_svc st) (sr_store st) \<noteq> None" if "\<forall>i s. contents b (env i s) = contents b s"
    by (rule PrefixSize_returns [OF reg]) (use that in blast)
  have "entries_true contents st \<and> answers_true contents st" using reach
  proof induction
    case (start t s rows)
    show ?case by (simp add: entries_true_def answers_true_def sizes_New_def)
  next
    case (step st st')
    then show ?case using size_step_inv [OF reg] by blast
  qed
  then have ans: "answers_true contents st" ..
  show "\<forall>t t' bid bkt p n c. (t, t', bid, bkt, p, n, c) \<in> set (sr_answers st) \<longrightarrow>
      (\<exists>t0 ss. (t0, ss) \<in> set (sr_walks st) \<and> t0 \<le> t' \<and> t < t0 + 60 * Second \<and> counted (contents bid) ss bkt p (n, c)
         \<and> (\<forall>f. (\<forall>s \<in> set ss. contents bid s bkt = f) \<longrightarrow> (n, c) = totals f p))"
  proof (intro allI impI)
    fix t t' bid bkt p n c assume "(t, t', bid, bkt, p, n, c) \<in> set (sr_answers st)"
    with ans obtain t0 ss where ss: "t0 \<le> t'" "t < t0 + prefixCacheTTL" "(t0, ss) \<in> set (sr_walks st)" "counted (contents bid) ss bkt p (n, c)"
      unfolding answers_true_def measured_def by blast
    then show "\<exists>t0 ss. (t0, ss) \<in> set (sr_walks st) \<and> t0 \<le> t' \<and> t < t0 + 60 * Second \<and> counted (contents bid) ss bkt p (n, c)
         \<and> (\<forall>f. (\<forall>s \<in> set ss. contents bid s bkt = f) \<longrightarrow> (n, c) = totals f p)"
      using counted_still [OF ss(4)] by (intro exI [of _ t0] exI [of _ ss]) (simp add: prefixCacheTTL_def)
  qed
qed

text \<open>Two objects under a folder, the second added after the folder was measured: a request half a minute later still shows one.\<close>

definition ex_sreg :: "string \<Rightarrow> mem ObjectBackend option" where
  "ex_sreg i = (if i = ''m'' then Some (memory (\<lambda>_. ''u'') i) else None)"

definition ex_grown :: mem where
  "ex_grown = ex_putm ''a/y'' (ex_putm ''a/x'' ex_mem)"

definition ex_asks :: "((size_err + int \<times> int) \<times> SizeService \<times> mem) option \<times> ((size_err + int \<times> int) \<times> SizeService \<times> mem) option" where
  "ex_asks = (let r1 = PrefixSize None ex_sreg (\<lambda>_ s. s) 0 0 ''m'' ''b'' ''a/'' (sizes_New None) (ex_putm ''a/x'' ex_mem)
     in (r1, case r1 of None \<Rightarrow> None | Some (_, S, _) \<Rightarrow> PrefixSize None ex_sreg (\<lambda>_ s. s) (30 * Second) (30 * Second) ''m'' ''b'' ''a/'' S ex_grown))"

lemma ex_asks_run: "map_prod (map_option fst) (map_option fst) ex_asks = (Some (Inr (4, 1)), Some (Inr (4, 1)))"
  by code_simp

lemma ex_asks_fresh: "case fst ex_asks of Some (_, S, _) \<Rightarrow> (case map_of (sz_prefixCache S) ''m/b/a/'' of Some e \<Rightarrow> pe_expiresAt e = Some (60 * Second) | None \<Rightarrow> False) | None \<Rightarrow> False"
  by code_simp

theorem folder_sizes_recent_witness:
  "\<exists>(st :: mem size_run) t0 ss. size_reach ex_sreg st \<and> (30 * Second, 30 * Second, ''m'', ''b'', ''a/'', 4, 1) \<in> set (sr_answers st)
     \<and> sr_store st = ex_grown \<and> (t0, ss) \<in> set (sr_walks st) \<and> 30 * Second < t0 + 60 * Second \<and> counted mem_contents ss ''b'' ''a/'' (4, 1)"
proof -
  let ?s = "ex_putm ''a/x'' ex_mem" and ?id = "\<lambda>_ s. s"
  obtain S1 s1 where r1: "PrefixSize None ex_sreg ?id 0 0 ''m'' ''b'' ''a/'' (sizes_New None) ?s = Some (Inr (4, 1), S1, s1)"
    using ex_asks_run by (auto simp: ex_asks_def Let_def)
  obtain S2 s2 where r2: "PrefixSize None ex_sreg ?id (30 * Second) (30 * Second) ''m'' ''b'' ''a/'' S1 ex_grown = Some (Inr (4, 1), S2, s2)"
    using ex_asks_run r1 by (auto simp: ex_asks_def Let_def)
  have reg: "\<forall>bid B. ex_sreg bid = Some B \<longrightarrow> object_listing B mem_contents (\<lambda>_ _. True)"
    by (auto simp: ex_sreg_def mem.object_listing_axioms)
  have f1: "\<not> entry_fresh 0 ''m'' ''b'' ''a/'' (sizes_New None :: SizeService)" by (simp add: entry_fresh_def sizes_New_def)
  have f2: "entry_fresh (30 * Second) ''m'' ''b'' ''a/'' S1"
    using ex_asks_fresh r1 by (auto simp: ex_asks_def Let_def entry_fresh_def bucketKey_def split: option.splits)
  obtain B ss where ss: "ex_sreg ''m'' = Some B" "walk_sees B ?id ''b'' ''a/'' 0 [] ?s ss"
    using reg r1 by (cases rule: PrefixSize_cases) (use f1 in \<open>auto simp: entry_fresh_def\<close>)
  define st0 :: "mem size_run" where "st0 = \<lparr>sr_now = 0, sr_store = ?s, sr_svc = sizes_New None, sr_walks = [], sr_answers = []\<rparr>"
  define st1 where "st1 = \<lparr>sr_now = 0, sr_store = s1, sr_svc = S1, sr_walks = sr_walks st0 @ [(0, ss)], sr_answers = sr_answers st0 @ answered 0 0 ''m'' ''b'' ''a/'' (Inr (4, 1))\<rparr>"
  define st2 where "st2 = st1\<lparr>sr_now := 1, sr_store := ex_grown\<rparr>"
  define st3 where "st3 = \<lparr>sr_now = 30 * Second, sr_store = s2, sr_svc = S2, sr_walks = sr_walks st2 @ [],
    sr_answers = sr_answers st2 @ answered (30 * Second) (30 * Second) ''m'' ''b'' ''a/'' (Inr (4, 1))\<rparr>"
  define st4 where "st4 = st3\<lparr>sr_now := 30 * Second, sr_store := ex_grown\<rparr>"
  have seg: "segment ''m''" "segment ''b''" by (simp_all add: segment_def)
  have "size_reach ex_sreg st0" unfolding st0_def by (rule size_reach.start)
  moreover have "size_step ex_sreg st0 st1" unfolding st1_def
    by (rule size_step.ask [OF _ _ seg, where env = ?id and db = None]) (use r1 ss f1 in \<open>auto simp: st0_def walked_def\<close>)
  moreover have "size_step ex_sreg st1 st2" unfolding st2_def by (rule size_step.change) (simp add: st1_def)
  moreover have "size_step ex_sreg st2 st3" unfolding st3_def
    by (rule size_step.ask [OF _ _ seg, where env = ?id and db = None]) (use r2 f2 in \<open>simp_all add: st2_def st1_def walked_def\<close>)
  moreover have "size_step ex_sreg st3 st4" unfolding st4_def by (rule size_step.change) (simp add: st3_def)
  ultimately have reach: "size_reach ex_sreg st4" by (blast intro: size_reach.step)
  have a: "(30 * Second, 30 * Second, ''m'', ''b'', ''a/'', 4, 1) \<in> set (sr_answers st4)" by (simp add: st4_def st3_def answered_def)
  then obtain t0 ss where "(t0, ss) \<in> set (sr_walks st4)" "30 * Second < t0 + 60 * Second" "counted mem_contents ss ''b'' ''a/'' (4, 1)"
    using folder_sizes_recent [of ex_sreg "\<lambda>_. mem_contents" "\<lambda>_ _ _. True", OF reg reach] by blast
  then show ?thesis using a reach by (intro exI [of _ st4]) (auto simp: st4_def)
qed

end
