(* ===== verification/Object_Browser.thy ===== *)
theory Object_Browser
  imports Bucket_Sizes Cors
begin

text \<open>
  The object handlers of the dashboard (\<^verbatim>\<open>internal/api/backends.go\<close>) over any backend: the registry is a lookup, the
  request body is the decoded JSON (\<^term>\<open>None\<close> when it does not decode), \<open>be_ctxErr\<close> says when the client has gone. The world
  of a handler is the world of the backends with the quota service, the cached bucket sizes and the audit events.
  The streaming handlers are loops over the pages of a listing; they are shown to end on every \<open>object_store\<close>, to do
  what their events report and to touch nothing else. Log lines, JSON texts and the details of audit events are left out.
\<close>

section \<open>Worlds and answers\<close>

record 's browse_env =
  be_reg :: "string \<Rightarrow> 's ObjectBackend option"
  be_IsNotFound :: "string \<Rightarrow> bool"
  be_ctxErr :: "'s \<Rightarrow> bool"
  be_scan :: registry
  be_deadline :: nat
  be_now :: time

record 's bworld =
  bw_store :: 's
  bw_quotas :: "Service option"
  bw_sizes :: "SizeService option"
  bw_audit :: "(string \<times> string \<times> string \<times> string) list"

datatype prefix_event = EvStart | EvObject string string int | EvError string string | EvDone int int int bool

record bucketDTO =
  bk_Name :: string
  bk_CreatedAt :: time
  bk_SizeTracked :: bool
  bk_Usage :: "Usage option"

datatype browse_body = NoBody | ErrCode string | ObjectJSON ObjectInfo | KeyJSON string | Listing ListObjectsRequest ListObjectsResult | DeletedJSON DeleteObjectsResult
  | VersionsJSON "ObjectVersion list" | TagsJSON metadata | EventLog "prefix_event list" | BadRange int | Download "(string \<times> string) list" stream
  | Archive "(string \<times> time \<times> string) list" | NameJSON string | UploadJSON string | PartJSON int string int | UploadsJSON "MultipartUpload list"
  | BucketsJSON "bucketDTO list" | EnabledJSON bool | CorsJSON "BucketCORSRule list" | PolicyJSON string | LifecycleJSON "LifecycleRule list"
  | TrackingJSON bool time string | SizeJSON int int string

record browse_resp =
  br_Status :: int
  br_Body :: browse_body

abbreviation fail :: "int \<Rightarrow> string \<Rightarrow> browse_resp" where
  "fail n code \<equiv> \<lparr>br_Status = n, br_Body = ErrCode code\<rparr>"

definition perform :: "('s, 'a) op \<Rightarrow> 's bworld \<Rightarrow> (string + 'a) \<times> 's bworld" where
  "perform f w = (case f (bw_store w) of (r, s) \<Rightarrow> (r, w\<lparr>bw_store := s\<rparr>))"

definition audited :: "string \<Rightarrow> string \<Rightarrow> string \<Rightarrow> string \<Rightarrow> 's bworld \<Rightarrow> 's bworld" where
  "audited act bid bkt key w = w\<lparr>bw_audit := bw_audit w @ [(act, bid, bkt, key)]\<rparr>"

definition backendError :: "'s browse_env \<Rightarrow> string \<Rightarrow> browse_resp" where
  "backendError E err = (if be_IsNotFound E err then fail 404 ''not_found'' else fail 502 ''backend_error'')"

definition resolveBackend :: "'s browse_env \<Rightarrow> string \<Rightarrow> ('s ObjectBackend \<Rightarrow> browse_resp \<times> 's bworld) \<Rightarrow> 's bworld \<Rightarrow> browse_resp \<times> 's bworld" where
  "resolveBackend E bid f w = (case be_reg E bid of None \<Rightarrow> (fail 404 ''not_found'', w) | Some b \<Rightarrow> f b)"

section \<open>Quotas\<close>

definition checkQuota :: "'s browse_env \<Rightarrow> string \<Rightarrow> string \<Rightarrow> int \<Rightarrow> 's bworld \<Rightarrow> quota_err option \<times> 's bworld" where
  "checkQuota E bid bkt n w =
     (case bw_quotas w of
        None \<Rightarrow> (None, w)
      | Some q \<Rightarrow> (case CheckUpload (scan_deadline (be_deadline E) (be_scan E)) (be_now E) bid bkt n q of
          None \<Rightarrow> (None, w)
        | Some (v, q') \<Rightarrow> (v, w\<lparr>bw_quotas := Some q'\<rparr>)))"

definition recorded :: "string \<Rightarrow> string \<Rightarrow> int \<Rightarrow> 's bworld \<Rightarrow> 's bworld" where
  "recorded bid bkt n w = w\<lparr>bw_quotas := map_option (Recorded bid bkt n) (bw_quotas w), bw_sizes := map_option (sizes_Recorded bid bkt n) (bw_sizes w)\<rparr>"

definition recordQuotaWrite :: "string \<Rightarrow> string \<Rightarrow> int \<Rightarrow> 's bworld \<Rightarrow> 's bworld" where
  "recordQuotaWrite bid bkt n w = (if n \<le> 0 then w else recorded bid bkt n w)"

definition writeQuotaError :: "quota_err \<Rightarrow> browse_resp" where
  "writeQuotaError e = fail 507 ''quota_exceeded''"

section \<open>Single objects\<close>

definition list_request :: "string \<Rightarrow> url_values \<Rightarrow> ListObjectsRequest" where
  "list_request bkt q = \<lparr>lq_Bucket = bkt, lq_Prefix = values_Get q ''prefix'', lq_Delimiter = (if values_Has q ''delimiter'' then values_Get q ''delimiter'' else ''/''),
     lq_Token = values_Get q ''token'',
     lq_MaxKeys = (let v = values_Get q ''max_keys'' in if v = [] then 0 else case ParseInt 10 v of Some n \<Rightarrow> if 0 < n then n else 0 | None \<Rightarrow> 0)\<rparr>"

definition handleListObjects :: "'s browse_env \<Rightarrow> string \<Rightarrow> string \<Rightarrow> request \<Rightarrow> 's bworld \<Rightarrow> browse_resp \<times> 's bworld" where
  "handleListObjects E bid bkt r w = resolveBackend E bid (\<lambda>b.
     let rq = list_request bkt (Query (URL r))
     in case perform (b_ListObjects b rq) w of
          (Inl e, w1) \<Rightarrow> (backendError E e, w1)
        | (Inr res, w1) \<Rightarrow> (\<lparr>br_Status = 200, br_Body = Listing rq res\<rparr>, w1)) w"

definition handleHeadObject :: "'s browse_env \<Rightarrow> string \<Rightarrow> string \<Rightarrow> request \<Rightarrow> 's bworld \<Rightarrow> browse_resp \<times> 's bworld" where
  "handleHeadObject E bid bkt r w = resolveBackend E bid (\<lambda>b.
     let key = values_Get (Query (URL r)) ''key''
     in if key = [] then (fail 400 ''bad_request'', w)
        else case perform (b_HeadObject b bkt key (values_Get (Query (URL r)) ''version_id'')) w of
          (Inl e, w1) \<Rightarrow> (backendError E e, w1)
        | (Inr info, w1) \<Rightarrow> (\<lparr>br_Status = 200, br_Body = ObjectJSON info\<rparr>, w1)) w"

text \<open>The range of a download: an object is asked for its size first, the end is clamped to it.\<close>

definition download_range :: "'s browse_env \<Rightarrow> 's ObjectBackend \<Rightarrow> string \<Rightarrow> string \<Rightarrow> string \<Rightarrow> request \<Rightarrow> 's bworld \<Rightarrow> (browse_resp + (byte_range \<times> int) option) \<times> 's bworld" where
  "download_range E b bkt key version r w =
     (case parseRangeHeader (header_Get (Header r) ''Range'') of
        None \<Rightarrow> (Inr None, w)
      | Some g \<Rightarrow> (case perform (b_HeadObject b bkt key version) w of
          (Inl e, w1) \<Rightarrow> (Inl (backendError E e), w1)
        | (Inr head, w1) \<Rightarrow>
            (let g' = (if rg_End g < 0 \<or> oi_Size head \<le> rg_End g then g\<lparr>rg_End := oi_Size head - 1\<rparr> else g)
             in if rg_Start g' < 0 \<or> rg_Start g' > rg_End g' then (Inl \<lparr>br_Status = 416, br_Body = BadRange (oi_Size head)\<rparr>, w1)
                else (Inr (Some (g', oi_Size head)), w1))))"

definition download_headers :: "request \<Rightarrow> string \<Rightarrow> (byte_range \<times> int) option \<Rightarrow> ObjectInfo \<Rightarrow> (string \<times> string) list" where
  "download_headers r key rng info =
     (let disp = values_Get (Query (URL r)) ''disposition''
      in [(''Content-Type'', if oi_ContentType info \<noteq> [] then oi_ContentType info else ''application/octet-stream'')]
       @ (if 0 < oi_Size info then [(''Content-Length'', FormatInt (oi_Size info))] else [])
       @ (if oi_ETag info \<noteq> [] then [(''ETag'', oi_ETag info)] else [])
       @ [(''Accept-Ranges'', ''bytes''),
          (''Content-Disposition'', (if disp = [] then ''attachment'' else disp) @ ''; filename='' @ [CHR 0x22] @ sanitizeFilename (path_Base key) @ [CHR 0x22])]
       @ (case rng of None \<Rightarrow> []
          | Some (g, full) \<Rightarrow> [(''Content-Range'', ''bytes '' @ FormatInt (rg_Start g) @ ''-'' @ FormatInt (rg_End g) @ ''/'' @ FormatInt full)]))"

definition handleGetObject :: "'s browse_env \<Rightarrow> string \<Rightarrow> string \<Rightarrow> request \<Rightarrow> 's bworld \<Rightarrow> browse_resp \<times> 's bworld" where
  "handleGetObject E bid bkt r w = resolveBackend E bid (\<lambda>b.
     let key = values_Get (Query (URL r)) ''key''; version = values_Get (Query (URL r)) ''version_id''
     in if key = [] then (fail 400 ''bad_request'', w)
        else case download_range E b bkt key version r w of
          (Inl resp, w1) \<Rightarrow> (resp, w1)
        | (Inr rng, w1) \<Rightarrow> (case perform (b_GetObject b bkt key version (map_option fst rng)) w1 of
            (Inl e, w2) \<Rightarrow> (backendError E e, w2)
          | (Inr (info, body), w2) \<Rightarrow> (\<lparr>br_Status = (if rng = None then 200 else 206), br_Body = Download (download_headers r key rng info) body\<rparr>, w2))) w"

text \<open>The parsed upload form: the file with its declared name, size and type, and the other fields.\<close>

record upload_form =
  uf_File :: stream
  uf_Filename :: string
  uf_Size :: int
  uf_FileType :: string
  uf_Key :: string
  uf_ContentType :: string

definition maxSingleUploadBytes :: int where "maxSingleUploadBytes = 5 * 1024 * 1024"

definition exists_already :: "'s browse_env \<Rightarrow> 's ObjectBackend \<Rightarrow> string \<Rightarrow> string \<Rightarrow> request \<Rightarrow> 's bworld \<Rightarrow> browse_resp option \<times> 's bworld" where
  "exists_already E b bkt key r w =
     (if header_Get (Header r) ''If-None-Match'' \<noteq> ''*'' then (None, w)
      else case perform (b_HeadObject b bkt key []) w of
        (Inr _, w1) \<Rightarrow> (Some (fail 412 ''object_exists''), w1)
      | (Inl e, w1) \<Rightarrow> (if be_IsNotFound E e then None else Some (backendError E e), w1))"

definition handleUploadObject :: "'s browse_env \<Rightarrow> string \<Rightarrow> string \<Rightarrow> request \<Rightarrow> upload_form option option \<Rightarrow> 's bworld \<Rightarrow> browse_resp \<times> 's bworld" where
  "handleUploadObject E bid bkt r form w = resolveBackend E bid (\<lambda>b.
     case form of
       None \<Rightarrow> (fail 413 ''too_large'', w)
     | Some None \<Rightarrow> (fail 400 ''bad_request'', w)
     | Some (Some f) \<Rightarrow>
         (let key = (if uf_Key f = [] then uf_Filename f else uf_Key f);
              contentType = (if uf_ContentType f \<noteq> [] then uf_ContentType f else uf_FileType f)
          in if maxSingleUploadBytes < uf_Size f then (fail 413 ''too_large'', w)
             else if key = [] then (fail 400 ''bad_request'', w)
             else if \<not> validObjectKey key then (fail 400 ''invalid_key'', w)
             else case checkQuota E bid bkt (uf_Size f) w of
               (Some e, w1) \<Rightarrow> (writeQuotaError e, w1)
             | (None, w1) \<Rightarrow> (case exists_already E b bkt key r w1 of
                 (Some resp, w2) \<Rightarrow> (resp, w2)
               | (None, w2) \<Rightarrow> (case perform (b_PutObject b \<lparr>po_Bucket = bkt, po_Key = key, po_Body = uf_File f, po_Size = uf_Size f, po_ContentType = contentType, po_Metadata = None\<rparr>) w2 of
                   (Inl e, w3) \<Rightarrow> (backendError E e, w3)
                 | (Inr info, w3) \<Rightarrow> (\<lparr>br_Status = 201, br_Body = ObjectJSON info\<rparr>, audited ''object.upload'' bid bkt key (recordQuotaWrite bid bkt (oi_Size info) w3)))))) w"

definition handleDeleteObject :: "'s browse_env \<Rightarrow> string \<Rightarrow> string \<Rightarrow> request \<Rightarrow> 's bworld \<Rightarrow> browse_resp \<times> 's bworld" where
  "handleDeleteObject E bid bkt r w = resolveBackend E bid (\<lambda>b.
     let key = values_Get (Query (URL r)) ''key''
     in if key = [] then (fail 400 ''bad_request'', w)
        else case perform (b_DeleteObject b bkt key (values_Get (Query (URL r)) ''version_id'')) w of
          (Inl e, w1) \<Rightarrow> (backendError E e, w1)
        | (Inr _, w1) \<Rightarrow> (\<lparr>br_Status = 204, br_Body = NoBody\<rparr>, audited ''object.delete'' bid bkt key w1)) w"

definition handleBulkDelete :: "'s browse_env \<Rightarrow> string \<Rightarrow> string \<Rightarrow> ObjectIdentifier list option \<Rightarrow> 's bworld \<Rightarrow> browse_resp \<times> 's bworld" where
  "handleBulkDelete E bid bkt body w = resolveBackend E bid (\<lambda>b.
     case body of
       None \<Rightarrow> (fail 400 ''bad_request'', w)
     | Some [] \<Rightarrow> (fail 400 ''bad_request'', w)
     | Some keys \<Rightarrow> (case perform (b_DeleteObjects b bkt keys) w of
         (Inl e, w1) \<Rightarrow> (backendError E e, w1)
       | (Inr res, w1) \<Rightarrow> (\<lparr>br_Status = 200, br_Body = DeletedJSON res\<rparr>, audited ''object.bulk_delete'' bid bkt [] w1))) w"

definition handleCreateFolder :: "'s browse_env \<Rightarrow> string \<Rightarrow> string \<Rightarrow> string option \<Rightarrow> 's bworld \<Rightarrow> browse_resp \<times> 's bworld" where
  "handleCreateFolder E bid bkt body w = resolveBackend E bid (\<lambda>b.
     case body of
       None \<Rightarrow> (fail 400 ''bad_request'', w)
     | Some k \<Rightarrow>
         if k = [] then (fail 400 ''bad_request'', w)
         else let key = (if HasSuffix k ''/'' then k else k @ ''/'')
              in if \<not> validObjectKey key then (fail 400 ''invalid_key'', w)
                 else case perform (b_PutObject b \<lparr>po_Bucket = bkt, po_Key = key, po_Body = ([], None), po_Size = 0, po_ContentType = [], po_Metadata = None\<rparr>) w of
                   (Inl e, w1) \<Rightarrow> (backendError E e, w1)
                 | (Inr info, w1) \<Rightarrow> (\<lparr>br_Status = 201, br_Body = ObjectJSON info\<rparr>, w1)) w"

section \<open>Copies\<close>

record copyObjectRequest =
  cq_SrcKey :: string
  cq_DstKey :: string
  cq_DstBucket :: string
  cq_DstBackend :: string
  cq_VersionID :: string
  cq_Metadata :: "metadata option"

definition respondCopyResult :: "'s ObjectBackend \<Rightarrow> string \<Rightarrow> string \<Rightarrow> 's bworld \<Rightarrow> browse_resp \<times> 's bworld" where
  "respondCopyResult b bkt key w =
     (case perform (b_HeadObject b bkt key []) w of
        (Inl _, w1) \<Rightarrow> (\<lparr>br_Status = 200, br_Body = KeyJSON key\<rparr>, w1)
      | (Inr info, w1) \<Rightarrow> (\<lparr>br_Status = 200, br_Body = ObjectJSON info\<rparr>, w1))"

definition copyAcrossBackends :: "'s browse_env \<Rightarrow> 's ObjectBackend \<Rightarrow> string \<Rightarrow> string \<Rightarrow> string \<Rightarrow> string \<Rightarrow> copyObjectRequest \<Rightarrow> 's bworld \<Rightarrow> browse_resp \<times> 's bworld" where
  "copyAcrossBackends E srcB srcID srcBkt dstID dstBkt q w = resolveBackend E dstID (\<lambda>dstB.
     case perform (b_HeadObject srcB srcBkt (cq_SrcKey q) (cq_VersionID q)) w of
       (Inl e, w1) \<Rightarrow> (backendError E e, w1)
     | (Inr info, w1) \<Rightarrow> (case checkQuota E dstID dstBkt (oi_Size info) w1 of
         (Some e, w2) \<Rightarrow> (writeQuotaError e, w2)
       | (None, w2) \<Rightarrow> (case perform (b_GetObject srcB srcBkt (cq_SrcKey q) (cq_VersionID q) None) w2 of
           (Inl e, w3) \<Rightarrow> (backendError E e, w3)
         | (Inr (_, body), w3) \<Rightarrow> (case perform (b_PutObject dstB \<lparr>po_Bucket = dstBkt, po_Key = cq_DstKey q, po_Body = body, po_Size = oi_Size info,
                 po_ContentType = oi_ContentType info, po_Metadata = cq_Metadata q\<rparr>) w3 of
             (Inl e, w4) \<Rightarrow> (backendError E e, w4)
           | (Inr put, w4) \<Rightarrow> (\<lparr>br_Status = 200, br_Body = ObjectJSON put\<rparr>,
               audited ''object.transfer'' srcID srcBkt (cq_SrcKey q) (recorded dstID dstBkt (oi_Size put) w4)))))) w"

definition handleCopyObject :: "'s browse_env \<Rightarrow> string \<Rightarrow> string \<Rightarrow> copyObjectRequest option \<Rightarrow> 's bworld \<Rightarrow> browse_resp \<times> 's bworld" where
  "handleCopyObject E srcID srcBkt body w = resolveBackend E srcID (\<lambda>srcB.
     case body of
       None \<Rightarrow> (fail 400 ''bad_request'', w)
     | Some q \<Rightarrow>
         (let dstBkt = (if cq_DstBucket q = [] then srcBkt else cq_DstBucket q);
              dstID = (if cq_DstBackend q = [] then srcID else cq_DstBackend q)
          in if cq_SrcKey q = [] \<or> cq_DstKey q = [] then (fail 400 ''bad_request'', w)
             else if \<not> validObjectKey (cq_SrcKey q) \<or> \<not> validObjectKey (cq_DstKey q) then (fail 400 ''invalid_key'', w)
             else if cq_DstBucket q \<noteq> [] \<and> \<not> validBucketName (cq_DstBucket q) then (fail 400 ''invalid_bucket'', w)
             else if dstID = srcID \<and> dstBkt = srcBkt \<and> cq_DstKey q = cq_SrcKey q then (fail 400 ''bad_request'', w)
             else if dstID \<noteq> srcID then copyAcrossBackends E srcB srcID srcBkt dstID dstBkt q w
             else case perform (b_CopyObject srcB \<lparr>ref_Bucket = srcBkt, ref_Key = cq_SrcKey q, ref_VersionID = cq_VersionID q\<rparr>
                     \<lparr>ref_Bucket = dstBkt, ref_Key = cq_DstKey q, ref_VersionID = []\<rparr> (cq_Metadata q)) w of
               (Inl e, w1) \<Rightarrow> (backendError E e, w1)
             | (Inr _, w1) \<Rightarrow> respondCopyResult srcB dstBkt (cq_DstKey q) (audited ''object.copy'' srcID srcBkt (cq_SrcKey q) w1))) w"

definition validPrefix :: "string \<Rightarrow> bool" where
  "validPrefix p \<longleftrightarrow> p = [] \<or> HasSuffix p ''/'' \<and> validObjectKey p"

record copyPrefixRequest =
  xq_SrcPrefix :: string
  xq_DstPrefix :: string
  xq_DstBucket :: string
  xq_DstBackend :: string
  xq_Metadata :: "metadata option"

text \<open>One object of a prefix copy; the error is its code.\<close>

definition copyOnePrefix :: "'s browse_env \<Rightarrow> 's ObjectBackend \<Rightarrow> 's ObjectBackend \<Rightarrow> string \<Rightarrow> string \<Rightarrow> string \<Rightarrow> ObjectInfo \<Rightarrow> string \<Rightarrow> metadata option \<Rightarrow> bool \<Rightarrow> 's bworld
    \<Rightarrow> string option \<times> 's bworld" where
  "copyOnePrefix E srcB dstB dstID srcBkt dstBkt obj dstKey md cross w =
     (if \<not> cross then
        (case perform (b_CopyObject srcB \<lparr>ref_Bucket = srcBkt, ref_Key = oi_Key obj, ref_VersionID = []\<rparr> \<lparr>ref_Bucket = dstBkt, ref_Key = dstKey, ref_VersionID = []\<rparr> md) w of
           (Inl _, w1) \<Rightarrow> (Some ''copy_failed'', w1)
         | (Inr _, w1) \<Rightarrow> (None, w1))
      else case checkQuota E dstID dstBkt (oi_Size obj) w of
        (Some _, w1) \<Rightarrow> (Some ''quota_exceeded'', w1)
      | (None, w1) \<Rightarrow> (case perform (b_GetObject srcB srcBkt (oi_Key obj) [] None) w1 of
          (Inl _, w2) \<Rightarrow> (Some ''get_failed'', w2)
        | (Inr (_, body), w2) \<Rightarrow> (case perform (b_PutObject dstB \<lparr>po_Bucket = dstBkt, po_Key = dstKey, po_Body = body, po_Size = oi_Size obj,
                po_ContentType = oi_ContentType obj, po_Metadata = md\<rparr>) w2 of
            (Inl _, w3) \<Rightarrow> (Some ''put_failed'', w3)
          | (Inr put, w3) \<Rightarrow> (None, recorded dstID dstBkt (oi_Size put) w3))))"

text \<open>The progress of a prefix handler.\<close>

record 's progress =
  pg_ok :: int
  pg_failed :: int
  pg_bytes :: int
  pg_events :: "prefix_event list"
  pg_batch :: "ObjectIdentifier list"
  pg_world :: "'s bworld"

definition emit_event :: "prefix_event \<Rightarrow> 's progress \<Rightarrow> 's progress" where
  "emit_event ev g = g\<lparr>pg_events := pg_events g @ [ev]\<rparr>"

definition emit_done :: "bool \<Rightarrow> 's progress \<Rightarrow> 's progress" where
  "emit_done cancelled g = emit_event (EvDone (pg_ok g) (pg_failed g) (pg_bytes g) cancelled) g"

text \<open>The objects of one page; \<^term>\<open>True\<close> with the progress when the client has gone.\<close>

fun copy_page :: "'s browse_env \<Rightarrow> (ObjectInfo \<Rightarrow> string \<Rightarrow> 's bworld \<Rightarrow> string option \<times> 's bworld) \<Rightarrow> string \<Rightarrow> string \<Rightarrow> ObjectInfo list \<Rightarrow> 's progress \<Rightarrow> bool \<times> 's progress" where
  "copy_page E cp src dst [] g = (False, g)"
| "copy_page E cp src dst (obj # objs) g =
     (if be_ctxErr E (bw_store (pg_world g)) then (True, g)
      else let dstKey = dst @ TrimPrefix (oi_Key obj) src
           in if dstKey = [] then copy_page E cp src dst objs g
              else if \<not> validObjectKey dstKey then copy_page E cp src dst objs (emit_event (EvError (oi_Key obj) ''invalid_key'') (g\<lparr>pg_failed := pg_failed g + 1\<rparr>))
              else case cp obj dstKey (pg_world g) of
                (Some code, w1) \<Rightarrow> copy_page E cp src dst objs (emit_event (EvError (oi_Key obj) code) (g\<lparr>pg_failed := pg_failed g + 1, pg_world := w1\<rparr>))
              | (None, w1) \<Rightarrow> copy_page E cp src dst objs (emit_event (EvObject (oi_Key obj) dstKey (oi_Size obj))
                  (g\<lparr>pg_ok := pg_ok g + 1, pg_bytes := wrap64 (pg_bytes g + oi_Size obj), pg_world := w1\<rparr>)))"

datatype walk_end = Finished | Cancelled | ListingFailed

definition page_request :: "string \<Rightarrow> string \<Rightarrow> string \<Rightarrow> ListObjectsRequest" where
  "page_request bkt prefix token = \<lparr>lq_Bucket = bkt, lq_Prefix = prefix, lq_Delimiter = [], lq_Token = token, lq_MaxKeys = 0\<rparr>"

text \<open>The loop over the pages that copying and deleting share; \<open>page\<close> handles the objects of one page.\<close>

partial_function (option) walk_pages ::
  "'s browse_env \<Rightarrow> 's ObjectBackend \<Rightarrow> string \<Rightarrow> string \<Rightarrow> (ObjectInfo list \<Rightarrow> 's progress \<Rightarrow> bool \<times> 's progress) \<Rightarrow> string \<Rightarrow> 's progress \<Rightarrow> (walk_end \<times> 's progress) option" where
  "walk_pages E b bkt prefix page token g =
     (if be_ctxErr E (bw_store (pg_world g)) then Some (Cancelled, g)
      else case perform (b_ListObjects b (page_request bkt prefix token)) (pg_world g) of
        (Inl _, w1) \<Rightarrow> Some (ListingFailed, g\<lparr>pg_world := w1\<rparr>)
      | (Inr res, w1) \<Rightarrow> (case page (lr_Objects res) (g\<lparr>pg_world := w1\<rparr>) of
          (stop, g1) \<Rightarrow>
            if stop then Some (Cancelled, g1)
            else if \<not> lr_IsTruncated res \<or> lr_Next res = [] then Some (Finished, g1)
            else walk_pages E b bkt prefix page (lr_Next res) g1))"

declare walk_pages.simps [code]

definition start_progress :: "'s bworld \<Rightarrow> 's progress" where
  "start_progress w = \<lparr>pg_ok = 0, pg_failed = 0, pg_bytes = 0, pg_events = [EvStart], pg_batch = [], pg_world = w\<rparr>"

definition event_log :: "'s progress \<Rightarrow> browse_resp \<times> 's bworld" where
  "event_log g = (\<lparr>br_Status = 200, br_Body = EventLog (pg_events g)\<rparr>, pg_world g)"

definition copy_finish :: "string \<Rightarrow> string \<Rightarrow> bool \<Rightarrow> walk_end \<times> 's progress \<Rightarrow> browse_resp \<times> 's bworld" where
  "copy_finish srcID srcBkt cross res =
     (case res of
        (Cancelled, g) \<Rightarrow> event_log (emit_done True g)
      | (ListingFailed, g) \<Rightarrow> event_log (emit_done False (emit_event (EvError [] ''list_failed'') g))
      | (Finished, g) \<Rightarrow> event_log (emit_done False (g\<lparr>pg_world :=
            audited (if cross then ''object.transfer_prefix'' else ''object.copy_prefix'') srcID srcBkt [] (pg_world g)\<rparr>)))"

definition handleCopyPrefix :: "'s browse_env \<Rightarrow> string \<Rightarrow> string \<Rightarrow> copyPrefixRequest option \<Rightarrow> 's bworld \<Rightarrow> (browse_resp \<times> 's bworld) option" where
  "handleCopyPrefix E srcID srcBkt body w =
     (case be_reg E srcID of
        None \<Rightarrow> Some (fail 404 ''not_found'', w)
      | Some srcB \<Rightarrow> (case body of
          None \<Rightarrow> Some (fail 400 ''bad_request'', w)
        | Some q \<Rightarrow>
            (let dstBkt = (if xq_DstBucket q = [] then srcBkt else xq_DstBucket q);
                 dstID = (if xq_DstBackend q = [] then srcID else xq_DstBackend q);
                 src = xq_SrcPrefix q; dst = xq_DstPrefix q
             in if \<not> validPrefix src \<or> \<not> validPrefix dst then Some (fail 400 ''invalid_prefix'', w)
                else if xq_DstBucket q \<noteq> [] \<and> \<not> validBucketName (xq_DstBucket q) then Some (fail 400 ''invalid_bucket'', w)
                else if dstID = srcID \<and> dstBkt = srcBkt \<and> (dst = src \<or> HasPrefix dst src) then Some (fail 400 ''bad_request'', w)
                else case (if dstID \<noteq> srcID then be_reg E dstID else Some srcB) of
                  None \<Rightarrow> Some (fail 404 ''not_found'', w)
                | Some dstB \<Rightarrow>
                    map_option (copy_finish srcID srcBkt (dstID \<noteq> srcID))
                      (walk_pages E srcB srcBkt src
                        (copy_page E (\<lambda>obj dstKey. copyOnePrefix E srcB dstB dstID srcBkt dstBkt obj dstKey (xq_Metadata q) (dstID \<noteq> srcID)) src dst)
                        [] (start_progress w)))))"

section \<open>Deletion of a prefix\<close>

definition deletePrefixBatchSize :: nat where "deletePrefixBatchSize = 1000"

definition flushBatch :: "'s ObjectBackend \<Rightarrow> string \<Rightarrow> 's progress \<Rightarrow> 's progress" where
  "flushBatch b bkt g =
     (if pg_batch g = [] then g
      else case perform (b_DeleteObjects b bkt (pg_batch g)) (pg_world g) of
        (Inl _, w1) \<Rightarrow> emit_event (EvError [] ''delete_failed'') (g\<lparr>pg_failed := pg_failed g + int (length (pg_batch g)), pg_batch := [], pg_world := w1\<rparr>)
      | (Inr res, w1) \<Rightarrow> g\<lparr>pg_ok := pg_ok g + int (length (dr_Deleted res)), pg_failed := pg_failed g + int (length (dr_Errors res)), pg_batch := [], pg_world := w1,
          pg_events := pg_events g @ map (\<lambda>i. EvObject (id_Key i) [] 0) (dr_Deleted res) @ map (\<lambda>e. EvError (de_Key e) (de_Code e)) (dr_Errors res)\<rparr>)"

definition delete_one :: "'s ObjectBackend \<Rightarrow> string \<Rightarrow> ObjectInfo \<Rightarrow> 's progress \<Rightarrow> 's progress" where
  "delete_one b bkt obj g =
     (let g1 = g\<lparr>pg_batch := pg_batch g @ [\<lparr>id_Key = oi_Key obj, id_VersionID = []\<rparr>]\<rparr>
      in if deletePrefixBatchSize \<le> length (pg_batch g1) then flushBatch b bkt g1 else g1)"

definition delete_page :: "'s ObjectBackend \<Rightarrow> string \<Rightarrow> ObjectInfo list \<Rightarrow> 's progress \<Rightarrow> bool \<times> 's progress" where
  "delete_page b bkt objs g = (False, fold (delete_one b bkt) objs g)"

definition delete_finish :: "'s ObjectBackend \<Rightarrow> string \<Rightarrow> string \<Rightarrow> walk_end \<times> 's progress \<Rightarrow> browse_resp \<times> 's bworld" where
  "delete_finish b bid bkt res =
     (case res of
        (Cancelled, g) \<Rightarrow> event_log (emit_done True g)
      | (e, g) \<Rightarrow>
          (let g1 = flushBatch b bkt (if e = ListingFailed then emit_event (EvError [] ''list_failed'') g else g)
           in event_log (emit_done False (g1\<lparr>pg_world := audited ''object.delete_prefix'' bid bkt [] (pg_world g1)\<rparr>))))"

definition handleDeletePrefix :: "'s browse_env \<Rightarrow> string \<Rightarrow> string \<Rightarrow> string option \<Rightarrow> 's bworld \<Rightarrow> (browse_resp \<times> 's bworld) option" where
  "handleDeletePrefix E bid bkt body w =
     (case be_reg E bid of
        None \<Rightarrow> Some (fail 404 ''not_found'', w)
      | Some b \<Rightarrow> (case body of
          None \<Rightarrow> Some (fail 400 ''bad_request'', w)
        | Some prefix \<Rightarrow>
            if \<not> validPrefix prefix \<or> prefix = [] then Some (fail 400 ''invalid_prefix'', w)
            else map_option (delete_finish b bid bkt) (walk_pages E b bkt prefix (delete_page b bkt) [] (start_progress w))))"

section \<open>Walking over the pages of a store\<close>

abbreviation pg_store :: "'s progress \<Rightarrow> 's" where
  "pg_store g \<equiv> bw_store (pg_world g)"

definition errors :: "prefix_event list \<Rightarrow> bool" where
  "errors evs \<longleftrightarrow> (\<exists>x c. EvError x c \<in> set evs)"

definition reports :: "string \<Rightarrow> prefix_event list \<Rightarrow> bool" where
  "reports k evs \<longleftrightarrow> (\<exists>d n. EvObject k d n \<in> set evs)"

lemma errors_simps [simp]: "errors (as @ bs) \<longleftrightarrow> errors as \<or> errors bs" "\<not> errors []" "errors [EvError x c]"
    "\<not> errors [EvObject k d n]" "\<not> errors [EvDone i j l q]" "\<not> errors [EvStart]" "\<not> errors (map (\<lambda>i. EvObject (f i) (g i) (h i)) xs)" "errors (map (\<lambda>e. EvError (u e) (v e)) ys) \<longleftrightarrow> ys \<noteq> []"
  by (auto simp: errors_def) (cases ys, auto)

lemma reports_simps [simp]: "reports k (as @ bs) \<longleftrightarrow> reports k as \<or> reports k bs" "\<not> reports k []" "\<not> reports k [EvError x c]" "reports k [EvObject k' d n] \<longleftrightarrow> k = k'"
    "\<not> reports k [EvDone i j l q]" "\<not> reports k [EvStart]" "reports k (map (\<lambda>i. EvObject (f i) (g i) (h i)) xs) \<longleftrightarrow> k \<in> f ` set xs" "\<not> reports k (map (\<lambda>e. EvError (u e) (v e)) ys)"
  by (auto simp: reports_def)

text \<open>Progress of a deletion that began with the contents \<open>c0\<close> and is at the contents \<open>c\<close>: \<open>R\<close> are the keys still to be looked at.\<close>

definition deleting :: "(string \<Rightarrow> string \<Rightarrow> object_content option) \<Rightarrow> string \<Rightarrow> string \<Rightarrow> string set
    \<Rightarrow> (string \<Rightarrow> string \<Rightarrow> object_content option) \<Rightarrow> ObjectIdentifier list \<Rightarrow> prefix_event list \<Rightarrow> bool" where
  "deleting c0 bkt p R c ids evs \<longleftrightarrow>
     (\<forall>b k. c b k = c0 b k \<or> b = bkt \<and> HasPrefix k p \<and> c b k = None)
     \<and> (\<forall>i \<in> set ids. id_VersionID i = [] \<and> HasPrefix (id_Key i) p)
     \<and> (\<forall>k. HasPrefix k p \<and> c bkt k \<noteq> None \<longrightarrow> k \<in> id_Key ` set ids \<or> k \<in> R \<or> errors evs)
     \<and> (\<forall>k. reports k evs \<longrightarrow> HasPrefix k p \<and> c bkt k = None)"

text \<open>Progress of a copy of \<open>src\<close> to \<open>dst\<close> that began with the contents \<open>c0\<close>: what differs is a copy, what is reported is one, and what is not
  reported is still to be looked at.\<close>

fun copied :: "metadata option \<Rightarrow> object_content option \<Rightarrow> object_content option" where
  "copied md None = None"
| "copied md (Some (d, ct, m)) = Some (d, ct, if md = None then m else md)"

definition target :: "string \<Rightarrow> string \<Rightarrow> string \<Rightarrow> string" where
  "target src dst k = dst @ TrimPrefix k src"

text \<open>A key that the log names, as copied or as failed.\<close>

definition mentions :: "string \<Rightarrow> prefix_event list \<Rightarrow> bool" where
  "mentions k evs \<longleftrightarrow> (\<exists>d n. EvObject k d n \<in> set evs) \<or> (\<exists>e. EvError k e \<in> set evs)"

lemma mentions_append [simp]: "mentions k (evs @ evs') \<longleftrightarrow> mentions k evs \<or> mentions k evs'"
  by (auto simp: mentions_def)

definition copying :: "string \<Rightarrow> string \<Rightarrow> string \<Rightarrow> string \<Rightarrow> metadata option \<Rightarrow> (string \<Rightarrow> string \<Rightarrow> object_content option) \<Rightarrow> string set
    \<Rightarrow> (string \<Rightarrow> string \<Rightarrow> object_content option) \<Rightarrow> prefix_event list \<Rightarrow> bool" where
  "copying sb src db dst md c0 R c evs \<longleftrightarrow>
     (\<forall>b k. c b k = c0 b k \<or> b = db \<and> (\<exists>k0. HasPrefix k0 src \<and> k = target src dst k0 \<and> c0 sb k0 \<noteq> None \<and> c b k = copied md (c0 sb k0) \<and> mentions k0 evs))
     \<and> (\<forall>k d n. EvObject k d n \<in> set evs \<longrightarrow> HasPrefix k src \<and> d = target src dst k \<and> c0 sb k \<noteq> None \<and> c db d = copied md (c0 sb k))
     \<and> (\<forall>k. HasPrefix k src \<and> c0 sb k \<noteq> None \<and> target src dst k \<noteq> [] \<longrightarrow> reports k evs \<or> k \<in> R \<or> errors evs)"

definition apart :: "string \<Rightarrow> string \<Rightarrow> string \<Rightarrow> string \<Rightarrow> bool" where
  "apart sb src db dst \<longleftrightarrow> sb \<noteq> db \<or> \<not> HasPrefix dst src \<and> \<not> HasPrefix src dst"

lemma target_inj: "HasPrefix k src \<Longrightarrow> HasPrefix k' src \<Longrightarrow> target src dst k = target src dst k' \<Longrightarrow> k = k'"
  by (auto simp: target_def HasPrefix_iff)

lemma target_outside: "\<not> HasPrefix dst src \<Longrightarrow> \<not> HasPrefix src dst \<Longrightarrow> \<not> HasPrefix (target src dst k) src"
  by (auto simp: target_def HasPrefix_iff append_eq_append_conv2)

lemma copying_source: "copying sb src db dst md c0 R c evs \<Longrightarrow> apart sb src db dst \<Longrightarrow> HasPrefix k src \<Longrightarrow> c sb k = c0 sb k"
  unfolding copying_def apart_def using target_outside by metis

text \<open>One copy, succeeded or not.\<close>

lemma copying_step:
  assumes "copying sb src db dst md c0 (insert k R) c evs" "apart sb src db dst" "HasPrefix k src" "c0 sb k \<noteq> None"
    and frame: "\<And>b x. (b, x) \<noteq> (db, target src dst k) \<Longrightarrow> c' b x = c b x"
    and one: "c' db (target src dst k) = c db (target src dst k) \<or> c' db (target src dst k) = copied md (c0 sb k) \<and> mentions k [ev]"
    and ev: "(\<exists>x e. ev = EvError x e) \<or> (\<exists>n. ev = EvObject k (target src dst k) n) \<and> c' db (target src dst k) = copied md (c0 sb k)"
  shows "copying sb src db dst md c0 R c' (evs @ [ev])"
proof -
  have a: "c' b x = c0 b x \<or> b = db \<and> (\<exists>k0. HasPrefix k0 src \<and> x = target src dst k0 \<and> c0 sb k0 \<noteq> None \<and> c' b x = copied md (c0 sb k0) \<and> mentions k0 (evs @ [ev]))" for b x
  proof (cases "(b, x) = (db, target src dst k) \<and> c' b x \<noteq> c b x")
    case True
    then show ?thesis using one assms(3,4) by auto
  next
    case False
    then have "c' b x = c b x" using frame [of b x] by blast
    moreover have "c b x = c0 b x \<or> b = db \<and> (\<exists>k0. HasPrefix k0 src \<and> x = target src dst k0 \<and> c0 sb k0 \<noteq> None \<and> c b x = copied md (c0 sb k0) \<and> mentions k0 evs)"
      using assms(1) unfolding copying_def by blast
    ultimately show ?thesis by (metis mentions_append)
  qed
  have old: "HasPrefix x src \<and> d = target src dst x \<and> c0 sb x \<noteq> None \<and> c' db d = copied md (c0 sb x)" if "EvObject x d n \<in> set evs" for x d n
  proof -
    have x: "HasPrefix x src" "d = target src dst x" "c0 sb x \<noteq> None" "c db d = copied md (c0 sb x)" using assms(1) that unfolding copying_def by blast+
    show ?thesis
    proof (cases "d = target src dst k")
      case True
      then have "x = k" using target_inj [OF x(1) assms(3)] x(2) by simp
      then show ?thesis using x one True by auto
    next
      case False
      then show ?thesis using x frame [of db d] by auto
    qed
  qed
  have r: "reports x (evs @ [ev]) \<or> x \<in> R \<or> errors (evs @ [ev])" if "HasPrefix x src" "c0 sb x \<noteq> None" "target src dst x \<noteq> []" for x
  proof -
    have "reports x evs \<or> x = k \<or> x \<in> R \<or> errors evs" using assms(1) that unfolding copying_def by blast
    then show ?thesis using ev by auto
  qed
  have new: "HasPrefix x src \<and> d = target src dst x \<and> c0 sb x \<noteq> None \<and> c' db d = copied md (c0 sb x)" if "EvObject x d n \<in> set (evs @ [ev])" for x d n
    using that old ev assms(3,4) by auto
  show ?thesis unfolding copying_def using a new r by blast
qed

lemma copying_less: "copying sb src db dst md c0 R c evs \<Longrightarrow> R \<subseteq> R' \<Longrightarrow> copying sb src db dst md c0 R' c evs"
  unfolding copying_def by blast

lemma copying_event:
  assumes "copying sb src db dst md c0 R c evs" "\<And>k d n. ev \<noteq> EvObject k d n"
  shows "copying sb src db dst md c0 R c (evs @ [ev])"
proof -
  have "EvObject k d n \<in> set (evs @ [ev]) \<longleftrightarrow> EvObject k d n \<in> set evs" for k d n using assms(2) by auto
  then show ?thesis using assms(1) unfolding copying_def errors_simps(1) reports_simps(1) mentions_append by blast
qed

context object_store
begin

text \<open>The loop ends on every store, and carries an invariant indexed by the token to the end; handling a page may remove
  keys under the prefix but not add any.\<close>

lemma walk_pages_rule:
  assumes page: "\<And>token g res s1 stop g1. I token g \<Longrightarrow> b_ListObjects B (page_request bkt prefix token) (pg_store g) = (Inr res, s1) \<Longrightarrow>
        page (lr_Objects res) (g\<lparr>pg_world := (pg_world g)\<lparr>bw_store := s1\<rparr>\<rparr>) = (stop, g1) \<Longrightarrow>
        (\<forall>k. HasPrefix k prefix \<longrightarrow> contents (pg_store g) bkt k = None \<longrightarrow> contents (pg_store g1) bkt k = None)
        \<and> (if stop then C g1 else if lr_more res then I (lr_Next res) g1 else F g1)"
    and fails: "\<And>token g e s1. I token g \<Longrightarrow> b_ListObjects B (page_request bkt prefix token) (pg_store g) = (Inl e, s1) \<Longrightarrow> L (g\<lparr>pg_world := (pg_world g)\<lparr>bw_store := s1\<rparr>\<rparr>)"
    and gone: "\<And>token g. I token g \<Longrightarrow> C g" and start: "I token g"
  shows "\<exists>e g'. walk_pages E B bkt prefix page token g = Some (e, g') \<and> (case e of Finished \<Rightarrow> F g' | Cancelled \<Rightarrow> C g' | ListingFailed \<Rightarrow> L g')"
  using start
proof (induction "card (matching (pg_store g) bkt prefix token)" arbitrary: token g rule: less_induct)
  case less
  obtain r s1 where l: "b_ListObjects B (page_request bkt prefix token) (pg_store g) = (r, s1)" by force
  let ?g = "g\<lparr>pg_world := (pg_world g)\<lparr>bw_store := s1\<rparr>\<rparr>"
  have p: "perform (b_ListObjects B (page_request bkt prefix token)) (pg_world g) = (r, (pg_world g)\<lparr>bw_store := s1\<rparr>)" using l by (simp add: perform_def)
  show ?case
  proof (cases "be_ctxErr E (pg_store g)")
    case True
    then show ?thesis using gone [OF less.prems] by (subst walk_pages.simps) auto
  next
    case nc: False
    show ?thesis
    proof (cases r)
      case (Inl e)
      then show ?thesis using nc p fails [OF less.prems] l by (subst walk_pages.simps) auto
    next
      case (Inr res)
      obtain stop g1 where g1: "page (lr_Objects res) ?g = (stop, g1)" by force
      note st = page [OF less.prems l [unfolded Inr] g1]
      have step: "walk_pages E B bkt prefix page token g =
          (if stop then Some (Cancelled, g1) else if \<not> lr_more res then Some (Finished, g1) else walk_pages E B bkt prefix page (lr_Next res) g1)"
        using nc p Inr g1 by (subst walk_pages.simps) (simp add: lr_more_def)
      show ?thesis
      proof (cases "stop \<or> \<not> lr_more res")
        case True
        then show ?thesis unfolding step using st by auto
      next
        case False
        have rq: "lq_Delimiter (page_request bkt prefix token) = []" "lq_Token (page_request bkt prefix token) = token" "lq_Prefix (page_request bkt prefix token) = prefix" "lq_Bucket (page_request bkt prefix token) = bkt"
          by (simp_all add: page_request_def)
        obtain i where i: "i \<in> set (lr_Objects res)" "after token (oi_Key i)" "\<not> after (lr_Next res) (oi_Key i)" "\<And>k. after (lr_Next res) k \<Longrightarrow> after token k"
          using list_progress [OF l [unfolded Inr] rq(1)] False rq(2) by auto
        have "oi_Key i \<in> matching (pg_store g) bkt prefix token" using list_sound [OF l [unfolded Inr] rq(1) i(1)] i(2) rq by (auto simp: matching_def)
        moreover have "matching (pg_store g1) bkt prefix (lr_Next res) \<subseteq> matching (pg_store g) bkt prefix token - {oi_Key i}"
          using st i(3,4) by (auto simp: matching_def)
        ultimately have "card (matching (pg_store g1) bkt prefix (lr_Next res)) < card (matching (pg_store g) bkt prefix token)"
          by (intro psubset_card_mono) auto
        moreover have "I (lr_Next res) g1" using st False by simp
        ultimately show ?thesis unfolding step using less.hyps [of g1 "lr_Next res"] False by simp
      qed
    qed
  qed
qed

section \<open>Deleting\<close>

abbreviation deleting_in :: "(string \<Rightarrow> string \<Rightarrow> object_content option) \<Rightarrow> string \<Rightarrow> string \<Rightarrow> string set \<Rightarrow> 's progress \<Rightarrow> bool" where
  "deleting_in c0 bkt p R g \<equiv> deleting c0 bkt p R (contents (pg_store g)) (pg_batch g) (pg_events g)"

text \<open>One call of \<^verbatim>\<open>DeleteObjects\<close> for the batch: what is still there is not in the batch, or an error is reported.\<close>

lemma deleting_batch:
  assumes "deleting c0 bkt p R (contents s) ids evs" "b_DeleteObjects B bkt ids s = (r, s1)"
    and "case r of Inl e \<Rightarrow> errors evs' \<and> (\<forall>k. reports k evs' \<longrightarrow> reports k evs)
      | Inr res \<Rightarrow> (errors evs \<or> dr_Errors res \<noteq> [] \<longrightarrow> errors evs') \<and> (\<forall>k. reports k evs' \<longrightarrow> reports k evs \<or> k \<in> id_Key ` set (dr_Deleted res))"
  shows "deleting c0 bkt p R (contents s1) [] evs'" "contents s bkt k = None \<Longrightarrow> contents s1 bkt k = None"
proof -
  have frame: "contents s1 b k = contents s b k" if "b \<noteq> bkt \<or> k \<notin> id_Key ` set ids" for b k using delete_frame [OF assms(2) that] .
  have only: "contents s1 b k = contents s b k \<or> contents s1 b k = None" for b k using delete_only [OF assms(2)] .
  show none: "contents s1 bkt k = None" if "contents s bkt k = None" for k using only [of bkt k] that by auto
  have keys: "HasPrefix k p" if "k \<in> id_Key ` set ids" for k using assms(1) that by (auto simp: deleting_def)
  have c: "contents s1 b k = c0 b k \<or> b = bkt \<and> HasPrefix k p \<and> contents s1 b k = None" for b k
  proof -
    have "contents s b k = c0 b k \<or> b = bkt \<and> HasPrefix k p \<and> contents s b k = None" using assms(1) unfolding deleting_def by blast
    then show ?thesis using frame [of b k] only [of b k] keys [of k] by (cases "b = bkt \<and> k \<in> id_Key ` set ids") auto
  qed
  have v: "i \<in> set ids \<Longrightarrow> id_VersionID i = []" for i using assms(1) by (simp add: deleting_def)
  have dd: "set (dr_Deleted res) \<subseteq> set ids \<and> (\<forall>i \<in> set (dr_Deleted res). contents s1 bkt (id_Key i) = None)
      \<and> (\<forall>i \<in> set ids. i \<in> set (dr_Deleted res) \<or> id_Key i \<in> de_Key ` set (dr_Errors res))" if "r = Inr res" for res
    using delete_done [of bkt ids s res s1] assms(2) v that by blast
  have cover: "k \<in> R \<or> errors evs'" if k: "HasPrefix k p" "contents s1 bkt k \<noteq> None" for k
  proof (cases r)
    case (Inr res)
    have "contents s bkt k \<noteq> None" by (rule contrapos_nn [OF k(2)]) (rule none)
    then have "k \<in> id_Key ` set ids \<or> k \<in> R \<or> errors evs" using assms(1) k(1) unfolding deleting_def by blast
    moreover have "dr_Errors res \<noteq> []" if mem: "k \<in> id_Key ` set ids"
    proof -
      obtain i where i: "i \<in> set ids" "k = id_Key i" using mem by blast
      have "i \<notin> set (dr_Deleted res)" using dd [OF Inr] k(2) unfolding i(2) by auto
      then show ?thesis using dd [OF Inr] i(1) by force
    qed
    ultimately show ?thesis using assms(3) Inr by auto
  qed (use assms(3) in simp)
  have rep: "HasPrefix k p \<and> contents s1 bkt k = None" if "reports k evs'" for k
  proof -
    have "reports k evs \<or> (\<exists>res. r = Inr res \<and> k \<in> id_Key ` set (dr_Deleted res))" using assms(3) that by (cases r) auto
    then show ?thesis
    proof
      assume "reports k evs"
      then show ?thesis using assms(1) none [of k] unfolding deleting_def by auto
    next
      assume "\<exists>res. r = Inr res \<and> k \<in> id_Key ` set (dr_Deleted res)"
      then obtain res where res: "r = Inr res" "k \<in> id_Key ` set (dr_Deleted res)" by blast
      show ?thesis using dd [OF res(1)] res(2) keys by auto
    qed
  qed
  show "deleting c0 bkt p R (contents s1) [] evs'" unfolding deleting_def using c cover rep by auto
qed

lemma flushBatch_deleting:
  assumes "deleting_in c0 bkt p R g"
  shows "deleting_in c0 bkt p R (flushBatch B bkt g)" "pg_batch (flushBatch B bkt g) = []"
    "contents (pg_store g) bkt k = None \<Longrightarrow> contents (pg_store (flushBatch B bkt g)) bkt k = None"
proof -
  obtain r s1 where d: "b_DeleteObjects B bkt (pg_batch g) (pg_store g) = (r, s1)" by force
  show "deleting_in c0 bkt p R (flushBatch B bkt g)"
    using assms deleting_batch(1) [OF assms d, of "pg_events (flushBatch B bkt g)"] d
    by (cases r) (auto simp: flushBatch_def perform_def emit_event_def)
  show "pg_batch (flushBatch B bkt g) = []" by (auto simp: flushBatch_def emit_event_def split: prod.splits sum.splits)
  show "contents (pg_store (flushBatch B bkt g)) bkt k = None" if "contents (pg_store g) bkt k = None"
    using that delete_only [OF d, of bkt k] d by (cases r) (auto simp: flushBatch_def perform_def emit_event_def)
qed

lemma delete_one_deleting:
  assumes "deleting_in c0 bkt p (insert (oi_Key obj) R) g" "HasPrefix (oi_Key obj) p"
  shows "deleting_in c0 bkt p R (delete_one B bkt obj g)" "contents (pg_store g) bkt k = None \<Longrightarrow> contents (pg_store (delete_one B bkt obj g)) bkt k = None"
proof -
  let ?g = "g\<lparr>pg_batch := pg_batch g @ [\<lparr>id_Key = oi_Key obj, id_VersionID = []\<rparr>]\<rparr>"
  have g: "deleting_in c0 bkt p R ?g" using assms by (auto simp: deleting_def)
  have d: "delete_one B bkt obj g = (if deletePrefixBatchSize \<le> length (pg_batch ?g) then flushBatch B bkt ?g else ?g)"
    by (simp add: delete_one_def Let_def)
  show "deleting_in c0 bkt p R (delete_one B bkt obj g)" unfolding d using g flushBatch_deleting(1) [OF g] by presburger
  show "contents (pg_store g) bkt k = None \<Longrightarrow> contents (pg_store (delete_one B bkt obj g)) bkt k = None"
    unfolding d using flushBatch_deleting(3) [OF g, of k] by simp
qed

lemma delete_page_deleting:
  "deleting_in c0 bkt p (oi_Key ` set objs \<union> R) g \<Longrightarrow> (\<And>i. i \<in> set objs \<Longrightarrow> HasPrefix (oi_Key i) p) \<Longrightarrow>
   deleting_in c0 bkt p R (fold (delete_one B bkt) objs g) \<and> (\<forall>k. contents (pg_store g) bkt k = None \<longrightarrow> contents (pg_store (fold (delete_one B bkt) objs g)) bkt k = None)"
proof (induction objs arbitrary: g)
  case (Cons obj objs)
  have "deleting_in c0 bkt p (insert (oi_Key obj) (oi_Key ` set objs \<union> R)) g" using Cons.prems(1) by simp
  note one = delete_one_deleting [OF this]
  have "HasPrefix (oi_Key obj) p" using Cons.prems(2) by simp
  then show ?case using Cons.IH [OF one(1)] one(2) Cons.prems(2) by simp
qed simp

text \<open>What a page leaves to be looked at: the keys after its next token.\<close>

lemma page_rest:
  assumes "b_ListObjects B (page_request bkt p token) s = (Inr res, s1)" "deleting c0 bkt p {k. after token k} (contents s) ids evs"
  shows "deleting c0 bkt p (oi_Key ` set (lr_Objects res) \<union> {k. lr_more res \<and> after (lr_Next res) k}) (contents s1) ids evs" "\<And>i. i \<in> set (lr_Objects res) \<Longrightarrow> HasPrefix (oi_Key i) p"
proof -
  have rq: "lq_Delimiter (page_request bkt p token) = []" "lq_Token (page_request bkt p token) = token" "lq_Prefix (page_request bkt p token) = p" "lq_Bucket (page_request bkt p token) = bkt"
    by (simp_all add: page_request_def)
  show "HasPrefix (oi_Key i) p" if "i \<in> set (lr_Objects res)" for i using list_sound [OF assms(1) rq(1) that] rq(3) by simp
  show "deleting c0 bkt p (oi_Key ` set (lr_Objects res) \<union> {k. lr_more res \<and> after (lr_Next res) k}) (contents s1) ids evs"
    using assms(2) list_complete [OF assms(1) rq(1)] unfolding list_reads [OF assms(1)] rq deleting_def by blast
qed

lemma delete_walk:
  assumes "deleting_in c0 bkt p {k. after token k} g"
  shows "\<exists>e g'. walk_pages E B bkt p (delete_page B bkt) token g = Some (e, g') \<and>
    (case e of Finished \<Rightarrow> deleting_in c0 bkt p {} g' | Cancelled \<Rightarrow> deleting_in c0 bkt p UNIV g' | ListingFailed \<Rightarrow> deleting_in c0 bkt p UNIV g')"
proof (rule walk_pages_rule [where I = "\<lambda>token. deleting_in c0 bkt p {k. after token k}", OF _ _ _ assms])
  fix token and g :: "'s progress" and res s1 stop and g1 :: "'s progress"
  let ?g = "g\<lparr>pg_world := (pg_world g)\<lparr>bw_store := s1\<rparr>\<rparr>"
  assume I: "deleting_in c0 bkt p {k. after token k} g" and l: "b_ListObjects B (page_request bkt p token) (pg_store g) = (Inr res, s1)"
    and pg: "delete_page B bkt (lr_Objects res) ?g = (stop, g1)"
  have "deleting_in c0 bkt p (oi_Key ` set (lr_Objects res) \<union> {k. lr_more res \<and> after (lr_Next res) k}) ?g" using page_rest(1) [OF l I] by simp
  note d = delete_page_deleting [OF this page_rest(2) [OF l I]]
  have "g1 = fold (delete_one B bkt) (lr_Objects res) ?g" "\<not> stop" using pg by (auto simp: delete_page_def)
  then show "(\<forall>k. HasPrefix k p \<longrightarrow> contents (pg_store g) bkt k = None \<longrightarrow> contents (pg_store g1) bkt k = None)
      \<and> (if stop then deleting_in c0 bkt p UNIV g1 else if lr_more res then deleting_in c0 bkt p {k. after (lr_Next res) k} g1 else deleting_in c0 bkt p {} g1)"
    using d list_reads [OF l] by (auto simp: Collect_conv_if)
next
  fix token g e s1
  assume I: "deleting_in c0 bkt p {k. after token k} g" and l: "b_ListObjects B (page_request bkt p token) (pg_store g) = (Inl e, s1)"
  show "deleting_in c0 bkt p UNIV (g\<lparr>pg_world := (pg_world g)\<lparr>bw_store := s1\<rparr>\<rparr>)" using I list_reads [OF l] by (simp add: deleting_def)
next
  fix token g assume "deleting_in c0 bkt p {k. after token k} g"
  then show "deleting_in c0 bkt p UNIV g" by (simp add: deleting_def)
qed

text \<open>The whole handler on an accepted prefix.\<close>

lemma delete_prefix_done:
  assumes "be_reg E bid = Some B" "validPrefix p" "p \<noteq> []"
  shows "\<exists>evs w'. handleDeletePrefix E bid bkt (Some p) w = Some (\<lparr>br_Status = 200, br_Body = EventLog evs\<rparr>, w')
    \<and> deleting (contents (bw_store w)) bkt p (if \<exists>a b c. last evs = EvDone a b c False then {} else UNIV) (contents (bw_store w')) [] evs"
proof -
  have "deleting_in (contents (bw_store w)) bkt p {k. after [] k} (start_progress w)" by (simp add: deleting_def start_progress_def after_start)
  from delete_walk [OF this, of E] obtain e g where g: "walk_pages E B bkt p (delete_page B bkt) [] (start_progress w) = Some (e, g)"
      "case e of Finished \<Rightarrow> deleting_in (contents (bw_store w)) bkt p {} g | Cancelled \<Rightarrow> deleting_in (contents (bw_store w)) bkt p UNIV g | ListingFailed \<Rightarrow> deleting_in (contents (bw_store w)) bkt p UNIV g"
    by blast
  have h: "handleDeletePrefix E bid bkt (Some p) w = Some (delete_finish B bid bkt (e, g))" using assms g(1) by (simp add: handleDeletePrefix_def)
  show ?thesis
  proof (cases e)
    case Cancelled
    then show ?thesis using g(2) unfolding h by (auto simp: delete_finish_def event_log_def emit_done_def emit_event_def deleting_def)
  next
    case Finished
    then have d: "deleting_in (contents (bw_store w)) bkt p {} (flushBatch B bkt g)" "pg_batch (flushBatch B bkt g) = []" using g(2) flushBatch_deleting by auto
    then show ?thesis unfolding h Finished
      by (auto simp: delete_finish_def event_log_def emit_done_def emit_event_def audited_def Let_def deleting_def)
  next
    case ListingFailed
    let ?g = "emit_event (EvError [] ''list_failed'') g"
    have "deleting_in (contents (bw_store w)) bkt p {} ?g" using g(2) ListingFailed by (auto simp: deleting_def emit_event_def)
    then have d: "deleting_in (contents (bw_store w)) bkt p {} (flushBatch B bkt ?g)" "pg_batch (flushBatch B bkt ?g) = []" using flushBatch_deleting by auto
    then show ?thesis unfolding h ListingFailed
      by (auto simp: delete_finish_def event_log_def emit_done_def emit_event_def audited_def Let_def deleting_def)
  qed
qed

section \<open>Copying\<close>

lemma copy_page_Cons:
  "copy_page E cp src dst (obj # objs) g =
     (if be_ctxErr E (pg_store g) then (True, g)
      else if target src dst (oi_Key obj) = [] then copy_page E cp src dst objs g
      else if \<not> validObjectKey (target src dst (oi_Key obj)) then copy_page E cp src dst objs (emit_event (EvError (oi_Key obj) ''invalid_key'') (g\<lparr>pg_failed := pg_failed g + 1\<rparr>))
      else case cp obj (target src dst (oi_Key obj)) (pg_world g) of
        (Some code, w1) \<Rightarrow> copy_page E cp src dst objs (emit_event (EvError (oi_Key obj) code) (g\<lparr>pg_failed := pg_failed g + 1, pg_world := w1\<rparr>))
      | (None, w1) \<Rightarrow> copy_page E cp src dst objs (emit_event (EvObject (oi_Key obj) (target src dst (oi_Key obj)) (oi_Size obj))
          (g\<lparr>pg_ok := pg_ok g + 1, pg_bytes := wrap64 (pg_bytes g + oi_Size obj), pg_world := w1\<rparr>)))"
  by (simp only: copy_page.simps Let_def target_def)

lemma copy_page_copying:
  assumes "apart sb src db dst" "\<And>i. i \<in> set objs \<Longrightarrow> HasPrefix (oi_Key i) src \<and> c0 sb (oi_Key i) \<noteq> None"
    and "copying sb src db dst md c0 (oi_Key ` set objs \<union> R) (contents (pg_store g)) (pg_events g)"
    and "copy_page E (\<lambda>obj dstKey. copyOnePrefix E B dB dID sb db obj dstKey md False) src dst objs g = (stop, g')"
  shows "copying sb src db dst md c0 (if stop then UNIV else R) (contents (pg_store g')) (pg_events g')"
  using assms(2-)
proof (induction objs arbitrary: g)
  case Nil
  then show ?case by simp
next
  case (Cons obj objs)
  let ?k = "oi_Key obj" and ?t = "target src dst (oi_Key obj)" and ?R = "oi_Key ` set objs \<union> R"
  have k: "HasPrefix ?k src" "c0 sb ?k \<noteq> None" using Cons.prems(1) by auto
  have inv: "copying sb src db dst md c0 (insert ?k ?R) (contents (pg_store g)) (pg_events g)" using Cons.prems(2) by simp
  note IH = Cons.IH [OF Cons.prems(1)]
  have err: "copying sb src db dst md c0 ?R (contents (pg_store g)) (pg_events g @ [EvError x e])" for x e
    by (rule copying_step [OF inv assms(1) k]) auto
  show ?case
  proof (cases "be_ctxErr E (pg_store g)")
    case True
    then show ?thesis using Cons.prems(3) copying_less [OF inv] by (auto simp: copy_page_Cons simp del: copy_page.simps)
  next
    case nc: False
    consider (empty) "?t = []" | (invalid) "?t \<noteq> []" "\<not> validObjectKey ?t" | (copy) "?t \<noteq> []" "validObjectKey ?t" by blast
    then show ?thesis
    proof cases
      case empty
      then have "copying sb src db dst md c0 ?R (contents (pg_store g)) (pg_events g)" using inv unfolding copying_def by blast
      then show ?thesis using Cons.prems(3) nc empty by (intro IH) (auto simp: copy_page_Cons simp del: copy_page.simps)
    next
      case invalid
      have "copy_page E (\<lambda>obj dstKey. copyOnePrefix E B dB dID sb db obj dstKey md False) src dst objs (emit_event (EvError ?k ''invalid_key'') (g\<lparr>pg_failed := pg_failed g + 1\<rparr>)) = (stop, g')"
        using Cons.prems(3) nc invalid by (simp add: copy_page_Cons del: copy_page.simps)
      from IH [OF _ _ this] show ?thesis using err by (auto simp: emit_event_def)
    next
      case copy
      let ?s = "\<lparr>ref_Bucket = sb, ref_Key = ?k, ref_VersionID = []\<rparr>" and ?d = "\<lparr>ref_Bucket = db, ref_Key = ?t, ref_VersionID = []\<rparr>"
      obtain r s1 where c: "b_CopyObject B ?s ?d md (pg_store g) = (r, s1)" by force
      have cp: "copyOnePrefix E B dB dID sb db obj ?t md False (pg_world g) = (case r of Inl _ \<Rightarrow> (Some ''copy_failed'', (pg_world g)\<lparr>bw_store := s1\<rparr>) | Inr _ \<Rightarrow> (None, (pg_world g)\<lparr>bw_store := s1\<rparr>))"
        by (simp add: copyOnePrefix_def perform_def c split: sum.split)
      have frame: "(b, x) \<noteq> (db, ?t) \<Longrightarrow> contents s1 b x = contents (pg_store g) b x" for b x using copy_frame [OF c, of b x] by simp
      have src: "contents (pg_store g) sb ?k = c0 sb ?k" using copying_source [OF inv assms(1) k(1)] .
      have one: "contents s1 db ?t = contents (pg_store g) db ?t \<or> contents s1 db ?t = copied md (c0 sb ?k)"
        using copy_only [OF c] src by auto
      have named: "mentions ?k [EvError ?k e]" "mentions ?k [EvObject ?k d n]" for e d n by (auto simp: mentions_def)
      have did: "contents s1 db ?t = copied md (c0 sb ?k)" if "r = Inr ()" using copy_done [of ?s ?d md "pg_store g" s1] c that src by auto
      have step: "copying sb src db dst md c0 ?R (contents s1) (pg_events g @ [ev])"
        if "(\<exists>e. ev = EvError ?k e) \<or> (\<exists>n. ev = EvObject ?k ?t n) \<and> contents s1 db ?t = copied md (c0 sb ?k)" for ev
        by (rule copying_step [OF inv assms(1) k frame]) (use one named that in auto)
      show ?thesis
      proof (cases r)
        case (Inl e)
        have "copy_page E (\<lambda>obj dstKey. copyOnePrefix E B dB dID sb db obj dstKey md False) src dst objs
            (emit_event (EvError ?k ''copy_failed'') (g\<lparr>pg_failed := pg_failed g + 1, pg_world := (pg_world g)\<lparr>bw_store := s1\<rparr>\<rparr>)) = (stop, g')"
          using Cons.prems(3) nc copy cp Inl by (simp add: copy_page_Cons del: copy_page.simps)
        from IH [OF _ _ this] show ?thesis using step by (auto simp: emit_event_def)
      next
        case (Inr u)
        have "copy_page E (\<lambda>obj dstKey. copyOnePrefix E B dB dID sb db obj dstKey md False) src dst objs
            (emit_event (EvObject ?k ?t (oi_Size obj)) (g\<lparr>pg_ok := pg_ok g + 1, pg_bytes := wrap64 (pg_bytes g + oi_Size obj), pg_world := (pg_world g)\<lparr>bw_store := s1\<rparr>\<rparr>)) = (stop, g')"
          using Cons.prems(3) nc copy cp Inr by (simp add: copy_page_Cons del: copy_page.simps)
        from IH [OF _ _ this] show ?thesis using step did Inr by (auto simp: emit_event_def)
      qed
    qed
  qed
qed

lemma copy_page_rest:
  assumes "b_ListObjects B (page_request sb src token) s = (Inr res, s1)" "copying sb src db dst md c0 {k. after token k} (contents s) evs" "apart sb src db dst"
  shows "copying sb src db dst md c0 (oi_Key ` set (lr_Objects res) \<union> {k. lr_more res \<and> after (lr_Next res) k}) (contents s1) evs"
    "\<And>i. i \<in> set (lr_Objects res) \<Longrightarrow> HasPrefix (oi_Key i) src \<and> c0 sb (oi_Key i) \<noteq> None"
proof -
  have rq: "lq_Delimiter (page_request sb src token) = []" "lq_Token (page_request sb src token) = token" "lq_Prefix (page_request sb src token) = src" "lq_Bucket (page_request sb src token) = sb"
    by (simp_all add: page_request_def)
  have source: "contents s sb k = c0 sb k" if "HasPrefix k src" for k using copying_source [OF assms(2,3) that] .
  show "HasPrefix (oi_Key i) src \<and> c0 sb (oi_Key i) \<noteq> None" if "i \<in> set (lr_Objects res)" for i
    using list_sound [OF assms(1) rq(1) that] rq(3,4) source [of "oi_Key i"] by auto
  have "k \<in> oi_Key ` set (lr_Objects res) \<union> {k. lr_more res \<and> after (lr_Next res) k}" if "HasPrefix k src" "c0 sb k \<noteq> None" "after token k" for k
    using list_complete [OF assms(1) rq(1), of k] rq(2-4) that source [OF that(1)] by auto
  then show "copying sb src db dst md c0 (oi_Key ` set (lr_Objects res) \<union> {k. lr_more res \<and> after (lr_Next res) k}) (contents s1) evs"
    using assms(2) unfolding list_reads [OF assms(1)] copying_def by blast
qed

lemma copy_walk:
  assumes "copying sb src db dst md c0 {k. after token k} (contents (pg_store g)) (pg_events g)" "apart sb src db dst"
  shows "\<exists>e g'. walk_pages E B sb src (copy_page E (\<lambda>obj dstKey. copyOnePrefix E B dB dID sb db obj dstKey md False) src dst) token g = Some (e, g') \<and>
    (case e of Finished \<Rightarrow> copying sb src db dst md c0 {} (contents (pg_store g')) (pg_events g')
       | Cancelled \<Rightarrow> copying sb src db dst md c0 UNIV (contents (pg_store g')) (pg_events g')
       | ListingFailed \<Rightarrow> copying sb src db dst md c0 UNIV (contents (pg_store g')) (pg_events g'))"
proof (rule walk_pages_rule [where I = "\<lambda>token g. copying sb src db dst md c0 {k. after token k} (contents (pg_store g)) (pg_events g)", OF _ _ _ assms(1)])
  fix token and g :: "'s progress" and res s1 stop and g1 :: "'s progress"
  let ?g = "g\<lparr>pg_world := (pg_world g)\<lparr>bw_store := s1\<rparr>\<rparr>"
  assume I: "copying sb src db dst md c0 {k. after token k} (contents (pg_store g)) (pg_events g)"
    and l: "b_ListObjects B (page_request sb src token) (pg_store g) = (Inr res, s1)"
    and pg: "copy_page E (\<lambda>obj dstKey. copyOnePrefix E B dB dID sb db obj dstKey md False) src dst (lr_Objects res) ?g = (stop, g1)"
  have g: "copying sb src db dst md c0 (oi_Key ` set (lr_Objects res) \<union> {k. lr_more res \<and> after (lr_Next res) k}) (contents (pg_store ?g)) (pg_events ?g)"
    using copy_page_rest(1) [OF l I assms(2)] by simp
  have c: "copying sb src db dst md c0 (if stop then UNIV else {k. lr_more res \<and> after (lr_Next res) k}) (contents (pg_store g1)) (pg_events g1)"
    using copy_page_copying [OF assms(2) copy_page_rest(2) [OF l I assms(2)] g pg] .
  have "contents (pg_store g) sb k = contents (pg_store g1) sb k" if "HasPrefix k src" for k
    using copying_source [OF I assms(2) that] copying_source [OF c assms(2) that] by simp
  then show "(\<forall>k. HasPrefix k src \<longrightarrow> contents (pg_store g) sb k = None \<longrightarrow> contents (pg_store g1) sb k = None)
      \<and> (if stop then copying sb src db dst md c0 UNIV (contents (pg_store g1)) (pg_events g1)
         else if lr_more res then copying sb src db dst md c0 {k. after (lr_Next res) k} (contents (pg_store g1)) (pg_events g1)
         else copying sb src db dst md c0 {} (contents (pg_store g1)) (pg_events g1))"
    using c by (auto split: if_splits)
next
  fix token and g :: "'s progress" and e s1
  assume I: "copying sb src db dst md c0 {k. after token k} (contents (pg_store g)) (pg_events g)" and l: "b_ListObjects B (page_request sb src token) (pg_store g) = (Inl e, s1)"
  show "copying sb src db dst md c0 UNIV (contents (pg_store (g\<lparr>pg_world := (pg_world g)\<lparr>bw_store := s1\<rparr>\<rparr>))) (pg_events (g\<lparr>pg_world := (pg_world g)\<lparr>bw_store := s1\<rparr>\<rparr>))"
    using copying_less [OF I, of UNIV] list_reads [OF l] by simp
next
  fix token and g :: "'s progress" assume "copying sb src db dst md c0 {k. after token k} (contents (pg_store g)) (pg_events g)"
  then show "copying sb src db dst md c0 UNIV (contents (pg_store g)) (pg_events g)" by (rule copying_less) simp
qed

lemma copy_prefix_done:
  assumes "be_reg E bid = Some B" "validPrefix (xq_SrcPrefix q)" "validPrefix (xq_DstPrefix q)" "xq_DstBucket q = [] \<or> validBucketName (xq_DstBucket q)" "xq_DstBackend q \<in> {[], bid}"
    and "db = (if xq_DstBucket q = [] then sb else xq_DstBucket q)" "apart sb (xq_SrcPrefix q) db (xq_DstPrefix q)"
  shows "\<exists>evs w'. handleCopyPrefix E bid sb (Some q) w = Some (\<lparr>br_Status = 200, br_Body = EventLog evs\<rparr>, w')
    \<and> copying sb (xq_SrcPrefix q) db (xq_DstPrefix q) (xq_Metadata q) (contents (bw_store w)) (if \<exists>a b c. last evs = EvDone a b c False then {} else UNIV) (contents (bw_store w')) evs"
proof -
  let ?src = "xq_SrcPrefix q" and ?dst = "xq_DstPrefix q" and ?c = "contents (bw_store w)"
  have "copying sb ?src db ?dst (xq_Metadata q) ?c {k. after [] k} (contents (pg_store (start_progress w))) (pg_events (start_progress w))"
    by (simp add: copying_def start_progress_def after_start)
  from copy_walk [OF this assms(7), of E B bid] obtain e g where
      g: "walk_pages E B sb ?src (copy_page E (\<lambda>obj dstKey. copyOnePrefix E B B bid sb db obj dstKey (xq_Metadata q) False) ?src ?dst) [] (start_progress w) = Some (e, g)"
      and inv: "copying sb ?src db ?dst (xq_Metadata q) ?c (if e = Finished then {} else UNIV) (contents (pg_store g)) (pg_events g)"
    by (auto split: walk_end.splits) (metis walk_end.exhaust)
  have h: "handleCopyPrefix E bid sb (Some q) w = Some (copy_finish bid sb False (e, g))"
    using assms(1-5,7) g unfolding assms(6) by (auto simp: handleCopyPrefix_def Let_def apart_def)
  show ?thesis
  proof (cases e)
    case Finished
    then show ?thesis using inv copying_event [of sb ?src db ?dst "xq_Metadata q" ?c "{}" "contents (pg_store g)" "pg_events g"] unfolding h
      by (auto simp: copy_finish_def event_log_def emit_done_def emit_event_def audited_def)
  next
    case Cancelled
    then show ?thesis using inv copying_event [of sb ?src db ?dst "xq_Metadata q" ?c UNIV "contents (pg_store g)" "pg_events g"] unfolding h
      by (auto simp: copy_finish_def event_log_def emit_done_def emit_event_def)
  next
    case ListingFailed
    have "copying sb ?src db ?dst (xq_Metadata q) ?c UNIV (contents (pg_store g)) (pg_events g @ [EvError [] ''list_failed''])"
      using inv ListingFailed copying_event by auto
    then have "copying sb ?src db ?dst (xq_Metadata q) ?c {} (contents (pg_store g)) (pg_events g @ [EvError [] ''list_failed''])"
      unfolding copying_def by simp
    from copying_event [OF this, of "EvDone (pg_ok g) (pg_failed g) (pg_bytes g) False"] show ?thesis using ListingFailed unfolding h
      by (auto simp: copy_finish_def event_log_def emit_done_def emit_event_def)
  qed
qed

end

section \<open>Properties\<close>

text \<open>C15: Deleting a folder deletes that folder. On every store the request ends; it is refused, without touching anything, unless the prefix
  is a valid key that ends in a slash (so never for a whole bucket). Otherwise only objects of the bucket under the
  prefix can be gone, all others keep their contents; every key reported as deleted is under the prefix and gone; and when the
  log ends without an error and was not cut short, nothing is left under the prefix.\<close>

theorem delete_prefix_exact:
  assumes "object_store B contents after" "be_reg E bid = Some B" "handleDeletePrefix E bid bkt (Some p) w = res"
  shows "if validPrefix p \<and> p \<noteq> [] then \<exists>evs w'. res = Some (\<lparr>br_Status = 200, br_Body = EventLog evs\<rparr>, w')
      \<and> (\<forall>b k. contents (bw_store w') b k = contents (bw_store w) b k \<or> b = bkt \<and> HasPrefix k p \<and> contents (bw_store w') b k = None)
      \<and> (\<forall>k. reports k evs \<longrightarrow> HasPrefix k p \<and> contents (bw_store w') bkt k = None)
      \<and> (\<not> errors evs \<and> (\<exists>n f z. last evs = EvDone n f z False) \<longrightarrow> (\<forall>k. HasPrefix k p \<longrightarrow> contents (bw_store w') bkt k = None))
    else res = Some (fail 400 ''invalid_prefix'', w)"
proof (cases "validPrefix p \<and> p \<noteq> []")
  case True
  from object_store.delete_prefix_done [OF assms(1,2), of p bkt w] True obtain evs w' where h: "res = Some (\<lparr>br_Status = 200, br_Body = EventLog evs\<rparr>, w')"
      and d: "deleting (contents (bw_store w)) bkt p (if \<exists>a b c. last evs = EvDone a b c False then {} else UNIV) (contents (bw_store w')) [] evs"
    using assms(3) by auto
  have "\<forall>k. HasPrefix k p \<longrightarrow> contents (bw_store w') bkt k = None" if "\<not> errors evs" "\<exists>a b c. last evs = EvDone a b c False"
  proof -
    have "\<forall>k. HasPrefix k p \<and> contents (bw_store w') bkt k \<noteq> None \<longrightarrow> k \<in> id_Key ` set [] \<or> k \<in> {} \<or> errors evs" using d that(2) unfolding deleting_def by simp
    then show ?thesis using that(1) by (auto simp del: not_None_eq)
  qed
  moreover have "(\<forall>b k. contents (bw_store w') b k = contents (bw_store w) b k \<or> b = bkt \<and> HasPrefix k p \<and> contents (bw_store w') b k = None)
      \<and> (\<forall>k. reports k evs \<longrightarrow> HasPrefix k p \<and> contents (bw_store w') bkt k = None)" using d unfolding deleting_def by blast
  ultimately show ?thesis using True h by auto
next
  case False
  then show ?thesis using assms(2,3) by (auto simp: handleDeletePrefix_def)
qed

text \<open>C16: Copying a folder within one backend, for every backend that keeps the contract of object stores (the in-memory driver does; the S3 driver names its source unescaped and, when it replaces
  metadata, loses the content type). When the source and the destination do not contain each other (or are in different
  buckets), the request ends; an object that differs afterwards is the copy of a source object under
  its rewritten key, and the log names that source object as copied or as failed; the source is untouched; every pair reported was copied with its contents at the start; and when the log
  ends without an error and was not cut short, every source object was.\<close>

theorem copy_prefix_exact:
  assumes "object_store B contents after" "be_reg E bid = Some B" "validPrefix (xq_SrcPrefix q)" "validPrefix (xq_DstPrefix q)"
    and "xq_DstBucket q = [] \<or> validBucketName (xq_DstBucket q)" "xq_DstBackend q \<in> {[], bid}" "db = (if xq_DstBucket q = [] then sb else xq_DstBucket q)"
    and "apart sb (xq_SrcPrefix q) db (xq_DstPrefix q)"
  shows "\<exists>evs w'. handleCopyPrefix E bid sb (Some q) w = Some (\<lparr>br_Status = 200, br_Body = EventLog evs\<rparr>, w')
    \<and> (\<forall>k. HasPrefix k (xq_SrcPrefix q) \<longrightarrow> contents (bw_store w') sb k = contents (bw_store w) sb k)
    \<and> (\<forall>b k. contents (bw_store w') b k = contents (bw_store w) b k \<or> b = db \<and> (\<exists>k0. HasPrefix k0 (xq_SrcPrefix q) \<and> k = target (xq_SrcPrefix q) (xq_DstPrefix q) k0
          \<and> contents (bw_store w') b k = copied (xq_Metadata q) (contents (bw_store w) sb k0) \<and> mentions k0 evs))
    \<and> (\<forall>k d n. EvObject k d n \<in> set evs \<longrightarrow> d = target (xq_SrcPrefix q) (xq_DstPrefix q) k \<and> contents (bw_store w') db d = copied (xq_Metadata q) (contents (bw_store w) sb k))
    \<and> (\<not> errors evs \<and> (\<exists>n f z. last evs = EvDone n f z False) \<longrightarrow>
        (\<forall>k. HasPrefix k (xq_SrcPrefix q) \<and> contents (bw_store w) sb k \<noteq> None \<and> target (xq_SrcPrefix q) (xq_DstPrefix q) k \<noteq> [] \<longrightarrow> reports k evs))"
proof -
  from object_store.copy_prefix_done [OF assms(1-8), of w] obtain evs w' where
      h: "handleCopyPrefix E bid sb (Some q) w = Some (\<lparr>br_Status = 200, br_Body = EventLog evs\<rparr>, w')"
      and c: "copying sb (xq_SrcPrefix q) db (xq_DstPrefix q) (xq_Metadata q) (contents (bw_store w)) (if \<exists>a b c. last evs = EvDone a b c False then {} else UNIV) (contents (bw_store w')) evs"
    by blast
  have "\<forall>k. HasPrefix k (xq_SrcPrefix q) \<and> contents (bw_store w) sb k \<noteq> None \<and> target (xq_SrcPrefix q) (xq_DstPrefix q) k \<noteq> [] \<longrightarrow> reports k evs"
    if "\<not> errors evs" "\<exists>a b c. last evs = EvDone a b c False"
    using c that unfolding copying_def by auto
  moreover have "\<forall>k. HasPrefix k (xq_SrcPrefix q) \<longrightarrow> contents (bw_store w') sb k = contents (bw_store w) sb k" using copying_source [OF c assms(8)] by blast
  moreover have "\<forall>b k. contents (bw_store w') b k = contents (bw_store w) b k \<or> b = db \<and> (\<exists>k0. HasPrefix k0 (xq_SrcPrefix q) \<and> k = target (xq_SrcPrefix q) (xq_DstPrefix q) k0
          \<and> contents (bw_store w') b k = copied (xq_Metadata q) (contents (bw_store w) sb k0) \<and> mentions k0 evs)" using c unfolding copying_def by blast
  moreover have "\<forall>k d n. EvObject k d n \<in> set evs \<longrightarrow> d = target (xq_SrcPrefix q) (xq_DstPrefix q) k \<and> contents (bw_store w') db d = copied (xq_Metadata q) (contents (bw_store w) sb k)"
    using c unfolding copying_def by blast
  ultimately show ?thesis using h by blast
qed

text \<open>A memory backend with a folder.\<close>

definition ex_benv :: "mem browse_env" where
  "ex_benv = \<lparr>be_reg = (\<lambda>_. Some (memory (\<lambda>_. ''now'') ''m'')), be_IsNotFound = (\<lambda>_. False), be_ctxErr = (\<lambda>_. False), be_scan = (\<lambda>_. None), be_deadline = 0, be_now = 5\<rparr>"

definition ex_bw :: "mem bworld" where
  "ex_bw = \<lparr>bw_store = ex_tree, bw_quotas = None, bw_sizes = None, bw_audit = []\<rparr>"

lemma ex_reg: "be_reg ex_benv i = Some (memory (\<lambda>_. ''now'') ''m'')" by (simp add: ex_benv_def)

theorem delete_prefix_exact_witness:
  "\<exists>w'. handleDeletePrefix ex_benv ''m'' ''b'' (Some ''a/'') ex_bw = Some (\<lparr>br_Status = 200, br_Body = EventLog [EvStart, EvObject ''a/x'' [] 0, EvObject ''a/y/z'' [] 0, EvDone 2 0 0 False]\<rparr>, w')
     \<and> {k. HasPrefix k ''a/'' \<and> mem_contents (bw_store w') ''b'' k \<noteq> None} = {} \<and> mem_contents (bw_store w') ''b'' ''c'' = Some (''data'', [], None)"
proof -
  have e: "case handleDeletePrefix ex_benv ''m'' ''b'' (Some ''a/'') ex_bw of
      Some (resp, w') \<Rightarrow> resp = \<lparr>br_Status = 200, br_Body = EventLog [EvStart, EvObject ''a/x'' [] 0, EvObject ''a/y/z'' [] 0, EvDone 2 0 0 False]\<rparr> | None \<Rightarrow> False" by code_simp
  have v: "validPrefix ''a/''" "mem_contents (bw_store ex_bw) ''b'' ''c'' = Some (''data'', [], None)" "\<not> HasPrefix ''c'' ''a/''" by code_simp+
  obtain w' where h: "handleDeletePrefix ex_benv ''m'' ''b'' (Some ''a/'') ex_bw = Some (\<lparr>br_Status = 200, br_Body = EventLog [EvStart, EvObject ''a/x'' [] 0, EvObject ''a/y/z'' [] 0, EvDone 2 0 0 False]\<rparr>, w')"
    using e by (auto split: option.splits)
  have n: "\<not> errors [EvStart, EvObject ''a/x'' [] 0, EvObject ''a/y/z'' [] 0, EvDone 2 0 0 False]" by (simp add: errors_def)
  have "validPrefix ''a/'' \<and> ''a/'' \<noteq> []" using v(1) by simp
  note t = delete_prefix_exact [OF mem.object_store_axioms ex_reg h, unfolded if_P [OF this]]
  then have "mem_contents (bw_store w') ''b'' ''c'' = mem_contents (bw_store ex_bw) ''b'' ''c'' \<or> HasPrefix ''c'' ''a/''" by blast
  then have "mem_contents (bw_store w') ''b'' ''c'' = Some (''data'', [], None)" using v(2,3) by metis
  moreover have "\<forall>k. HasPrefix k ''a/'' \<longrightarrow> mem_contents (bw_store w') ''b'' k = None" using t n by simp
  ultimately show ?thesis using h by auto
qed

definition ex_copy :: copyPrefixRequest where
  "ex_copy = \<lparr>xq_SrcPrefix = ''a/'', xq_DstPrefix = ''d/'', xq_DstBucket = [], xq_DstBackend = [], xq_Metadata = None\<rparr>"

theorem copy_prefix_exact_witness:
  "\<exists>w'. handleCopyPrefix ex_benv ''m'' ''b'' (Some ex_copy) ex_bw = Some (\<lparr>br_Status = 200, br_Body = EventLog [EvStart, EvObject ''a/x'' ''d/x'' 4, EvObject ''a/y/z'' ''d/y/z'' 4, EvDone 2 0 8 False]\<rparr>, w')
     \<and> mem_contents (bw_store w') ''b'' ''d/y/z'' = Some (''data'', [], None) \<and> mem_contents (bw_store w') ''b'' ''a/x'' = Some (''data'', [], None)"
proof -
  have e: "case handleCopyPrefix ex_benv ''m'' ''b'' (Some ex_copy) ex_bw of
      Some (resp, w') \<Rightarrow> resp = \<lparr>br_Status = 200, br_Body = EventLog [EvStart, EvObject ''a/x'' ''d/x'' 4, EvObject ''a/y/z'' ''d/y/z'' 4, EvDone 2 0 8 False]\<rparr> | None \<Rightarrow> False" by code_simp
  have v: "validPrefix (xq_SrcPrefix ex_copy)" "validPrefix (xq_DstPrefix ex_copy)" "xq_DstBucket ex_copy = [] \<or> validBucketName (xq_DstBucket ex_copy)" "xq_DstBackend ex_copy \<in> {[], ''m''}"
      "''b'' = (if xq_DstBucket ex_copy = [] then ''b'' else xq_DstBucket ex_copy)" "apart ''b'' (xq_SrcPrefix ex_copy) ''b'' (xq_DstPrefix ex_copy)"
    by (code_simp, code_simp, code_simp, code_simp, code_simp, code_simp)
  have c: "mem_contents (bw_store ex_bw) ''b'' ''a/x'' = Some (''data'', [], None)" "mem_contents (bw_store ex_bw) ''b'' ''a/y/z'' = Some (''data'', [], None)" "HasPrefix ''a/x'' (xq_SrcPrefix ex_copy)" "xq_Metadata ex_copy = None" by code_simp+
  from copy_prefix_exact [OF mem.object_store_axioms ex_reg v, of ex_bw] obtain evs w' where
      h: "handleCopyPrefix ex_benv ''m'' ''b'' (Some ex_copy) ex_bw = Some (\<lparr>br_Status = 200, br_Body = EventLog evs\<rparr>, w')"
      and s: "\<forall>k. HasPrefix k (xq_SrcPrefix ex_copy) \<longrightarrow> mem_contents (bw_store w') ''b'' k = mem_contents (bw_store ex_bw) ''b'' k"
      and r: "\<forall>k d n. EvObject k d n \<in> set evs \<longrightarrow> mem_contents (bw_store w') ''b'' d = copied (xq_Metadata ex_copy) (mem_contents (bw_store ex_bw) ''b'' k)" by blast
  have evs: "evs = [EvStart, EvObject ''a/x'' ''d/x'' 4, EvObject ''a/y/z'' ''d/y/z'' 4, EvDone 2 0 8 False]" using e h by simp
  have "mem_contents (bw_store w') ''b'' ''d/y/z'' = Some (''data'', [], None)" using r c(2,4) unfolding evs by force
  moreover have "mem_contents (bw_store w') ''b'' ''a/x'' = Some (''data'', [], None)" using s c(1,3) by simp
  ultimately show ?thesis using h evs by blast
qed

text \<open>Without that condition the copy goes wrong, although the handler accepts it: copying \<^verbatim>\<open>a/b/\<close> up to \<^verbatim>\<open>a/\<close> copies \<^verbatim>\<open>a/b/b/x\<close> over the source object
  \<^verbatim>\<open>a/b/x\<close> before that one is copied, so its contents are lost in the source and in the destination, and the log
  reports no error.\<close>

definition ex_up :: "mem bworld" where
  "ex_up = ex_bw\<lparr>bw_store := snd (mem_PutObject \<lparr>po_Bucket = ''b'', po_Key = ''a/b/x'', po_Body = (''precious'', None), po_Size = 8, po_ContentType = [], po_Metadata = None\<rparr>
     (ex_putm ''a/b/b/x'' ex_mem))\<rparr>"

lemma copy_up_overwrites:
  "case handleCopyPrefix ex_benv ''m'' ''b'' (Some (ex_copy\<lparr>xq_SrcPrefix := ''a/b/'', xq_DstPrefix := ''a/''\<rparr>)) ex_up of
     None \<Rightarrow> False
   | Some (resp, w') \<Rightarrow> mem_contents (bw_store ex_up) ''b'' ''a/b/x'' = Some (''precious'', [], None)
      \<and> resp = \<lparr>br_Status = 200, br_Body = EventLog [EvStart, EvObject ''a/b/b/x'' ''a/b/x'' 4, EvObject ''a/b/x'' ''a/x'' 8, EvDone 2 0 12 False]\<rparr>
      \<and> mem_contents (bw_store w') ''b'' ''a/b/x'' = Some (''data'', [], None) \<and> mem_contents (bw_store w') ''b'' ''a/x'' = Some (''data'', [], None)"
  by code_simp

end
