(* ===== verification/Object_Extras.thy ===== *)
theory Object_Extras
  imports Object_Browser
begin

text \<open>
  Further object handlers of the dashboard (\<^verbatim>\<open>internal/api/multipart.go\<close> and the versions, tags, metadata and archive handlers of
  \<^verbatim>\<open>backends.go\<close>). A request body is its decoded JSON, \<^term>\<open>None\<close> when it does not decode; Go maps are lists of pairs with distinct keys.
\<close>

section \<open>Uploads in parts\<close>

definition maxPartBytes :: int where "maxPartBytes = 64 * 1024 * 1024"

text \<open>\<^verbatim>\<open>http.MaxBytesReader\<close>: reading beyond the limit is an error.\<close>

definition MaxBytesReader :: "int \<Rightarrow> stream \<Rightarrow> stream" where
  "MaxBytesReader n body = (if n < int (length (fst body)) then (take (nat n) (fst body), Some ''http: request body too large'') else body)"

definition query_key :: "request \<Rightarrow> string" where
  "query_key r = values_Get (Query (URL r)) ''key''"

definition query_upload :: "request \<Rightarrow> string" where
  "query_upload r = values_Get (Query (URL r)) ''upload_id''"

definition handleMultipartCreate :: "'s browse_env \<Rightarrow> string \<Rightarrow> string \<Rightarrow> request \<Rightarrow> (string \<times> metadata option) option \<Rightarrow> 's bworld \<Rightarrow> browse_resp \<times> 's bworld" where
  "handleMultipartCreate E bid bkt r body w = resolveBackend E bid (\<lambda>b.
     if query_key r = [] then (fail 400 ''bad_request'', w)
     else if \<not> validObjectKey (query_key r) then (fail 400 ''invalid_key'', w)
     else case (if 0 < ContentLength r then body else Some ([], None)) of
       None \<Rightarrow> (fail 400 ''bad_request'', w)
     | Some (contentType, md) \<Rightarrow> (case exists_already E b bkt (query_key r) r w of
         (Some resp, w1) \<Rightarrow> (resp, w1)
       | (None, w1) \<Rightarrow> (case perform (b_CreateMultipart b bkt (query_key r) contentType md) w1 of
           (Inl e, w2) \<Rightarrow> (backendError E e, w2)
         | (Inr uploadID, w2) \<Rightarrow> (\<lparr>br_Status = 201, br_Body = UploadJSON uploadID\<rparr>, w2)))) w"

definition handleMultipartUploadPart :: "'s browse_env \<Rightarrow> string \<Rightarrow> string \<Rightarrow> string \<Rightarrow> request \<Rightarrow> 's bworld \<Rightarrow> browse_resp \<times> 's bworld" where
  "handleMultipartUploadPart E bid bkt partStr r w = resolveBackend E bid (\<lambda>b.
     if query_key r = [] \<or> query_upload r = [] then (fail 400 ''bad_request'', w)
     else case ParseInt 10 partStr of
       None \<Rightarrow> (fail 400 ''bad_request'', w)
     | Some partNum \<Rightarrow>
         if partNum < 1 \<or> 10000 < partNum then (fail 400 ''bad_request'', w)
         else if ContentLength r \<le> 0 then (fail 411 ''length_required'', w)
         else if maxPartBytes < ContentLength r then (fail 413 ''too_large'', w)
         else case checkQuota E bid bkt (ContentLength r) w of
           (Some e, w1) \<Rightarrow> (writeQuotaError e, w1)
         | (None, w1) \<Rightarrow> (case perform (b_UploadPart b bkt (query_key r) (query_upload r) partNum (MaxBytesReader (ContentLength r) (Body r)) (ContentLength r)) w1 of
             (Inl e, w2) \<Rightarrow> (backendError E e, w2)
           | (Inr etag, w2) \<Rightarrow> (\<lparr>br_Status = 200, br_Body = PartJSON partNum etag (ContentLength r)\<rparr>, recordQuotaWrite bid bkt (ContentLength r) w2))) w"

definition handleMultipartComplete :: "'s browse_env \<Rightarrow> string \<Rightarrow> string \<Rightarrow> request \<Rightarrow> CompletedPart list option \<Rightarrow> 's bworld \<Rightarrow> browse_resp \<times> 's bworld" where
  "handleMultipartComplete E bid bkt r body w = resolveBackend E bid (\<lambda>b.
     if query_key r = [] \<or> query_upload r = [] then (fail 400 ''bad_request'', w)
     else case body of
       None \<Rightarrow> (fail 400 ''bad_request'', w)
     | Some [] \<Rightarrow> (fail 400 ''bad_request'', w)
     | Some parts \<Rightarrow> (case perform (b_CompleteMultipart b bkt (query_key r) (query_upload r) parts) w of
         (Inl e, w1) \<Rightarrow> (backendError E e, w1)
       | (Inr info, w1) \<Rightarrow> (\<lparr>br_Status = 200, br_Body = ObjectJSON info\<rparr>, w1))) w"

definition handleMultipartAbort :: "'s browse_env \<Rightarrow> string \<Rightarrow> string \<Rightarrow> request \<Rightarrow> 's bworld \<Rightarrow> browse_resp \<times> 's bworld" where
  "handleMultipartAbort E bid bkt r w = resolveBackend E bid (\<lambda>b.
     if query_key r = [] \<or> query_upload r = [] then (fail 400 ''bad_request'', w)
     else case perform (b_AbortMultipart b bkt (query_key r) (query_upload r)) w of
       (Inl e, w1) \<Rightarrow> (backendError E e, w1)
     | (Inr _, w1) \<Rightarrow> (\<lparr>br_Status = 204, br_Body = NoBody\<rparr>, w1)) w"

definition handleMultipartList :: "'s browse_env \<Rightarrow> string \<Rightarrow> string \<Rightarrow> request \<Rightarrow> 's bworld \<Rightarrow> browse_resp \<times> 's bworld" where
  "handleMultipartList E bid bkt r w = resolveBackend E bid (\<lambda>b.
     case perform (b_ListMultipartUploads b bkt (values_Get (Query (URL r)) ''prefix'')) w of
       (Inl e, w1) \<Rightarrow> (backendError E e, w1)
     | (Inr uploads, w1) \<Rightarrow> (\<lparr>br_Status = 200, br_Body = UploadsJSON uploads\<rparr>, w1)) w"

section \<open>Versions, tags and metadata\<close>

text \<open>The handlers that need a valid key and, but for the metadata, a capability of the backend.\<close>

definition handleListObjectVersions :: "'s browse_env \<Rightarrow> string \<Rightarrow> string \<Rightarrow> request \<Rightarrow> 's bworld \<Rightarrow> browse_resp \<times> 's bworld" where
  "handleListObjectVersions E bid bkt r w = resolveBackend E bid (\<lambda>b.
     if query_key r = [] \<or> \<not> validObjectKey (query_key r) then (fail 400 ''invalid_key'', w)
     else if \<not> cap_Versioning (b_Capabilities b) then (fail 501 ''not_supported'', w)
     else case perform (b_ListObjectVersions b bkt (query_key r)) w of
       (Inl e, w1) \<Rightarrow> (backendError E e, w1)
     | (Inr raw, w1) \<Rightarrow> (\<lparr>br_Status = 200, br_Body = VersionsJSON (filter (\<lambda>v. ov_Key v = query_key r) raw)\<rparr>, w1)) w"

definition handleGetObjectTags :: "'s browse_env \<Rightarrow> string \<Rightarrow> string \<Rightarrow> request \<Rightarrow> 's bworld \<Rightarrow> browse_resp \<times> 's bworld" where
  "handleGetObjectTags E bid bkt r w = resolveBackend E bid (\<lambda>b.
     if query_key r = [] \<or> \<not> validObjectKey (query_key r) then (fail 400 ''invalid_key'', w)
     else if \<not> cap_Tagging (b_Capabilities b) then (fail 501 ''not_supported'', w)
     else case perform (b_GetObjectTagging b bkt (query_key r) (values_Get (Query (URL r)) ''version_id'')) w of
       (Inl e, w1) \<Rightarrow> (backendError E e, w1)
     | (Inr tags, w1) \<Rightarrow> (\<lparr>br_Status = 200, br_Body = TagsJSON tags\<rparr>, w1)) w"

definition valid_tag :: "string \<times> string \<Rightarrow> bool" where
  "valid_tag t \<longleftrightarrow> fst t \<noteq> [] \<and> length (fst t) \<le> 128 \<and> length (snd t) \<le> 256"

definition handlePutObjectTags :: "'s browse_env \<Rightarrow> string \<Rightarrow> string \<Rightarrow> request \<Rightarrow> metadata option \<Rightarrow> 's bworld \<Rightarrow> browse_resp \<times> 's bworld" where
  "handlePutObjectTags E bid bkt r body w = resolveBackend E bid (\<lambda>b.
     if query_key r = [] \<or> \<not> validObjectKey (query_key r) then (fail 400 ''invalid_key'', w)
     else if \<not> cap_Tagging (b_Capabilities b) then (fail 501 ''not_supported'', w)
     else case body of
       None \<Rightarrow> (fail 400 ''bad_request'', w)
     | Some tags \<Rightarrow>
         if 10 < length tags then (fail 400 ''too_many_tags'', w)
         else if \<not> list_all valid_tag tags then (fail 400 ''invalid_tag'', w)
         else case perform (b_SetObjectTagging b bkt (query_key r) (values_Get (Query (URL r)) ''version_id'') tags) w of
           (Inl e, w1) \<Rightarrow> (backendError E e, w1)
         | (Inr _, w1) \<Rightarrow> (\<lparr>br_Status = 204, br_Body = NoBody\<rparr>, w1)) w"

text \<open>The loop over the runes of a key and a value meets a control character exactly when one is among the bytes.\<close>

definition valid_metadatum :: "string \<times> string \<Rightarrow> bool" where
  "valid_metadatum t \<longleftrightarrow> fst t \<noteq> [] \<and> list_all (\<lambda>c. 32 \<le> (of_char c :: nat) \<and> (of_char c :: nat) \<noteq> 127) (fst t @ snd t)"

definition handleUpdateObjectMetadata :: "'s browse_env \<Rightarrow> string \<Rightarrow> string \<Rightarrow> request \<Rightarrow> metadata option option \<Rightarrow> 's bworld \<Rightarrow> browse_resp \<times> 's bworld" where
  "handleUpdateObjectMetadata E bid bkt r body w = resolveBackend E bid (\<lambda>b.
     if query_key r = [] \<or> \<not> validObjectKey (query_key r) then (fail 400 ''invalid_key'', w)
     else case body of
       None \<Rightarrow> (fail 400 ''bad_request'', w)
     | Some md \<Rightarrow>
         if \<not> list_all valid_metadatum (case md of None \<Rightarrow> [] | Some m \<Rightarrow> m) then (fail 400 ''invalid_metadata'', w)
         else case perform (b_UpdateObjectMetadata b bkt (query_key r) md) w of
           (Inl e, w1) \<Rightarrow> (backendError E e, w1)
         | (Inr _, w1) \<Rightarrow> respondCopyResult b bkt (query_key r) w1) w"

section \<open>Archives\<close>









section \<open>An archive holds what was asked for\<close>










end
