(* ===== verification/Json_Print.thy ===== *)
theory Json_Print
  imports Go_Json Chunked
begin

text \<open>
  What \<^verbatim>\<open>json.Marshal\<close> writes, for values that are printed without indentation: strings escaped for HTML, no white space. Strings are valid
  UTF-8, as every string that came out of a JSON decoder is. Reading it back gives the value.
\<close>

section \<open>Printing\<close>

definition escape_one :: "char \<Rightarrow> string" where
  "escape_one c =
     (if c = CHR 0x22 \<or> c = CHR 0x5C then [CHR 0x5C, c]
      else if c = CHR 0x08 then [CHR 0x5C, CHR ''b''] else if c = CHR 0x0C then [CHR 0x5C, CHR ''f'']
      else if c = CHR 0x0A then [CHR 0x5C, CHR ''n''] else if c = CHR 0x0D then [CHR 0x5C, CHR ''r'']
      else if c = CHR 0x09 then [CHR 0x5C, CHR ''t'']
      else if (of_char c :: nat) < 32 \<or> c \<in> set ''<>&'' then
        [CHR 0x5C, CHR ''u'', CHR ''0'', CHR ''0'', hexL ((of_char c :: nat) div 16), hexL ((of_char c :: nat) mod 16)]
      else [c])"

text \<open>The separators U+2028 and U+2029 are escaped as well.\<close>

function json_escape :: "string \<Rightarrow> string" where
  "json_escape [] = []"
| "json_escape (c # cs) =
     (if c = CHR 0xE2 \<and> take 2 cs = [CHR 0x80, CHR 0xA8] then [CHR 0x5C, CHR ''u'', CHR ''2'', CHR ''0'', CHR ''2'', CHR ''8''] @ json_escape (drop 2 cs)
      else if c = CHR 0xE2 \<and> take 2 cs = [CHR 0x80, CHR 0xA9] then [CHR 0x5C, CHR ''u'', CHR ''2'', CHR ''0'', CHR ''2'', CHR ''9''] @ json_escape (drop 2 cs)
      else escape_one c @ json_escape cs)"
  by pat_completeness auto
termination
  by (relation "measure length") auto

definition json_quote :: "string \<Rightarrow> string" where
  "json_quote s = CHR 0x22 # json_escape s @ [CHR 0x22]"

fun join_with :: "string list \<Rightarrow> string" where
  "join_with [] = []"
| "join_with [x] = x"
| "join_with (x # y # ys) = x @ CHR '','' # join_with (y # ys)"

fun json_print :: "json \<Rightarrow> string" where
  "json_print JNull = ''null''"
| "json_print (JBool b) = (if b then ''true'' else ''false'')"
| "json_print (JNum lit) = lit"
| "json_print (JStr s) = json_quote s"
| "json_print (JArr js) = ''['' @ join_with (map json_print js) @ '']''"
| "json_print (JObj ms) = ''{'' @ join_with (map (\<lambda>(k, v). json_quote k @ CHR '':'' # json_print v) ms) @ ''}''"

section \<open>Reading back\<close>

lemma unicode_escape_byte:
  assumes "(of_char c :: nat) < 128"
  shows "unicode_escape (CHR ''0'' # CHR ''0'' # hexL ((of_char c :: nat) div 16) # hexL ((of_char c :: nat) mod 16) # xs) = Some ([c], 4)"
proof -
  have "ishex (CHR ''0'')" "unhex (CHR ''0'') = 0" by (simp_all add: ishex_def unhex_def)
  moreover have "(of_char c :: nat) div 16 < 16" by simp
  ultimately have "hex4 (CHR ''0'' # CHR ''0'' # hexL ((of_char c :: nat) div 16) # hexL ((of_char c :: nat) mod 16) # xs) = Some (of_char c)"
    by (simp add: hex4_def)
  then show ?thesis using assms by (simp add: unicode_escape_def utf8_def)
qed

lemma unicode_escape_sep:
  "unicode_escape (CHR ''2'' # CHR ''0'' # CHR ''2'' # CHR ''8'' # xs) = Some ([CHR 0xE2, CHR 0x80, CHR 0xA8], 4)"
  "unicode_escape (CHR ''2'' # CHR ''0'' # CHR ''2'' # CHR ''9'' # xs) = Some ([CHR 0xE2, CHR 0x80, CHR 0xA9], 4)"
  by (simp_all add: unicode_escape_def hex4_def ishex_def unhex_def utf8_def, simp_all add: char_of_def bit_0)

lemma json_str_one: "json_str (escape_one c @ xs) = map_option (\<lambda>(s, r). (c # s, r)) (json_str xs)"
proof -
  have "(of_char c :: nat) < 128" if "(of_char c :: nat) < 32 \<or> c \<in> set ''<>&''" using that by auto
  then show ?thesis using unicode_escape_byte [of c xs] by (auto simp: escape_one_def escape_char_def)
qed

lemma json_str_escape: "json_str (json_escape s @ CHR 0x22 # rest) = Some (s, rest)"
proof (induction s rule: json_escape.induct)
  case (2 c cs)
  consider (a) "c = CHR 0xE2 \<and> take 2 cs = [CHR 0x80, CHR 0xA8]" | (b) "c = CHR 0xE2 \<and> take 2 cs = [CHR 0x80, CHR 0xA9]"
    | (other) "\<not> (c = CHR 0xE2 \<and> take 2 cs = [CHR 0x80, CHR 0xA8])" "\<not> (c = CHR 0xE2 \<and> take 2 cs = [CHR 0x80, CHR 0xA9])" by blast
  then show ?case
  proof cases
    case a
    have "cs = [CHR 0x80, CHR 0xA8] @ drop 2 cs" using a append_take_drop_id [of 2 cs] by metis
    then show ?thesis using 2(1) [OF a] a unicode_escape_sep(1) [of "json_escape (drop 2 cs) @ CHR 0x22 # rest"] by simp
  next
    case b
    have "cs = [CHR 0x80, CHR 0xA9] @ drop 2 cs" using b append_take_drop_id [of 2 cs] by metis
    then show ?thesis using 2(2) [OF _ b] b unicode_escape_sep(2) [of "json_escape (drop 2 cs) @ CHR 0x22 # rest"] by simp
  next
    case other
    then show ?thesis using 2(3) json_str_one [of c "json_escape cs @ CHR 0x22 # rest"] by auto
  qed
qed simp

lemma json_str_quote: "tl (json_quote s) @ rest = json_escape s @ CHR 0x22 # rest" "hd (json_quote s) = CHR 0x22"
  by (simp_all add: json_quote_def)

text \<open>The values the printer is used for: numbers have a number literal.\<close>

fun printable :: "json \<Rightarrow> bool" where
  "printable (JNum lit) \<longleftrightarrow> valid_number lit \<and> list_all number_char lit"
| "printable (JArr js) \<longleftrightarrow> (\<forall>j \<in> set js. printable j)"
| "printable (JObj ms) \<longleftrightarrow> (\<forall>m \<in> set ms. printable (snd m))"
| "printable _ \<longleftrightarrow> True"

definition delimited :: "string \<Rightarrow> bool" where
  "delimited rest \<longleftrightarrow> rest = [] \<or> \<not> number_char (hd rest)"

definition bare :: "string \<Rightarrow> bool" where
  "bare s \<longleftrightarrow> s \<noteq> [] \<and> \<not> json_ws (hd s)"

lemma skip_bare [simp]: "bare s \<Longrightarrow> skip_ws (s @ rest) = s @ rest" "\<not> json_ws c \<Longrightarrow> skip_ws (c # cs) = c # cs"
  by (cases s; simp add: bare_def skip_ws_def)+

lemma not_ws [simp]: "\<not> json_ws (CHR 0x22)" "\<not> json_ws (CHR ''['')" "\<not> json_ws (CHR '']'')" "\<not> json_ws (CHR ''{'')" "\<not> json_ws (CHR ''}'')" "\<not> json_ws (CHR '','')" "\<not> json_ws (CHR '':'')"
  by (simp_all add: json_ws_def)

lemma number_not_ws: "number_char c \<Longrightarrow> \<not> json_ws c \<and> c \<noteq> CHR 0x22 \<and> c \<noteq> CHR ''['' \<and> c \<noteq> CHR ''{'' \<and> c \<noteq> CHR ''t'' \<and> c \<noteq> CHR ''f'' \<and> c \<noteq> CHR ''n'' \<and> c \<noteq> CHR '']''"
  by (auto simp: number_char_def json_ws_def is_digit_def)

lemma valid_not_Nil: "valid_number lit \<Longrightarrow> lit \<noteq> []"
  by (auto simp: valid_number_def digits1_def)

lemma print_bare: "printable j \<Longrightarrow> bare (json_print j)"
proof (cases j)
  case (JNum lit)
  then show "printable j \<Longrightarrow> bare (json_print j)" using valid_not_Nil [of lit] number_not_ws [of "hd lit"] by (cases lit) (auto simp: bare_def)
qed (auto simp: bare_def json_quote_def json_ws_def)

lemma print_hd: "printable j \<Longrightarrow> hd (json_print j) \<noteq> CHR '']''"
proof (cases j)
  case (JNum lit)
  then show "printable j \<Longrightarrow> hd (json_print j) \<noteq> CHR '']''" using valid_not_Nil [of lit] number_not_ws [of "hd lit"] by (cases lit) auto
qed (auto simp: json_quote_def)

lemma print_not_Nil: "printable j \<Longrightarrow> 0 < length (json_print j)"
  using print_bare [of j] by (simp add: bare_def)

lemma value_number:
  assumes "valid_number lit" "list_all number_char lit" "delimited rest"
  shows "json_value (Suc n) (lit @ rest) = Some (JNum lit, rest)"
proof -
  obtain c cs where lit: "lit = c # cs" using valid_not_Nil [OF assms(1)] by (cases lit) auto
  note c = number_not_ws [of c]
  have "takeWhile number_char (lit @ rest) = lit" "dropWhile number_char (lit @ rest) = rest"
    using assms(2,3) by (simp_all add: takeWhile_append2 dropWhile_append2 delimited_def list_all_iff, (cases rest; simp)+)
  moreover have "number_char c" using assms(2) lit by simp
  ultimately show ?thesis using assms(1) c by (simp add: lit)
qed

text \<open>Enough fuel for a text is its length.\<close>

definition reads :: "json \<Rightarrow> bool" where
  "reads j \<longleftrightarrow> (\<forall>n rest. length (json_print j) \<le> n \<longrightarrow> delimited rest \<longrightarrow> json_value (Suc n) (json_print j @ rest) = Some (j, rest))"

lemma delimiters [simp]: "delimited (CHR '','' # xs)" "delimited (CHR '']'' # xs)" "delimited (CHR ''}'' # xs)" "delimited []"
  by (simp_all add: delimited_def number_char_def is_digit_def)

lemma elems_read:
  "js \<noteq> [] \<Longrightarrow> \<forall>j \<in> set js. reads j \<and> printable j \<Longrightarrow> length (join_with (map json_print js)) + 2 \<le> n \<Longrightarrow>
     json_elems n (join_with (map json_print js) @ CHR '']'' # rest) = Some (js, rest)"
proof (induction js arbitrary: n)
  case (Cons j js)
  define m where "m = n - 2"
  have n: "n = Suc (Suc m)" using Cons.prems(3) by (simp add: m_def)
  show ?case
  proof (cases js)
    case Nil
    then show ?thesis using Cons.prems by (simp add: n reads_def)
  next
    case (Cons j' js')
    let ?r = "join_with (map json_print js) @ CHR '']'' # rest"
    have len: "length (json_print j) + length (join_with (map json_print js)) + 1 \<le> m" using Cons.prems(3) by (simp add: n Cons)
    have "json_value (Suc m) (json_print j @ CHR '','' # ?r) = Some (j, CHR '','' # ?r)" using Cons.prems(2) len by (simp add: reads_def)
    moreover have "json_elems (Suc m) ?r = Some (js, rest)"
      using Cons.IH [of "Suc m"] Cons.prems(2) len print_not_Nil [of j] by (simp add: Cons)
    ultimately show ?thesis by (simp add: n Cons)
  qed
qed simp

lemma members_read:
  "ms \<noteq> [] \<Longrightarrow> \<forall>m \<in> set ms. reads (snd m) \<and> printable (snd m) \<Longrightarrow> length (join_with (map (\<lambda>(k, v). json_quote k @ CHR '':'' # json_print v) ms)) + 2 \<le> n \<Longrightarrow>
     json_members n (join_with (map (\<lambda>(k, v). json_quote k @ CHR '':'' # json_print v) ms) @ CHR ''}'' # rest) = Some (ms, rest)"
proof (induction ms arbitrary: n)
  case (Cons kv ms)
  obtain k v where kv: "kv = (k, v)" by force
  define m where "m = n - 2"
  have n: "n = Suc (Suc m)" using Cons.prems(3) by (simp add: m_def)
  show ?case
  proof (cases ms)
    case Nil
    then show ?thesis using Cons.prems by (simp add: n kv reads_def json_quote_def json_str_escape)
  next
    case (Cons kv' ms')
    let ?p = "\<lambda>(k, v). json_quote k @ CHR '':'' # json_print v"
    let ?r = "join_with (map ?p ms) @ CHR ''}'' # rest"
    have len: "length (json_print v) + length (join_with (map ?p ms)) + 1 \<le> m" using Cons.prems(3) by (simp add: n kv Cons)
    have "json_value (Suc m) (json_print v @ CHR '','' # ?r) = Some (v, CHR '','' # ?r)" using Cons.prems(2) len by (simp add: reads_def kv)
    moreover have "json_members (Suc m) ?r = Some (ms, rest)"
      using Cons.IH [of "Suc m"] Cons.prems(2) len print_not_Nil [of v] by (simp add: Cons kv)
    ultimately show ?thesis by (simp add: n kv Cons json_quote_def json_str_escape)
  qed
qed simp

lemma join_bare: "xs \<noteq> [] \<Longrightarrow> bare (hd xs) \<Longrightarrow> bare (join_with xs) \<and> hd (join_with xs) = hd (hd xs)"
  by (cases xs rule: join_with.cases) (auto simp: bare_def)

lemma print_read: "printable j \<Longrightarrow> reads j"
proof (induction j)
  case (JArr js)
  show ?case
  proof (cases "js = []")
    case False
    let ?t = "join_with (map json_print js)"
    have b: "bare (json_print (hd js))" using JArr.prems False by (intro print_bare) simp
    have h: "bare ?t" "hd ?t = hd (json_print (hd js))" using join_bare [of "map json_print js"] b False by (simp_all add: hd_map)
    have d: "hd ?t \<noteq> CHR '']''" unfolding h(2) using JArr.prems False by (intro print_hd) simp
    show ?thesis unfolding reads_def
    proof (intro allI impI)
      fix n rest assume "length (json_print (JArr js)) \<le> n"
      then have "json_elems n (?t @ CHR '']'' # rest) = Some (js, rest)" using elems_read [of js n rest] JArr False by simp
      then show "json_value (Suc n) (json_print (JArr js) @ rest) = Some (JArr js, rest)"
        using h d by (cases ?t) (auto simp: bare_def)
    qed
  qed (simp add: reads_def)
next
  case (JObj ms)
  show ?case
  proof (cases "ms = []")
    case False
    let ?p = "\<lambda>(k, v). json_quote k @ CHR '':'' # json_print v"
    let ?t = "join_with (map ?p ms)"
    have "bare (?p (hd ms))" "hd (?p (hd ms)) = CHR 0x22" by (auto simp: bare_def json_quote_def split: prod.splits)
    then have h: "bare ?t" "hd ?t = CHR 0x22" using join_bare [of "map ?p ms"] False by (simp_all add: hd_map)
    show ?thesis unfolding reads_def
    proof (intro allI impI)
      fix n rest assume "length (json_print (JObj ms)) \<le> n"
      then have "json_members n (?t @ CHR ''}'' # rest) = Some (ms, rest)" using members_read [of ms n rest] JObj False by (auto simp: snds.simps)
      then show "json_value (Suc n) (json_print (JObj ms) @ rest) = Some (JObj ms, rest)"
        using h by (cases ?t) (auto simp: bare_def)
    qed
  qed (simp add: reads_def)
next
  case (JNum lit)
  then show ?case using value_number by (simp add: reads_def del: json_value.simps)
qed (auto simp: reads_def json_quote_def json_str_escape json_ws_def)

theorem json_parse_print: "printable j \<Longrightarrow> json_parse (json_print j) = Some j"
  using print_read [of j, unfolded reads_def, rule_format, of "2 * length (json_print j) + 1" "[]"] by (simp add: json_parse_def skip_ws_def)

section \<open>Lists and numbers\<close>

lemma those_map_Some: "\<forall>x \<in> set xs. f (g x) = Some x \<Longrightarrow> those (map (f \<circ> g) xs) = Some xs"
  by (induction xs) auto

lemma show_nat_digits: "list_all is_digit (show_nat 10 n)"
proof (induction "10 :: nat" n rule: show_nat.induct)
  case (1 n)
  have "is_digit (hexU (k mod 16))" if "k < 10" for k using that hexU_cases [of k] by (auto simp: hexU_def is_digit_def)
  then show ?case using 1 by (subst show_nat.simps) auto
qed

lemma show_nat_no_zero: "0 < n \<Longrightarrow> hd (show_nat 10 n) \<noteq> CHR ''0''"
proof (induction "10 :: nat" n rule: show_nat.induct)
  case (1 n)
  have "hexU (n mod 16) \<noteq> CHR ''0''" if "n < 10" using that 1(2) hexU_cases [of n] by (auto simp: hexU_def)
  then show ?case using 1 by (subst show_nat.simps) (simp add: show_nat_not_Nil)
qed

lemma number_FormatInt: "0 < n \<Longrightarrow> valid_number (FormatInt n) \<and> list_all number_char (FormatInt n)"
proof -
  assume n: "0 < n"
  let ?d = "show_nat 10 (nat n)"
  obtain c cs where d: "?d = c # cs" using show_nat_not_Nil by (meson neq_Nil_conv)
  have all: "\<forall>x \<in> set (c # cs). is_digit x" using show_nat_digits [of "nat n"] unfolding d list_all_iff .
  then have "takeWhile is_digit cs = cs" "dropWhile is_digit cs = []" by auto
  note dig = this
  have "is_digit c" "list_all is_digit cs" "c \<noteq> CHR ''-''" "list_all number_char (c # cs)" using all by (auto simp: list_all_iff number_char_def is_digit_def)
  moreover have f: "FormatInt n = c # cs" "c \<noteq> CHR ''0''" using n d show_nat_no_zero [of "nat n"] by (simp_all add: FormatInt_def)
  ultimately show ?thesis unfolding f(1) by (simp add: valid_number_def digits1_def Let_def dig)
qed

end
