(* ===== verification/Bucket_Settings.thy ===== *)
theory Bucket_Settings
  imports Object_Extras Sources Login_Sessions Json_Print
begin

text \<open>
  The bucket handlers of the dashboard: listing with its short-lived cache, creation and deletion (\<^verbatim>\<open>internal/api/backends.go\<close>, \<^verbatim>\<open>buckets_cache.go\<close>),
  the settings (\<^verbatim>\<open>bucket_settings.go\<close>), size tracking and folder sizes (\<^verbatim>\<open>sizes.go\<close>), and the table of CORS rules (\<^verbatim>\<open>sqlstore/s3_bucket_cors.go\<close>).
  CORS rules live in the table, from which the proxy's source reloads them; the other settings live in the backend. A database failure
  is an argument; timeouts of the backend calls appear as their errors.
\<close>

section \<open>The world\<close>

text \<open>An entry that was never filled has no buckets and the zero time.\<close>

record bucketsCacheEntry =
  ce_buckets :: "(string \<times> time) list option"
  ce_expiresAt :: "time option"

record 's dash =
  da_world :: "'s bworld"
  da_buckets :: "(string \<times> bucketsCacheEntry) list"
  da_cors :: "S3BucketCORS list option"
  da_source :: "SQLiteSource option"

definition lift_w :: "('s bworld \<Rightarrow> 'a \<times> 's bworld) \<Rightarrow> 's dash \<Rightarrow> 'a \<times> 's dash" where
  "lift_w f d = (case f (da_world d) of (a, w) \<Rightarrow> (a, d\<lparr>da_world := w\<rparr>))"

definition note_event :: "string \<Rightarrow> string \<Rightarrow> string \<Rightarrow> 's dash \<Rightarrow> 's dash" where
  "note_event act bid bkt d = d\<lparr>da_world := audited act bid bkt [] (da_world d)\<rparr>"

abbreviation no_content :: browse_resp where
  "no_content \<equiv> \<lparr>br_Status = 204, br_Body = NoBody\<rparr>"

section \<open>Buckets\<close>

definition bucketsCacheTTL :: duration where "bucketsCacheTTL = 2 * Second"

definition cache_entry :: "string \<Rightarrow> (string \<times> bucketsCacheEntry) list \<Rightarrow> bucketsCacheEntry \<times> (string \<times> bucketsCacheEntry) list" where
  "cache_entry bid c = (case map_of c bid of Some e \<Rightarrow> (e, c) | None \<Rightarrow> (let e = \<lparr>ce_buckets = None, ce_expiresAt = None\<rparr> in (e, AList.update bid e c)))"

definition cache_invalidate :: "string \<Rightarrow> (string \<times> bucketsCacheEntry) list \<Rightarrow> (string \<times> bucketsCacheEntry) list" where
  "cache_invalidate bid c = AList.delete bid c"

definition fresh :: "time \<Rightarrow> bucketsCacheEntry \<Rightarrow> bool" where
  "fresh now e \<longleftrightarrow> (\<exists>t \<in> set_option (ce_expiresAt e). now < t)"

text \<open>The clock is read before and after the backend is asked. The entry is locked meanwhile, so requests for one backend queue.\<close>

definition listBucketsCached :: "time \<Rightarrow> time \<Rightarrow> string \<Rightarrow> 's ObjectBackend \<Rightarrow> 's dash \<Rightarrow> (string + (string \<times> time) list) \<times> 's dash" where
  "listBucketsCached now later bid b d =
     (case cache_entry bid (da_buckets d) of (e, c) \<Rightarrow>
        case (if fresh now e then ce_buckets e else None) of
          Some bkts \<Rightarrow> (Inr bkts, d\<lparr>da_buckets := c\<rparr>)
        | None \<Rightarrow> (case perform (b_ListBuckets b) (da_world d) of
            (Inl err, w) \<Rightarrow> (Inl err, d\<lparr>da_world := w, da_buckets := c\<rparr>)
          | (Inr bkts, w) \<Rightarrow> (Inr bkts, d\<lparr>da_world := w,
              da_buckets := AList.update bid \<lparr>ce_buckets = Some bkts, ce_expiresAt = Some (time_Add later bucketsCacheTTL)\<rparr> c\<rparr>)))"

definition disabled_buckets :: "string option \<Rightarrow> SizeService option \<Rightarrow> string list" where
  "disabled_buckets db S = (case Option.bind S sz_Store of None \<Rightarrow> [] | Some rows \<Rightarrow> (case ListDisabledSizeTracking db rows of Inl _ \<Rightarrow> [] | Inr off \<Rightarrow> off))"

definition bucket_row :: "string list \<Rightarrow> SizeService option \<Rightarrow> string \<Rightarrow> string \<times> time \<Rightarrow> bucketDTO" where
  "bucket_row off S bid bk =
     (let tracked = (bid @ ''/'' @ fst bk \<notin> set off)
      in \<lparr>bk_Name = fst bk, bk_CreatedAt = snd bk, bk_SizeTracked = tracked, bk_Usage = (if tracked then Option.bind S (sizes_Get bid (fst bk)) else None)\<rparr>)"

definition handleListBuckets :: "'s browse_env \<Rightarrow> string option \<Rightarrow> time \<Rightarrow> time \<Rightarrow> string \<Rightarrow> 's dash \<Rightarrow> browse_resp \<times> 's dash" where
  "handleListBuckets E db now later bid d =
     (case be_reg E bid of
        None \<Rightarrow> (fail 404 ''not_found'', d)
      | Some b \<Rightarrow> (case listBucketsCached now later bid b d of
          (Inl err, d1) \<Rightarrow> (backendError E err, d1)
        | (Inr bkts, d1) \<Rightarrow>
            (let S = bw_sizes (da_world d1)
             in (\<lparr>br_Status = 200, br_Body = BucketsJSON (map (bucket_row (disabled_buckets db S) S bid) bkts)\<rparr>, d1))))"

definition handleCreateBucket :: "'s browse_env \<Rightarrow> string \<Rightarrow> (string \<times> string) option \<Rightarrow> 's dash \<Rightarrow> browse_resp \<times> 's dash" where
  "handleCreateBucket E bid body d =
     (case be_reg E bid of
        None \<Rightarrow> (fail 404 ''not_found'', d)
      | Some b \<Rightarrow> (case body of
          None \<Rightarrow> (fail 400 ''bad_request'', d)
        | Some (name, region) \<Rightarrow>
            if \<not> validBucketName name then (fail 400 ''invalid_bucket_name'', d)
            else (case lift_w (perform (b_CreateBucket b name region)) d of
              (Inl e, d1) \<Rightarrow> (backendError E e, d1)
            | (Inr _, d1) \<Rightarrow> (\<lparr>br_Status = 201, br_Body = NameJSON name\<rparr>, d1\<lparr>da_buckets := cache_invalidate bid (da_buckets d1)\<rparr>))))"

definition handleDeleteBucket :: "'s browse_env \<Rightarrow> string \<Rightarrow> string \<Rightarrow> 's dash \<Rightarrow> browse_resp \<times> 's dash" where
  "handleDeleteBucket E bid bkt d =
     (case be_reg E bid of
        None \<Rightarrow> (fail 404 ''not_found'', d)
      | Some b \<Rightarrow> (case lift_w (perform (b_DeleteBucket b bkt)) d of
          (Inl e, d1) \<Rightarrow> (backendError E e, d1)
        | (Inr _, d1) \<Rightarrow> (no_content,
            d1\<lparr>da_buckets := cache_invalidate bid (da_buckets d1),
               da_world := (da_world d1)\<lparr>bw_sizes := map_option (sizes_Forget bid bkt) (bw_sizes (da_world d1))\<rparr>\<rparr>)))"

section \<open>Settings kept by the backend\<close>

text \<open>The handlers share their beginning: the backend must exist and have the capability.\<close>

definition capable :: "'s browse_env \<Rightarrow> string \<Rightarrow> (Capabilities \<Rightarrow> bool) \<Rightarrow> ('s ObjectBackend \<Rightarrow> browse_resp \<times> 's dash) \<Rightarrow> 's dash \<Rightarrow> browse_resp \<times> 's dash" where
  "capable E bid cap f d =
     (case be_reg E bid of
        None \<Rightarrow> (fail 404 ''not_found'', d)
      | Some b \<Rightarrow> if \<not> cap (b_Capabilities b) then (fail 501 ''not_supported'', d) else f b)"

definition handleGetBucketVersioning :: "'s browse_env \<Rightarrow> string \<Rightarrow> string \<Rightarrow> 's dash \<Rightarrow> browse_resp \<times> 's dash" where
  "handleGetBucketVersioning E bid bkt d = capable E bid cap_Versioning (\<lambda>b.
     case lift_w (perform (b_GetBucketVersioning b bkt)) d of
       (Inl e, d1) \<Rightarrow> (backendError E e, d1)
     | (Inr on, d1) \<Rightarrow> (\<lparr>br_Status = 200, br_Body = EnabledJSON on\<rparr>, d1)) d"

definition handlePutBucketVersioning :: "'s browse_env \<Rightarrow> string \<Rightarrow> string \<Rightarrow> bool option \<Rightarrow> 's dash \<Rightarrow> browse_resp \<times> 's dash" where
  "handlePutBucketVersioning E bid bkt body d = capable E bid cap_Versioning (\<lambda>b.
     case body of
       None \<Rightarrow> (fail 400 ''bad_request'', d)
     | Some on \<Rightarrow> (case lift_w (perform (b_SetBucketVersioning b bkt on)) d of
         (Inl e, d1) \<Rightarrow> (backendError E e, d1)
       | (Inr _, d1) \<Rightarrow> (\<lparr>br_Status = 200, br_Body = EnabledJSON on\<rparr>, note_event ''bucket.versioning.set'' bid bkt d1))) d"

definition handleGetBucketPolicy :: "'s browse_env \<Rightarrow> string \<Rightarrow> string \<Rightarrow> 's dash \<Rightarrow> browse_resp \<times> 's dash" where
  "handleGetBucketPolicy E bid bkt d = capable E bid cap_BucketPolicy (\<lambda>b.
     case lift_w (perform (b_GetBucketPolicy b bkt)) d of
       (Inl e, d1) \<Rightarrow> (if be_IsNotFound E e then \<lparr>br_Status = 200, br_Body = PolicyJSON []\<rparr> else backendError E e, d1)
     | (Inr policy, d1) \<Rightarrow> (\<lparr>br_Status = 200, br_Body = PolicyJSON policy\<rparr>, d1)) d"

definition handlePutBucketPolicy :: "'s browse_env \<Rightarrow> string \<Rightarrow> string \<Rightarrow> string option \<Rightarrow> 's dash \<Rightarrow> browse_resp \<times> 's dash" where
  "handlePutBucketPolicy E bid bkt body d = capable E bid cap_BucketPolicy (\<lambda>b.
     case body of
       None \<Rightarrow> (fail 400 ''bad_request'', d)
     | Some policy \<Rightarrow>
         if policy = [] then (fail 400 ''bad_request'', d)
         else if json_parse policy = None then (fail 400 ''invalid_policy'', d)
         else (case lift_w (perform (b_SetBucketPolicy b bkt policy)) d of
           (Inl e, d1) \<Rightarrow> (backendError E e, d1)
         | (Inr _, d1) \<Rightarrow> (no_content, note_event ''bucket.policy.set'' bid bkt d1))) d"

definition handleDeleteBucketPolicy :: "'s browse_env \<Rightarrow> string \<Rightarrow> string \<Rightarrow> 's dash \<Rightarrow> browse_resp \<times> 's dash" where
  "handleDeleteBucketPolicy E bid bkt d = capable E bid cap_BucketPolicy (\<lambda>b.
     case lift_w (perform (b_DeleteBucketPolicy b bkt)) d of
       (res, d1) \<Rightarrow> (case res of
           Inl e \<Rightarrow> if be_IsNotFound E e then (no_content, note_event ''bucket.policy.delete'' bid bkt d1) else (backendError E e, d1)
         | Inr _ \<Rightarrow> (no_content, note_event ''bucket.policy.delete'' bid bkt d1))) d"

definition ruleHasAction :: "LifecycleRule \<Rightarrow> bool" where
  "ruleHasAction r \<longleftrightarrow> 0 < lc_ExpirationDays r \<or> 0 < lc_NoncurrentExpireDays r \<or> 0 < lc_AbortIncompleteDays r \<or> 0 < lc_TransitionDays r"

definition handleGetBucketLifecycle :: "'s browse_env \<Rightarrow> string \<Rightarrow> string \<Rightarrow> 's dash \<Rightarrow> browse_resp \<times> 's dash" where
  "handleGetBucketLifecycle E bid bkt d = capable E bid cap_Lifecycle (\<lambda>b.
     case lift_w (perform (b_GetBucketLifecycle b bkt)) d of
       (Inl e, d1) \<Rightarrow> (if be_IsNotFound E e then \<lparr>br_Status = 200, br_Body = LifecycleJSON []\<rparr> else backendError E e, d1)
     | (Inr rules, d1) \<Rightarrow> (\<lparr>br_Status = 200, br_Body = LifecycleJSON rules\<rparr>, d1)) d"

definition handlePutBucketLifecycle :: "'s browse_env \<Rightarrow> string \<Rightarrow> string \<Rightarrow> LifecycleRule list option \<Rightarrow> 's dash \<Rightarrow> browse_resp \<times> 's dash" where
  "handlePutBucketLifecycle E bid bkt body d = capable E bid cap_Lifecycle (\<lambda>b.
     case body of
       None \<Rightarrow> (fail 400 ''bad_request'', d)
     | Some rules \<Rightarrow>
         if list_ex (\<lambda>r. \<not> ruleHasAction r \<or> 0 < lc_TransitionDays r \<and> lc_TransitionStorageClass r = []) rules then (fail 400 ''invalid_lifecycle'', d)
         else (case lift_w (perform (b_SetBucketLifecycle b bkt rules)) d of
           (Inl e, d1) \<Rightarrow> (backendError E e, d1)
         | (Inr _, d1) \<Rightarrow> (no_content, note_event ''bucket.lifecycle.set'' bid bkt d1))) d"

section \<open>CORS rules\<close>

definition cors_row :: "string \<Rightarrow> string \<Rightarrow> S3BucketCORS \<Rightarrow> bool" where
  "cors_row bid bkt c \<longleftrightarrow> co_BackendID c = bid \<and> co_Bucket c = bkt"

datatype cors_err = ErrS3BucketCORSNotFound | CorsStoreErr string

definition UpsertS3BucketCORS :: "string option \<Rightarrow> S3BucketCORS \<Rightarrow> S3BucketCORS list \<Rightarrow> cors_err + S3BucketCORS list" where
  "UpsertS3BucketCORS db c rows =
     (case db of
        Some e \<Rightarrow> Inl (CorsStoreErr e)
      | None \<Rightarrow> Inr (let same = cors_row (co_BackendID c) (co_Bucket c)
                     in if list_ex same rows then map (\<lambda>r. if same r then r\<lparr>co_Rules := co_Rules c, co_UpdatedAt := co_UpdatedAt c\<rparr> else r) rows else rows @ [c]))"

definition GetS3BucketCORS :: "string option \<Rightarrow> string \<Rightarrow> string \<Rightarrow> S3BucketCORS list \<Rightarrow> cors_err + S3BucketCORS" where
  "GetS3BucketCORS db bid bkt rows =
     (case db of
        Some e \<Rightarrow> Inl (CorsStoreErr e)
      | None \<Rightarrow> (case find (cors_row bid bkt) rows of None \<Rightarrow> Inl ErrS3BucketCORSNotFound | Some c \<Rightarrow> Inr c))"

definition DeleteS3BucketCORS :: "string option \<Rightarrow> string \<Rightarrow> string \<Rightarrow> S3BucketCORS list \<Rightarrow> cors_err + S3BucketCORS list" where
  "DeleteS3BucketCORS db bid bkt rows =
     (case db of
        Some e \<Rightarrow> Inl (CorsStoreErr e)
      | None \<Rightarrow> if list_ex (cors_row bid bkt) rows then Inr (filter (Not \<circ> cors_row bid bkt) rows) else Inl ErrS3BucketCORSNotFound)"

text \<open>The listing is ordered by backend and bucket.\<close>

definition ListS3BucketCORS :: "string option \<Rightarrow> S3BucketCORS list \<Rightarrow> string + S3BucketCORS list" where
  "ListS3BucketCORS db rows = (case db of Some e \<Rightarrow> Inl e | None \<Rightarrow> Inr (sort_key co_BackendID (sort_key co_Bucket rows)))"

definition allowedCORSMethods :: "string list" where
  "allowedCORSMethods = [''GET'', ''PUT'', ''POST'', ''DELETE'', ''HEAD'']"

definition valid_cors :: "BucketCORSRule \<Rightarrow> bool" where
  "valid_cors ru \<longleftrightarrow> AllowedOrigins ru \<noteq> [] \<and> AllowedMethods ru \<noteq> [] \<and> set (AllowedMethods ru) \<subseteq> set allowedCORSMethods \<and> 0 \<le> MaxAgeSeconds ru"

text \<open>\<^verbatim>\<open>json.Marshal\<close> of the rules; empty optional fields are left out.\<close>

definition strings_json :: "string list \<Rightarrow> json" where
  "strings_json xs = JArr (map JStr xs)"

definition rule_json :: "BucketCORSRule \<Rightarrow> json" where
  "rule_json ru = JObj ([(''allowed_origins'', strings_json (AllowedOrigins ru)), (''allowed_methods'', strings_json (AllowedMethods ru))]
     @ (if AllowedHeaders ru \<noteq> [] then [(''allowed_headers'', strings_json (AllowedHeaders ru))] else [])
     @ (if ExposeHeaders ru \<noteq> [] then [(''expose_headers'', strings_json (ExposeHeaders ru))] else [])
     @ (if MaxAgeSeconds ru \<noteq> 0 then [(''max_age_seconds'', JNum (FormatInt (MaxAgeSeconds ru)))] else []))"

definition encode_rules :: "BucketCORSRule list \<Rightarrow> string" where
  "encode_rules rules = json_print (JArr (map rule_json rules))"

definition handleGetBucketCORS :: "string option \<Rightarrow> string \<Rightarrow> string \<Rightarrow> 's dash \<Rightarrow> browse_resp" where
  "handleGetBucketCORS db bid bkt d =
     (case da_cors d of
        None \<Rightarrow> fail 503 ''store_unavailable''
      | Some rows \<Rightarrow> (case GetS3BucketCORS db bid bkt rows of
          Inl ErrS3BucketCORSNotFound \<Rightarrow> \<lparr>br_Status = 200, br_Body = CorsJSON []\<rparr>
        | Inl _ \<Rightarrow> fail 500 ''internal''
        | Inr row \<Rightarrow> (case decode_rules (co_Rules row) of
            None \<Rightarrow> fail 500 ''internal''
          | Some rules \<Rightarrow> \<lparr>br_Status = 200, br_Body = CorsJSON rules\<rparr>)))"

text \<open>The reload of the proxy's source, with the other tables as they are at that moment; its errors are only logged.\<close>

record reload_env =
  rl_sealer :: "(string \<Rightarrow> string option) option"
  rl_now :: time
  rl_creds :: "string + S3Credential list"
  rl_bindings :: "string + S3AnonymousBinding list"
  rl_db :: "string option"

definition reload_source :: "reload_env \<Rightarrow> S3BucketCORS list \<Rightarrow> SQLiteSource \<Rightarrow> SQLiteSource" where
  "reload_source R rows src = snd (snd (SQLiteSource_Reload (rl_sealer R) (rl_now R) (rl_creds R) (rl_bindings R) (ListS3BucketCORS (rl_db R) rows) src))"

definition fireReload :: "reload_env \<Rightarrow> 's dash \<Rightarrow> 's dash" where
  "fireReload R d = (case da_cors d of None \<Rightarrow> d | Some rows \<Rightarrow> d\<lparr>da_source := map_option (reload_source R rows) (da_source d)\<rparr>)"

definition handlePutBucketCORS :: "string option \<Rightarrow> reload_env \<Rightarrow> time \<Rightarrow> string \<Rightarrow> string \<Rightarrow> BucketCORSRule list option \<Rightarrow> 's dash \<Rightarrow> browse_resp \<times> 's dash" where
  "handlePutBucketCORS db R now bid bkt body d =
     (case da_cors d of
        None \<Rightarrow> (fail 503 ''store_unavailable'', d)
      | Some rows \<Rightarrow> (case body of
          None \<Rightarrow> (fail 400 ''bad_request'', d)
        | Some rules \<Rightarrow>
            if \<not> list_all valid_cors rules then (fail 400 ''invalid_cors'', d)
            else (case (if rules = [] then (case DeleteS3BucketCORS db bid bkt rows of Inl ErrS3BucketCORSNotFound \<Rightarrow> Inr rows | r \<Rightarrow> r)
                        else UpsertS3BucketCORS db \<lparr>co_BackendID = bid, co_Bucket = bkt, co_Rules = encode_rules rules, co_CreatedAt = now, co_UpdatedAt = now\<rparr> rows) of
              Inl _ \<Rightarrow> (fail 500 ''internal'', d)
            | Inr rows1 \<Rightarrow> (no_content, note_event ''bucket.cors.set'' bid bkt (fireReload R (d\<lparr>da_cors := Some rows1\<rparr>))))))"

section \<open>Size tracking\<close>

definition TrimSuffix :: "string \<Rightarrow> string \<Rightarrow> string" where
  "TrimSuffix s t = (if HasSuffix s t then take (length s - length t) s else s)"

definition tracking_store :: "'s dash \<Rightarrow> (SizeService \<times> BucketSizeTracking list) option" where
  "tracking_store d = (case bw_sizes (da_world d) of None \<Rightarrow> None | Some S \<Rightarrow> map_option (Pair S) (sz_Store S))"

definition handleGetBucketSizeTracking :: "'s browse_env \<Rightarrow> string option \<Rightarrow> string \<Rightarrow> string \<Rightarrow> 's dash \<Rightarrow> browse_resp" where
  "handleGetBucketSizeTracking E db bid bkt d =
     (case tracking_store d of
        None \<Rightarrow> fail 501 ''not_supported''
      | Some (_, rows) \<Rightarrow>
          if be_reg E bid = None then fail 404 ''not_found''
          else (case IsBucketSizeTracked db bid bkt rows of Inl _ \<Rightarrow> fail 500 ''internal'' | Inr on \<Rightarrow> \<lparr>br_Status = 200, br_Body = EnabledJSON on\<rparr>))"

definition handlePutBucketSizeTracking :: "'s browse_env \<Rightarrow> string option \<Rightarrow> time \<Rightarrow> Identity option \<Rightarrow> string \<Rightarrow> string \<Rightarrow> bool option \<Rightarrow> 's dash \<Rightarrow> browse_resp \<times> 's dash" where
  "handlePutBucketSizeTracking E db now who bid bkt body d =
     (case tracking_store d of
        None \<Rightarrow> (fail 501 ''not_supported'', d)
      | Some (S, rows) \<Rightarrow> (case who of
          None \<Rightarrow> (fail 401 ''unauthorized'', d)
        | Some i \<Rightarrow>
            if be_reg E bid = None then (fail 404 ''not_found'', d)
            else (case body of
              None \<Rightarrow> (fail 400 ''bad_request'', d)
            | Some on \<Rightarrow>
                (case SetBucketSizeTracking db \<lparr>bt_BackendID = bid, bt_Bucket = bkt, bt_Enabled = on, bt_UpdatedAt = now, bt_UpdatedBy = id_UserID i\<rparr> rows of
                   Inl _ \<Rightarrow> (fail 500 ''internal'', d)
                 | Inr rows1 \<Rightarrow>
                     (let S1 = S\<lparr>sz_Store := Some rows1\<rparr>; S2 = (if on then S1 else sizes_Forget bid bkt S1)
                      in (\<lparr>br_Status = 200, br_Body = TrackingJSON on now (id_UserID i)\<rparr>,
                          note_event ''bucket.size_tracking.set'' bid bkt (d\<lparr>da_world := (da_world d)\<lparr>bw_sizes := Some S2\<rparr>\<rparr>)))))))"

definition handlePrefixSize :: "'s browse_env \<Rightarrow> string option \<Rightarrow> 's meddling \<Rightarrow> time \<Rightarrow> time \<Rightarrow> string \<Rightarrow> string \<Rightarrow> request \<Rightarrow> 's dash \<Rightarrow> (browse_resp \<times> 's dash) option" where
  "handlePrefixSize E db env now later bid bkt r d =
     (case bw_sizes (da_world d) of
        None \<Rightarrow> Some (fail 501 ''not_supported'', d)
      | Some S \<Rightarrow>
          (let p = values_Get (Query (URL r)) ''prefix''
           in if be_reg E bid = None then Some (fail 404 ''not_found'', d)
              else if p \<noteq> [] \<and> \<not> validObjectKey (TrimSuffix p ''/'' @ ''/x'') then Some (fail 400 ''invalid_prefix'', d)
              else map_option (\<lambda>(res, S1, s1).
                (case res of
                   Inl ErrTrackingDisabled \<Rightarrow> fail 409 ''size_tracking_disabled''
                 | Inl (SizeBackendErr e) \<Rightarrow> backendError E e
                 | Inl _ \<Rightarrow> fail 502 ''backend_error''
                 | Inr (n, c) \<Rightarrow> \<lparr>br_Status = 200, br_Body = SizeJSON n c p\<rparr>,
                 d\<lparr>da_world := (da_world d)\<lparr>bw_store := s1, bw_sizes := Some S1\<rparr>\<rparr>))
                (PrefixSize db (be_reg E) env now later bid bkt p S (bw_store (da_world d)))))"

section \<open>The cache of bucket lists\<close>

text \<open>Creating or deleting a bucket drops the cached list, so the next listing asks the backend.\<close>

lemma listed_after_change:
  assumes "handleCreateBucket E bid body d = (resp, d1) \<or> handleDeleteBucket E bid bkt d = (resp, d1)" "br_Status resp \<in> {201, 204}"
    and "perform (b_ListBuckets b) (da_world d1) = (res, w)"
  shows "fst (listBucketsCached now later bid b d1) = res"
proof -
  have "map_of (da_buckets d1) bid = None"
    using assms(1,2) by (auto simp: handleCreateBucket_def handleDeleteBucket_def backendError_def cache_invalidate_def delete_conv' split: option.splits prod.splits sum.splits if_splits)
  then show ?thesis using assms(3) by (auto simp: listBucketsCached_def cache_entry_def fresh_def Let_def split: sum.splits prod.splits)
qed

section \<open>CORS rules reach the proxy\<close>

lemma strings_json_back [simp]: "json_list json_string (strings_json xs) = Some xs" "printable (strings_json xs)" "strings_json xs \<noteq> JNull"
  using those_map_Some [of xs json_string JStr] by (simp_all add: strings_json_def json_list_def json_string_def)

lemma rule_keys [simp]:
  "\<not> EqualFold ''allowed_methods'' ''allowed_origins''" "\<not> EqualFold ''allowed_headers'' ''allowed_origins''" "\<not> EqualFold ''expose_headers'' ''allowed_origins''" "\<not> EqualFold ''max_age_seconds'' ''allowed_origins''"
  "\<not> EqualFold ''allowed_headers'' ''allowed_methods''" "\<not> EqualFold ''expose_headers'' ''allowed_methods''" "\<not> EqualFold ''max_age_seconds'' ''allowed_methods''"
  "\<not> EqualFold ''expose_headers'' ''allowed_headers''" "\<not> EqualFold ''max_age_seconds'' ''allowed_headers''" "\<not> EqualFold ''max_age_seconds'' ''expose_headers''"
  by code_simp+

text \<open>What a valid rule is printed as is read back as it.\<close>

definition encodable :: "BucketCORSRule \<Rightarrow> bool" where
  "encodable ru \<longleftrightarrow> valid_cors ru \<and> int64_range (MaxAgeSeconds ru)"

lemma rule_json_back:
  assumes "encodable ru"
  shows "json_struct rule_field \<lparr>AllowedOrigins = [], AllowedMethods = [], AllowedHeaders = [], ExposeHeaders = [], MaxAgeSeconds = 0\<rparr> (rule_json ru) = Some ru" "printable (rule_json ru)"
proof -
  have n: "json_int64 (JNum (FormatInt (MaxAgeSeconds ru))) = Some (MaxAgeSeconds ru)" using assms ParseInt_FormatInt by (simp add: json_int64_def encodable_def)
  show "json_struct rule_field \<lparr>AllowedOrigins = [], AllowedMethods = [], AllowedHeaders = [], ExposeHeaders = [], MaxAgeSeconds = 0\<rparr> (rule_json ru) = Some ru"
    by (cases ru) (use n in \<open>simp add: rule_json_def json_struct_def rule_field_def\<close>)
  have "valid_number (FormatInt (MaxAgeSeconds ru)) \<and> list_all number_char (FormatInt (MaxAgeSeconds ru))" if "MaxAgeSeconds ru \<noteq> 0"
    using number_FormatInt [of "MaxAgeSeconds ru"] assms that by (simp add: encodable_def valid_cors_def)
  then show "printable (rule_json ru)" by (auto simp: rule_json_def)
qed

lemma decode_encode: "list_all encodable rules \<Longrightarrow> decode_rules (encode_rules rules) = Some rules"
proof -
  assume r: "list_all encodable rules"
  then have p: "printable (JArr (map rule_json rules))" using rule_json_back(2) by (auto simp: list_all_iff)
  show ?thesis unfolding encode_rules_def decode_rules_def json_parse_print [OF p]
    using those_map_Some [of rules _ rule_json] r rule_json_back(1) by (simp add: json_list_def list_all_iff)
qed

text \<open>What the source serves after loading the rows.\<close>

definition rules_of :: "S3BucketCORS \<Rightarrow> BucketCORSRule list" where
  "rules_of row = (case decode_rules (co_Rules row) of None \<Rightarrow> [] | Some rules \<Rightarrow> rules)"

definition rules_for :: "string \<Rightarrow> S3BucketCORS list \<Rightarrow> BucketCORSRule list" where
  "rules_for k rows = concat (map rules_of (filter (\<lambda>row. ToLower (co_Bucket row) = k) rows))"

lemma load_cors_lookup: "map_of (load_cors rows) k = (if rules_for k rows = [] then None else Some (rules_for k rows))"
proof (induction rows arbitrary: k rule: rev_induct)
  case (snoc row rows)
  let ?b = "ToLower (co_Bucket row)"
  have l: "lookup_or [] (load_cors rows) ?b = rules_for ?b rows" unfolding lookup_or_def snoc by simp
  show ?case
  proof (cases "rules_of row = []")
    case True
    then have "load_cors (rows @ [row]) = load_cors rows" by (auto simp: load_cors_def rules_of_def split: option.splits)
    then show ?thesis using True snoc by (simp add: rules_for_def)
  next
    case False
    then have "load_cors (rows @ [row]) = AList.update ?b (rules_for ?b rows @ rules_of row) (load_cors rows)"
      using l by (auto simp: load_cors_def rules_of_def split: option.splits)
    then show ?thesis using False snoc by (auto simp: rules_for_def update_conv')
  qed
qed (simp add: load_cors_def rules_for_def)

text \<open>A reload that goes through serves the rows of the table.\<close>

definition reloads :: "reload_env \<Rightarrow> bool" where
  "reloads R \<longleftrightarrow> rl_sealer R \<noteq> None \<and> (\<exists>cs. rl_creds R = Inr cs) \<and> (\<exists>bs. rl_bindings R = Inr bs) \<and> rl_db R = None"

lemma reload_lookup:
  assumes "reloads R"
  shows "SQLiteSource_LookupCORS (reload_source R rows src) b =
    (let rs = rules_for (ToLower b) (sort_key co_BackendID (sort_key co_Bucket rows)) in if b = [] \<or> rs = [] then None else Some rs)"
  using assms by (auto simp: reloads_def reload_source_def SQLiteSource_Reload_def ListS3BucketCORS_def SQLiteSource_LookupCORS_def lookup_cors_def load_cors_lookup Let_def)

lemma rules_for_sort: "rules_for k (sort_key co_BackendID (sort_key co_Bucket rows)) = concat (map rules_of (sort_key co_BackendID (sort_key co_Bucket (filter (\<lambda>row. ToLower (co_Bucket row) = k) rows))))"
  by (simp add: rules_for_def filter_sort)

text \<open>The rows of the table after an edit; the pair of backend and bucket is the primary key.\<close>

definition cors_keyed :: "S3BucketCORS list \<Rightarrow> bool" where
  "cors_keyed rows \<longleftrightarrow> distinct (map (\<lambda>c. (co_BackendID c, co_Bucket c)) rows)"

lemma filter_key: "distinct (map f xs) \<Longrightarrow> x \<in> set xs \<Longrightarrow> filter (\<lambda>y. f y = f x) xs = [x]"
  by (induction xs) (auto simp: filter_empty_conv image_iff)

lemma find_filter: "find P xs = (case filter P xs of [] \<Rightarrow> None | x # _ \<Rightarrow> Some x)"
  by (induction xs) auto

lemma filter_map_if:
  assumes "\<And>x. P (u x) = P x"
  shows "filter (Not \<circ> P) (map (\<lambda>x. if P x then u x else x) xs) = filter (Not \<circ> P) xs" "filter P (map (\<lambda>x. if P x then u x else x) xs) = map u (filter P xs)"
  using assms by (induction xs) auto

lemma edited_rows:
  assumes k: "cors_keyed rows"
    and r: "list_all encodable rules"
    and e: "(if rules = [] then (case DeleteS3BucketCORS None bid bkt rows of Inl ErrS3BucketCORSNotFound \<Rightarrow> Inr rows | r \<Rightarrow> r)
          else UpsertS3BucketCORS None \<lparr>co_BackendID = bid, co_Bucket = bkt, co_Rules = encode_rules rules, co_CreatedAt = now, co_UpdatedAt = now\<rparr> rows) = Inr rows1"
  shows "filter (Not \<circ> cors_row bid bkt) rows1 = filter (Not \<circ> cors_row bid bkt) rows \<and> cors_keyed rows1
    \<and> (if rules = [] then filter (cors_row bid bkt) rows1 = [] else \<exists>row. filter (cors_row bid bkt) rows1 = [row] \<and> decode_rules (co_Rules row) = Some rules)"
proof (cases "rules = []")
  case True
  then have "rows1 = filter (Not \<circ> cors_row bid bkt) rows \<or> rows1 = rows \<and> filter (cors_row bid bkt) rows = []"
    using e by (auto simp: DeleteS3BucketCORS_def list_ex_iff filter_empty_conv split: if_splits)
  then show ?thesis using True k by (auto simp: cors_keyed_def distinct_map_filter filter_empty_conv comp_def)
next
  case False
  let ?P = "cors_row bid bkt" and ?u = "\<lambda>r. r\<lparr>co_Rules := encode_rules rules, co_UpdatedAt := now\<rparr>"
  let ?c = "\<lparr>co_BackendID = bid, co_Bucket = bkt, co_Rules = encode_rules rules, co_CreatedAt = now, co_UpdatedAt = now\<rparr>"
  have u: "?P (?u x) = ?P x" for x by (simp add: cors_row_def)
  note d = decode_encode [OF r]
  show ?thesis
  proof (cases "list_ex ?P rows")
    case True
    then obtain x where x: "x \<in> set rows" "?P x" by (auto simp: list_ex_iff)
    have f: "filter ?P rows = [x]" using filter_key [OF k [unfolded cors_keyed_def] x(1)] x(2) by (simp add: cors_row_def [abs_def])
    have m: "rows1 = map (\<lambda>r. if ?P r then ?u r else r) rows" using e True False by (simp add: UpsertS3BucketCORS_def cong: if_cong)
    have "map (\<lambda>c. (co_BackendID c, co_Bucket c)) rows1 = map (\<lambda>c. (co_BackendID c, co_Bucket c)) rows" by (simp add: m)
    then have "cors_keyed rows1" using k by (simp add: cors_keyed_def)
    moreover note filter_map_if [of ?P ?u rows, OF u, folded m]
    ultimately show ?thesis using False d f by simp
  next
    case F: False
    then have "rows1 = rows @ [?c]" "filter ?P rows = []" using e False by (auto simp: UpsertS3BucketCORS_def list_ex_iff filter_empty_conv)
    then show ?thesis using False d k F by (auto simp: cors_keyed_def cors_row_def list_ex_iff)
  qed
qed

section \<open>Properties\<close>

text \<open>The rules a list of sources serves together.\<close>

definition served_cors :: "MergedSource \<Rightarrow> string \<Rightarrow> BucketCORSRule list" where
  "served_cors m b = (case MergedSource_LookupCORS m b of None \<Rightarrow> [] | Some rules \<Rightarrow> rules)"

abbreviation source_cors :: "Source \<Rightarrow> string \<Rightarrow> BucketCORSRule list" where
  "source_cors s b \<equiv> (case Source_LookupCORS s b of None \<Rightarrow> [] | Some rules \<Rightarrow> rules)"

lemma served_cors_sources: "served_cors m b = concat (map (\<lambda>s. source_cors s b) (ms_sources m))"
  by (simp add: served_cors_def MergedSource_LookupCORS_def Let_def)

lemma reload_source_cors:
  assumes "reloads R"
  shows "source_cors (SqliteSrc (reload_source R rows src)) b = (if b = [] then [] else rules_for (ToLower b) (sort_key co_BackendID (sort_key co_Bucket rows)))"
  using reload_lookup [OF assms] by (auto simp: Let_def)

lemma rules_for_edited:
  assumes "filter (Not \<circ> cors_row bid bkt) rows1 = filter (Not \<circ> cors_row bid bkt) rows"
    and "if rules = [] then filter (cors_row bid bkt) rows1 = [] else \<exists>row. filter (cors_row bid bkt) rows1 = [row] \<and> decode_rules (co_Rules row) = Some rules"
  shows "set (rules_for (ToLower bkt) (sort_key co_BackendID (sort_key co_Bucket rows1))) =
    set rules \<union> (\<Union>row \<in> {row \<in> set rows. ToLower (co_Bucket row) = ToLower bkt \<and> \<not> cors_row bid bkt row}. set (rules_of row))"
proof -
  have s: "set (rules_for k (sort_key co_BackendID (sort_key co_Bucket rs))) = (\<Union>row \<in> {row \<in> set rs. ToLower (co_Bucket row) = k}. set (rules_of row))" for k rs
    by (simp add: rules_for_def)
  have n: "{row \<in> set rows1. \<not> cors_row bid bkt row} = {row \<in> set rows. \<not> cors_row bid bkt row}" using arg_cong [OF assms(1), of set] by (simp add: comp_def)
  have p: "(\<Union>row \<in> {row \<in> set rows1. cors_row bid bkt row}. set (rules_of row)) = set rules"
    unfolding set_filter [symmetric] using assms(2) by (cases "rules = []") (auto simp: rules_of_def simp del: set_filter)
  have "{row \<in> set rows1. ToLower (co_Bucket row) = ToLower bkt} = {row \<in> set rows1. cors_row bid bkt row} \<union> {row \<in> set rows. ToLower (co_Bucket row) = ToLower bkt \<and> \<not> cors_row bid bkt row}"
    using n by (auto simp: cors_row_def)
  then show ?thesis unfolding s using p by (simp add: UN_Un)
qed

text \<open>C19: CORS rules edited in the dashboard take effect in the proxy. When the database works, saving rules for a bucket succeeds and the dashboard then shows exactly these
  rules. After the reload that follows, the proxy, which serves the union of what all its sources have for a bucket name, serves for this name exactly the rules saved, those the table holds for buckets of the same name on other
  backends, and those of its other sources (the bindings of the cluster); for every other name it serves what it would have served without the edit.\<close>

theorem cors_edit_takes_effect:
  assumes "da_cors d = Some rows" "cors_keyed rows" "da_source d = Some src" "reloads R" "list_all encodable rules" "bkt \<noteq> []"
  shows "\<exists>d' rows1 src1. handlePutBucketCORS None R now bid bkt (Some rules) d = (no_content, d') \<and> da_cors d' = Some rows1 \<and> cors_keyed rows1 \<and> da_source d' = Some src1
    \<and> handleGetBucketCORS None bid bkt d' = \<lparr>br_Status = 200, br_Body = CorsJSON rules\<rparr>
    \<and> (\<forall>m before others. ms_sources m = before @ SqliteSrc src1 # others \<longrightarrow>
        set (served_cors m bkt) = set rules \<union> (\<Union>row \<in> {row \<in> set rows. ToLower (co_Bucket row) = ToLower bkt \<and> \<not> cors_row bid bkt row}. set (rules_of row))
          \<union> (\<Union>s \<in> set (before @ others). set (source_cors s bkt))
        \<and> (\<forall>b. ToLower b \<noteq> ToLower bkt \<longrightarrow> served_cors m b = served_cors (m\<lparr>ms_sources := before @ SqliteSrc (reload_source R rows src) # others\<rparr>) b))"
proof -
  let ?P = "cors_row bid bkt"
  have v: "list_all valid_cors rules" using assms(5) by (auto simp: list_all_iff encodable_def)
  obtain rows1 where e: "(if rules = [] then (case DeleteS3BucketCORS None bid bkt rows of Inl ErrS3BucketCORSNotFound \<Rightarrow> Inr rows | r \<Rightarrow> r)
      else UpsertS3BucketCORS None \<lparr>co_BackendID = bid, co_Bucket = bkt, co_Rules = encode_rules rules, co_CreatedAt = now, co_UpdatedAt = now\<rparr> rows) = Inr rows1"
    by (cases "rules = []"; cases "list_ex ?P rows") (simp_all add: DeleteS3BucketCORS_def UpsertS3BucketCORS_def Let_def)
  note ed = edited_rows [OF assms(2,5) e]
  define d' where "d' = note_event ''bucket.cors.set'' bid bkt (fireReload R (d\<lparr>da_cors := Some rows1\<rparr>))"
  have h: "handlePutBucketCORS None R now bid bkt (Some rules) d = (no_content, d')" using assms(1) v e by (simp add: handlePutBucketCORS_def d'_def)
  have d': "da_cors d' = Some rows1" "da_source d' = Some (reload_source R rows1 src)" using assms(3) by (simp_all add: d'_def note_event_def fireReload_def)
  have g: "handleGetBucketCORS None bid bkt d' = \<lparr>br_Status = 200, br_Body = CorsJSON rules\<rparr>"
    using ed d'(1) by (auto simp: handleGetBucketCORS_def GetS3BucketCORS_def find_filter split: if_splits)
  have same: "source_cors (SqliteSrc (reload_source R rows1 src)) b = source_cors (SqliteSrc (reload_source R rows src)) b" if "ToLower b \<noteq> ToLower bkt" for b
  proof -
    have "filter (\<lambda>row. ToLower (co_Bucket row) = ToLower b) xs = filter (\<lambda>row. ToLower (co_Bucket row) = ToLower b) (filter (Not \<circ> ?P) xs)" for xs
      using that by (auto simp: cors_row_def intro!: filter_cong)
    then have "filter (\<lambda>row. ToLower (co_Bucket row) = ToLower b) rows1 = filter (\<lambda>row. ToLower (co_Bucket row) = ToLower b) rows" using ed by metis
    then show ?thesis by (simp add: reload_lookup [OF assms(4)] rules_for_sort)
  qed
  have mine: "set (source_cors (SqliteSrc (reload_source R rows1 src)) bkt) =
      set rules \<union> (\<Union>row \<in> {row \<in> set rows. ToLower (co_Bucket row) = ToLower bkt \<and> \<not> ?P row}. set (rules_of row))"
    using rules_for_edited [of bid bkt rows1 rows rules] ed assms(6) unfolding reload_source_cors [OF assms(4)] by simp
  show ?thesis
  proof (intro exI conjI)
    show "\<forall>m before others. ms_sources m = before @ SqliteSrc (reload_source R rows1 src) # others \<longrightarrow>
        set (served_cors m bkt) = set rules \<union> (\<Union>row \<in> {row \<in> set rows. ToLower (co_Bucket row) = ToLower bkt \<and> \<not> cors_row bid bkt row}. set (rules_of row))
          \<union> (\<Union>s \<in> set (before @ others). set (source_cors s bkt))
        \<and> (\<forall>b. ToLower b \<noteq> ToLower bkt \<longrightarrow> served_cors m b = served_cors (m\<lparr>ms_sources := before @ SqliteSrc (reload_source R rows src) # others\<rparr>) b)"
      using mine same by (auto simp: served_cors_sources simp del: Source_LookupCORS.simps)
  qed (use h d' ed g in auto)
qed

definition ex_rule :: BucketCORSRule where
  "ex_rule = \<lparr>AllowedOrigins = [''https://app.example.com''], AllowedMethods = [''GET'', ''PUT''], AllowedHeaders = [], ExposeHeaders = [''ETag''], MaxAgeSeconds = 600\<rparr>"

definition ex_dash :: "mem dash" where
  "ex_dash = \<lparr>da_world = ex_bw, da_buckets = [], da_cors = Some [\<lparr>co_BackendID = ''m'', co_Bucket = ''docs'', co_Rules = encode_rules [ex_rule], co_CreatedAt = 0, co_UpdatedAt = 0\<rparr>],
     da_source = Some NewSQLiteSource\<rparr>"

definition ex_reload :: reload_env where
  "ex_reload = \<lparr>rl_sealer = Some Some, rl_now = 0, rl_creds = Inr [], rl_bindings = Inr [], rl_db = None\<rparr>"

text \<open>The cluster's own rules for the bucket stay beside the rule that is saved.\<close>

definition ex_cluster :: KubernetesSource where
  "ex_cluster = (NewKubernetesSource None)\<lparr>ks_byBucketCORS := [(''photos'', [ex_rule\<lparr>MaxAgeSeconds := 5\<rparr>])]\<rparr>"

theorem cors_edit_takes_effect_witness:
  "\<exists>d' src1. handlePutBucketCORS None ex_reload 5 ''m'' ''Photos'' (Some [ex_rule]) ex_dash = (no_content, d') \<and> da_source d' = Some src1
     \<and> handleGetBucketCORS None ''m'' ''Photos'' d' = \<lparr>br_Status = 200, br_Body = CorsJSON [ex_rule]\<rparr>
     \<and> set (served_cors (NewMergedSource False [Some (K8sSrc ex_cluster), Some (SqliteSrc src1)]) ''Photos'') = {ex_rule, ex_rule\<lparr>MaxAgeSeconds := 5\<rparr>}"
proof -
  define rows where "rows = the (da_cors ex_dash)"
  have d: "da_cors ex_dash = Some rows" "da_source ex_dash = Some NewSQLiteSource" by (simp_all add: rows_def ex_dash_def)
  have k: "cors_keyed rows" by (simp add: rows_def ex_dash_def cors_keyed_def)
  have r: "reloads ex_reload" by (simp add: reloads_def ex_reload_def)
  have e: "list_all encodable [ex_rule]" by code_simp
  have low: "ToLower ''docs'' \<noteq> ToLower ''Photos''" by code_simp
  have o: "{row \<in> set rows. ToLower (co_Bucket row) = ToLower ''Photos'' \<and> \<not> cors_row ''m'' ''Photos'' row} = {}" using low by (auto simp: rows_def ex_dash_def)
  have c: "source_cors (K8sSrc ex_cluster) ''Photos'' = [ex_rule\<lparr>MaxAgeSeconds := 5\<rparr>]" by code_simp
  from cors_edit_takes_effect [OF d(1) k d(2) r e, of "''Photos''" 5 "''m''"] obtain d' src1 where
      h: "handlePutBucketCORS None ex_reload 5 ''m'' ''Photos'' (Some [ex_rule]) ex_dash = (no_content, d')" "da_source d' = Some src1"
        "handleGetBucketCORS None ''m'' ''Photos'' d' = \<lparr>br_Status = 200, br_Body = CorsJSON [ex_rule]\<rparr>"
      and s: "\<And>m before others. ms_sources m = before @ SqliteSrc src1 # others \<Longrightarrow>
        set (served_cors m ''Photos'') = {ex_rule} \<union> {} \<union> (\<Union>s \<in> set (before @ others). set (source_cors s ''Photos''))"
    unfolding o by auto
  have "set (served_cors (NewMergedSource False [Some (K8sSrc ex_cluster), Some (SqliteSrc src1)]) ''Photos'') = {ex_rule, ex_rule\<lparr>MaxAgeSeconds := 5\<rparr>}"
    using s [of _ "[K8sSrc ex_cluster]" "[]"] c by (auto simp: NewMergedSource_def simp del: Source_LookupCORS.simps)
  with h show ?thesis by blast
qed

end
