(* ===== verification/Spec2Isabelle.thy ===== *)
theory Spec2Isabelle
  imports Verifier Chunked Routing Proxy_Rewrite Cors Post_Policy Rate_Limits Quotas Sources Proxy_Server Post_Object Proxy_Handler
    Passwords Session_Runs Accounts Oidc Shares Bucket_Settings Credential_Admin
begin

text \<open>
  \<^bold>\<open>Verification of stowage.\<close>

  Stowage puts an S3 endpoint and a dashboard in front of object stores. Clients of the endpoint sign requests (AWS Signature V4) with
  virtual credentials that stowage issues; the proxy verifies the signature, finds the credential, checks
  rate, concurrency, scope and quota, re-signs the request with the backend's admin credentials and
  forwards it. Anonymous reads of published buckets and browser-form uploads with a signed policy take
  their own paths. Users of the dashboard log in with a password or over OIDC, keep a session, browse and change buckets and objects
  and hand out share links. This development models both planes as executable HOL functions, one theory per
  component, in the order in which a request meets them.

  \<^bold>\<open>Theories and sources\<close> (paths below \<^verbatim>\<open>src/internal\<close>).

  Foundations:

  \<^item> \<open>Stowage_Prelude\<close>, \<open>Go_Net\<close>, \<open>Go_Time\<close>, \<open>Go_Json\<close>, \<open>Json_Print\<close>, \<open>Crypto_Hash\<close>: what the code uses of Go's library (strings,
    \<^verbatim>\<open>net/url\<close>, \<^verbatim>\<open>net/http\<close> headers, \<^verbatim>\<open>time\<close>, \<^verbatim>\<open>strconv\<close>, \<^verbatim>\<open>encoding/json\<close> with a printer and its round trip, \<^verbatim>\<open>base64\<close>) and SHA-256 and HMAC on
    machine words; 64-bit arithmetic is \<open>wrap64\<close>. Strings are byte strings. \<open>EqualFold\<close>, which compares names that clients
    choose, is Go's, with the two characters outside ASCII that fold to ASCII letters; \<open>ToLower\<close> and \<open>ToUpper\<close> change ASCII letters only, as the hosts, header names, methods and signatures they are applied to are ASCII.

  The S3 endpoint:

  \<^item> \<open>Canonical\<close>, \<open>Verifier\<close>: \<^verbatim>\<open>sigv4verifier/canonical.go\<close>, \<^verbatim>\<open>verifier.go\<close>, \<^verbatim>\<open>postpolicy.go\<close>. The canonical request, header,
    presigned and policy verification, and the cache of signing keys as explicit state. Soundness and
    completeness of the verdict, tamper evidence up to collisions of the hashes, transparency of the
    cache, the time window.
  \<^item> \<open>Chunked\<close>: \<^verbatim>\<open>sigv4verifier/chunked.go\<close>. The decoding readers of streaming uploads; a stream read to its
    end is a chain of verified chunks, and what a client encodes is read back.
  \<^item> \<open>Routing\<close>, \<open>Proxy_Rewrite\<close>, \<open>Cors\<close>: \<^verbatim>\<open>s3proxy/router.go\<close>, \<^verbatim>\<open>scope.go\<close>, \<^verbatim>\<open>anonymous.go\<close>, \<^verbatim>\<open>vc.go\<close>, \<^verbatim>\<open>logging.go\<close>,
    \<^verbatim>\<open>rewrite.go\<close>, \<^verbatim>\<open>cors.go\<close>. Addressing, operations, the anonymous allowlist, outbound headers, paths and
    queries, redaction, preflights.
  \<^item> \<open>Post_Policy\<close>: \<^verbatim>\<open>s3proxy/postpolicy.go\<close>. Parsing and enforcing policy documents.
  \<^item> \<open>Rate_Limits\<close>: \<^verbatim>\<open>s3proxy/ratelimit.go\<close>, \<^verbatim>\<open>iplimiter.go\<close>, \<^verbatim>\<open>concurrency.go\<close>. The two rate limiters over the interface
    of a token bucket (a locale, interpreted on a concrete bucket), and the semaphores as a transition
    system of interleaved requests with its invariant.
  \<^item> \<open>Quotas\<close>: \<^verbatim>\<open>quotas/quotas.go\<close>, \<^verbatim>\<open>sources.go\<close>. Limit sources (a locale with four interpretations), the usage cache,
    scans, the upload check, and by how much overlapping uploads can exceed a hard limit.
  \<^item> \<open>Sources\<close>: \<^verbatim>\<open>s3proxy/source_sqlite.go\<close>, \<^verbatim>\<open>source_kubernetes.go\<close>, \<^verbatim>\<open>source.go\<close>. Credential sources, table reloads,
    informer events, the merged view (a locale interpreted on each source).
  \<^item> \<open>Proxy_Server\<close>, \<open>Post_Object\<close>, \<open>Proxy_Handler\<close>: \<^verbatim>\<open>s3proxy/server.go\<close>, \<^verbatim>\<open>errors.go\<close>, \<^verbatim>\<open>listbuckets.go\<close>,
    \<^verbatim>\<open>backendresolver.go\<close>, \<^verbatim>\<open>postobject.go\<close>. The handler, composed of all of the above: who may reach
    a backend, slots, attempts, quota gate, the status reported, audit events, and the capped reader of form uploads.

  Accounts of the dashboard:

  \<^item> \<open>Passwords\<close>, \<open>User_Store\<close>, \<open>Login_Limits\<close>: \<^verbatim>\<open>auth/password.go\<close>, \<^verbatim>\<open>store/sqlstore/users.go\<close>, \<^verbatim>\<open>sessions.go\<close>, \<^verbatim>\<open>auth/ratelimit.go\<close>, \<^verbatim>\<open>proxy.go\<close>. The text form of
    password hashes (argon2 is a parameter), the tables as lists of rows over a locale of keyed tables, and the sliding-window limiter, which refines one
    without shards.
  \<^item> \<open>Login_Sessions\<close>, \<open>Session_Runs\<close>: \<^verbatim>\<open>auth/session.go\<close>, \<^verbatim>\<open>cache.go\<close>, \<^verbatim>\<open>touch.go\<close>, \<^verbatim>\<open>middleware.go\<close>, \<^verbatim>\<open>csrf.go\<close>, \<^verbatim>\<open>tokens.go\<close>. Sessions, the identity cache and the middleware, and
    a transition system in which requests in flight, revocations and account changes interleave: how long a revoked session can live.
  \<^item> \<open>Accounts\<close>, \<open>Oidc\<close>: \<^verbatim>\<open>auth/service.go\<close>, \<^verbatim>\<open>api/auth.go\<close>, \<^verbatim>\<open>api/admin_users.go\<close>, \<^verbatim>\<open>api/me.go\<close>, \<^verbatim>\<open>auth/oidc/oidc.go\<close>. Login with lockout, password changes, administration with the
    last-administrator guard, and OIDC login; the identity provider is a record of functions. Well-formedness of the tables, bounds on guessing when logins overlap, and that a callback
    signs in to no account of somebody else.

  \<^item> \<open>Credential_Admin\<close>: \<^verbatim>\<open>secrets/secrets.go\<close>, \<^verbatim>\<open>store/sqlstore/s3_credentials.go\<close>, \<^verbatim>\<open>s3_anonymous.go\<close>, \<^verbatim>\<open>api/s3_credentials.go\<close>, \<^verbatim>\<open>me_s3_credentials.go\<close>,
    \<^verbatim>\<open>s3_anonymous.go\<close>, \<^verbatim>\<open>proxyurl/proxyurl.go\<close>. How virtual credentials are issued, sealed, changed and withdrawn, by administrators and by users for themselves: what
    the proxy resolves after each change, and that users reach only their own.

  Objects in the dashboard:

  \<^item> \<open>Object_Keys\<close>: names, ranges and content types of \<^verbatim>\<open>api/backends.go\<close> and \<^verbatim>\<open>shares.go\<close>.
  \<^item> \<open>Object_Store\<close>, \<open>Memory_Backend\<close>: \<^verbatim>\<open>backend/backend.go\<close>, \<^verbatim>\<open>types.go\<close>, \<^verbatim>\<open>memory/memory.go\<close>. The interface of a backend as a record of state transformers, its contract as the
    locales \<open>object_store\<close>, \<open>object_listing\<close> and \<open>object_reading\<close>, each an extension of the one before, and the in-memory driver, which satisfies them.
  \<^item> \<open>Shares\<close>: \<^verbatim>\<open>shares/shares.go\<close>, \<^verbatim>\<open>store/sqlstore/shares.go\<close>, \<^verbatim>\<open>api/shares.go\<close>. Public links; downloads, creations and revocations as a transition system: limits are
    kept, content is gated.
  \<^item> \<open>Bucket_Sizes\<close>: \<^verbatim>\<open>sizes/sizes.go\<close>, \<^verbatim>\<open>store/sqlstore/bucket_size_tracking.go\<close>. Folder sizes and how old they can be.
  \<^item> \<open>Object_Browser\<close>, \<open>Object_Extras\<close>: \<^verbatim>\<open>api/backends.go\<close>, \<^verbatim>\<open>multipart.go\<close>. The object handlers over any backend; copying and deleting folders and archive downloads are
    shown to end and to do exactly what they report, once for all stores that keep the contract. The contract is shown for the in-memory driver; the S3 driver is not
    modelled, and its copies depart from the contract (they drop the content type when metadata are replaced, and do not escape the source key).
  \<^item> \<open>Bucket_Settings\<close>: \<^verbatim>\<open>api/bucket_settings.go\<close>, \<^verbatim>\<open>buckets_cache.go\<close>, \<^verbatim>\<open>sizes.go\<close>, \<^verbatim>\<open>store/sqlstore/s3_bucket_cors.go\<close>. Bucket handlers and settings; CORS rules saved in the
    dashboard are among those the proxy serves after its reload, beside the rules of other sources and of other backends for the same name.

  \<^bold>\<open>State and the outside.\<close> A handler of the endpoint maps a \<open>World\<close> to a report and a \<open>World\<close>: the sources, the key cache, the limiters,
  the quota service, the response written so far and a trace of effects. Handlers of the dashboard map the tables and caches they use. Everything the outside
  decides during a request is an argument (clock readings, random tokens, database failures, the answers of the transport, of backends and of the
  AWS signer, the multipart form, concurrent reloads), universally quantified in
  the theorems. A handler runs as one step; interleavings are modelled where a claim depends on them: the
  semaphores, uploads between their quota check and their record, logins between the lock check and the record of their failure, sessions in flight, downloads of shares, and folder sizes, where the
  stores also change between the pages of a listing. The predicates \<open>handled\<close> and \<open>served\<close> state once what every path of the endpoint guarantees (which
  requests it may send, that its slot is given back, that the status reported is the one written), and
  the theorems about whole requests are read off them.

  \<^bold>\<open>Loops and bounds.\<close> Readers, scans and walks over listings, whose length the outside decides, are partial functions, proved to return; the
  upstream attempts recurse on the number left; everything else is structural or has a measure. The fuel of the JSON parser is the length of its
  input, which is shown to be enough for every text the printer writes.

  \<^bold>\<open>Not modelled.\<close> Prometheus metrics, latencies and log lines other than those of failed requests and backend 5xx
  answers; TLS and HTTP framing; the floating-point arithmetic of the rate limiter (rationals instead); the texts of JSON answers of the dashboard.
  The S3 driver, a translation into calls of the AWS SDK; the administration of backends, whose registry the model takes as a lookup; pages that only collect and print; the operator, whose Secrets are the events of the Kubernetes source; the audit writers, migrations,
  configuration and process set-up, which are input and output.
\<close>

text \<open>C1: Nothing reaches a backend unauthorised. Every request that serving a client's request adds to the trace names a
  bucket, and (1) the verifier accepts the client's request, which carries a signature that the secret of its access key makes over
  its canonical form, that key still resolves when the request is forwarded, and the credential found
  is scoped to the bucket; or (2) anonymous access is enabled, the request carries no credentials, the
  bucket has a read-only binding and the request is a GET or HEAD; or (3) the client posts a form whose fields carry an upload
  policy signed with the secret of the access key the form names, the credential found is scoped to the bucket, and the policy is
  unexpired and admits every field of that form. In each case it goes to the backend of that credential or binding,
  with the method and the path of the client's request, or, for a form, as PUT of the object its key field and file name
  give or as DELETE of that object, the latter only under a policy with a size range.\<close>

theorem upstream_requests_authorised:
  assumes keys: "cache_reach S (W_keys W)" "inj_on secretFingerprint S" "ran (Resolver (verifier_of E (W_source W))) \<subseteq> S"
    and run: "ServeHTTP cfg E r W = (res, W')" "Sent q \<in> set (W_trace W')" "Sent q \<notin> set (W_trace W)"
    and route: "route = ClassifyRoute r (HostSuffixes cfg)"
    and v: "v = verifier_of E (W_source W)"
  shows "Bucket route \<noteq> [] \<and>
    ((\<exists>vres vc u spec. fst (Verify v (W_keys W) r) = Inr vres \<and> presented_signature r = EncodeToString (hmacSHA256 (request_key v r) (signed_sts r vres))
        \<and> Resolver v (credential_of r ! 0) \<noteq> None
        \<and> fst (MergedSource_Lookup (e_later E) (credential_of r ! 0) (e_reload E (W_source W))) = Some vc
        \<and> EnforceScope (vc_BucketScopes vc) (Bucket route)
        \<and> Backend (e_target E) (vc_BackendName vc) = Inr (u, spec) \<and> o_Method q = Method r
        \<and> o_URL q = outbound_url u (Bucket route) (Key route) (StripPresignedQuery (RawQuery (URL r))))
   \<or> (\<exists>b u spec. AnonymousEnabled cfg \<and> IsRequestUnauthenticated r
        \<and> MergedSource_LookupAnon (W_source W) (Bucket route) = Some b \<and> ab_Mode b = AnonModeReadOnly
        \<and> Backend (e_target E) (ab_BackendName b) = Inr (u, spec) \<and> (o_Method q = ''GET'' \<or> o_Method q = ''HEAD'')
        \<and> o_URL q = outbound_url u (ab_BucketName b) (Key route) (StripPresignedQuery (RawQuery (URL r))))
   \<or> (\<exists>flds file cs secret vc policy u spec. Method r = ''POST'' \<and> isPostObjectRequest r \<and> post_form E route = Inr (flds, file)
        \<and> cs = Split (field flds ''x-amz-credential'') (CHR ''/'')
        \<and> Resolver v (cs ! 0) = Some secret
        \<and> ToLower (field flds ''x-amz-signature'') = signature_for secret (cs ! 1) (cs ! 2) (cs ! 3) (field flds ''policy'')
        \<and> fst (MergedSource_Lookup (e_later E) (cs ! 0) (e_reload E (W_source W))) = Some vc
        \<and> EnforceScope (vc_BucketScopes vc) (Bucket route)
        \<and> ParsePostPolicy (field flds ''policy'') (e_later E) = Inr policy
        \<and> EnforcePolicy policy (AList.update ''bucket'' (Bucket route) flds) = None
        \<and> Backend (e_target E) (vc_BackendName vc) = Inr (u, spec)
        \<and> (o_Method q = ''PUT'' \<or> o_Method q = ''DELETE'' \<and> HasContentLengthRange policy)
        \<and> o_URL q = outbound_url u (Bucket route) (ReplaceAll (field flds ''key'') ''${filename}'' (FileName file)) []))"
  (is "_ \<and> (?signed \<or> ?anon \<or> ?post)")
proof -
  note ck = cache_reach_ok [OF keys(1)] keys(2,3)
  have "request_ok cfg E r W q" by (rule sent_ok [OF run])
  then consider (post) "Method r = ''POST''" "isPostObjectRequest r" "Bucket route \<noteq> []" "post_ok cfg E route W q"
    | (anon) "AnonymousEnabled cfg" "IsRequestUnauthenticated r" "anonymous_ok cfg E r W q" | (sig) "signed_ok cfg E r W q"
    unfolding request_ok_def route [symmetric] by blast
  then show ?thesis
  proof cases
    case sig
    then obtain vres r1 body vc where s: "Bucket route \<noteq> []" "fst (Verify v (W_keys W) r) = Inr vres" "decode_body r vres = Some (r1, body)"
      "fst (MergedSource_Lookup (e_later E) (AccessKeyID vres) (e_reload E (W_source W))) = Some vc"
      "EnforceScope (vc_BucketScopes vc) (Bucket route)" "outbound_for cfg E r1 body route (Bucket route) (vc_BackendName vc) = Some q"
      unfolding signed_ok_def Let_def route [symmetric] v [symmetric] by blast
    from s(6) obtain u spec where t: "Backend (e_target E) (vc_BackendName vc) = Inr (u, spec)" "o_Method q = Method r1" "o_Host q = UHost u"
      "o_URL q = outbound_url u (Bucket route) (Key route) (StripPresignedQuery (RawQuery (URL r1)))" by (rule outbound_for_target)
    note a = Verify_accepts [OF ck s(2) [unfolded v]] and k = decode_body_keeps [OF s(3)]
    have ?signed
      using a(1,2,6) s(2,4,5) t k by (intro exI [of _ vres] exI [of _ vc] exI [of _ u] exI [of _ spec]) (simp add: v)
    with s(1) show ?thesis by blast
  next
    case anon
    then obtain b where b: "Bucket route \<noteq> []" "MergedSource_LookupAnon (W_source W) (Bucket route) = Some b"
      "AnonymousOpAllowed (ab_Mode b) (classifyOperation r route) (Query (URL r))"
      "outbound_for cfg E r (RawBody (Body r)) route (ab_BucketName b) (ab_BackendName b) = Some q"
      unfolding anonymous_ok_def Let_def route [symmetric] by blast
    have "ab_Mode b = AnonModeReadOnly" "Method r = ''GET'' \<or> Method r = ''HEAD''"
      using b(3) classify_read_method [of r route] by (auto simp: AnonymousOpAllowed_def split: if_splits)
    with b anon have ?anon by (elim outbound_for_target) auto
    with b(1) show ?thesis by blast
  next
    case post
    then obtain flds fp pr vc plan where form: "post_form E route = Inr (flds, fp)" and p: "fst (VerifyPolicy v (W_keys W) (policy_auth flds)) = Inr pr"
      "fst (MergedSource_Lookup (e_later E) (pr_AccessKeyID pr) (e_reload E (W_source W))) = Some vc"
      "post_plan E route vc flds fp = Inr plan" "upload_request cfg E route vc fp plan q"
      unfolding post_ok_def v [symmetric] by blast
    note pk = post_plan_ok [OF p(3)]
    from p(4) obtain u spec where t: "Backend (e_target E) (vc_BackendName vc) = Inr (u, spec)"
      "o_Method q = ''PUT'' \<or> o_Method q = ''DELETE'' \<and> HasContentLengthRange (up_policy plan)"
      "o_URL q = outbound_url u (Bucket route) (ReplaceAll (field flds ''key'') ''${filename}'' (FileName fp)) []"
      unfolding post_plan_key [OF p(3), symmetric] by (rule upload_request_target)
    from p(1) obtain cs t secret where "cs = Split (field flds ''x-amz-credential'') (CHR ''/'')" "Resolver v (cs ! 0) = Some secret"
      "ToLower (field flds ''x-amz-signature'') = signature_for secret (cs ! 1) (cs ! 2) (cs ! 3) (field flds ''policy'')" "pr_AccessKeyID pr = cs ! 0"
      unfolding VerifyPolicy_iff [OF ck, folded v] by (auto simp: policy_auth_def)
    with post form t pk(1-4) p(2) have ?post by metis
    with post(3) show ?thesis by blast
  qed
qed

theorem upstream_requests_authorised_witness:
  "\<exists>q b. Sent q \<in> set (W_trace (snd (ServeHTTP ex_config ex_env ex_get ex_world)))
     \<and> MergedSource_LookupAnon (W_source ex_world) ''photos'' = Some b \<and> ab_Mode b = AnonModeReadOnly
     \<and> (o_Method q = ''GET'' \<or> o_Method q = ''HEAD'')"
proof -
  obtain res W' where s: "ServeHTTP ex_config ex_env ex_get ex_world = (res, W')" by force
  have "''sent GET http://minio:9000/photos/cat.png'' \<in> set (map effect_tag (W_trace W'))" using ex_get_run by (simp add: s)
  then obtain e where e: "e \<in> set (W_trace W')" "effect_tag e = ''sent GET http://minio:9000/photos/cat.png''" by auto
  from e(2) obtain q where "e = Sent q" by (cases e) (auto simp: effect_tag_def)
  with e(1) have q: "Sent q \<in> set (W_trace W')" by simp
  have w: "cache_reach {} (W_keys ex_world)" "Sent q \<notin> set (W_trace ex_world)" by (simp_all add: ex_world_def reach_init)
  have "map_of (ss_byAKID NewSQLiteSource) a = None" for a by (simp add: NewSQLiteSource_def)
  then have none: "Resolver (verifier_of ex_env (W_source ex_world)) a = None" for a
    by (simp add: verifier_of_def MergedSource_Lookup_first ex_world_def NewMergedSource_def SQLiteSource_Lookup_def lookup_credential_def
        NewSQLiteSource_def)
  then have "ran (Resolver (verifier_of ex_env (W_source ex_world))) \<subseteq> {}" by (auto simp: ran_def)
  moreover have "Bucket (ClassifyRoute ex_get (HostSuffixes ex_config)) = ''photos''" by code_simp
  ultimately have "\<exists>b. MergedSource_LookupAnon (W_source ex_world) ''photos'' = Some b \<and> ab_Mode b = AnonModeReadOnly
      \<and> (o_Method q = ''GET'' \<or> o_Method q = ''HEAD'')"
    using upstream_requests_authorised [OF w(1) _ _ s q w(2) refl refl] none by auto
  with q show ?thesis by (auto simp: s)
qed

end
